(* ===== verification/Ecms_Prelude.thy ===== *)
theory Ecms_Prelude
  imports Main
begin

text \<open>
  Shared vocabulary of the development.

  \<^item> \<open>app_error\<close>: the typed errors of \<open>apps/api/src/shared/errors/index.ts\<close>; an error value
    carries a short tag in place of the (often bilingual) message text.
  \<^item> \<open>st\<close>: services that read and write collections. A handler maps the store to the store after
    it and to an error or a result, so the writes made before a refusal stay visible, as they do
    in the code, which opens no transaction. \<open>st_wp\<close> is the weakest precondition of a handler.
  \<^item> Decimal strings: the source compares and builds \<open>YYYY-MM\<close> labels as strings, so the model
    does too, over \<open>char list\<close>.
\<close>

section \<open>Object ids\<close>

text \<open>An id of the database, drawn from a counter of the store.\<close>

type_synonym oid = nat

section \<open>Errors\<close>

datatype app_error =
    BusinessRuleError string
  | ConflictError string
  | NotFoundError string
  | ForbiddenError string
  | ValidationError string
  | StaleDocumentError
  | DuplicateKeyError string
  | RangeError string

section \<open>Handlers over a store\<close>

type_synonym ('s, 'a) st = "'s \<Rightarrow> 's \<times> (app_error + 'a)"

definition st_return :: "'a \<Rightarrow> ('s, 'a) st" where
  "st_return x s = (s, Inr x)"

definition st_throw :: "app_error \<Rightarrow> ('s, 'a) st" where
  "st_throw e s = (s, Inl e)"

definition st_bind :: "('s, 'a) st \<Rightarrow> ('a \<Rightarrow> ('s, 'b) st) \<Rightarrow> ('s, 'b) st" where
  "st_bind m f s = (case m s of (t, Inl e) \<Rightarrow> (t, Inl e) | (t, Inr x) \<Rightarrow> f x t)"

definition st_lift :: "app_error + 'a \<Rightarrow> ('s, 'a) st" where
  "st_lift r s = (s, r)"

definition st_gets :: "('s \<Rightarrow> 'a) \<Rightarrow> ('s, 'a) st" where
  "st_gets f s = (s, Inr (f s))"

definition st_modify :: "('s \<Rightarrow> 's) \<Rightarrow> ('s, unit) st" where
  "st_modify f s = (f s, Inr ())"

definition st_ensure :: "bool \<Rightarrow> app_error \<Rightarrow> ('s, unit) st" where
  "st_ensure c e s = (s, if c then Inr () else Inl e)"

fun st_each :: "('a \<Rightarrow> ('s, unit) st) \<Rightarrow> 'a list \<Rightarrow> ('s, unit) st" where
  "st_each f [] = st_return ()"
| "st_each f (x # xs) = st_bind (f x) (\<lambda>_. st_each f xs)"

text \<open>Pure steps that can refuse.\<close>

definition res_bind :: "app_error + 'a \<Rightarrow> ('a \<Rightarrow> app_error + 'b) \<Rightarrow> app_error + 'b" where
  "res_bind r f = (case r of Inl e \<Rightarrow> Inl e | Inr x \<Rightarrow> f x)"

definition res_ensure :: "bool \<Rightarrow> app_error \<Rightarrow> app_error + unit" where
  "res_ensure c e = (if c then Inr () else Inl e)"

fun res_map :: "('a \<Rightarrow> app_error + 'b) \<Rightarrow> 'a list \<Rightarrow> app_error + 'b list" where
  "res_map f [] = Inr []"
| "res_map f (x # xs) = res_bind (f x) (\<lambda>y. res_bind (res_map f xs) (\<lambda>ys. Inr (y # ys)))"

definition option_or :: "app_error \<Rightarrow> 'a option \<Rightarrow> app_error + 'a" where
  "option_or e x = (case x of None \<Rightarrow> Inl e | Some y \<Rightarrow> Inr y)"

text \<open>Weakest preconditions: what a handler leaves behind, on success and on refusal.\<close>

definition st_wp :: "('s, 'a) st \<Rightarrow> ('s \<Rightarrow> app_error + 'a \<Rightarrow> bool) \<Rightarrow> 's \<Rightarrow> bool" where
  "st_wp m Q s \<longleftrightarrow> (case m s of (t, r) \<Rightarrow> Q t r)"

named_theorems wp "weakest preconditions of the handler combinators"

lemma wp_return [wp]: "st_wp (st_return x) Q s \<longleftrightarrow> Q s (Inr x)"
  by (simp add: st_wp_def st_return_def)

lemma wp_throw [wp]: "st_wp (st_throw e) Q s \<longleftrightarrow> Q s (Inl e)"
  by (simp add: st_wp_def st_throw_def)

lemma wp_bind [wp]:
  "st_wp (st_bind m f) Q s \<longleftrightarrow>
     st_wp m (\<lambda>t r. case r of Inl e \<Rightarrow> Q t (Inl e) | Inr x \<Rightarrow> st_wp (f x) Q t) s"
  by (auto simp: st_wp_def st_bind_def split: prod.splits sum.splits)

lemma wp_lift [wp]: "st_wp (st_lift r) Q s \<longleftrightarrow> Q s r"
  by (simp add: st_wp_def st_lift_def)

lemma wp_gets [wp]: "st_wp (st_gets f) Q s \<longleftrightarrow> Q s (Inr (f s))"
  by (simp add: st_wp_def st_gets_def)

lemma wp_modify [wp]: "st_wp (st_modify f) Q s \<longleftrightarrow> Q (f s) (Inr ())"
  by (simp add: st_wp_def st_modify_def)

lemma wp_ensure [wp]:
  "st_wp (st_ensure c e) Q s \<longleftrightarrow> (c \<longrightarrow> Q s (Inr ())) \<and> (\<not> c \<longrightarrow> Q s (Inl e))"
  by (simp add: st_wp_def st_ensure_def)

lemma wp_if [wp]:
  "st_wp (if c then m else n) Q s \<longleftrightarrow> (c \<longrightarrow> st_wp m Q s) \<and> (\<not> c \<longrightarrow> st_wp n Q s)"
  by simp

lemma st_wpD: "st_wp m Q s \<Longrightarrow> m s = (t, r) \<Longrightarrow> Q t r"
  by (simp add: st_wp_def)

lemma st_wpI: "(\<And>t r. m s = (t, r) \<Longrightarrow> Q t r) \<Longrightarrow> st_wp m Q s"
  by (cases "m s") (simp add: st_wp_def)

lemma st_wp_mono: "st_wp m P s \<Longrightarrow> (\<And>t r. P t r \<Longrightarrow> Q t r) \<Longrightarrow> st_wp m Q s"
  by (auto simp: st_wp_def split: prod.splits)

text \<open>Taking a successful run apart.\<close>

lemma bind_Inr: "st_bind m f s = (t, Inr y) \<longleftrightarrow> (\<exists>u x. m s = (u, Inr x) \<and> f x u = (t, Inr y))"
  by (auto simp: st_bind_def split: prod.splits sum.splits)

lemma run_Inr:
  "st_return x s = (t, Inr y) \<longleftrightarrow> t = s \<and> x = y"
  "st_lift r s = (t, Inr y) \<longleftrightarrow> t = s \<and> r = Inr y"
  "st_gets g s = (t, Inr y) \<longleftrightarrow> t = s \<and> y = g s"
  "st_modify h s = (t, Inr u) \<longleftrightarrow> t = h s"
  "st_ensure c e s = (t, Inr u) \<longleftrightarrow> t = s \<and> c"
  by (auto simp: st_return_def st_lift_def st_gets_def st_modify_def st_ensure_def)

lemma res_bind_simps [simp]: "res_bind (Inl e) f = Inl e" "res_bind (Inr x) f = f x"
  by (simp_all add: res_bind_def)

lemma res_bind_Inr: "res_bind r f = Inr y \<longleftrightarrow> (\<exists>x. r = Inr x \<and> f x = Inr y)"
  by (cases r) auto

lemma res_ensure_Inr [simp]: "res_ensure c e = Inr u \<longleftrightarrow> c"
  by (simp add: res_ensure_def)

lemma res_map_Inr: "res_map f xs = Inr ys \<longleftrightarrow> list_all2 (\<lambda>x y. f x = Inr y) xs ys"
proof (induction xs arbitrary: ys)
  case (Cons x xs)
  then show ?case by (cases ys) (auto simp: res_bind_Inr)
qed auto

lemma res_map_set: "res_map f xs = Inr ys \<Longrightarrow> y \<in> set ys \<Longrightarrow> \<exists>x \<in> set xs. f x = Inr y"
  unfolding res_map_Inr by (induction rule: list_all2_induct) auto

lemma res_map_all: "res_map f xs = Inr ys \<Longrightarrow> (\<And>x y. f x = Inr y \<Longrightarrow> P y) \<Longrightarrow> \<forall>y \<in> set ys. P y"
  by (blast dest: res_map_set)

lemma res_map_map: "res_map f xs = Inr ys \<Longrightarrow> (\<And>x y. f x = Inr y \<Longrightarrow> g y = h x) \<Longrightarrow> map g ys = map h xs"
  unfolding res_map_Inr by (induction rule: list_all2_induct) auto

lemma res_map_total:
  "(\<And>x. x \<in> set xs \<Longrightarrow> \<exists>y. f x = Inr y) \<Longrightarrow> \<exists>ys. res_map f xs = Inr ys"
  by (induction xs) (simp, force)

lemma wp_each:
  assumes "I s" "\<And>x t. x \<in> set xs \<Longrightarrow> I t \<Longrightarrow> st_wp (f x) (\<lambda>u r. I u) t"
    "\<And>t r. I t \<Longrightarrow> Q t r"
  shows "st_wp (st_each f xs) Q s"
  using assms
proof (induction xs arbitrary: s)
  case Nil
  then show ?case by (simp add: wp)
next
  case (Cons x xs)
  have "st_wp (f x) (\<lambda>u r. I u) s" using Cons.prems by simp
  then show ?case
    unfolding st_each.simps wp_bind
    by (rule st_wp_mono) (use Cons in \<open>auto split: sum.splits intro!: Cons.IH\<close>)
qed

lemma option_or_simps [simp]:
  "option_or e None = Inl e" "option_or e (Some x) = Inr x"
  by (simp_all add: option_or_def)

lemma option_or_Inr [simp]: "option_or e x = Inr y \<longleftrightarrow> x = Some y"
  by (cases x) auto

lemmas st_defs = st_return_def st_throw_def st_bind_def st_lift_def st_gets_def st_modify_def
  st_ensure_def

section \<open>Invariants of handlers\<close>

text \<open>\<open>kept V m s\<close>: whatever \<open>m\<close> does from \<open>s\<close>, also when it refuses half way, \<open>V\<close> holds after it.
  The rules follow the shape of a handler, so \<open>intro kept\<close> walks through one and leaves the writes.\<close>

definition kept :: "('s \<Rightarrow> bool) \<Rightarrow> ('s, 'a) st \<Rightarrow> 's \<Rightarrow> bool" where
  "kept V m s \<longleftrightarrow> st_wp m (\<lambda>t r. V t) s"

named_theorems kept "rules that walk through a handler"

lemma keptD: "kept V m s \<Longrightarrow> m s = (t, r) \<Longrightarrow> V t"
  by (simp add: kept_def st_wp_def)

lemma kept_return [kept]: "V s \<Longrightarrow> kept V (st_return x) s"
  and kept_throw [kept]: "V s \<Longrightarrow> kept V (st_throw e) s"
  and kept_lift [kept]: "V s \<Longrightarrow> kept V (st_lift r) s"
  and kept_gets [kept]: "V s \<Longrightarrow> kept V (st_gets g) s"
  and kept_modify [kept]: "V (g s) \<Longrightarrow> kept V (st_modify g) s"
  by (simp_all add: kept_def wp)

lemma kept_bind_ensure [kept]:
  "V s \<Longrightarrow> (c \<Longrightarrow> kept V (f ()) s) \<Longrightarrow> kept V (st_bind (st_ensure c e) f) s"
  by (simp add: kept_def wp)

lemma kept_bind_lift [kept]:
  "V s \<Longrightarrow> (\<And>x. r = Inr x \<Longrightarrow> kept V (f x) s) \<Longrightarrow> kept V (st_bind (st_lift r) f) s"
  by (cases r) (simp_all add: kept_def wp)

lemma kept_bind_gets [kept]: "kept V (f (g s)) s \<Longrightarrow> kept V (st_bind (st_gets g) f) s"
  by (simp add: kept_def wp)

lemma kept_bind_return [kept]: "kept V (f x) s \<Longrightarrow> kept V (st_bind (st_return x) f) s"
  by (simp add: kept_def wp)

lemma kept_if [kept]:
  "(c \<Longrightarrow> kept V m s) \<Longrightarrow> (\<not> c \<Longrightarrow> kept V n s) \<Longrightarrow> kept V (if c then m else n) s"
  by simp

lemma kept_case_option [kept]:
  "(x = None \<Longrightarrow> kept V m s) \<Longrightarrow> (\<And>y. x = Some y \<Longrightarrow> kept V (f y) s) \<Longrightarrow>
     kept V (case x of None \<Rightarrow> m | Some y \<Rightarrow> f y) s"
  by (cases x) simp_all

lemma kept_bind:
  assumes "kept W m s" "\<And>t. W t \<Longrightarrow> V t" "\<And>x t. W t \<Longrightarrow> kept V (f x) t"
  shows "kept V (st_bind m f) s"
  using assms unfolding kept_def wp_bind by (auto elim!: st_wp_mono split: sum.splits)

lemma kept_bind_modify: "kept V (f ()) (g s) \<Longrightarrow> kept V (st_bind (st_modify g) f) s"
  by (simp add: kept_def wp)

lemma kept_bind_return_after: "kept V m s \<Longrightarrow> kept V (st_bind m (\<lambda>x. st_return (f x))) s"
  by (rule kept_bind [where W = V]) (auto intro: kept_return)

lemma kept_mono: "kept W m s \<Longrightarrow> (\<And>t. W t \<Longrightarrow> V t) \<Longrightarrow> kept V m s"
  unfolding kept_def by (rule st_wp_mono)

lemma kept_each:
  assumes "V s" "\<And>x t. x \<in> set xs \<Longrightarrow> V t \<Longrightarrow> kept V (f x) t"
  shows "kept V (st_each f xs) s"
  using assms unfolding kept_def by (intro wp_each [of V]) auto

section \<open>Histories\<close>

text \<open>A component whose requests keep its invariant: whatever one request may do to the store, a history does.\<close>

locale step_system =
  fixes step :: "'e \<Rightarrow> 's \<Rightarrow> 's" and good :: "'s \<Rightarrow> bool" and moves :: "'s \<Rightarrow> 's \<Rightarrow> bool"
  assumes stays: "good s \<Longrightarrow> moves s s"
    and follows: "moves s t \<Longrightarrow> moves t u \<Longrightarrow> moves s u"
    and steps: "good s \<Longrightarrow> moves s (step e s)"
    and lands: "moves s t \<Longrightarrow> good t"
begin

lemma history: "good s \<Longrightarrow> moves s (fold step es s)"
proof (induction es arbitrary: s)
  case (Cons e es)
  have "moves s (step e s)" by (rule steps [OF Cons.prems])
  then show ?case using Cons.IH [OF lands] follows by simp
qed (simp add: stays)

lemma reached: "good s \<Longrightarrow> good (fold step es s)"
  by (rule lands [OF history])

lemma later: "good s \<Longrightarrow> moves (fold step es s) (fold step (es @ fs) s)"
  using history [OF reached] by simp

end

section \<open>Decimal strings\<close>

definition digit_char :: "nat \<Rightarrow> char" where
  "digit_char d = char_of (48 + d)"

definition char_code :: "char \<Rightarrow> nat" where
  "char_code c = of_char c"

definition is_digit :: "char \<Rightarrow> bool" where
  "is_digit c \<longleftrightarrow> 48 \<le> char_code c \<and> char_code c \<le> 57"

definition digit_val :: "char \<Rightarrow> nat" where
  "digit_val c = char_code c - 48"

text \<open>\<open>String(n)\<close> of a natural number.\<close>

fun show_nat :: "nat \<Rightarrow> string" where
  "show_nat n = (if n < 10 then [digit_char n] else show_nat (n div 10) @ [digit_char (n mod 10)])"

declare show_nat.simps [simp del]

text \<open>\<open>Number(s)\<close> of a string of decimal digits.\<close>

definition parse_nat :: "string \<Rightarrow> nat" where
  "parse_nat s = foldl (\<lambda>a c. 10 * a + digit_val c) 0 s"

text \<open>\<open>s.padStart(w, c)\<close>.\<close>

definition pad_start :: "nat \<Rightarrow> char \<Rightarrow> string \<Rightarrow> string" where
  "pad_start w c s = replicate (w - length s) c @ s"

text \<open>The order of strings in the source language: code unit by code unit.\<close>

fun str_less :: "string \<Rightarrow> string \<Rightarrow> bool" where
  "str_less _ [] = False"
| "str_less [] (_ # _) = True"
| "str_less (a # as) (b # bs) =
     (char_code a < char_code b \<or> (a = b \<and> str_less as bs))"

lemma char_code_digit: "d < 10 \<Longrightarrow> char_code (digit_char d) = 48 + d"
  by (simp add: char_code_def digit_char_def)

lemma digit_val_digit [simp]: "d < 10 \<Longrightarrow> digit_val (digit_char d) = d"
  by (simp add: digit_val_def char_code_digit)

lemma is_digit_digit [simp]: "d < 10 \<Longrightarrow> is_digit (digit_char d)"
  by (simp add: is_digit_def char_code_digit)

lemma digit_val_less: "is_digit c \<Longrightarrow> digit_val c < 10"
  by (auto simp: is_digit_def digit_val_def)

lemma char_of_char_code: "char_of (char_code c) = c"
  by (simp add: char_code_def)

lemma digit_char_val: "is_digit c \<Longrightarrow> digit_char (digit_val c) = c"
  by (simp add: is_digit_def digit_val_def digit_char_def char_of_char_code)

lemma parse_nat_snoc: "parse_nat (s @ [c]) = 10 * parse_nat s + digit_val c"
  by (simp add: parse_nat_def)

lemma parse_nat_Nil [simp]: "parse_nat [] = 0"
  by (simp add: parse_nat_def)

lemma parse_show_nat [simp]: "parse_nat (show_nat n) = n"
proof (induction n rule: show_nat.induct)
  case (1 n)
  show ?case
  proof (cases "n < 10")
    case True
    then show ?thesis by (simp add: show_nat.simps [of n] parse_nat_def)
  next
    case False
    with 1 show ?thesis
      by (subst show_nat.simps) (simp add: parse_nat_snoc)
  qed
qed

lemma char_code_inj: "char_code a = char_code b \<Longrightarrow> a = b"
  by (metis char_of_char_code)

lemma str_less_irrefl [simp]: "\<not> str_less s s"
  by (induction s) auto

lemma str_less_trans: "str_less s t \<Longrightarrow> str_less t u \<Longrightarrow> str_less s u"
proof (induction s t arbitrary: u rule: str_less.induct)
  case (3 a as b bs)
  then show ?case by (cases u) auto
next
  case (2 b bs)
  then show ?case by (cases u) auto
qed auto

lemma str_less_linear: "str_less s t \<or> s = t \<or> str_less t s"
proof (induction s t rule: str_less.induct)
  case (1 s)
  then show ?case by (cases s) auto
next
  case (3 a as b bs)
  then show ?case using char_code_inj [of a b] by (cases "char_code a" "char_code b" rule: linorder_cases) auto
qed auto

lemma show_nat_two:
  "10 \<le> n \<Longrightarrow> n < 100 \<Longrightarrow> show_nat n = [digit_char (n div 10), digit_char (n mod 10)]"
  by (subst show_nat.simps) (simp add: show_nat.simps [of "n div 10"] less_mult_imp_div_less)

lemma show_nat_one: "n < 10 \<Longrightarrow> show_nat n = [digit_char n]"
  by (simp add: show_nat.simps)

lemma show_nat_three:
  "100 \<le> n \<Longrightarrow> n < 1000 \<Longrightarrow>
     show_nat n = [digit_char (n div 100), digit_char (n div 10 mod 10), digit_char (n mod 10)]"
  by (subst show_nat.simps) (simp add: show_nat_two div_mult2_eq [symmetric])

lemma show_nat_four:
  "1000 \<le> n \<Longrightarrow> n < 10000 \<Longrightarrow>
     show_nat n = [digit_char (n div 1000), digit_char (n div 100 mod 10),
       digit_char (n div 10 mod 10), digit_char (n mod 10)]"
  by (subst show_nat.simps) (simp add: show_nat_three div_mult2_eq [symmetric])

section \<open>Lists\<close>

lemma find_Some_iff_hd: "List.find P xs = Some x \<Longrightarrow> x \<in> set xs \<and> P x"
  by (induction xs) (auto split: if_splits)

lemma find_None_iff_all: "List.find P xs = None \<longleftrightarrow> (\<forall>x \<in> set xs. \<not> P x)"
  by (induction xs) auto

lemma sum_list_map_le_filter:
  "(\<And>x. x \<in> set xs \<Longrightarrow> 0 \<le> f x) \<Longrightarrow>
     sum_list (map f (filter P xs)) \<le> (sum_list (map f xs) :: int)"
  by (induction xs) (auto intro: add_increasing)

lemma sum_list_filter_split:
  "sum_list (map f xs) =
     sum_list (map f (filter P xs)) + (sum_list (map f (filter (\<lambda>x. \<not> P x) xs)) :: int)"
  by (induction xs) auto

text \<open>\<open>updateMany\<close> (and \<open>updateOne\<close> on a unique id): the rows a filter matches are changed in place.\<close>

definition update_where :: "('a \<Rightarrow> bool) \<Rightarrow> ('a \<Rightarrow> 'a) \<Rightarrow> 'a list \<Rightarrow> 'a list" where
  "update_where P f xs = map (\<lambda>x. if P x then f x else x) xs"

lemma in_update_where:
  "y \<in> set (update_where P f xs) \<longleftrightarrow> (\<exists>x \<in> set xs. y = (if P x then f x else x))"
  by (auto simp: update_where_def)

lemma map_update_where: "(\<And>x. P x \<Longrightarrow> g (f x) = g x) \<Longrightarrow> map g (update_where P f xs) = map g xs"
  by (simp add: update_where_def)

lemma update_where_id: "(\<And>x. x \<in> set xs \<Longrightarrow> \<not> P x) \<Longrightarrow> update_where P f xs = xs"
  by (induction xs) (simp_all add: update_where_def)

lemma length_update_where [simp]: "length (update_where P f xs) = length xs"
  by (simp add: update_where_def)

lemma filter_update_where:
  "(\<And>x. P x \<Longrightarrow> Q (f x) = Q x) \<Longrightarrow>
     filter Q (update_where P f xs) = update_where P f (filter Q xs)"
  by (induction xs) (auto simp: update_where_def)

lemma sum_list_insort_key: "sum_list (map f (insort_key g x xs)) = f x + (sum_list (map f xs) :: int)"
  by (induction xs) auto

lemma sum_list_sort_key: "sum_list (map f (sort_key g xs)) = (sum_list (map f xs) :: int)"
  by (induction xs) (simp_all add: sum_list_insort_key)

end
