(* ===== verification/Business_Date.thy ===== *)
theory Business_Date
  imports Ecms_Prelude
begin

text \<open>
  Business dates: \<open>apps/api/src/modules/hr/shared/business-date.ts\<close> and
  \<open>payroll/compensation/employment-spans.ts\<close>. An instant (\<open>Date\<close>) is the number of milliseconds since the
  epoch, an \<open>int\<close>; a business date is a UTC midnight. The calendar functions of the language
  (\<open>Date.UTC\<close>, \<open>getUTCFullYear\<close> and the rest) are modelled by their specification: a day
  number, the first day of a year, and the month table; months count from 0.
\<close>

section \<open>The calendar of the language\<close>

type_synonym instant = int

definition ms_per_day :: int where
  "ms_per_day = 86400000"

definition day_from_year :: "int \<Rightarrow> int" where
  "day_from_year y = 365 * (y - 1970) + (y - 1969) div 4 - (y - 1901) div 100 + (y - 1601) div 400"

definition year_of_day :: "int \<Rightarrow> int" where
  "year_of_day d =
     (let e = 1970 + (400 * d) div 146097
      in if day_from_year (e + 1) \<le> d then e + 1 else if day_from_year e \<le> d then e else e - 1)"

definition leap_year :: "int \<Rightarrow> bool" where
  "leap_year y \<longleftrightarrow> 4 dvd y \<and> (\<not> 100 dvd y \<or> 400 dvd y)"

definition days_before_month :: "bool \<Rightarrow> nat \<Rightarrow> int" where
  "days_before_month l m =
     [0, 31, 59, 90, 120, 151, 181, 212, 243, 273, 304, 334] ! m + (if l \<and> 2 \<le> m then 1 else 0)"

definition days_in_month :: "bool \<Rightarrow> nat \<Rightarrow> int" where
  "days_in_month l m =
     (if m = 1 \<and> l then 29 else [31, 28, 31, 30, 31, 30, 31, 31, 30, 31, 30, 31] ! m)"

definition month_in_year :: "bool \<Rightarrow> int \<Rightarrow> nat" where
  "month_in_year l r = length (filter (\<lambda>m. days_before_month l m \<le> r) [1, 2, 3, 4, 5, 6, 7, 8, 9, 10, 11])"

definition utc_full_year :: "instant \<Rightarrow> int" where
  "utc_full_year t = year_of_day (t div ms_per_day)"

definition utc_month :: "instant \<Rightarrow> nat" where
  "utc_month t =
     (let d = t div ms_per_day; y = year_of_day d in month_in_year (leap_year y) (d - day_from_year y))"

definition utc_date :: "instant \<Rightarrow> int" where
  "utc_date t =
     (let d = t div ms_per_day; y = year_of_day d; r = d - day_from_year y
      in r - days_before_month (leap_year y) (month_in_year (leap_year y) r) + 1)"

text \<open>\<open>Date.UTC(y, m, d)\<close>: years 0 to 99 mean 1900 to 1999; a month outside 0..11 carries into the
  year and a day outside the month carries into the months around it.\<close>

definition date_utc :: "int \<Rightarrow> int \<Rightarrow> int \<Rightarrow> instant" where
  "date_utc y m d =
     (let y' = (if 0 \<le> y \<and> y \<le> 99 then 1900 + y else y); ym = y' + m div 12; mn = nat (m mod 12)
      in ms_per_day * (day_from_year ym + days_before_month (leap_year ym) mn + d - 1))"

section \<open>business-date.ts\<close>

definition toDateOnly :: "instant \<Rightarrow> instant" where
  "toDateOnly t = date_utc (utc_full_year t) (int (utc_month t)) (utc_date t)"

definition addDays :: "instant \<Rightarrow> int \<Rightarrow> instant" where
  "addDays t days = t + days * ms_per_day"

text \<open>\<open>Math.round\<close> rounds half up, which is \<open>\<lfloor>x + 1/2\<rfloor>\<close>.\<close>

definition calendarDaysInclusive :: "instant \<Rightarrow> instant \<Rightarrow> int" where
  "calendarDaysInclusive from to = (2 * (to - from) + ms_per_day) div (2 * ms_per_day) + 1"

definition leaveYearOf :: "instant \<Rightarrow> int" where
  "leaveYearOf t = utc_full_year t"

text \<open>The date part of \<open>toISOString\<close>, for the years 0 to 9999.\<close>

definition dateOnlyIso :: "instant \<Rightarrow> string" where
  "dateOnlyIso t = pad_start 4 (CHR ''0'') (show_nat (nat (utc_full_year t))) @ ''-'' @
     pad_start 2 (CHR ''0'') (show_nat (utc_month t + 1)) @ ''-'' @
     pad_start 2 (CHR ''0'') (show_nat (nat (utc_date t)))"

text \<open>\<open>new Date('YYYY-MM-DD')\<close>: midnight UTC of the day the digits name.\<close>

definition date_of_iso :: "string \<Rightarrow> instant" where
  "date_of_iso s =
     (let y = int (parse_nat (take 4 s)); m = parse_nat (take 2 (drop 5 s)) - 1; d = int (parse_nat (take 2 (drop 8 s)))
      in ms_per_day * (day_from_year y + days_before_month (leap_year y) m + d - 1))"

section \<open>Employment spans\<close>

text \<open>A closed interval of instants; \<open>None\<close> as its end means it does not end.\<close>

record date_span =
  span_from :: instant
  span_to :: "instant option"

record employment_dates =
  hiredAt :: instant
  exitDate :: "instant option"
  employmentPeriods :: "(instant \<times> instant option) list"

definition employmentSpansOf :: "employment_dates \<Rightarrow> date_span list" where
  "employmentSpansOf e =
     (if employmentPeriods e \<noteq> []
      then map (\<lambda>(h, x). \<lparr>span_from = h, span_to = x\<rparr>) (employmentPeriods e)
      else [\<lparr>span_from = hiredAt e, span_to = exitDate e\<rparr>])"

definition span_covers :: "date_span \<Rightarrow> instant \<Rightarrow> bool" where
  "span_covers sp d \<longleftrightarrow>
     span_from sp \<le> d \<and> (case span_to sp of None \<Rightarrow> True | Some t \<Rightarrow> d \<le> t)"

definition spanContaining :: "date_span list \<Rightarrow> instant \<Rightarrow> instant option \<Rightarrow> date_span option" where
  "spanContaining spans from to =
     List.find (\<lambda>sp. span_covers sp from \<and>
       (case to of None \<Rightarrow> span_to sp = None | Some t \<Rightarrow> span_covers sp t)) spans"

section \<open>Facts\<close>

lemma div_bounds: "0 < (n::int) \<Longrightarrow> n * (x div n) \<le> x \<and> x < n * (x div n) + n"
proof -
  assume n: "0 < n"
  have "n * (x div n) + x mod n = x" by (rule mult_div_mod_eq)
  moreover have "0 \<le> x mod n" "x mod n < n" using n by (auto intro: pos_mod_bound pos_mod_sign)
  ultimately show ?thesis by linarith
qed

lemma div_succ:
  assumes "0 < (n::int)"
  shows "(x + 1) div n = x div n + (if n dvd x + 1 then 1 else 0)"
proof (cases "x mod n + 1 = n")
  case True
  have "n * (x div n) + x mod n = x" by (rule mult_div_mod_eq)
  then have "x + 1 = n * (x div n) + n" using True by linarith
  then have eq: "x + 1 = n * (x div n + 1)" by (simp add: distrib_left)
  then have "(x + 1) div n = x div n + 1" using assms by (metis less_irrefl nonzero_mult_div_cancel_left)
  moreover have "n dvd x + 1" using eq by (metis dvd_triv_left)
  ultimately show ?thesis by simp
next
  case False
  have r: "0 \<le> x mod n + 1" "x mod n + 1 < n"
    using pos_mod_bound [OF assms, of x] pos_mod_sign [OF assms, of x] False by linarith+
  have eq: "x + 1 = n * (x div n) + (x mod n + 1)" by (simp add: algebra_simps)
  have m: "(x + 1) mod n = x mod n + 1" using r by (metis mod_add_left_eq mod_pos_pos_trivial)
  have "(x + 1) div n = x div n" using eq m by (metis add_right_cancel mult_div_mod_eq mult_cancel_left assms less_irrefl)
  moreover have "\<not> n dvd x + 1" using m pos_mod_sign [OF assms, of x] by (metis dvd_imp_mod_0 add_nonneg_eq_0_iff zero_le_one zero_neq_one)
  ultimately show ?thesis by simp
qed

lemma day_from_year_step: "day_from_year (y + 1) = day_from_year y + (if leap_year y then 366 else 365)"
proof -
  have 4: "(y - 1968) div 4 = (y - 1969) div 4 + (if 4 dvd y - 1968 then 1 else 0)"
    using div_succ [of 4 "y - 1969"] by simp
  have 100: "(y - 1900) div 100 = (y - 1901) div 100 + (if 100 dvd y - 1900 then 1 else 0)"
    using div_succ [of 100 "y - 1901"] by simp
  have 400: "(y - 1600) div 400 = (y - 1601) div 400 + (if 400 dvd y - 1600 then 1 else 0)"
    using div_succ [of 400 "y - 1601"] by simp
  have d: "4 dvd y - 1968 \<longleftrightarrow> 4 dvd y" "100 dvd y - 1900 \<longleftrightarrow> 100 dvd y" "400 dvd y - 1600 \<longleftrightarrow> 400 dvd y"
    by (simp_all add: dvd_diff_left_iff)
  have t: "400 dvd y \<Longrightarrow> 100 dvd y" "100 dvd y \<Longrightarrow> 4 dvd y"
    by (rule dvd_trans [of 100 400], simp_all, rule dvd_trans [of 4 100], simp_all)
  have next': "day_from_year (y + 1) =
      365 * (y - 1969) + (y - 1968) div 4 - (y - 1900) div 100 + (y - 1600) div 400"
    by (simp add: day_from_year_def)
  define a b c where "a = (y - 1969) div 4" and "b = (y - 1901) div 100" and "c = (y - 1601) div 400"
  have "day_from_year (y + 1) = 365 * (y - 1969) + (a + (if 4 dvd y then 1 else 0))
      - (b + (if 100 dvd y then 1 else 0)) + (c + (if 400 dvd y then 1 else 0))"
    by (simp only: next' 4 100 400 d a_def b_def c_def)
  moreover have "day_from_year y = 365 * (y - 1970) + a - b + c"
    by (simp only: day_from_year_def a_def b_def c_def)
  moreover define p q r where "p = (4 dvd y)" and "q = (100 dvd y)" and "r = (400 dvd y)"
  moreover have "r \<longrightarrow> q" "q \<longrightarrow> p" using t unfolding p_def q_def r_def by blast+
  ultimately show ?thesis
    unfolding leap_year_def p_def [symmetric] q_def [symmetric] r_def [symmetric]
    by (cases p; cases q; cases r; simp)
qed

lemma day_from_year_less: "y < z \<Longrightarrow> day_from_year y + 365 \<le> day_from_year z"
proof (induction "nat (z - y)" arbitrary: z)
  case 0
  then show ?case by simp
next
  case (Suc n)
  show ?case
  proof (cases "y < z - 1")
    case True
    then have "day_from_year y + 365 \<le> day_from_year (z - 1)" using Suc.hyps by (intro Suc.hyps(1)) auto
    then show ?thesis using day_from_year_step [of "z - 1"] by (auto split: if_splits)
  next
    case False
    then have "z = y + 1" using Suc.prems by auto
    then show ?thesis using day_from_year_step [of y] by (auto split: if_splits)
  qed
qed

lemma year_of_day_bounds:
  "day_from_year (year_of_day d) \<le> d \<and> d < day_from_year (year_of_day d + 1)"
proof -
  define k where "k = (400 * d) div 146097"
  have k: "146097 * k \<le> 400 * d" "400 * d < 146097 * k + 146097"
    using div_bounds [of 146097 "400 * d"] by (simp_all add: k_def)
  have q: "4 * ((y - 1969) div 4) \<le> y - 1969" "y - 1969 < 4 * ((y - 1969) div 4) + 4"
     "100 * ((y - 1901) div 100) \<le> y - 1901" "y - 1901 < 100 * ((y - 1901) div 100) + 100"
     "400 * ((y - 1601) div 400) \<le> y - 1601" "y - 1601 < 400 * ((y - 1601) div 400) + 400" for y :: int
    using div_bounds [of 4 "y - 1969"] div_bounds [of 100 "y - 1901"] div_bounds [of 400 "y - 1601"]
    by simp_all
  have lo: "day_from_year (1970 + k - 1) \<le> d"
    using k q [of "1970 + k - 1"] by (simp add: day_from_year_def)
  have hi: "d < day_from_year (1970 + k + 2)"
    using k q [of "1970 + k + 2"] by (simp add: day_from_year_def)
  show ?thesis
    using lo hi unfolding year_of_day_def Let_def k_def [symmetric] by (auto simp: add.assoc)
qed

lemma year_of_day_eq:
  assumes "day_from_year y \<le> d" "d < day_from_year (y + 1)"
  shows "year_of_day d = y"
proof (rule ccontr)
  assume "year_of_day d \<noteq> y"
  then consider "year_of_day d + 1 \<le> y" | "y + 1 \<le> year_of_day d" by linarith
  then show False
  proof cases
    case 1
    then have "day_from_year (year_of_day d + 1) \<le> day_from_year y"
      using day_from_year_less [of "year_of_day d + 1" y] by (cases "year_of_day d + 1 = y") auto
    then show False using year_of_day_bounds [of d] assms by linarith
  next
    case 2
    then have "day_from_year (y + 1) \<le> day_from_year (year_of_day d)"
      using day_from_year_less [of "y + 1" "year_of_day d"] by (cases "y + 1 = year_of_day d") auto
    then show False using year_of_day_bounds [of d] assms by linarith
  qed
qed

lemma nat_less_12: "(m::nat) < 12 \<Longrightarrow> m = 0 \<or> m = 1 \<or> m = 2 \<or> m = 3 \<or> m = 4 \<or> m = 5 \<or> m = 6 \<or>
    m = 7 \<or> m = 8 \<or> m = 9 \<or> m = 10 \<or> m = 11"
  by arith

lemma month_in_year_eq:
  assumes "m < 12" "0 \<le> r" "r < days_in_month l m"
  shows "month_in_year l (days_before_month l m + r) = m"
  using assms nat_less_12 [OF assms(1)]
  by (elim disjE) (auto simp: month_in_year_def days_before_month_def days_in_month_def split: if_splits)

lemma days_before_month_bounds:
  assumes "m < 12"
  shows "0 \<le> days_before_month l m"
    and "days_before_month l m + days_in_month l m \<le> (if l then 366 else 365)"
  using nat_less_12 [OF assms]
  by (elim disjE; simp add: days_before_month_def days_in_month_def)+

text \<open>Reading back the fields \<open>Date.UTC\<close> was given.\<close>

lemma date_utc_roundtrip:
  assumes y: "100 \<le> y" and m: "m < 12" and d: "1 \<le> d" "d \<le> days_in_month (leap_year y) m"
  shows "utc_full_year (date_utc y (int m) d) = y" "utc_month (date_utc y (int m) d) = m"
    "utc_date (date_utc y (int m) d) = d"
proof -
  let ?l = "leap_year y"
  define D where "D = day_from_year y + days_before_month ?l m + d - 1"
  have eq: "date_utc y (int m) d = ms_per_day * D"
    using y m by (simp add: date_utc_def D_def Let_def)
  have bounds: "day_from_year y \<le> D" "D < day_from_year (y + 1)"
    using days_before_month_bounds [OF m, of ?l] d day_from_year_step [of y]
    by (auto simp: D_def split: if_splits)
  have yr: "year_of_day D = y" by (rule year_of_day_eq [OF bounds])
  have mo: "month_in_year ?l (D - day_from_year y) = m"
    using month_in_year_eq [OF m, of "d - 1" ?l] d by (simp add: D_def algebra_simps)
  show "utc_full_year (date_utc y (int m) d) = y"
    by (simp add: eq utc_full_year_def ms_per_day_def yr)
  show "utc_month (date_utc y (int m) d) = m"
    by (simp add: eq utc_month_def ms_per_day_def yr mo Let_def)
  show "utc_date (date_utc y (int m) d) = d"
    by (simp add: eq utc_date_def ms_per_day_def yr mo Let_def) (simp add: D_def)
qed

lemma month_in_year_less: "month_in_year l r < 12"
proof -
  have "month_in_year l r \<le> length [1, 2, 3, 4, 5, 6, 7, 8, 9, 10, 11 :: nat]"
    unfolding month_in_year_def by (rule length_filter_le)
  then show ?thesis by simp
qed

text \<open>A business date is the UTC midnight of its instant, in every year the calendar of the language
  does not shift.\<close>

lemma toDateOnly_midnight:
  assumes "100 \<le> utc_full_year t"
  shows "toDateOnly t = ms_per_day * (t div ms_per_day)"
  using assms month_in_year_less [of "leap_year (utc_full_year t)"]
  by (simp add: toDateOnly_def date_utc_def utc_month_def utc_date_def utc_full_year_def Let_def)

lemma toDateOnly_idem:
  assumes "100 \<le> utc_full_year t"
  shows "toDateOnly (toDateOnly t) = toDateOnly t"
proof -
  have d: "toDateOnly t div ms_per_day = t div ms_per_day"
    by (simp add: toDateOnly_midnight [OF assms] ms_per_day_def)
  then have "100 \<le> utc_full_year (toDateOnly t)" using assms by (simp add: utc_full_year_def)
  then show ?thesis using d by (simp add: toDateOnly_midnight assms)
qed

lemma calendarDaysInclusive_days:
  "calendarDaysInclusive (ms_per_day * a) (ms_per_day * b) = b - a + 1"
proof -
  have "2 * (ms_per_day * b - ms_per_day * a) + ms_per_day = ms_per_day + (b - a) * (2 * ms_per_day)"
    by (simp add: algebra_simps)
  then show ?thesis by (simp add: calendarDaysInclusive_def ms_per_day_def)
qed

lemma spanContaining_Some:
  "spanContaining spans from to = Some sp \<Longrightarrow>
     sp \<in> set spans \<and> span_covers sp from \<and>
     (case to of None \<Rightarrow> span_to sp = None | Some t \<Rightarrow> span_covers sp t)"
  unfolding spanContaining_def by (drule find_Some_iff_hd) simp

end
