(* ===== verification/Approval_Chain.thy ===== *)
theory Approval_Chain
  imports Business_Date
begin

text \<open>
  The approval engine: \<open>apps/api/src/platform/approvals/approval-chain.ts\<close> and \<open>approval-trail.ts\<close>,
  every function of them. A chain is a list of rungs; a request stores the entries its decisions
  wrote and nothing else, and everything a reader sees is computed from the two. Ids are strings,
  rung indices natural numbers, \<open>null\<close> is \<open>None\<close>.
\<close>

section \<open>Chains\<close>

datatype approval_level = UnitLevel | DepartmentLevel | BranchLevel | OrganizationLevel

record chain_step =
  cs_permissionKey :: string
  cs_level :: approval_level
  cs_label :: "(string \<times> string) option"

record resolved_step = chain_step +
  staffed :: bool

record 'v candidate =
  cand_departmentCatalogId :: "string option"
  cand_branchId :: "string option"
  cand_value :: 'v

record request_unit =
  ru_branchId :: "string option"
  ru_departmentCatalogId :: "string option"

definition candidate_matches :: "request_unit \<Rightarrow> 'v candidate \<Rightarrow> bool" where
  "candidate_matches unit c \<longleftrightarrow>
     cand_departmentCatalogId c \<in> {None, ru_departmentCatalogId unit} \<and>
     cand_branchId c \<in> {None, ru_branchId unit}"

definition specificity :: "'v candidate \<Rightarrow> nat" where
  "specificity c = (if cand_departmentCatalogId c = None then 0 else 2) +
     (if cand_branchId c = None then 0 else 1)"

fun better_candidate :: "'v candidate option \<Rightarrow> 'v candidate \<Rightarrow> 'v candidate option" where
  "better_candidate None c = Some c"
| "better_candidate (Some best) c = (if specificity best < specificity c then Some c else Some best)"

definition selectChain :: "'v candidate list \<Rightarrow> request_unit \<Rightarrow> 'v candidate option" where
  "selectChain candidates unit =
     foldl better_candidate None (filter (candidate_matches unit) candidates)"

definition resolve_step :: "(chain_step \<Rightarrow> bool) \<Rightarrow> chain_step \<Rightarrow> resolved_step" where
  "resolve_step hasApprovers s =
     \<lparr>cs_permissionKey = cs_permissionKey s, cs_level = cs_level s, cs_label = cs_label s,
      staffed = hasApprovers s\<rparr>"

definition resolveChain :: "chain_step list \<Rightarrow> (chain_step \<Rightarrow> bool) \<Rightarrow> resolved_step list" where
  "resolveChain steps hasApprovers = map (resolve_step hasApprovers) steps"

definition liveIndex :: "resolved_step list \<Rightarrow> nat \<Rightarrow> nat option" where
  "liveIndex steps decidedCount = List.find (\<lambda>i. staffed (steps ! i)) [decidedCount..<length steps]"

definition liveStep :: "resolved_step list \<Rightarrow> nat \<Rightarrow> (nat \<times> resolved_step) option" where
  "liveStep steps decidedCount = map_option (\<lambda>i. (i, steps ! i)) (liveIndex steps decidedCount)"

definition skippedBefore :: "resolved_step list \<Rightarrow> nat \<Rightarrow> nat list" where
  "skippedBefore steps decidedCount =
     takeWhile (\<lambda>i. \<not> staffed (steps ! i)) [decidedCount..<length steps]"

definition levelSatisfied :: "approval_level \<Rightarrow> approval_level \<Rightarrow> bool" where
  "levelSatisfied required held \<longleftrightarrow> required = held"

text \<open>The rung a person decides and the rungs below it that are still waiting.\<close>

definition decisionFor :: "nat list \<Rightarrow> nat \<Rightarrow> (nat \<times> nat list) option" where
  "decisionFor ownSteps live =
     (case sort (filter (\<lambda>i. live \<le> i) ownSteps) of [] \<Rightarrow> None
      | step # _ \<Rightarrow> Some (step, [live..<step]))"

section \<open>Trails\<close>

datatype approval_outcome =
    OutcomePending
  | OutcomeApproved
  | OutcomeRejected
  | OutcomeSkipped
  | OutcomeCovered
  | OutcomeUnreached

datatype approval_decision = DecideApproved | DecideRejected

fun outcome_of :: "approval_decision \<Rightarrow> approval_outcome" where
  "outcome_of DecideApproved = OutcomeApproved"
| "outcome_of DecideRejected = OutcomeRejected"

record decided_entry =
  de_stepIndex :: nat
  de_outcome :: approval_outcome
  de_deciderUserId :: "string option"
  de_decidedAt :: instant
  de_comment :: "string option"
  de_overriddenWith :: "string option"

datatype chain_status = ChainPending | ChainApproved | ChainRejected

definition progressOf :: "decided_entry list \<Rightarrow> nat" where
  "progressOf decisions = foldl (\<lambda>m entry. max m (de_stepIndex entry + 1)) 0 decisions"

definition statusOf :: "resolved_step list \<Rightarrow> decided_entry list \<Rightarrow> chain_status" where
  "statusOf steps decisions =
     (if list_ex (\<lambda>e. de_outcome e = OutcomeRejected) decisions then ChainRejected
      else if liveStep steps (progressOf decisions) = None then ChainApproved else ChainPending)"

record decision_at =
  at_stepIndex :: nat
  at_decision :: approval_decision
  at_deciderUserId :: string
  at_comment :: "string option"
  at_overriddenWith :: "string option"

definition passed_entry :: "approval_outcome \<Rightarrow> instant \<Rightarrow> nat \<Rightarrow> decided_entry" where
  "passed_entry outc now index =
     \<lparr>de_stepIndex = index, de_outcome = outc, de_deciderUserId = None, de_decidedAt = now,
      de_comment = None, de_overriddenWith = None\<rparr>"

text \<open>A rung beyond the end of the chain (\<open>steps[index]\<close> undefined) counts as unstaffed.\<close>

definition staffed_at :: "resolved_step list \<Rightarrow> nat \<Rightarrow> bool" where
  "staffed_at steps index \<longleftrightarrow> index < length steps \<and> staffed (steps ! index)"

definition decided_row :: "decision_at \<Rightarrow> instant \<Rightarrow> decided_entry" where
  "decided_row at now =
     \<lparr>de_stepIndex = at_stepIndex at, de_outcome = outcome_of (at_decision at),
      de_deciderUserId = Some (at_deciderUserId at), de_decidedAt = now,
      de_comment = at_comment at, de_overriddenWith = at_overriddenWith at\<rparr>"

definition written_until ::
  "resolved_step list \<Rightarrow> decided_entry list \<Rightarrow> decision_at \<Rightarrow> instant \<Rightarrow> decided_entry list" where
  "written_until steps decisions at now =
     map (\<lambda>i. passed_entry (if staffed_at steps i then OutcomeCovered else OutcomeSkipped) now i)
       [progressOf decisions..<at_stepIndex at] @ [decided_row at now]"

definition entriesForDecision ::
  "resolved_step list \<Rightarrow> decided_entry list \<Rightarrow> decision_at \<Rightarrow> instant \<Rightarrow> decided_entry list" where
  "entriesForDecision steps decisions at now =
     written_until steps decisions at now @
     (if at_decision at = DecideApproved \<and>
         liveStep steps (progressOf (decisions @ written_until steps decisions at now)) = None
      then map (passed_entry OutcomeSkipped now) [at_stepIndex at + 1..<length steps] else [])"

definition viewerDecision ::
  "resolved_step list \<Rightarrow> decided_entry list \<Rightarrow> nat list \<Rightarrow> (nat \<times> nat list) option" where
  "viewerDecision steps decisions ownSteps =
     (if statusOf steps decisions \<noteq> ChainPending then None
      else case liveStep steps (progressOf decisions) of None \<Rightarrow> None
        | Some (index, _) \<Rightarrow> decisionFor ownSteps index)"

record trail_entry =
  te_permissionKey :: string
  te_level :: approval_level
  te_label :: "(string \<times> string) option"
  te_outcome :: approval_outcome
  te_decidedBy :: "string option"
  te_decidedAt :: "instant option"
  te_comment :: "string option"
  te_overriddenWith :: "string option"

text \<open>\<open>new Map(decisions.map(...))\<close>: the last entry of a rung is the one found.\<close>

definition entry_of :: "decided_entry list \<Rightarrow> nat \<Rightarrow> decided_entry option" where
  "entry_of decisions index = List.find (\<lambda>e. de_stepIndex e = index) (rev decisions)"

definition trail_row ::
  "chain_status \<Rightarrow> (string \<Rightarrow> string option) \<Rightarrow> decided_entry option \<Rightarrow> resolved_step \<Rightarrow> trail_entry" where
  "trail_row status nameOf entry step =
     \<lparr>te_permissionKey = cs_permissionKey step, te_level = cs_level step, te_label = cs_label step,
      te_outcome = (case entry of Some e \<Rightarrow> de_outcome e
        | None \<Rightarrow> if status = ChainRejected then OutcomeUnreached else OutcomePending),
      te_decidedBy = Option.bind entry (\<lambda>e. Option.bind (de_deciderUserId e) nameOf),
      te_decidedAt = map_option de_decidedAt entry,
      te_comment = Option.bind entry de_comment,
      te_overriddenWith = Option.bind entry de_overriddenWith\<rparr>"

definition buildTrail ::
  "resolved_step list \<Rightarrow> decided_entry list \<Rightarrow> (string \<Rightarrow> string option) \<Rightarrow> trail_entry list" where
  "buildTrail steps decisions nameOf =
     map (\<lambda>(index, step). trail_row (statusOf steps decisions) nameOf (entry_of decisions index) step)
       (enumerate 0 steps)"

section \<open>Deciding\<close>

text \<open>\<open>ApprovalService.decide\<close> of \<open>approval.service.ts\<close>, after the chain and the caller's own rungs were
  looked up. \<open>dr_audit\<close> is what the audit record says besides the decision: the override used and the
  rungs covered.\<close>

definition APPROVAL_OVERRIDE_KEY :: string where
  "APPROVAL_OVERRIDE_KEY = ''approval.override''"

record decide_result =
  dr_entries :: "decided_entry list"
  dr_status :: chain_status
  dr_stepIndex :: nat
  dr_audit :: "string option \<times> nat list"

definition decide_with ::
  "resolved_step list \<Rightarrow> decided_entry list \<Rightarrow> decision_at \<Rightarrow> nat list \<Rightarrow> instant \<Rightarrow> decide_result" where
  "decide_with steps decisions at covers now =
     \<lparr>dr_entries = entriesForDecision steps decisions at now,
      dr_status = statusOf steps (decisions @ entriesForDecision steps decisions at now),
      dr_stepIndex = at_stepIndex at, dr_audit = (at_overriddenWith at, covers)\<rparr>"

definition approval_decide ::
  "resolved_step list \<Rightarrow> decided_entry list \<Rightarrow> nat list \<Rightarrow> bool \<Rightarrow> string \<Rightarrow> approval_decision \<Rightarrow>
     string option \<Rightarrow> instant \<Rightarrow> app_error + decide_result" where
  "approval_decide steps decisions own mayOverride userId decision comment now =
     (if statusOf steps decisions \<noteq> ChainPending
      then Inl (BusinessRuleError ''approvals.alreadyDecided'')
      else case liveIndex steps (progressOf decisions) of
        None \<Rightarrow> Inl (BusinessRuleError ''approvals.nothingToDecide'')
      | Some live \<Rightarrow>
          (case viewerDecision steps decisions own of
             Some (step, covers) \<Rightarrow>
               Inr (decide_with steps decisions
                 \<lparr>at_stepIndex = step, at_decision = decision, at_deciderUserId = userId,
                  at_comment = comment, at_overriddenWith = None\<rparr> covers now)
           | None \<Rightarrow>
               if \<not> mayOverride then Inl (BusinessRuleError ''approvals.notYourStep'')
               else Inr (decide_with steps decisions
                 \<lparr>at_stepIndex = live, at_decision = decision, at_deciderUserId = userId,
                  at_comment = comment, at_overriddenWith = Some APPROVAL_OVERRIDE_KEY\<rparr> [] now)))"

text \<open>The life of a request over a chain of \<open>n\<close> rungs: who stands on a rung may change from one
  decision to the next, and each successful decision appends what it returned.\<close>

inductive approval_history :: "nat \<Rightarrow> decided_entry list \<Rightarrow> bool" for n where
  filed: "approval_history n []"
| decided: "approval_history n ds \<Longrightarrow> length steps = n \<Longrightarrow> set own \<subseteq> {..<n} \<Longrightarrow>
    approval_decide steps ds own mayOverride userId decision comment now = Inr res \<Longrightarrow>
    approval_history n (ds @ dr_entries res)"

section \<open>Selecting a chain\<close>

lemma foldl_better_candidate:
  "foldl better_candidate None ms =
     List.find (\<lambda>r. specificity r = Max (specificity ` set ms)) ms"
proof (induction ms rule: rev_induct)
  case Nil
  then show ?case by simp
next
  case (snoc c ms)
  show ?case
  proof (cases "ms = []")
    case True
    then show ?thesis by simp
  next
    case False
    define m where "m = Max (specificity ` set ms)"
    have le: "\<And>x. x \<in> set ms \<Longrightarrow> specificity x \<le> m" unfolding m_def by (intro Max_ge) auto
    have "m \<in> specificity ` set ms" unfolding m_def using False by (intro Max_in) auto
    then obtain b where b: "List.find (\<lambda>r. specificity r = m) ms = Some b"
      by (cases "List.find (\<lambda>r. specificity r = m) ms") (auto simp: find_None_iff_all)
    have bm: "specificity b = m" using find_Some_iff_hd [OF b] by simp
    have mx: "Max (specificity ` set (ms @ [c])) = max (specificity c) m"
      using False by (simp add: m_def)
    have find_app: "List.find P (ms @ [c]) =
        (case List.find P ms of None \<Rightarrow> List.find P [c] | Some x \<Rightarrow> Some x)" for P
      by (induction ms) auto
    show ?thesis
    proof (cases "m < specificity c")
      case True
      then have "List.find (\<lambda>r. specificity r = specificity c) ms = None"
        using le by (fastforce simp: find_None_iff_all)
      then show ?thesis using True b bm snoc.IH unfolding mx find_app by (simp add: m_def)
    next
      case False
      then show ?thesis using b bm snoc.IH unfolding mx find_app by (simp add: m_def max_absorb2)
    qed
  qed
qed

section \<open>Live rungs\<close>

lemma find_upt_Some:
  "List.find P [a..<b] = Some i \<longleftrightarrow> a \<le> i \<and> i < b \<and> P i \<and> (\<forall>j. a \<le> j \<and> j < i \<longrightarrow> \<not> P j)"
proof (induction "b - a" arbitrary: a)
  case 0
  then show ?case by auto
next
  case (Suc n)
  then have "[a..<b] = a # [Suc a..<b]" by (simp add: upt_conv_Cons)
  moreover have "List.find P [Suc a..<b] = Some i \<longleftrightarrow>
      Suc a \<le> i \<and> i < b \<and> P i \<and> (\<forall>j. Suc a \<le> j \<and> j < i \<longrightarrow> \<not> P j)"
    using Suc by (intro Suc.hyps(1)) simp
  ultimately have e: "List.find P [a..<b] = Some i \<longleftrightarrow> (if P a then i = a else
      Suc a \<le> i \<and> i < b \<and> P i \<and> (\<forall>j. Suc a \<le> j \<and> j < i \<longrightarrow> \<not> P j))" by auto
  have ab: "a < b" using Suc.hyps(2) by simp
  show ?case
  proof (cases "P a")
    case True
    then show ?thesis using e ab by (metis order.refl le_neq_implies_less not_less_zero less_irrefl less_le_not_le)
  next
    case False
    have "(\<forall>j. Suc a \<le> j \<and> j < i \<longrightarrow> \<not> P j) \<longleftrightarrow> (\<forall>j. a \<le> j \<and> j < i \<longrightarrow> \<not> P j)"
      using False by (metis Suc_leI le_neq_implies_less Suc_leD)
    then show ?thesis using e False by (metis Suc_leI le_neq_implies_less Suc_leD)
  qed
qed

lemma find_upt_None: "List.find P [a..<b] = None \<longleftrightarrow> (\<forall>j. a \<le> j \<and> j < b \<longrightarrow> \<not> P j)"
  by (auto simp: find_None_iff_all)

lemma liveIndex_Some: "liveIndex steps n = Some i \<longleftrightarrow>
    n \<le> i \<and> i < length steps \<and> staffed (steps ! i) \<and> (\<forall>j. n \<le> j \<and> j < i \<longrightarrow> \<not> staffed (steps ! j))"
  by (simp add: liveIndex_def find_upt_Some)

lemma liveIndex_None: "liveIndex steps n = None \<longleftrightarrow> (\<forall>j. n \<le> j \<and> j < length steps \<longrightarrow> \<not> staffed (steps ! j))"
  by (simp add: liveIndex_def find_upt_None)

lemma liveStep_None [simp]: "liveStep steps n = None \<longleftrightarrow> liveIndex steps n = None"
  by (simp add: liveStep_def)

section \<open>Progress and status\<close>

lemma progressOf_snoc [simp]: "progressOf (ds @ [e]) = max (progressOf ds) (de_stepIndex e + 1)"
  by (simp add: progressOf_def)

lemma progressOf_Nil [simp]: "progressOf [] = 0"
  by (simp add: progressOf_def)

lemma progressOf_append_mono: "progressOf ds \<le> progressOf (ds @ es)"
proof (induction es rule: rev_induct)
  case (snoc e es)
  have "progressOf (ds @ es @ [e]) = max (progressOf (ds @ es)) (de_stepIndex e + 1)"
    using progressOf_snoc [of "ds @ es" e] by simp
  then show ?case using snoc by simp
qed simp

text \<open>A trail is contiguous when it holds one entry per rung, in order, from the first.\<close>

definition contiguous :: "decided_entry list \<Rightarrow> bool" where
  "contiguous ds \<longleftrightarrow> map de_stepIndex ds = [0..<length ds]"

lemma contiguous_progress: "contiguous ds \<Longrightarrow> progressOf ds = length ds"
proof (induction ds rule: rev_induct)
  case (snoc e ds)
  then have "contiguous ds" "de_stepIndex e = length ds" by (auto simp: contiguous_def)
  then show ?case using snoc by simp
qed (simp add: contiguous_def)

section \<open>What a decision writes\<close>

lemma written_until_steps:
  "map de_stepIndex (written_until steps ds at now) = [progressOf ds..<at_stepIndex at] @ [at_stepIndex at]"
  by (simp add: written_until_def passed_entry_def decided_row_def comp_def)

lemma written_contiguous:
  assumes "contiguous ds" "progressOf ds \<le> at_stepIndex at"
  shows "contiguous (ds @ written_until steps ds at now) \<and>
    length (ds @ written_until steps ds at now) = at_stepIndex at + 1"
proof -
  have len: "length (ds @ written_until steps ds at now) = at_stepIndex at + 1"
    using assms contiguous_progress [OF assms(1)] by (simp add: written_until_def)
  have "map de_stepIndex (ds @ written_until steps ds at now) =
      [0..<length ds] @ [length ds..<at_stepIndex at] @ [at_stepIndex at]"
    using assms(1) contiguous_progress [OF assms(1)] by (simp add: written_until_steps contiguous_def)
  also have "\<dots> = [0..<at_stepIndex at + 1]"
    using assms contiguous_progress [OF assms(1)] upt_add_eq_append [of 0 "length ds" "at_stepIndex at - length ds"] by simp
  finally show ?thesis unfolding contiguous_def len by simp
qed

lemma entries_contiguous:
  assumes "contiguous ds" "progressOf ds \<le> at_stepIndex at" "at_stepIndex at < length steps"
  shows "contiguous (ds @ entriesForDecision steps ds at now) \<and>
    at_stepIndex at < length (ds @ entriesForDecision steps ds at now) \<and>
    length (ds @ entriesForDecision steps ds at now) \<le> length steps"
proof -
  let ?w = "ds @ written_until steps ds at now"
  note w = written_contiguous [OF assms(1,2), of steps now]
  define tail where "tail = (if at_decision at = DecideApproved \<and> liveStep steps (progressOf ?w) = None
      then map (passed_entry OutcomeSkipped now) [at_stepIndex at + 1..<length steps] else [])"
  have e: "ds @ entriesForDecision steps ds at now = ?w @ tail" by (simp add: entriesForDecision_def tail_def)
  have pos: "Suc (length steps - Suc 0) = length steps" using assms(3) by simp
  have t: "map de_stepIndex tail = [at_stepIndex at + 1..<at_stepIndex at + 1 + length tail]"
    "length tail \<le> length steps - (at_stepIndex at + 1)"
    using assms(3) by (auto simp: tail_def passed_entry_def comp_def pos simp del: upt_Suc)
  have len: "length (?w @ tail) = at_stepIndex at + 1 + length tail" using w by simp
  have "map de_stepIndex (?w @ tail) = [0..<at_stepIndex at + 1] @ [at_stepIndex at + 1..<at_stepIndex at + 1 + length tail]"
    using w t by (simp add: contiguous_def)
  also have "\<dots> = [0..<length (?w @ tail)]" unfolding len using upt_add_eq_append [of 0 "at_stepIndex at + 1" "length tail"] by simp
  finally have "contiguous (?w @ tail)" by (simp add: contiguous_def)
  then show ?thesis using e len t(2) assms(3) by simp
qed

lemma list_ex_append_Rejected:
  "list_ex (\<lambda>e. de_outcome e = OutcomeRejected) ds \<Longrightarrow> statusOf steps (ds @ es) = ChainRejected"
  by (simp add: statusOf_def)

lemma entries_rejected:
  "list_ex (\<lambda>e. de_outcome e = OutcomeRejected) (entriesForDecision steps ds at now) \<longleftrightarrow>
     at_decision at = DecideRejected"
  by (cases "at_decision at")
    (auto simp: entriesForDecision_def written_until_def passed_entry_def decided_row_def list_ex_iff split: if_splits)

lemma decisionFor_Some:
  assumes "decisionFor own live = Some (step, covers)"
  shows "step \<in> set own \<and> live \<le> step \<and> (\<forall>i \<in> set own. live \<le> i \<longrightarrow> step \<le> i) \<and> covers = [live..<step]"
proof -
  obtain rest where s: "sort (filter (\<lambda>i. live \<le> i) own) = step # rest" and c: "covers = [live..<step]"
    using assms by (auto simp: decisionFor_def split: list.splits)
  have set: "set (step # rest) = set (filter (\<lambda>i. live \<le> i) own)" unfolding s [symmetric] by simp
  have "sorted (step # rest)" unfolding s [symmetric] by simp
  then have "\<forall>i \<in> set (step # rest). step \<le> i" by simp
  then show ?thesis using set c by (metis (mono_tags, lifting) filter_set list.set_intros(1) mem_Collect_eq set_filter)
qed

lemma decisionFor_None: "decisionFor own live = None \<longleftrightarrow> (\<forall>i \<in> set own. i < live)"
proof -
  have "decisionFor own live = None \<longleftrightarrow> filter (\<lambda>i. live \<le> i) own = []"
    by (auto simp: decisionFor_def split: list.splits) (metis set_empty set_sort)+
  then show ?thesis by (auto simp: filter_empty_conv not_le)
qed

section \<open>Properties of a decision\<close>

lemma approval_decide_Inr:
  assumes "approval_decide steps ds own mayOverride userId decision comment now = Inr res"
  shows "\<exists>live at covers. liveIndex steps (progressOf ds) = Some live \<and> statusOf steps ds = ChainPending \<and>
    res = decide_with steps ds at covers now \<and> at_decision at = decision \<and> at_deciderUserId at = userId \<and>
    live \<le> at_stepIndex at \<and>
    ((at_stepIndex at \<in> set own \<and> (\<forall>i \<in> set own. live \<le> i \<longrightarrow> at_stepIndex at \<le> i) \<and>
        at_overriddenWith at = None \<and> covers = [live..<at_stepIndex at]) \<or>
     ((\<forall>i \<in> set own. i < live) \<and> mayOverride \<and> at_stepIndex at = live \<and>
        at_overriddenWith at = Some APPROVAL_OVERRIDE_KEY \<and> covers = []))"
proof -
  obtain live where pend: "statusOf steps ds = ChainPending" and live: "liveIndex steps (progressOf ds) = Some live"
    using assms by (auto simp: approval_decide_def split: if_splits option.splits)
  have v: "viewerDecision steps ds own = decisionFor own live"
    using pend live by (simp add: viewerDecision_def liveStep_def)
  show ?thesis
  proof (cases "decisionFor own live")
    case None
    then have "res = decide_with steps ds \<lparr>at_stepIndex = live, at_decision = decision, at_deciderUserId = userId,
        at_comment = comment, at_overriddenWith = Some APPROVAL_OVERRIDE_KEY\<rparr> [] now" "mayOverride"
      using assms pend live v by (auto simp: approval_decide_def split: if_splits)
    then show ?thesis using pend live None decisionFor_None [of own live] by fastforce
  next
    case (Some p)
    then obtain step covers where p: "decisionFor own live = Some (step, covers)" by (cases p) auto
    then have "res = decide_with steps ds \<lparr>at_stepIndex = step, at_decision = decision, at_deciderUserId = userId,
        at_comment = comment, at_overriddenWith = None\<rparr> covers now"
      using assms pend live v by (auto simp: approval_decide_def)
    then show ?thesis using pend live decisionFor_Some [OF p] by fastforce
  qed
qed

lemma decide_index:
  assumes "approval_decide steps ds own mayOverride userId decision comment now = Inr res" "set own \<subseteq> {..<length steps}"
  shows "\<exists>at. dr_entries res = entriesForDecision steps ds at now \<and> progressOf ds \<le> at_stepIndex at \<and>
    at_stepIndex at < length steps \<and> at_decision at = decision \<and> statusOf steps ds = ChainPending \<and>
    dr_status res = statusOf steps (ds @ dr_entries res)"
  using approval_decide_Inr [OF assms(1)] assms(2)
  by (auto simp: liveIndex_Some decide_with_def)

text \<open>C36. Whatever was decided, by whoever stood where at the time, a request's trail holds one entry per
  rung in order, from the first rung on and never past the last: no rung is answered twice and none is
  left out.\<close>

theorem trail_contiguous:
  assumes "approval_history n ds"
  shows "map de_stepIndex ds = [0..<length ds] \<and> length ds \<le> n"
proof -
  have "contiguous ds \<and> length ds \<le> n"
    using assms
  proof (induction rule: approval_history.induct)
    case filed
    show ?case by (simp add: contiguous_def)
  next
    case (decided ds steps own mayOverride userId decision comment now res)
    obtain at where at: "dr_entries res = entriesForDecision steps ds at now" "progressOf ds \<le> at_stepIndex at"
      "at_stepIndex at < length steps"
      using decide_index [OF decided(4)] decided(2,3) by auto
    show ?case
      using entries_contiguous [OF _ at(2,3), of now] decided.IH decided(2) by (simp add: at(1))
  qed
  then show ?thesis by (simp add: contiguous_def)
qed

text \<open>The chain of the witnesses: a manager's rung nobody stands on, then two staffed ones.\<close>

definition demo_chain :: "resolved_step list" where
  "demo_chain =
     [\<lparr>cs_permissionKey = ''leave.approve'', cs_level = UnitLevel, cs_label = None, staffed = False\<rparr>,
      \<lparr>cs_permissionKey = ''leave.approve'', cs_level = BranchLevel, cs_label = None, staffed = True\<rparr>,
      \<lparr>cs_permissionKey = ''leave.hr'', cs_level = OrganizationLevel, cs_label = None, staffed = True\<rparr>]"

definition demo_first :: decide_result where
  "demo_first = decide_with demo_chain []
     \<lparr>at_stepIndex = 1, at_decision = DecideApproved, at_deciderUserId = ''u1'', at_comment = None,
      at_overriddenWith = None\<rparr> [] 0"

lemma demo_decide: "approval_decide demo_chain [] [1] False ''u1'' DecideApproved None 0 = Inr demo_first"
  by code_simp

lemma demo_history: "approval_history 3 (dr_entries demo_first)"
  using approval_history.decided [OF approval_history.filed _ _ demo_decide] by (simp add: demo_chain_def numeral_3_eq_3)

theorem trail_contiguous_witness:
  "map de_stepIndex (dr_entries demo_first) = [0..<length (dr_entries demo_first)] \<and> length (dr_entries demo_first) \<le> 3"
  by (rule trail_contiguous [OF demo_history])

text \<open>C37. Each decision settles at least one more rung, so a chain of \<open>n\<close> rungs ends after at most \<open>n\<close>
  decisions; a rejection ends it at once and for good, and an approval ends it exactly when nobody
  stands on any rung above the one decided, in which case every rung of the chain has its entry.\<close>

theorem decision_outcome:
  assumes "approval_history (length steps) ds" "set own \<subseteq> {..<length steps}"
    "approval_decide steps ds own mayOverride userId decision comment now = Inr res"
  shows "length ds < length (ds @ dr_entries res) \<and>
    (dr_status res = ChainRejected \<longleftrightarrow> decision = DecideRejected) \<and>
    (dr_status res = ChainApproved \<longleftrightarrow> decision = DecideApproved \<and>
       (\<forall>j. dr_stepIndex res < j \<and> j < length steps \<longrightarrow> \<not> staffed (steps ! j))) \<and>
    (dr_status res = ChainApproved \<longrightarrow> length (ds @ dr_entries res) = length steps)"
proof -
  obtain at where at: "res = decide_with steps ds at (snd (dr_audit res)) now" "progressOf ds \<le> at_stepIndex at"
    "at_stepIndex at < length steps" "at_decision at = decision" and pend: "statusOf steps ds = ChainPending"
    using approval_decide_Inr [OF assms(3)] assms(2) by (fastforce simp: liveIndex_Some decide_with_def)
  have entries: "dr_entries res = entriesForDecision steps ds at now" and idx: "dr_stepIndex res = at_stepIndex at"
    and st: "dr_status res = statusOf steps (ds @ entriesForDecision steps ds at now)"
    using at(1) by (metis decide_with_def decide_result.select_convs(1),
      metis decide_with_def decide_result.select_convs(3), metis decide_with_def decide_result.select_convs(2))
  have cont: "contiguous ds" using trail_contiguous [OF assms(1)] by (simp add: contiguous_def)
  note ec = entries_contiguous [OF cont at(2,3), of now]
  note wc = written_contiguous [OF cont at(2), of steps now]
  have no_rej: "\<not> list_ex (\<lambda>e. de_outcome e = OutcomeRejected) ds" using pend by (auto simp: statusOf_def)
  have rej: "dr_status res = ChainRejected \<longleftrightarrow> decision = DecideRejected"
    using no_rej entries_rejected [of steps ds at now] by (simp add: st statusOf_def at(4))
  have above: "liveIndex steps (at_stepIndex at + 1) = None \<longleftrightarrow>
      (\<forall>j. at_stepIndex at < j \<and> j < length steps \<longrightarrow> \<not> staffed (steps ! j))"
    by (auto simp: liveIndex_None Suc_le_eq)
  have pw: "progressOf (ds @ written_until steps ds at now) = at_stepIndex at + 1"
    using wc contiguous_progress by metis
  have app: "dr_status res = ChainApproved \<and> length (ds @ dr_entries res) = length steps"
    if "decision = DecideApproved" "liveIndex steps (at_stepIndex at + 1) = None"
  proof -
    have "dr_entries res = written_until steps ds at now @
        map (passed_entry OutcomeSkipped now) [at_stepIndex at + 1..<length steps]"
      using that pw at(4) by (simp add: entries entriesForDecision_def)
    then have "length (ds @ dr_entries res) =
        length (ds @ written_until steps ds at now) + (length steps - (at_stepIndex at + 1))" by simp
    then have len: "length (ds @ dr_entries res) = length steps" using wc at(3) by simp
    moreover have "progressOf (ds @ dr_entries res) = length steps"
      using ec contiguous_progress len by (metis entries)
    ultimately show ?thesis using rej that no_rej
      by (auto simp: st statusOf_def entries liveIndex_None entries_rejected at(4))
  qed
  have notapp: "dr_status res \<noteq> ChainApproved" if "\<not> (decision = DecideApproved \<and> liveIndex steps (at_stepIndex at + 1) = None)"
  proof (cases decision)
    case DecideApproved
    then have "liveIndex steps (at_stepIndex at + 1) \<noteq> None" using that by simp
    moreover from this have "progressOf (ds @ entriesForDecision steps ds at now) = at_stepIndex at + 1"
      using pw at(4) by (auto simp: entriesForDecision_def)
    ultimately show ?thesis by (auto simp: st statusOf_def)
  next
    case DecideRejected
    then show ?thesis using rej by simp
  qed
  have "length ds < length (ds @ dr_entries res)"
    using ec contiguous_progress [OF cont] at(2) by (auto simp: entries)
  then show ?thesis using rej app notapp above idx by auto
qed

theorem decision_outcome_witness:
  "0 < length (dr_entries demo_first) \<and> dr_status demo_first \<noteq> ChainRejected"
  using decision_outcome [OF _ _ demo_decide] by (simp add: approval_history.filed demo_chain_def)

text \<open>Nobody decides a rung that is not theirs, except by the override, which is recorded. A decision
  taken from the caller's own authority is on the lowest of their rungs that is not below the live one,
  and records as covered exactly the rungs between; without a rung of their own and without the override
  the request is refused.\<close>

theorem decision_authority:
  assumes "approval_decide steps ds own mayOverride userId decision comment now = Inr res"
  shows "\<exists>live. liveIndex steps (progressOf ds) = Some live \<and> live \<le> dr_stepIndex res \<and>
    ((dr_stepIndex res \<in> set own \<and> (\<forall>i \<in> set own. live \<le> i \<longrightarrow> dr_stepIndex res \<le> i) \<and>
        dr_audit res = (None, [live..<dr_stepIndex res])) \<or>
     ((\<forall>i \<in> set own. i < live) \<and> mayOverride \<and> dr_stepIndex res = live \<and>
        dr_audit res = (Some APPROVAL_OVERRIDE_KEY, []))) \<and>
    (\<forall>e \<in> set (dr_entries res). de_deciderUserId e = (if de_stepIndex e = dr_stepIndex res then Some userId else None))"
proof -
  obtain live at covers where l: "liveIndex steps (progressOf ds) = Some live" and res: "res = decide_with steps ds at covers now"
    and u: "at_deciderUserId at = userId" "live \<le> at_stepIndex at"
    and c: "(at_stepIndex at \<in> set own \<and> (\<forall>i \<in> set own. live \<le> i \<longrightarrow> at_stepIndex at \<le> i) \<and>
        at_overriddenWith at = None \<and> covers = [live..<at_stepIndex at]) \<or>
     ((\<forall>i \<in> set own. i < live) \<and> mayOverride \<and> at_stepIndex at = live \<and>
        at_overriddenWith at = Some APPROVAL_OVERRIDE_KEY \<and> covers = [])"
    using approval_decide_Inr [OF assms] by blast
  have idx: "dr_stepIndex res = at_stepIndex at" "dr_audit res = (at_overriddenWith at, covers)"
    by (simp_all add: res decide_with_def)
  have "\<forall>e \<in> set (dr_entries res). de_deciderUserId e = (if de_stepIndex e = at_stepIndex at then Some userId else None)"
    using u(1) by (auto simp: res decide_with_def entriesForDecision_def written_until_def passed_entry_def decided_row_def)
  then show ?thesis using l u(2) c idx by auto
qed

theorem decision_authority_witness:
  "\<exists>live. liveIndex demo_chain (progressOf []) = Some live \<and> live \<le> dr_stepIndex demo_first"
  using decision_authority [OF demo_decide] by auto

text \<open>The chain that answers a request is, of those written for its place, the first of the most
  specific ones; a request has no chain only when none is written for its place.\<close>

theorem selectChain_most_specific:
  "selectChain cs unit =
     List.find (\<lambda>r. specificity r = Max (specificity ` {c. c \<in> set cs \<and> candidate_matches unit c}))
       (filter (candidate_matches unit) cs)"
proof -
  have "{c. c \<in> set cs \<and> candidate_matches unit c} = set (filter (candidate_matches unit) cs)" by auto
  then show ?thesis unfolding selectChain_def by (simp only: foldl_better_candidate)
qed

text \<open>The trail a reader sees has one row per rung, in the chain's order, each with that rung's own key
  and level; a rung without an entry reads as waiting, or as never reached once the request was
  rejected.\<close>

theorem buildTrail_rows:
  assumes "i < length steps"
  shows "length (buildTrail steps ds nameOf) = length steps \<and>
    te_permissionKey (buildTrail steps ds nameOf ! i) = cs_permissionKey (steps ! i) \<and>
    te_level (buildTrail steps ds nameOf ! i) = cs_level (steps ! i) \<and>
    (i \<notin> de_stepIndex ` set ds \<longrightarrow> te_outcome (buildTrail steps ds nameOf ! i) =
       (if statusOf steps ds = ChainRejected then OutcomeUnreached else OutcomePending)) \<and>
    (i \<in> de_stepIndex ` set ds \<longrightarrow> (\<exists>e \<in> set ds. de_stepIndex e = i \<and>
       te_outcome (buildTrail steps ds nameOf ! i) = de_outcome e))"
proof -
  have row: "buildTrail steps ds nameOf ! i = trail_row (statusOf steps ds) nameOf (entry_of ds i) (steps ! i)"
    using assms by (simp add: buildTrail_def nth_enumerate_eq)
  have none: "entry_of ds i = None \<longleftrightarrow> i \<notin> de_stepIndex ` set ds"
    by (auto simp: entry_of_def find_None_iff_all)
  have some: "entry_of ds i = Some e \<Longrightarrow> e \<in> set ds \<and> de_stepIndex e = i" for e
    unfolding entry_of_def by (drule find_Some_iff_hd) simp
  show ?thesis
  proof (cases "entry_of ds i")
    case None
    then show ?thesis using none row by (simp add: trail_row_def buildTrail_def)
  next
    case (Some e)
    then show ?thesis using none some [OF Some] row by (auto simp: trail_row_def buildTrail_def)
  qed
qed

theorem buildTrail_rows_witness:
  "te_level (buildTrail demo_chain (dr_entries demo_first) (\<lambda>u. Some u) ! 2) = OrganizationLevel"
  using buildTrail_rows [of 2 demo_chain "dr_entries demo_first" "\<lambda>u. Some u"] by (simp add: demo_chain_def)

end
