(* ===== verification/Approval_Access.thy ===== *)
theory Approval_Access
  imports Approval_Chain
begin

text \<open>
  Who stands on a rung: \<open>approver-level.ts\<close> (a grant read as a level) and \<open>approver-lookup.ts\<close> with
  the reads of \<open>platform/rbac/rbac.repository.ts\<close> and \<open>delegation.repository.ts\<close> it makes. The store
  holds the three collections; a read filters them as the queries do.
\<close>

section \<open>Grants as levels\<close>

record grant_shape =
  g_scope :: string
  g_branchId :: "string option"
  g_branchIds :: "string list"
  g_departmentCatalogId :: "string option"
  g_departmentId :: "string option"
  g_allBranches :: bool

record org_unit =
  ou_branchId :: "string option"
  ou_departmentCatalogId :: "string option"
  ou_departmentId :: "string option"

definition reachesBranch :: "grant_shape \<Rightarrow> string option \<Rightarrow> bool" where
  "reachesBranch grant branchId \<longleftrightarrow> g_allBranches grant \<or>
     (case branchId of None \<Rightarrow> False
      | Some b \<Rightarrow> g_branchId grant = Some b \<or> b \<in> set (g_branchIds grant))"

definition namesDepartment :: "grant_shape \<Rightarrow> org_unit \<Rightarrow> bool" where
  "namesDepartment grant unit =
     (if g_departmentCatalogId grant \<noteq> None
      then g_departmentCatalogId grant = ou_departmentCatalogId unit
      else g_departmentId grant \<noteq> None \<and> g_departmentId grant = ou_departmentId unit)"

fun grantMeetsLevel :: "grant_shape \<Rightarrow> approval_level \<Rightarrow> org_unit \<Rightarrow> bool" where
  "grantMeetsLevel grant OrganizationLevel unit \<longleftrightarrow> g_scope grant = ''organization''"
| "grantMeetsLevel grant BranchLevel unit \<longleftrightarrow>
     g_scope grant = ''branch'' \<and> reachesBranch grant (ou_branchId unit)"
| "grantMeetsLevel grant DepartmentLevel unit \<longleftrightarrow>
     g_scope grant = ''department'' \<and> g_allBranches grant \<and> namesDepartment grant unit"
| "grantMeetsLevel grant UnitLevel unit \<longleftrightarrow>
     g_scope grant = ''department'' \<and> \<not> g_allBranches grant \<and> namesDepartment grant unit \<and>
     reachesBranch grant (ou_branchId unit)"

record delegation_shape =
  ds_branchId :: "string option"
  ds_departmentId :: "string option"
  ds_departmentCatalogId :: "string option"
  ds_allBranches :: bool

definition delegationMeetsLevel :: "delegation_shape \<Rightarrow> approval_level \<Rightarrow> org_unit \<Rightarrow> bool" where
  "delegationMeetsLevel grant level unit =
     (if ds_allBranches grant
      then level = DepartmentLevel \<and> ds_departmentCatalogId grant \<noteq> None \<and>
        ds_departmentCatalogId grant = ou_departmentCatalogId unit
      else if ou_branchId unit = None \<or> ds_branchId grant \<noteq> ou_branchId unit then False
      else if level = BranchLevel then ds_departmentId grant = None
      else if level = UnitLevel
        then ds_departmentId grant \<noteq> None \<and> ds_departmentId grant = ou_departmentId unit
      else False)"

section \<open>The permission store\<close>

record role_doc =
  ro_id :: string
  ro_permissionKeys :: "string list"
  ro_isDeleted :: bool

record assignment_doc = grant_shape +
  as_userId :: string
  as_roleId :: string
  as_validFrom :: "instant option"
  as_validTo :: "instant option"
  as_isDeleted :: bool

record delegation_doc = delegation_shape +
  dg_userId :: string
  dg_permissionKeys :: "string list"
  dg_isDeleted :: bool

record access_store =
  acc_roles :: "role_doc list"
  acc_assignments :: "assignment_doc list"
  acc_delegations :: "delegation_doc list"

definition shape_of :: "assignment_doc \<Rightarrow> grant_shape" where
  "shape_of a = grant_shape.truncate a"

definition delegation_shape_of :: "delegation_doc \<Rightarrow> delegation_shape" where
  "delegation_shape_of g = delegation_shape.truncate g"

definition in_window :: "instant \<Rightarrow> assignment_doc \<Rightarrow> bool" where
  "in_window now a \<longleftrightarrow>
     (case as_validFrom a of None \<Rightarrow> True | Some t \<Rightarrow> t \<le> now) \<and>
     (case as_validTo a of None \<Rightarrow> True | Some t \<Rightarrow> now < t)"

definition findGrantingPermission :: "access_store \<Rightarrow> string \<Rightarrow> role_doc list" where
  "findGrantingPermission st key =
     filter (\<lambda>r. key \<in> set (ro_permissionKeys r) \<and> \<not> ro_isDeleted r) (acc_roles st)"

definition findActiveForRoles :: "access_store \<Rightarrow> instant \<Rightarrow> string list \<Rightarrow> assignment_doc list" where
  "findActiveForRoles st now roleIds =
     (if roleIds = [] then []
      else filter (\<lambda>a. as_roleId a \<in> set roleIds \<and> \<not> as_isDeleted a \<and> in_window now a) (acc_assignments st))"

definition findActiveForUser :: "access_store \<Rightarrow> string \<Rightarrow> assignment_doc list" where
  "findActiveForUser st userId =
     filter (\<lambda>a. as_userId a = userId \<and> \<not> as_isDeleted a) (acc_assignments st)"

definition findRolesByIds :: "access_store \<Rightarrow> string list \<Rightarrow> role_doc list" where
  "findRolesByIds st ids = filter (\<lambda>r. ro_id r \<in> set ids \<and> \<not> ro_isDeleted r) (acc_roles st)"

definition findDelegationsForUser :: "access_store \<Rightarrow> string \<Rightarrow> delegation_doc list" where
  "findDelegationsForUser st userId =
     filter (\<lambda>g. dg_userId g = userId \<and> \<not> dg_isDeleted g) (acc_delegations st)"

definition findByKeyInBranch :: "access_store \<Rightarrow> string \<Rightarrow> string \<Rightarrow> delegation_doc list" where
  "findByKeyInBranch st key branchId =
     filter (\<lambda>g. ds_branchId g = Some branchId \<and> key \<in> set (dg_permissionKeys g) \<and> \<not> dg_isDeleted g)
       (acc_delegations st)"

definition findByKeyForDepartmentEverywhere :: "access_store \<Rightarrow> string \<Rightarrow> string \<Rightarrow> delegation_doc list" where
  "findByKeyForDepartmentEverywhere st key catalogId =
     filter (\<lambda>g. ds_departmentCatalogId g = Some catalogId \<and> ds_allBranches g \<and>
       key \<in> set (dg_permissionKeys g) \<and> \<not> dg_isDeleted g) (acc_delegations st)"

section \<open>Lookups\<close>

definition delegations_for :: "access_store \<Rightarrow> string \<Rightarrow> approval_level \<Rightarrow> org_unit \<Rightarrow> delegation_doc list" where
  "delegations_for st key level unit =
     (case ou_branchId unit of None \<Rightarrow> []
      | Some b \<Rightarrow> if level \<in> {UnitLevel, BranchLevel} then findByKeyInBranch st key b else []) @
     (case ou_departmentCatalogId unit of None \<Rightarrow> []
      | Some d \<Rightarrow> if level = DepartmentLevel then findByKeyForDepartmentEverywhere st key d else [])"

definition approversFor ::
  "access_store \<Rightarrow> instant \<Rightarrow> string \<Rightarrow> approval_level \<Rightarrow> org_unit \<Rightarrow> string list" where
  "approversFor st now key level unit = remdups
     (map as_userId (filter (\<lambda>a. grantMeetsLevel (shape_of a) level unit)
        (findActiveForRoles st now (map ro_id (findGrantingPermission st key)))) @
      map dg_userId (filter (\<lambda>g. delegationMeetsLevel (delegation_shape_of g) level unit)
        (delegations_for st key level unit)))"

definition hasApprovers :: "access_store \<Rightarrow> instant \<Rightarrow> string \<Rightarrow> approval_level \<Rightarrow> org_unit \<Rightarrow> bool" where
  "hasApprovers st now key level unit \<longleftrightarrow> approversFor st now key level unit \<noteq> []"

text \<open>\<open>keysByRole.get(roleId)?.has(permissionKey)\<close>: the map keeps the last role of an id.\<close>

definition role_has_key :: "role_doc list \<Rightarrow> string \<Rightarrow> string \<Rightarrow> bool" where
  "role_has_key roles roleId key =
     (case List.find (\<lambda>r. ro_id r = roleId) (rev roles) of None \<Rightarrow> False
      | Some r \<Rightarrow> key \<in> set (ro_permissionKeys r))"

definition standsOn :: "access_store \<Rightarrow> string \<Rightarrow> org_unit \<Rightarrow> string \<Rightarrow> approval_level \<Rightarrow> bool" where
  "standsOn st userId unit key level \<longleftrightarrow>
     list_ex (\<lambda>a. role_has_key (findRolesByIds st (map as_roleId (findActiveForUser st userId))) (as_roleId a) key \<and>
       grantMeetsLevel (shape_of a) level unit) (findActiveForUser st userId) \<or>
     list_ex (\<lambda>g. key \<in> set (dg_permissionKeys g) \<and> delegationMeetsLevel (delegation_shape_of g) level unit)
       (findDelegationsForUser st userId)"

definition ownStepsOf :: "access_store \<Rightarrow> string \<Rightarrow> resolved_step list \<Rightarrow> org_unit \<Rightarrow> nat list" where
  "ownStepsOf st userId steps unit =
     filter (\<lambda>i. standsOn st userId unit (cs_permissionKey (steps ! i)) (cs_level (steps ! i))) [0..<length steps]"

section \<open>The service\<close>

record workflow_doc =
  wf_id :: string
  wf_requestType :: string
  wf_departmentCatalogId :: "string option"
  wf_branchId :: "string option"
  wf_steps :: "chain_step list"
  wf_isActive :: bool
  wf_isDeleted :: bool

definition workflow_candidate :: "workflow_doc \<Rightarrow> workflow_doc candidate" where
  "workflow_candidate w = \<lparr>cand_departmentCatalogId = wf_departmentCatalogId w, cand_branchId = wf_branchId w,
     cand_value = w\<rparr>"

definition request_unit_of :: "org_unit \<Rightarrow> request_unit" where
  "request_unit_of unit = \<lparr>ru_branchId = ou_branchId unit, ru_departmentCatalogId = ou_departmentCatalogId unit\<rparr>"

text \<open>\<open>chainFor\<close>, over the workflows in the order the sorted query returns them.\<close>

definition chainFor ::
  "workflow_doc list \<Rightarrow> access_store \<Rightarrow> instant \<Rightarrow> string \<Rightarrow> org_unit \<Rightarrow> resolved_step list" where
  "chainFor workflows st now requestType unit =
     (case selectChain (map workflow_candidate (filter (\<lambda>w. wf_requestType w = requestType \<and> wf_isActive w \<and>
         \<not> wf_isDeleted w) workflows)) (request_unit_of unit) of
        None \<Rightarrow> []
      | Some c \<Rightarrow> resolveChain (wf_steps (cand_value c))
          (\<lambda>s. hasApprovers st now (cs_permissionKey s) (cs_level s) unit))"

definition approval_service_decide ::
  "workflow_doc list \<Rightarrow> access_store \<Rightarrow> string \<Rightarrow> org_unit \<Rightarrow> decided_entry list \<Rightarrow> string \<Rightarrow> bool \<Rightarrow>
     approval_decision \<Rightarrow> string option \<Rightarrow> instant \<Rightarrow> app_error + decide_result" where
  "approval_service_decide workflows st requestType unit decisions userId mayOverride decision comment now =
     approval_decide (chainFor workflows st now requestType unit) decisions
       (ownStepsOf st userId (chainFor workflows st now requestType unit) unit)
       mayOverride userId decision comment now"

section \<open>The two directions agree\<close>

definition current :: "instant \<Rightarrow> access_store \<Rightarrow> access_store" where
  "current now st = st\<lparr>acc_assignments := filter (in_window now) (acc_assignments st)\<rparr>"

definition roles_ok :: "access_store \<Rightarrow> bool" where
  "roles_ok st \<longleftrightarrow> distinct (map ro_id (acc_roles st))"

lemma role_has_key_iff:
  assumes "roles_ok st"
  shows "role_has_key (findRolesByIds st ids) roleId key \<longleftrightarrow>
    roleId \<in> set ids \<and> roleId \<in> set (map ro_id (findGrantingPermission st key))"
proof -
  let ?f = "List.find (\<lambda>r. ro_id r = roleId) (rev (findRolesByIds st ids))"
  have uniq: "r = r'" if "r \<in> set (acc_roles st)" "r' \<in> set (acc_roles st)" "ro_id r = ro_id r'" for r r'
    using assms that unfolding roles_ok_def by (metis distinct_map inj_onD)
  show ?thesis
  proof (cases ?f)
    case None
    then have "\<not> (\<exists>r \<in> set (acc_roles st). ro_id r = roleId \<and> roleId \<in> set ids \<and> \<not> ro_isDeleted r)"
      by (auto simp: find_None_iff_all findRolesByIds_def)
    then show ?thesis using None by (auto simp: role_has_key_def findGrantingPermission_def)
  next
    case (Some r)
    then have r: "r \<in> set (acc_roles st)" "ro_id r = roleId" "roleId \<in> set ids" "\<not> ro_isDeleted r"
      using find_Some_iff_hd [OF Some] by (auto simp: findRolesByIds_def)
    have "roleId \<in> set (map ro_id (findGrantingPermission st key)) \<longleftrightarrow> key \<in> set (ro_permissionKeys r)"
    proof
      assume "roleId \<in> set (map ro_id (findGrantingPermission st key))"
      then obtain r' where "r' \<in> set (acc_roles st)" "ro_id r' = roleId" "key \<in> set (ro_permissionKeys r')"
        by (auto simp: findGrantingPermission_def)
      then show "key \<in> set (ro_permissionKeys r)" using uniq [of r r'] r by simp
    next
      assume "key \<in> set (ro_permissionKeys r)"
      then show "roleId \<in> set (map ro_id (findGrantingPermission st key))"
        using r by (auto simp: findGrantingPermission_def)
    qed
    then show ?thesis using Some r by (simp add: role_has_key_def)
  qed
qed

lemma delegation_found:
  "g \<in> set (delegations_for st key level unit) \<and> delegationMeetsLevel (delegation_shape_of g) level unit \<longleftrightarrow>
   g \<in> set (acc_delegations st) \<and> key \<in> set (dg_permissionKeys g) \<and> \<not> dg_isDeleted g \<and>
     delegationMeetsLevel (delegation_shape_of g) level unit"
  by (cases level; cases "ou_branchId unit"; cases "ou_departmentCatalogId unit")
    (auto simp: delegations_for_def delegationMeetsLevel_def findByKeyInBranch_def delegation_shape_of_def
      findByKeyForDepartmentEverywhere_def delegation_shape.defs split: if_splits)

lemma approversFor_iff:
  "u \<in> set (approversFor st now key level unit) \<longleftrightarrow>
     (\<exists>a \<in> set (acc_assignments st). as_userId a = u \<and> \<not> as_isDeleted a \<and> in_window now a \<and>
        as_roleId a \<in> set (map ro_id (findGrantingPermission st key)) \<and> grantMeetsLevel (shape_of a) level unit) \<or>
     (\<exists>g \<in> set (acc_delegations st). dg_userId g = u \<and> key \<in> set (dg_permissionKeys g) \<and> \<not> dg_isDeleted g \<and>
        delegationMeetsLevel (delegation_shape_of g) level unit)"
proof -
  define K where "K = set (map ro_id (findGrantingPermission st key))"
  have r: "set (findActiveForRoles st now (map ro_id (findGrantingPermission st key))) =
      {a \<in> set (acc_assignments st). as_roleId a \<in> set (map ro_id (findGrantingPermission st key)) \<and>
        \<not> as_isDeleted a \<and> in_window now a}"
    by (auto simp: findActiveForRoles_def)
  have d: "{g \<in> set (delegations_for st key level unit). delegationMeetsLevel (delegation_shape_of g) level unit} =
      {g \<in> set (acc_delegations st). key \<in> set (dg_permissionKeys g) \<and> \<not> dg_isDeleted g \<and>
        delegationMeetsLevel (delegation_shape_of g) level unit}"
    using delegation_found [of _ st key level unit] by blast
  have "set (approversFor st now key level unit) =
      as_userId ` {a \<in> set (findActiveForRoles st now (map ro_id (findGrantingPermission st key))).
        grantMeetsLevel (shape_of a) level unit} \<union>
      dg_userId ` {g \<in> set (delegations_for st key level unit). delegationMeetsLevel (delegation_shape_of g) level unit}"
    by (auto simp: approversFor_def)
  then have e: "set (approversFor st now key level unit) = as_userId ` {a \<in> {a \<in> set (acc_assignments st).
        as_roleId a \<in> K \<and> \<not> as_isDeleted a \<and> in_window now a}. grantMeetsLevel (shape_of a) level unit} \<union>
      dg_userId ` {g \<in> set (acc_delegations st). key \<in> set (dg_permissionKeys g) \<and> \<not> dg_isDeleted g \<and>
        delegationMeetsLevel (delegation_shape_of g) level unit}"
    unfolding r d K_def .
  show ?thesis unfolding e K_def [symmetric] by auto
qed

lemma standsOn_iff:
  assumes "roles_ok st"
  shows "standsOn st u unit key level \<longleftrightarrow>
     (\<exists>a \<in> set (acc_assignments st). as_userId a = u \<and> \<not> as_isDeleted a \<and>
        as_roleId a \<in> set (map ro_id (findGrantingPermission st key)) \<and> grantMeetsLevel (shape_of a) level unit) \<or>
     (\<exists>g \<in> set (acc_delegations st). dg_userId g = u \<and> key \<in> set (dg_permissionKeys g) \<and> \<not> dg_isDeleted g \<and>
        delegationMeetsLevel (delegation_shape_of g) level unit)"
proof -
  define K where "K = set (map ro_id (findGrantingPermission st key))"
  have i: "a \<in> set (findActiveForUser st u) \<Longrightarrow> as_roleId a \<in> set (map as_roleId (findActiveForUser st u))" for a
    by simp
  have a: "a \<in> set (findActiveForUser st u) \<longleftrightarrow> a \<in> set (acc_assignments st) \<and> as_userId a = u \<and> \<not> as_isDeleted a" for a
    by (auto simp: findActiveForUser_def)
  have g: "g \<in> set (findDelegationsForUser st u) \<longleftrightarrow> g \<in> set (acc_delegations st) \<and> dg_userId g = u \<and> \<not> dg_isDeleted g" for g
    by (auto simp: findDelegationsForUser_def)
  show ?thesis
    unfolding standsOn_def role_has_key_iff [OF assms] list_ex_iff K_def [symmetric] using i a g by blast
qed

lemma current_agree:
  assumes "roles_ok st"
  shows "u \<in> set (approversFor st now key level unit) \<longleftrightarrow> standsOn (current now st) u unit key level"
proof -
  have "roles_ok (current now st)" "findGrantingPermission (current now st) key = findGrantingPermission st key"
    using assms by (simp_all add: roles_ok_def current_def findGrantingPermission_def)
  then show ?thesis unfolding approversFor_iff by (simp add: standsOn_iff) (auto simp: current_def)
qed

text \<open>The contract between the engine and the permission layer, and what it gives.\<close>

locale approver_directory =
  fixes holders :: "string \<Rightarrow> approval_level \<Rightarrow> string list"
    and stands :: "string \<Rightarrow> string \<Rightarrow> approval_level \<Rightarrow> bool"
  assumes agree: "u \<in> set (holders key level) \<longleftrightarrow> stands u key level"
begin

definition resolved :: "chain_step list \<Rightarrow> resolved_step list" where
  "resolved steps = resolveChain steps (\<lambda>s. holders (cs_permissionKey s) (cs_level s) \<noteq> [])"

lemma someone_can_decide:
  assumes "statusOf (resolved steps) ds = ChainPending"
  shows "\<exists>u step covers. viewerDecision (resolved steps) ds
    (filter (\<lambda>i. stands u (cs_permissionKey (resolved steps ! i)) (cs_level (resolved steps ! i)))
      [0..<length (resolved steps)]) = Some (step, covers)"
proof -
  obtain live where live: "liveIndex (resolved steps) (progressOf ds) = Some live"
    using assms by (auto simp: statusOf_def split: if_splits)
  then have l: "live < length (resolved steps)" "staffed (resolved steps ! live)" by (simp_all add: liveIndex_Some)
  then have "holders (cs_permissionKey (resolved steps ! live)) (cs_level (resolved steps ! live)) \<noteq> []"
    by (simp add: resolved_def resolveChain_def resolve_step_def)
  then obtain u where u: "stands u (cs_permissionKey (resolved steps ! live)) (cs_level (resolved steps ! live))"
    using agree by (metis list.set_intros(1) neq_Nil_conv)
  let ?own = "filter (\<lambda>i. stands u (cs_permissionKey (resolved steps ! i)) (cs_level (resolved steps ! i)))
    [0..<length (resolved steps)]"
  have "decisionFor ?own live \<noteq> None" using l u by (auto simp: decisionFor_None)
  then obtain step covers where d: "decisionFor ?own live = Some (step, covers)" by auto
  have "viewerDecision (resolved steps) ds ?own = decisionFor ?own live"
    using assms live by (simp add: viewerDecision_def liveStep_def)
  then show ?thesis using d by metis
qed

end

text \<open>The model's lookups are such a directory once a person's own grants are read inside their window.
  The primary key makes role ids unique; a list that breaks it is no collection and grants nothing.\<close>

definition keyed_roles :: "access_store \<Rightarrow> access_store" where
  "keyed_roles st = (if roles_ok st then st else st\<lparr>acc_roles := []\<rparr>)"

lemma keyed_roles_ok [simp]: "roles_ok (keyed_roles st)"
  by (simp add: keyed_roles_def roles_ok_def)

interpretation access: approver_directory
    "\<lambda>key level. approversFor (keyed_roles st) now key level unit"
    "\<lambda>u key level. standsOn (current now (keyed_roles st)) u unit key level" for st now unit
  by unfold_locales (rule current_agree [OF keyed_roles_ok])

definition windows_ok :: "instant \<Rightarrow> access_store \<Rightarrow> bool" where
  "windows_ok now st \<longleftrightarrow> list_all (\<lambda>a. as_isDeleted a \<or> in_window now a) (acc_assignments st)"

lemma standsOn_current:
  assumes "roles_ok st" "windows_ok now st"
  shows "standsOn (current now st) u unit key level = standsOn st u unit key level"
proof -
  have "roles_ok (current now st)" "findGrantingPermission (current now st) key = findGrantingPermission st key"
    using assms(1) by (simp_all add: roles_ok_def current_def findGrantingPermission_def)
  moreover have "\<And>a. a \<in> set (acc_assignments st) \<Longrightarrow> \<not> as_isDeleted a \<Longrightarrow> in_window now a"
    using assms(2) by (auto simp: windows_ok_def list_all_iff)
  ultimately show ?thesis
    unfolding standsOn_iff [OF assms(1)] standsOn_iff [OF \<open>roles_ok (current now st)\<close>] by (auto simp: current_def)
qed

section \<open>Properties\<close>

text \<open>"Who stands on this rung" and "which rungs do I stand on" are two queries over different indexes,
  and they give the same answer for every account, provided every live assignment is inside its
  validity window.\<close>

theorem lookups_agree:
  assumes "roles_ok st" "windows_ok now st"
  shows "i \<in> set (ownStepsOf st u steps unit) \<longleftrightarrow> i < length steps \<and>
    u \<in> set (approversFor st now (cs_permissionKey (steps ! i)) (cs_level (steps ! i)) unit)"
  using current_agree [OF assms(1)] standsOn_current [OF assms] by (simp add: ownStepsOf_def)

definition demo_access :: access_store where
  "demo_access =
     \<lparr>acc_roles = [\<lparr>ro_id = ''r1'', ro_permissionKeys = [''leave.approve''], ro_isDeleted = False\<rparr>],
      acc_assignments =
        [\<lparr>g_scope = ''branch'', g_branchId = Some ''b1'', g_branchIds = [], g_departmentCatalogId = None,
          g_departmentId = None, g_allBranches = False, as_userId = ''u1'', as_roleId = ''r1'',
          as_validFrom = None, as_validTo = Some 1000, as_isDeleted = False\<rparr>,
         \<lparr>g_scope = ''branch'', g_branchId = Some ''b1'', g_branchIds = [], g_departmentCatalogId = None,
          g_departmentId = None, g_allBranches = False, as_userId = ''u2'', as_roleId = ''r1'',
          as_validFrom = None, as_validTo = None, as_isDeleted = False\<rparr>],
      acc_delegations = []\<rparr>"

definition demo_unit :: org_unit where
  "demo_unit = \<lparr>ou_branchId = Some ''b1'', ou_departmentCatalogId = Some ''c1'', ou_departmentId = Some ''d1''\<rparr>"

definition demo_workflow :: workflow_doc where
  "demo_workflow = \<lparr>wf_id = ''w1'', wf_requestType = ''hr.leave'', wf_departmentCatalogId = None, wf_branchId = None,
     wf_steps = [\<lparr>cs_permissionKey = ''leave.approve'', cs_level = BranchLevel, cs_label = None\<rparr>],
     wf_isActive = True, wf_isDeleted = False\<rparr>"

theorem lookups_agree_witness:
  "0 \<in> set (ownStepsOf demo_access ''u1'' (chainFor [demo_workflow] demo_access 0 ''hr.leave'' demo_unit) demo_unit) \<longleftrightarrow>
     0 < length (chainFor [demo_workflow] demo_access 0 ''hr.leave'' demo_unit) \<and>
     ''u1'' \<in> set (approversFor demo_access 0
       (cs_permissionKey (chainFor [demo_workflow] demo_access 0 ''hr.leave'' demo_unit ! 0))
       (cs_level (chainFor [demo_workflow] demo_access 0 ''hr.leave'' demo_unit ! 0)) demo_unit)"
  by (rule lookups_agree; code_simp)

text \<open>The window matters: an account whose assignment has expired is not counted among the approvers of
  a rung, yet its own rungs are read without looking at the window, so it can still approve a request.\<close>

theorem expired_assignment_can_decide:
  "\<exists>res. ''u1'' \<notin> set (approversFor demo_access 2000 ''leave.approve'' BranchLevel demo_unit) \<and>
     approval_service_decide [demo_workflow] demo_access ''hr.leave'' demo_unit [] ''u1'' False
       DecideApproved None 2000 = Inr res \<and>
     dr_status res = ChainApproved \<and> dr_audit res = (None, [])"
proof -
  have "approval_service_decide [demo_workflow] demo_access ''hr.leave'' demo_unit [] ''u1'' False
       DecideApproved None 2000 =
     Inr (decide_with [\<lparr>cs_permissionKey = ''leave.approve'', cs_level = BranchLevel, cs_label = None, staffed = True\<rparr>] []
       \<lparr>at_stepIndex = 0, at_decision = DecideApproved, at_deciderUserId = ''u1'', at_comment = None,
        at_overriddenWith = None\<rparr> [] 2000)"
    by code_simp
  moreover have "''u1'' \<notin> set (approversFor demo_access 2000 ''leave.approve'' BranchLevel demo_unit)" by code_simp
  moreover have "dr_status (decide_with [\<lparr>cs_permissionKey = ''leave.approve'', cs_level = BranchLevel, cs_label = None, staffed = True\<rparr>] []
       \<lparr>at_stepIndex = 0, at_decision = DecideApproved, at_deciderUserId = ''u1'', at_comment = None,
        at_overriddenWith = None\<rparr> [] 2000) = ChainApproved" by code_simp
  ultimately show ?thesis by (simp add: decide_with_def)
qed



text \<open>A grant or a delegation puts its holder on at most one rung of a place: no authority satisfies two
  levels over the same unit.\<close>

theorem level_unique:
  assumes "l \<noteq> l'"
  shows "\<not> (grantMeetsLevel g l unit \<and> grantMeetsLevel g l' unit) \<and>
    \<not> (delegationMeetsLevel d l unit \<and> delegationMeetsLevel d l' unit)"
  using assms by (cases l; cases l'; auto simp: delegationMeetsLevel_def split: if_splits; metis)

theorem level_unique_witness:
  "\<not> (grantMeetsLevel (shape_of (hd (acc_assignments demo_access))) BranchLevel demo_unit \<and>
      grantMeetsLevel (shape_of (hd (acc_assignments demo_access))) UnitLevel demo_unit)"
  using level_unique [of BranchLevel UnitLevel] by simp

end
