(* ===== verification/Js_Number.thy ===== *)
theory Js_Number
  imports Complex_Main "HOL-Library.Log_Nat" Ecms_Prelude
begin

text \<open>
  The numbers of the language. A finite double is the rational it denotes, and every arithmetic
  operation of the source is the exact operation followed by \<open>fl\<close>, round to nearest with ties to
  even at 53 bits. The exponent range is not bounded: the amounts, counts and factors the modelled
  code handles stay far from overflow and from the subnormal numbers. \<open>jsnum\<close> is a number the way
  \<open>String(x)\<close> prints it: the shortest decimal that reads back as the same double.
\<close>

section \<open>Rounding to a double\<close>

text \<open>\<open>\<lfloor>log2 x\<rfloor>\<close> of a positive rational.\<close>

definition binade :: "rat \<Rightarrow> int" where
  "binade x =
     (case quotient_of x of (p, q) \<Rightarrow>
        (let k = bitlen p - bitlen q
         in if (2::rat) powi k \<le> x then k else k - 1))"

definition round_even :: "rat \<Rightarrow> int" where
  "round_even x =
     (let n = floor x; r = x - of_int n
      in if r < 1 / 2 then n else if 1 / 2 < r then n + 1 else if even n then n else n + 1)"

definition round_to_unit :: "rat \<Rightarrow> rat \<Rightarrow> rat" where
  "round_to_unit x u = of_int (round_even (x / u)) * u"

definition fl :: "rat \<Rightarrow> rat" where
  "fl x =
     (if x = 0 then 0 else sgn x * round_to_unit \<bar>x\<bar> (2 powi (binade \<bar>x\<bar> - 52)))"

text \<open>\<open>Math.round\<close>: to the nearest integer, ties towards plus infinity.\<close>

definition math_round :: "rat \<Rightarrow> int" where
  "math_round x = floor (x + 1 / 2)"

definition safe_integer :: "int \<Rightarrow> bool" where
  "safe_integer n \<longleftrightarrow> \<bar>n\<bar> \<le> 9007199254740991"

section \<open>Facts about the rounding\<close>

lemma powi_2_pos [simp]: "0 < (2::rat) powi k"
  by simp

lemma powi_2_add: "(2::rat) powi (i + j) = 2 powi i * 2 powi j"
  by (simp add: power_int_add)

lemma powi_2_mono: "i \<le> j \<Longrightarrow> (2::rat) powi i \<le> 2 powi j"
  by (simp add: power_int_increasing)

lemma powi_2_less_cancel: "(2::rat) powi i < 2 powi j \<Longrightarrow> i < j"
  using powi_2_mono [of j i] by (meson not_le)

lemma floorlog_2_bounds:
  assumes "0 < n"
  shows "2 ^ (floorlog 2 n - 1) \<le> n" "n < 2 ^ floorlog 2 n" "1 \<le> floorlog 2 n"
proof -
  show "2 ^ (floorlog 2 n - 1) \<le> n" "n < 2 ^ floorlog 2 n"
    using floorlog_bounds [of n 2] assms by auto
  show "1 \<le> floorlog 2 n" using assms floorlog_eq_zero_iff [of 2 n] by linarith
qed

lemma binade_bounds:
  assumes "0 < x"
  shows "(2::rat) powi binade x \<le> x" "x < 2 powi (binade x + 1)"
proof -
  obtain p q where pq: "quotient_of x = (p, q)" by (cases "quotient_of x")
  have x: "x = of_int p / of_int q" by (rule quotient_of_div [OF pq])
  have q: "0 < q" by (rule quotient_of_denom_pos [OF pq])
  have p: "0 < p" using assms x q by (simp add: zero_less_divide_iff)
  define a b where "a = floorlog 2 (nat p)" and "b = floorlog 2 (nat q)"
  have P: "2 ^ (a - 1) \<le> nat p" "nat p < 2 ^ a" "1 \<le> a"
    and Q: "2 ^ (b - 1) \<le> nat q" "nat q < 2 ^ b" "1 \<le> b"
    using floorlog_2_bounds [of "nat p"] floorlog_2_bounds [of "nat q"] p q
    by (auto simp: a_def b_def)
  have ip: "(2::rat) powi (int a - 1) \<le> of_int p" "of_int p < (2::rat) powi int a"
  proof -
    have "of_nat (2 ^ (a - 1)) \<le> (of_nat (nat p) :: rat)" "of_nat (nat p) < (of_nat (2 ^ a) :: rat)"
      using P(1,2) of_nat_le_iff of_nat_less_iff by blast+
    then show "(2::rat) powi (int a - 1) \<le> of_int p" "of_int p < (2::rat) powi int a"
      using p P(3) by (auto simp: power_int_def nat_diff_distrib)
  qed
  have iq: "(2::rat) powi (int b - 1) \<le> of_int q" "of_int q < (2::rat) powi int b"
  proof -
    have "of_nat (2 ^ (b - 1)) \<le> (of_nat (nat q) :: rat)" "of_nat (nat q) < (of_nat (2 ^ b) :: rat)"
      using Q(1,2) of_nat_le_iff of_nat_less_iff by blast+
    then show "(2::rat) powi (int b - 1) \<le> of_int q" "of_int q < (2::rat) powi int b"
      using q Q(3) by (auto simp: power_int_def nat_diff_distrib)
  qed
  have qpos: "(0::rat) < of_int q" using q by simp
  have lo: "(2::rat) powi (int a - int b - 1) \<le> x"
  proof -
    have "(2::rat) powi (int a - int b - 1) * of_int q \<le> 2 powi (int a - int b - 1) * 2 powi int b"
      using iq(2) by (intro mult_left_mono) auto
    also have "\<dots> = 2 powi (int a - 1)" by (subst powi_2_add [symmetric]) simp
    also have "\<dots> \<le> of_int p" by (rule ip(1))
    finally show ?thesis using qpos by (simp add: x pos_le_divide_eq)
  qed
  have hi: "x < (2::rat) powi (int a - int b + 1)"
  proof -
    have "(of_int p :: rat) < 2 powi int a" by (rule ip(2))
    also have "\<dots> = 2 powi (int a - int b + 1) * 2 powi (int b - 1)"
      by (subst powi_2_add [symmetric]) simp
    also have "\<dots> \<le> 2 powi (int a - int b + 1) * of_int q"
      using iq(1) by (intro mult_left_mono) auto
    finally show ?thesis using qpos by (simp add: x pos_divide_less_eq)
  qed
  have eq: "binade x = (if (2::rat) powi (int a - int b) \<le> x then int a - int b else int a - int b - 1)"
    by (simp add: binade_def pq a_def b_def Let_def bitlen_def)
  show "(2::rat) powi binade x \<le> x" "x < 2 powi (binade x + 1)"
    using lo hi by (auto simp: eq algebra_simps)
qed

lemma binade_eq:
  assumes "(2::rat) powi k \<le> x" "x < 2 powi (k + 1)"
  shows "binade x = k"
proof -
  have x: "0 < x" using assms(1) powi_2_pos [of k] by linarith
  have "k < binade x + 1" using assms(1) binade_bounds(2) [OF x] by (intro powi_2_less_cancel) linarith
  moreover have "binade x < k + 1" using assms(2) binade_bounds(1) [OF x] by (intro powi_2_less_cancel) linarith
  ultimately show ?thesis by linarith
qed

lemma binade_mono: "0 < x \<Longrightarrow> x \<le> y \<Longrightarrow> binade x \<le> binade y"
proof -
  assume x: "0 < x" and le: "x \<le> y"
  then have "(2::rat) powi binade x < 2 powi (binade y + 1)"
    using binade_bounds(1) [OF x] binade_bounds(2) [of y] by linarith
  then show ?thesis using powi_2_less_cancel by fastforce
qed

lemma round_even_bounds: "of_int (round_even x) - 1 / 2 \<le> x \<and> x \<le> of_int (round_even x) + 1 / 2"
proof -
  define n where "n = floor x"
  have n: "of_int n \<le> x" "x < of_int n + 1" unfolding n_def by linarith+
  have "round_even x = (if x - of_int n < 1 / 2 then n else if 1 / 2 < x - of_int n then n + 1
      else if even n then n else n + 1)"
    by (simp only: round_even_def Let_def n_def)
  then show ?thesis using n
    by (cases "x - of_int n < 1 / 2"; cases "1 / 2 < x - of_int n"; cases "even n"; simp; linarith)
qed

lemma round_even_of_int [simp]: "round_even (of_int n) = n"
  by (simp add: round_even_def)

lemma round_even_mono:
  assumes "x \<le> y"
  shows "round_even x \<le> round_even y"
proof (cases "floor x = floor y")
  case True
  then show ?thesis using assms by (auto simp: round_even_def Let_def)
next
  case False
  have fl: "floor x \<le> floor y" using assms by (rule floor_mono)
  have "round_even x \<le> floor x + 1" by (auto simp: round_even_def Let_def)
  moreover have "floor y \<le> round_even y" by (auto simp: round_even_def Let_def)
  ultimately show ?thesis using fl False by linarith
qed

lemma fl_0 [simp]: "fl 0 = 0"
  by (simp add: fl_def)

lemma fl_minus: "fl (- x) = - fl x"
  by (simp add: fl_def sgn_minus)

lemma fl_pos_eq:
  "0 < x \<Longrightarrow> fl x = of_int (round_even (x / 2 powi (binade x - 52))) * 2 powi (binade x - 52)"
  by (simp add: fl_def round_to_unit_def)

text \<open>A positive number rounds into its own binade, its upper end included.\<close>

lemma fl_binade:
  assumes "0 < x"
  shows "2 powi binade x \<le> fl x" "fl x \<le> 2 powi (binade x + 1)"
proof -
  let ?u = "(2::rat) powi (binade x - 52)"
  have u: "0 < ?u" by simp
  have e: "2 powi binade x = of_int (2 ^ 52) * ?u" "2 powi (binade x + 1) = of_int (2 ^ 53) * ?u"
    using powi_2_add [of 52 "binade x - 52"] powi_2_add [of 53 "binade x - 52"]
    by (simp_all add: add.commute)
  have "of_int (2 ^ 52) \<le> x / ?u" "x / ?u \<le> of_int (2 ^ 53)"
    using binade_bounds [OF assms] u unfolding e by (simp_all add: pos_le_divide_eq pos_divide_le_eq)
  then have "2 ^ 52 \<le> round_even (x / ?u)" "round_even (x / ?u) \<le> 2 ^ 53"
    using round_even_mono [of "of_int (2 ^ 52)" "x / ?u"] round_even_mono [of "x / ?u" "of_int (2 ^ 53)"]
    by (simp_all only: round_even_of_int)
  then have "(of_int (2 ^ 52) :: rat) \<le> of_int (round_even (x / ?u))" "of_int (round_even (x / ?u)) \<le> (of_int (2 ^ 53) :: rat)"
    by (simp_all only: of_int_le_iff)
  then show "2 powi binade x \<le> fl x" "fl x \<le> 2 powi (binade x + 1)"
    unfolding e fl_pos_eq [OF assms] using u by (auto intro: mult_right_mono)
qed

lemma fl_pos: "0 < x \<Longrightarrow> 0 < fl x"
  using fl_binade(1) [of x] powi_2_pos [of "binade x"] by linarith

lemma fl_nonneg: "0 \<le> x \<Longrightarrow> 0 \<le> fl x"
  using fl_pos [of x] by (cases "x = 0") auto

lemma fl_mono_pos:
  assumes "0 < x" "x \<le> y"
  shows "fl x \<le> fl y"
proof (cases "binade x = binade y")
  case True
  have "round_even (x / 2 powi (binade x - 52)) \<le> round_even (y / 2 powi (binade x - 52))"
    using assms(2) by (intro round_even_mono divide_right_mono) auto
  then show ?thesis using assms True by (simp add: fl_pos_eq mult_right_mono)
next
  case False
  then have "binade x + 1 \<le> binade y" using binade_mono [OF assms] by linarith
  then have "(2::rat) powi (binade x + 1) \<le> 2 powi binade y" by (rule powi_2_mono)
  then show ?thesis using fl_binade(2) [of x] fl_binade(1) [of y] assms by linarith
qed

lemma fl_mono: "x \<le> y \<Longrightarrow> fl x \<le> fl y"
proof -
  assume le: "x \<le> y"
  consider "0 < x" | "x \<le> 0" "0 \<le> y" | "y < 0" using le by linarith
  then show ?thesis
  proof cases
    case 1
    then show ?thesis using le by (rule fl_mono_pos)
  next
    case 2
    have "fl x \<le> 0" using fl_nonneg [of "- x"] 2 by (simp add: fl_minus)
    then show ?thesis using fl_nonneg [OF 2(2)] by linarith
  next
    case 3
    then have "fl (- y) \<le> fl (- x)" using le by (intro fl_mono_pos) auto
    then show ?thesis by (simp add: fl_minus)
  qed
qed

text \<open>The relative error of one rounding is at most \<open>2^-53\<close>.\<close>

lemma fl_error:
  assumes "0 \<le> x"
  shows "\<bar>fl x - x\<bar> \<le> x / 2 ^ 53"
proof (cases "x = 0")
  case False
  then have x: "0 < x" using assms by simp
  let ?u = "(2::rat) powi (binade x - 52)"
  have u: "0 < ?u" by simp
  have "\<bar>of_int (round_even (x / ?u)) - x / ?u\<bar> \<le> 1 / 2" using round_even_bounds [of "x / ?u"] by linarith
  then have "\<bar>of_int (round_even (x / ?u)) - x / ?u\<bar> * ?u \<le> 1 / 2 * ?u" using u by (intro mult_right_mono) auto
  moreover have "\<bar>of_int (round_even (x / ?u)) - x / ?u\<bar> * ?u = \<bar>fl x - x\<bar>"
    using u by (simp add: fl_pos_eq [OF x] abs_mult_pos left_diff_distrib)
  moreover have "1 / 2 * ?u = 2 powi binade x / 2 ^ 53"
    using powi_2_add [of 52 "binade x - 52"] by simp
  moreover have "2 powi binade x / 2 ^ 53 \<le> x / 2 ^ 53"
    using binade_bounds(1) [OF x] by (intro divide_right_mono) auto
  ultimately show ?thesis by linarith
qed simp

text \<open>Integers of at most 53 bits are doubles.\<close>

lemma fl_of_int:
  assumes "\<bar>n\<bar> \<le> 2 ^ 53"
  shows "fl (of_int n) = of_int n"
proof -
  have pos: "fl (of_int m) = of_int m" if m: "0 < m" "m \<le> 2 ^ 53" for m :: int
  proof -
    let ?x = "of_int m :: rat"
    have x: "0 < ?x" using m by simp
    have "(2::rat) powi binade ?x \<le> of_int (2 ^ 53)"
      using binade_bounds(1) [OF x] m(2) by (metis of_int_le_iff order_trans)
    then have "(2::rat) powi binade ?x \<le> 2 powi 53" by simp
    then have k: "binade ?x \<le> 53" by (meson not_le powi_2_less_cancel powi_2_mono less_irrefl order_less_le_trans order_le_less_trans power_int_strict_increasing one_less_numeral_iff semiring_norm(76))
    show ?thesis
    proof (cases "binade ?x \<le> 52")
      case True
      then have "?x / 2 powi (binade ?x - 52) = of_int (m * 2 ^ nat (52 - binade ?x))"
        by (simp add: power_int_def field_simps)
      then show ?thesis unfolding fl_pos_eq [OF x] by (simp only: round_even_of_int) (simp add: True power_int_def field_simps)
    next
      case False
      then have "binade ?x = 53" using k by linarith
      then have "(of_int (2 ^ 53) :: rat) \<le> of_int m" using binade_bounds(1) [OF x] by simp
      then have "2 ^ 53 \<le> m" by (simp only: of_int_le_iff)
      then have m53: "m = 2 ^ 53" using m(2) by (rule antisym [OF _ _, symmetric])
      have b: "binade (of_int (2 ^ 53)) = 53" using \<open>binade ?x = 53\<close> by (simp only: m53)
      have "(of_int (2 ^ 53) :: rat) / 2 powi (53 - 52) = of_int (2 ^ 52)" by simp
      moreover have "(0::rat) < of_int (2 ^ 53)" by simp
      ultimately have "fl (of_int (2 ^ 53)) = of_int (2 ^ 52) * 2 powi (53 - 52)"
        using fl_pos_eq [of "of_int (2 ^ 53)"] by (simp only: b round_even_of_int)
      then show ?thesis unfolding m53 by simp
    qed
  qed
  consider "n = 0" | "0 < n" | "n < 0" by linarith
  then show ?thesis
  proof cases
    case 3
    have "fl (of_int (- n)) = of_int (- n)" using 3 assms by (intro pos) linarith+
    then show ?thesis using fl_minus [of "of_int n"] by simp
  qed (use pos [of n] assms in auto)
qed

lemma fl_1 [simp]: "fl 1 = 1"
  using fl_of_int [of 1] by simp

lemma math_round_of_int [simp]: "math_round (of_int n) = n"
  unfolding math_round_def by (rule floor_unique) simp_all

lemma math_round_mono: "x \<le> y \<Longrightarrow> math_round x \<le> math_round y"
  by (simp add: math_round_def floor_mono)

lemma math_round_bounds: "of_int (math_round x) - 1 / 2 \<le> x \<and> x < of_int (math_round x) + 1 / 2"
  unfolding math_round_def by linarith

lemma fl_error_abs: "\<bar>fl x - x\<bar> \<le> \<bar>x\<bar> / 2 ^ 53"
proof (cases "0 \<le> x")
  case True
  then show ?thesis using fl_error [of x] by simp
next
  case False
  then have "\<bar>fl (- x) - - x\<bar> \<le> - x / 2 ^ 53" by (intro fl_error) simp
  then show ?thesis using False by (simp add: fl_minus abs_minus_commute)
qed

text \<open>A share stays a share.\<close>

lemma fl_unit: "0 \<le> x \<Longrightarrow> x \<le> 1 \<Longrightarrow> 0 \<le> fl x \<and> fl x \<le> 1"
  using fl_nonneg [of x] fl_mono [of x 1] by simp

text \<open>A double within a thousandth of a whole number of hundredths, times 100, rounds to that number.\<close>

lemma round_near_cents:
  assumes n: "\<bar>n\<bar> \<le> 1000000000000000" and x: "\<bar>x - of_int n / 100\<bar> \<le> 1 / 800"
  shows "of_int n - 3 / 8 \<le> fl (x * 100)" "fl (x * 100) \<le> of_int n + 3 / 8" "math_round (fl (x * 100)) = n"
proof -
  have "(of_int \<bar>n\<bar> :: rat) \<le> of_int 1000000000000000" using n by (simp only: of_int_le_iff)
  then have nb: "\<bar>of_int n :: rat\<bar> \<le> 1000000000000000" by simp
  have a: "\<bar>x * 100 - of_int n\<bar> \<le> 1 / 8" using x by (simp add: abs_le_iff field_simps)
  then have "\<bar>x * 100\<bar> \<le> 1000000000000001" using nb by linarith
  then have "\<bar>x * 100\<bar> / 2 ^ 53 \<le> 1 / 4" by simp
  then have "\<bar>fl (x * 100) - x * 100\<bar> \<le> 1 / 4" using fl_error_abs [of "x * 100"] by linarith
  then show lo: "of_int n - 3 / 8 \<le> fl (x * 100)" and hi: "fl (x * 100) \<le> of_int n + 3 / 8"
    using a by linarith+
  show "math_round (fl (x * 100)) = n"
    unfolding math_round_def by (rule floor_unique) (use lo hi in linarith)+
qed

lemma cents_near:
  assumes "\<bar>n\<bar> \<le> 1000000000000000"
  shows "\<bar>fl (of_int n / 100) - of_int n / 100\<bar> \<le> 1 / 800"
proof -
  have "(of_int \<bar>n\<bar> :: rat) \<le> of_int 1000000000000000" using assms by (simp only: of_int_le_iff)
  then have "\<bar>of_int n / 100 :: rat\<bar> \<le> 10000000000000" by simp
  then have "\<bar>of_int n / 100 :: rat\<bar> / 2 ^ 53 \<le> 1 / 800" by simp
  then show ?thesis using fl_error_abs [of "of_int n / 100"] by linarith
qed

lemma round_cents: "\<bar>n\<bar> \<le> 1000000000000000 \<Longrightarrow> math_round (fl (fl (of_int n / 100) * 100)) = n"
  using round_near_cents(3) [OF _ cents_near] by blast

text \<open>The exponent is unbounded, so scaling by a power of two commutes with rounding, and every
  fraction of at most 53 bits over a power of two is a double.\<close>

lemma fl_half: "fl (x / 2) = fl x / 2"
proof -
  have pos: "fl (y / 2) = fl y / 2" if y: "0 < y" for y :: rat
  proof -
    have y2: "0 < y / 2" using y by simp
    have b: "binade (y / 2) = binade y - 1"
      using binade_bounds [OF y] powi_2_add [of 1 "binade y - 1"] powi_2_add [of 1 "binade y"]
      by (intro binade_eq) (simp_all add: field_simps)
    have s: "(2::rat) powi (binade y - 1 - 52) = 2 powi (binade y - 52) / 2"
      using powi_2_add [of 1 "binade y - 1 - 52"] by (simp add: algebra_simps)
    show ?thesis unfolding fl_pos_eq [OF y] fl_pos_eq [OF y2] b s by simp
  qed
  consider "x = 0" | "0 < x" | "0 < - x" by linarith
  then show ?thesis
  proof cases
    case 3
    then show ?thesis using pos [of "- x"] by (simp add: fl_minus)
  qed (use pos in auto)
qed

lemma fl_dyadic: "\<bar>k\<bar> \<le> 2 ^ 53 \<Longrightarrow> fl (of_int k / 2 ^ m) = of_int k / 2 ^ m"
proof (induction m)
  case (Suc m)
  have "of_int k / 2 ^ Suc m = of_int k / 2 ^ m / (2::rat)" by simp
  then show ?case using Suc by (simp only: fl_half)
qed (simp add: fl_of_int)

lemma fl_numeral [simp]: "numeral n \<le> (9007199254740992::int) \<Longrightarrow> fl (numeral n) = numeral n"
  using fl_of_int [of "numeral n"] by simp

lemma math_round_numeral [simp]: "math_round (numeral n) = numeral n" "math_round 0 = 0" "math_round 1 = 1"
  using math_round_of_int [of "numeral n"] math_round_of_int [of 0] math_round_of_int [of 1] by simp_all

end
