(* ===== verification/Custody_Data.thy ===== *)
theory Custody_Data
  imports Business_Date Js_Number "HOL-Library.List_Lexorder" "HOL-Library.Product_Lexorder"
    "HOL-Library.Char_ord"
begin

text \<open>
  The data of the fleet's custody fund: the documents of its collections
  (\<open>fleet/custody/custody-operation.model.ts\<close>, \<open>custody-memo.model.ts\<close>, \<open>fleet/receipts/receipt.model.ts\<close>,
  \<open>fleet/license-expenses/license-expense.model.ts\<close>), money in piastres (\<open>custody-fund.ts\<close>,
  \<open>custody-memo-totals.ts\<close>) and days. An amount is a double, a rational here; a count or a sum of whole
  piastres an \<open>int\<close>. A field that older rows lack is an \<open>option\<close>. The base field \<open>updatedAt\<close>, which
  nothing here reads, is left out.
\<close>

section \<open>Money\<close>

definition toPiastres :: "rat \<Rightarrow> int" where
  "toPiastres pounds = math_round (fl (pounds * 100))"

definition fromPiastres :: "int \<Rightarrow> rat" where
  "fromPiastres p = (if p = 0 then 0 else fl (of_int p / 100))"

text \<open>\<open>RECEIPT_PIASTRES\<close>, the expression the database sums: \<open>$floor\<close> of \<open>amount * 100 + 0.5\<close>, both steps on
  doubles.\<close>

definition receipt_piastres :: "rat \<Rightarrow> int" where
  "receipt_piastres amount = floor (fl (fl (amount * 100) + 1 / 2))"

section \<open>Kinds\<close>

datatype custody_source = MaintenanceSource | FuelSource | TyresSource | WashSource

definition FLEET_CUSTODY_SOURCES :: "custody_source list" where
  "FLEET_CUSTODY_SOURCES = [MaintenanceSource, FuelSource, TyresSource, WashSource]"

datatype licence_kind = RenewalPart | ExtensionPart

definition FLEET_LICENSE_EXPENSE_KINDS :: "licence_kind list" where
  "FLEET_LICENSE_EXPENSE_KINDS = [RenewalPart, ExtensionPart]"

text \<open>\<open>PART_ORDER\<close>: a renewal before an extension.\<close>

fun part_rank :: "licence_kind \<Rightarrow> nat" where
  "part_rank RenewalPart = 0"
| "part_rank ExtensionPart = 1"

instantiation licence_kind :: linorder
begin

definition less_eq_licence_kind :: "licence_kind \<Rightarrow> licence_kind \<Rightarrow> bool" where
  "less_eq_licence_kind a b \<longleftrightarrow> part_rank a \<le> part_rank b"

definition less_licence_kind :: "licence_kind \<Rightarrow> licence_kind \<Rightarrow> bool" where
  "less_licence_kind a b \<longleftrightarrow> part_rank a < part_rank b"

instance
proof
  fix a b :: licence_kind
  show "a \<le> b \<Longrightarrow> b \<le> a \<Longrightarrow> a = b"
    by (cases a; cases b) (auto simp: less_eq_licence_kind_def)
qed (auto simp: less_eq_licence_kind_def less_licence_kind_def)

end

datatype operation_kind = ChargeOp | ReplenishOp | SettleOp

datatype operation_status = HeldStatus | DoneStatus | CancelledStatus

datatype receipt_source = PaidByCustody | PaidByCard

datatype paid_by = PaidVisa | PaidCash

section \<open>Documents\<close>

record sign_block =
  sb_role :: string
  sb_office :: string
  sb_name :: string
  sb_on :: bool

record paper_signatures =
  ps_blocks :: "sign_block list"
  ps_note :: string

record operation_memo =
  om_memoId :: oid
  om_no :: int
  om_kind :: custody_source
  om_name :: string
  om_from :: instant
  om_to :: instant
  om_receipts :: int
  om_amount :: rat

record operation_part =
  pt_expenseId :: oid
  pt_part :: licence_kind
  pt_date :: instant
  pt_cars :: nat
  pt_codes :: "string list"
  pt_visaTotal :: rat
  pt_cashTotal :: rat
  pt_amount :: rat

record operation_transfer =
  xf_date :: instant
  xf_reference :: string
  xf_note :: string
  xf_by :: "oid option"
  xf_byName :: "string option"
  xf_at :: instant

record operation_cancellation =
  xc_reason :: string
  xc_by :: "oid option"
  xc_byName :: "string option"
  xc_at :: instant

record operation_deletion =
  xd_reason :: string
  xd_by :: "oid option"
  xd_byName :: "string option"
  xd_at :: instant
  xd_fundBefore :: rat
  xd_fundAfter :: rat

record operation_doc =
  op_id :: oid
  op_kind :: operation_kind
  op_status :: "operation_status option"
  op_transfer :: "operation_transfer option"
  op_cancellation :: "operation_cancellation option"
  op_deletion :: "operation_deletion option"
  op_date :: instant
  op_from :: "instant option"
  op_to :: "instant option"
  op_amount :: rat
  op_reason :: string
  op_memos :: "operation_memo list"
  op_parts :: "operation_part list"
  op_fundBefore :: rat
  op_chargedTotal :: rat
  op_letterFigure :: "rat option"
  op_signatures :: paper_signatures
  op_createdAt :: instant
  op_createdBy :: "oid option"
  op_updatedBy :: "oid option"
  op_deletedAt :: "instant option"
  op_deletedBy :: "oid option"
  op_version :: nat
  op_isDeleted :: bool

record memo_line =
  ml_receiptId :: oid
  ml_mission :: string
  ml_statement :: string
  ml_note :: string

record memo_doc =
  me_id :: oid
  me_no :: int
  me_kind :: custody_source
  me_name :: string
  me_date :: instant
  me_from :: instant
  me_to :: instant
  me_lines :: "memo_line list"
  me_signatures :: paper_signatures
  me_replenishmentId :: "oid option"
  me_replenishedAt :: "instant option"
  me_replenishmentHeld :: "bool option"
  me_lockSeq :: nat
  me_createdAt :: instant
  me_createdBy :: "oid option"
  me_updatedBy :: "oid option"
  me_deletedAt :: "instant option"
  me_deletedBy :: "oid option"
  me_version :: nat
  me_isDeleted :: bool

record receipt_doc =
  rc_id :: oid
  rc_date :: instant
  rc_vehicleId :: oid
  rc_driverEmployeeId :: "oid option"
  rc_driverName :: "string option"
  rc_kind :: custody_source
  rc_source :: receipt_source
  rc_cardId :: "oid option"
  rc_fuelType :: "string option"
  rc_pricePerLitre :: "rat option"
  rc_litres :: "rat option"
  rc_amount :: rat
  rc_odometer :: "rat option"
  rc_company :: "string option"
  rc_memoId :: "oid option"
  rc_image :: "oid option"
  rc_createdAt :: instant
  rc_createdBy :: "oid option"
  rc_updatedBy :: "oid option"
  rc_deletedAt :: "instant option"
  rc_deletedBy :: "oid option"
  rc_version :: nat
  rc_isDeleted :: bool

record expense_vehicle =
  ev_vehicleId :: "oid option"
  ev_plate :: string

record expense_item =
  ei_itemId :: "oid option"
  ei_label :: string
  ei_amount :: "rat option"
  ei_count :: int
  ei_paidBy :: paid_by
  ei_receipt :: bool

record expense_part =
  xp_vehicles :: "expense_vehicle list"
  xp_items :: "expense_item list"

record expense_settlement =
  es_operationId :: oid
  es_settledAt :: instant

record expense_signatures =
  xs_agent :: string
  xs_director :: string
  xs_generalManager :: string

record expense_doc =
  ex_id :: oid
  ex_date :: instant
  ex_renewal :: "expense_part option"
  ex_extension :: "expense_part option"
  ex_signatures :: expense_signatures
  ex_renewalSettlement :: "expense_settlement option"
  ex_extensionSettlement :: "expense_settlement option"
  ex_createdAt :: instant
  ex_createdBy :: "oid option"
  ex_updatedBy :: "oid option"
  ex_deletedAt :: "instant option"
  ex_deletedBy :: "oid option"
  ex_version :: nat
  ex_isDeleted :: bool

record fuel_card =
  fc_id :: oid
  fc_balance :: rat
  fc_updatedBy :: "oid option"
  fc_version :: nat
  fc_isDeleted :: bool

text \<open>A \<open>receipt\<close> movement of a card.\<close>

record card_movement =
  cm_cardId :: oid
  cm_amount :: rat
  cm_balanceAfter :: rat
  cm_receiptId :: oid
  cm_at :: instant
  cm_createdBy :: oid

section \<open>Days\<close>

definition utcDay :: "instant \<Rightarrow> instant" where
  "utcDay moment = date_utc (utc_full_year moment) (int (utc_month moment)) (utc_date moment)"

definition dayKey :: "instant \<Rightarrow> string" where
  "dayKey d = dateOnlyIso d"

text \<open>\<open>toISOString\<close> in full, for the years 0 to 9999.\<close>

definition iso_instant :: "instant \<Rightarrow> string" where
  "iso_instant t =
     (let ms = t mod ms_per_day; two = (\<lambda>n. pad_start 2 (CHR ''0'') (show_nat (nat n))) in
      dateOnlyIso t @ ''T'' @ two (ms div 3600000) @ '':'' @ two (ms div 60000 mod 60) @ '':'' @
      two (ms div 1000 mod 60) @ ''.'' @ pad_start 3 (CHR ''0'') (show_nat (nat (ms mod 1000))) @ ''Z'')"

section \<open>What a stored operation says of itself\<close>

record transfer_dto =
  td_date :: string
  td_reference :: string
  td_note :: string
  td_byName :: "string option"
  td_at :: string

record cancellation_dto =
  cd_reason :: string
  cd_byName :: "string option"
  cd_at :: string

definition operationStatusOf :: "operation_doc \<Rightarrow> operation_status" where
  "operationStatusOf doc = (case op_status doc of None \<Rightarrow> DoneStatus | Some st \<Rightarrow> st)"

definition transferDtoOf :: "operation_doc \<Rightarrow> transfer_dto option" where
  "transferDtoOf doc = map_option (\<lambda>x. \<lparr>td_date = dayKey (xf_date x), td_reference = xf_reference x,
     td_note = xf_note x, td_byName = xf_byName x, td_at = iso_instant (xf_at x)\<rparr>) (op_transfer doc)"

definition cancellationDtoOf :: "operation_doc \<Rightarrow> cancellation_dto option" where
  "cancellationDtoOf doc = map_option (\<lambda>x. \<lparr>cd_reason = xc_reason x, cd_byName = xc_byName x,
     cd_at = iso_instant (xc_at x)\<rparr>) (op_cancellation doc)"

section \<open>Facts about piastres\<close>

text \<open>Whole piastres up to \<open>10^15\<close>, ten million million pounds, survive the way to pounds and back.\<close>

definition piastre_bound :: int where
  "piastre_bound = 1000000000000000"

lemma fromPiastres_0 [simp]: "fromPiastres 0 = 0"
  by (simp add: fromPiastres_def)

lemma fromPiastres_fl: "fromPiastres p = fl (of_int p / 100)"
  by (simp add: fromPiastres_def)

lemma fromPiastres_minus: "fromPiastres (- p) = - fromPiastres p"
  by (simp add: fromPiastres_fl fl_minus [symmetric])

lemma fromPiastres_nonneg: "0 \<le> p \<Longrightarrow> 0 \<le> fromPiastres p"
  by (simp add: fromPiastres_fl fl_nonneg)

lemma hundred_times_fromPiastres:
  assumes "0 \<le> p" "p \<le> piastre_bound"
  shows "of_int p - 3 / 8 \<le> fl (fromPiastres p * 100)" "fl (fromPiastres p * 100) \<le> of_int p + 3 / 8"
  using assms round_near_cents(1,2) [OF _ cents_near, of p]
  by (simp_all add: fromPiastres_fl piastre_bound_def)

lemma toPiastres_fromPiastres: "\<bar>p\<bar> \<le> piastre_bound \<Longrightarrow> toPiastres (fromPiastres p) = p"
  using round_cents [of p] by (simp add: toPiastres_def fromPiastres_fl piastre_bound_def)

lemma toPiastres_0 [simp]: "toPiastres 0 = 0"
  using math_round_of_int [of 0] by (simp add: toPiastres_def)

text \<open>On whole piastres the database's half-up rounding is \<open>Math.round\<close>.\<close>

lemma receipt_piastres_fromPiastres:
  assumes "0 \<le> p" "p \<le> piastre_bound"
  shows "receipt_piastres (fromPiastres p) = p"
proof -
  let ?z = "fl (fromPiastres p * 100) + 1 / 2"
  have z: "of_int (8 * p + 1) / 8 \<le> ?z" "?z \<le> of_int (8 * p + 7) / 8"
    using hundred_times_fromPiastres [OF assms] by simp_all
  have quarter: "fl (of_int k / 8) = of_int k / 8" if "\<bar>k\<bar> \<le> 2 ^ 53" for k :: int
    using fl_dyadic [OF that, of 3] by simp
  have "fl (of_int (8 * p + 1) / 8) = of_int (8 * p + 1) / 8" "fl (of_int (8 * p + 7) / 8) = of_int (8 * p + 7) / 8"
    using assms by (intro quarter; simp add: piastre_bound_def)+
  then have "of_int (8 * p + 1) / 8 \<le> fl ?z" "fl ?z \<le> of_int (8 * p + 7) / 8"
    using fl_mono [OF z(1)] fl_mono [OF z(2)] by simp_all
  then show ?thesis unfolding receipt_piastres_def by (intro floor_unique) (auto simp: field_simps)
qed

end
