(* ===== verification/Custody_Ledger.thy ===== *)
theory Custody_Ledger
  imports Custody_Data "HOL-Library.Multiset"
begin

text \<open>
  The running ledger of the custody fund: \<open>fleet/custody/custody-ledger.ts\<close>, every function of it, and
  \<open>parseFleetSort\<close> of \<open>packages/contracts/src/modules/fleet.ts\<close>, which its paging reads.

  \<^item> Days and moments are ISO strings, compared with the lexicographic order of the library on
    strings (\<open>localeCompare\<close> of two strings of one ISO format is that order).
  \<^item> The loop of the fold is \<open>fold_ops\<close>; \<open>spendUntil\<close> consumes the receipts and \<open>closeRun\<close> pushes the
    row of the run it built. \<open>rows_from\<close> is the same ledger written without a cursor, and the
    properties are proved over it.
\<close>

section \<open>Input\<close>

record ledger_operation =
  lo_id :: string
  lo_kind :: operation_kind
  lo_status :: "operation_status option"
  lo_day :: string
  lo_letterDay :: "string option"
  lo_at :: "string option"
  lo_transfer :: "transfer_dto option"
  lo_cancellation :: "cancellation_dto option"
  lo_from :: "string option"
  lo_to :: "string option"
  lo_amount :: rat
  lo_reason :: string
  lo_memoKinds :: "custody_source list"
  lo_parts :: "(licence_kind \<times> nat) list"

record receipt_group =
  rg_day :: string
  rg_kind :: custody_source
  rg_memoNo :: "int option"
  rg_count :: int
  rg_amount :: rat

definition ledgerOperationOf :: "operation_doc \<Rightarrow> ledger_operation" where
  "ledgerOperationOf doc =
     (let status = operationStatusOf doc;
          transfer = (if status = DoneStatus then transferDtoOf doc else None) in
      \<lparr>lo_id = show_nat (op_id doc), lo_kind = op_kind doc, lo_status = Some status,
       lo_day = (case transfer of None \<Rightarrow> dayKey (op_date doc) | Some x \<Rightarrow> td_date x),
       lo_letterDay = (case transfer of None \<Rightarrow> None | Some _ \<Rightarrow> Some (dayKey (op_date doc))),
       lo_at = Some (case transfer of None \<Rightarrow> iso_instant (op_createdAt doc) | Some x \<Rightarrow> td_at x),
       lo_transfer = transfer,
       lo_cancellation = (if status = CancelledStatus then cancellationDtoOf doc else None),
       lo_from = map_option dayKey (op_from doc), lo_to = map_option dayKey (op_to doc),
       lo_amount = op_amount doc, lo_reason = op_reason doc,
       lo_memoKinds = map om_kind (op_memos doc),
       lo_parts = map (\<lambda>p. (pt_part p, pt_cars p)) (op_parts doc)\<rparr>)"

definition lo_status_of :: "ledger_operation \<Rightarrow> operation_status" where
  "lo_status_of lo = (case lo_status lo of None \<Rightarrow> DoneStatus | Some st \<Rightarrow> st)"

definition signedPiastres :: "ledger_operation \<Rightarrow> int" where
  "signedPiastres lo =
     (if lo_kind lo = SettleOp then - toPiastres (lo_amount lo) else toPiastres (lo_amount lo))"

definition countedPiastres :: "ledger_operation \<Rightarrow> int" where
  "countedPiastres lo = (if lo_status_of lo = DoneStatus then signedPiastres lo else 0)"

section \<open>Rows\<close>

datatype ledger_op = LedgerCharge | LedgerReplenish | LedgerSettle | LedgerSpend

fun ledger_op_of :: "operation_kind \<Rightarrow> ledger_op" where
  "ledger_op_of ChargeOp = LedgerCharge"
| "ledger_op_of ReplenishOp = LedgerReplenish"
| "ledger_op_of SettleOp = LedgerSettle"

record kind_spend =
  ks_count :: int
  ks_amount :: rat
  ks_outside :: int

record ledger_row =
  lr_id :: string
  lr_op :: ledger_op
  lr_status :: operation_status
  lr_date :: string
  lr_dateTo :: "string option"
  lr_letterDate :: "string option"
  lr_amount :: rat
  lr_before :: rat
  lr_after :: rat
  lr_latest :: bool
  lr_reason :: "string option"
  lr_from :: "string option"
  lr_to :: "string option"
  lr_memos :: "(nat \<times> custody_source list) option"
  lr_licence :: "(licence_kind \<Rightarrow> nat \<times> nat) option"
  lr_receipts :: "int option"
  lr_byKind :: "(custody_source \<Rightarrow> kind_spend) option"
  lr_memoNos :: "int list option"
  lr_transfer :: "transfer_dto option"
  lr_cancellation :: "cancellation_dto option"

definition blankRow :: "string \<Rightarrow> ledger_op \<Rightarrow> string \<Rightarrow> int \<Rightarrow> int \<Rightarrow> int \<Rightarrow> ledger_row" where
  "blankRow rowId lop day signed fund0 counted =
     \<lparr>lr_id = rowId, lr_op = lop, lr_status = DoneStatus, lr_date = day, lr_dateTo = None,
      lr_letterDate = None, lr_amount = fromPiastres signed, lr_before = fromPiastres fund0,
      lr_after = fromPiastres (fund0 + counted), lr_latest = False, lr_reason = None,
      lr_from = None, lr_to = None, lr_memos = None, lr_licence = None, lr_receipts = None,
      lr_byKind = None, lr_memoNos = None, lr_transfer = None, lr_cancellation = None\<rparr>"

definition operationRow :: "ledger_operation \<Rightarrow> int \<Rightarrow> ledger_row" where
  "operationRow lo fund0 =
     (let row = (blankRow (lo_id lo) (ledger_op_of (lo_kind lo)) (lo_day lo) (signedPiastres lo) fund0
                   (countedPiastres lo))
            \<lparr>lr_status := lo_status_of lo, lr_letterDate := lo_letterDay lo,
             lr_transfer := lo_transfer lo, lr_cancellation := lo_cancellation lo\<rparr> in
      case lo_kind lo of
        ChargeOp \<Rightarrow> row\<lparr>lr_reason := Some (lo_reason lo)\<rparr>
      | ReplenishOp \<Rightarrow> row\<lparr>lr_from := lo_from lo, lr_to := lo_to lo,
          lr_memos := Some (length (lo_memoKinds lo),
            filter (\<lambda>k. k \<in> set (lo_memoKinds lo)) FLEET_CUSTODY_SOURCES)\<rparr>
      | SettleOp \<Rightarrow> row\<lparr>lr_from := lo_from lo, lr_to := lo_to lo,
          lr_licence := Some (\<lambda>k. let ps = filter (\<lambda>p. fst p = k) (lo_parts lo)
                                  in (length ps, sum_list (map snd ps)))\<rparr>)"

text \<open>A run of receipts on its way to one row: per kind the count, the piastres and how many are in no
  memo; the memo numbers as they were first met.\<close>

record spend_run =
  sr_from :: string
  sr_to :: string
  sr_receipts :: int
  sr_piastres :: int
  sr_byKind :: "custody_source \<Rightarrow> int \<times> int \<times> int"
  sr_memoNos :: "int list"

definition emptyRun :: "string \<Rightarrow> spend_run" where
  "emptyRun day = \<lparr>sr_from = day, sr_to = day, sr_receipts = 0, sr_piastres = 0,
     sr_byKind = (\<lambda>_. (0, 0, 0)), sr_memoNos = []\<rparr>"

definition spendRow :: "spend_run \<Rightarrow> int \<Rightarrow> ledger_row" where
  "spendRow run fund0 =
     (blankRow (''spend:'' @ sr_from run @ '':'' @ sr_to run) LedgerSpend (sr_from run)
        (- sr_piastres run) fund0 (- sr_piastres run))
       \<lparr>lr_dateTo := Some (sr_to run), lr_receipts := Some (sr_receipts run),
        lr_byKind := Some (\<lambda>k. case sr_byKind run k of (c, p, u) \<Rightarrow>
          \<lparr>ks_count = c, ks_amount = fromPiastres p, ks_outside = u\<rparr>),
        lr_memoNos := Some (sort (sr_memoNos run))\<rparr>"

section \<open>The fold\<close>

definition join_run :: "spend_run \<Rightarrow> receipt_group \<Rightarrow> spend_run" where
  "join_run run g =
     (let p = toPiastres (rg_amount g) in
      run\<lparr>sr_to := rg_day g, sr_receipts := sr_receipts run + rg_count g,
        sr_piastres := sr_piastres run + p,
        sr_byKind := (sr_byKind run)(rg_kind g := (case sr_byKind run (rg_kind g) of (c, q, u) \<Rightarrow>
          (c + rg_count g, q + p, if rg_memoNo g = None then u + rg_count g else u))),
        sr_memoNos := (case rg_memoNo g of None \<Rightarrow> sr_memoNos run
          | Some n \<Rightarrow> if n \<in> set (sr_memoNos run) then sr_memoNos run else sr_memoNos run @ [n])\<rparr>)"

fun spendUntil ::
  "string option \<Rightarrow> receipt_group list \<Rightarrow> spend_run option \<Rightarrow> receipt_group list \<times> spend_run option" where
  "spendUntil day [] run = ([], run)"
| "spendUntil day (g # gs) run =
     (if (case day of None \<Rightarrow> False | Some d \<Rightarrow> d \<le> rg_day g) then (g # gs, run)
      else spendUntil day gs
        (Some (join_run (case run of None \<Rightarrow> emptyRun (rg_day g) | Some r \<Rightarrow> r) g)))"

fun closeRun :: "ledger_row list \<times> int \<Rightarrow> spend_run option \<Rightarrow> ledger_row list \<times> int" where
  "closeRun (rows, fund) None = (rows, fund)"
| "closeRun (rows, fund) (Some run) = (rows @ [spendRow run fund], fund - sr_piastres run)"

fun fold_ops ::
  "ledger_operation list \<Rightarrow> ledger_row list \<times> int \<Rightarrow> receipt_group list \<Rightarrow>
     (ledger_row list \<times> int) \<times> receipt_group list" where
  "fold_ops [] acc gs = (acc, gs)"
| "fold_ops (lo # los) acc gs =
     (case spendUntil (Some (lo_day lo)) gs None of (rest, run) \<Rightarrow>
      case closeRun acc run of (rows, fund) \<Rightarrow>
        fold_ops los (rows @ [operationRow lo fund], fund + countedPiastres lo) rest)"

definition mark_latest :: "ledger_row list \<Rightarrow> ledger_row list" where
  "mark_latest rows = (if rows = [] then [] else butlast rows @ [(last rows)\<lparr>lr_latest := True\<rparr>])"

definition ledger_order :: "ledger_operation \<Rightarrow> string \<times> string" where
  "ledger_order lo = (lo_day lo, case lo_at lo of None \<Rightarrow> '''' | Some a \<Rightarrow> a)"

definition foldCustodyLedger :: "ledger_operation list \<Rightarrow> receipt_group list \<Rightarrow> ledger_row list" where
  "foldCustodyLedger los groups =
     (case fold_ops (sort_key ledger_order los) ([], 0) (sort_key rg_day groups) of (acc, rest) \<Rightarrow>
      case spendUntil None rest None of (_, run) \<Rightarrow> mark_latest (fst (closeRun acc run)))"

section \<open>Filters, pages and places\<close>

record ledger_filters =
  lf_op :: "ledger_op list option"
  lf_from :: "instant option"
  lf_to :: "instant option"

definition ledger_filter_keeps :: "ledger_filters \<Rightarrow> ledger_row \<Rightarrow> bool" where
  "ledger_filter_keeps f row \<longleftrightarrow>
     (case lf_op f of None \<Rightarrow> True | Some ops \<Rightarrow> lr_op row \<in> set ops) \<and>
     (case lf_from f of None \<Rightarrow> True
      | Some d \<Rightarrow> dayKey d \<le> (case lr_dateTo row of None \<Rightarrow> lr_date row | Some t \<Rightarrow> t)) \<and>
     (case lf_to f of None \<Rightarrow> True | Some d \<Rightarrow> lr_date row \<le> dayKey d)"

definition filterCustodyLedger :: "ledger_row list \<Rightarrow> ledger_filters \<Rightarrow> ledger_row list" where
  "filterCustodyLedger rows f = filter (ledger_filter_keeps f) rows"

text \<open>\<open>parseFleetSort\<close>. \<open>js_space\<close> are the characters \<open>trim\<close> takes off, of the first 256.\<close>

definition js_space :: "char \<Rightarrow> bool" where
  "js_space c \<longleftrightarrow> char_code c \<in> {9, 10, 11, 12, 13, 32, 160}"

definition js_trim :: "string \<Rightarrow> string" where
  "js_trim s = rev (dropWhile js_space (rev (dropWhile js_space s)))"

fun split_on :: "char \<Rightarrow> string \<Rightarrow> string list" where
  "split_on c [] = [[]]"
| "split_on c (x # xs) =
     (if x = c then [] # split_on c xs
      else case split_on c xs of [] \<Rightarrow> [[x]] | w # ws \<Rightarrow> (x # w) # ws)"

definition ascii_letter :: "char \<Rightarrow> bool" where
  "ascii_letter c \<longleftrightarrow> 65 \<le> char_code c \<and> char_code c \<le> 90 \<or> 97 \<le> char_code c \<and> char_code c \<le> 122"

definition sort_word :: "string \<Rightarrow> bool" where
  "sort_word w \<longleftrightarrow> (case w of [] \<Rightarrow> False
     | c # cs \<Rightarrow> ascii_letter c \<and> (\<forall>x \<in> set cs. ascii_letter x \<or> is_digit x \<or> char_code x = 95))"

definition sort_field :: "string \<Rightarrow> bool" where
  "sort_field s \<longleftrightarrow> (\<forall>w \<in> set (split_on (CHR ''.'') s). sort_word w)"

datatype sort_dir = Asc | Desc

fun sort_entries :: "string list \<Rightarrow> (string \<times> sort_dir) list \<Rightarrow> (string \<times> sort_dir) list" where
  "sort_entries [] found = found"
| "sort_entries (piece # pieces) found =
     (let words = split_on (CHR '':'') (js_trim piece); fld = js_trim (hd words) in
      if fld = '''' \<or> \<not> sort_field fld \<or> fld \<in> fst ` set found then sort_entries pieces found
      else let found' = found @ [(fld, if 2 \<le> length words \<and> js_trim (words ! 1) = ''desc'' then Desc else Asc)]
           in if length found' = 4 then found' else sort_entries pieces found')"

definition parseFleetSort :: "string option \<Rightarrow> (string \<times> sort_dir) list" where
  "parseFleetSort raw = (case raw of None \<Rightarrow> [] | Some s \<Rightarrow> sort_entries (split_on (CHR '','') s) [])"

record ledger_query = ledger_filters +
  lq_sort :: "string option"
  lq_sortBy :: "string option"
  lq_sortDir :: sort_dir
  lq_page :: nat
  lq_pageSize :: nat

definition directionOf :: "ledger_query \<Rightarrow> sort_dir" where
  "directionOf q =
     (case List.find (\<lambda>e. fst e = ''date'') (parseFleetSort (lq_sort q)) of
        Some e \<Rightarrow> snd e
      | None \<Rightarrow> if lq_sortBy q = Some ''date'' then lq_sortDir q else Desc)"

record 'a paginated =
  pg_items :: "'a list"
  pg_page :: nat
  pg_pageSize :: nat
  pg_totalItems :: nat
  pg_totalPages :: nat

definition ordered_ledger :: "ledger_row list \<Rightarrow> ledger_query \<Rightarrow> ledger_row list" where
  "ordered_ledger rows q =
     (let kept = filterCustodyLedger rows (ledger_filters.truncate q)
      in if directionOf q = Asc then kept else rev kept)"

definition pageCustodyLedger :: "ledger_row list \<Rightarrow> ledger_query \<Rightarrow> ledger_row paginated" where
  "pageCustodyLedger rows q =
     (let ordered = ordered_ledger rows q; start = (lq_page q - 1) * lq_pageSize q in
      \<lparr>pg_items = take (lq_pageSize q) (drop start ordered), pg_page = lq_page q,
       pg_pageSize = lq_pageSize q, pg_totalItems = length ordered,
       pg_totalPages = max 1 ((length ordered + lq_pageSize q - 1) div lq_pageSize q)\<rparr>)"

definition custodyLedgerTotals :: "ledger_row list \<Rightarrow> ledger_filters \<Rightarrow> nat \<times> nat" where
  "custodyLedgerTotals rows f =
     (let kept = filterCustodyLedger rows f; spend = length (filter (\<lambda>r. lr_op r = LedgerSpend) kept)
      in (length kept - spend, spend))"

definition ledgerPlaceOf :: "ledger_row list \<Rightarrow> string \<Rightarrow> (rat \<times> rat) option" where
  "ledgerPlaceOf rows operationId =
     map_option (\<lambda>r. (lr_before r, lr_after r))
       (List.find (\<lambda>r. lr_op r \<noteq> LedgerSpend \<and> lr_id r = operationId) rows)"

section \<open>The ledger without a cursor\<close>

text \<open>The receipts before a day form one run; \<open>rows_from\<close> is the ledger of the operations and receipts
  that are left, with the fund as it stands.\<close>

definition run_of :: "receipt_group list \<Rightarrow> spend_run option" where
  "run_of gs = (case gs of [] \<Rightarrow> None | g # _ \<Rightarrow> Some (foldl join_run (emptyRun (rg_day g)) gs))"

definition spend_rows :: "receipt_group list \<Rightarrow> int \<Rightarrow> ledger_row list" where
  "spend_rows gs fund = (case run_of gs of None \<Rightarrow> [] | Some run \<Rightarrow> [spendRow run fund])"

definition spent_piastres :: "receipt_group list \<Rightarrow> int" where
  "spent_piastres gs = sum_list (map (\<lambda>g. toPiastres (rg_amount g)) gs)"

fun rows_from :: "ledger_operation list \<Rightarrow> receipt_group list \<Rightarrow> int \<Rightarrow> ledger_row list" where
  "rows_from [] gs fund = spend_rows gs fund"
| "rows_from (lo # los) gs fund =
     (let spent = takeWhile (\<lambda>g. rg_day g < lo_day lo) gs;
          rest = dropWhile (\<lambda>g. rg_day g < lo_day lo) gs; fund' = fund - spent_piastres spent in
      spend_rows spent fund @ operationRow lo fund' # rows_from los rest (fund' + countedPiastres lo))"

lemma spendUntil_run:
  "spendUntil day gs (Some run) =
     (dropWhile (\<lambda>g. \<not> (case day of None \<Rightarrow> False | Some d \<Rightarrow> d \<le> rg_day g)) gs,
      Some (foldl join_run run (takeWhile (\<lambda>g. \<not> (case day of None \<Rightarrow> False | Some d \<Rightarrow> d \<le> rg_day g)) gs)))"
  by (induction gs arbitrary: run) auto

lemma spendUntil_None:
  "spendUntil day gs None =
     (dropWhile (\<lambda>g. \<not> (case day of None \<Rightarrow> False | Some d \<Rightarrow> d \<le> rg_day g)) gs,
      run_of (takeWhile (\<lambda>g. \<not> (case day of None \<Rightarrow> False | Some d \<Rightarrow> d \<le> rg_day g)) gs))"
  by (cases gs) (auto simp: spendUntil_run run_of_def)

lemma spendUntil_day:
  "spendUntil (Some d) gs None =
     (dropWhile (\<lambda>g. rg_day g < d) gs, run_of (takeWhile (\<lambda>g. rg_day g < d) gs))"
  by (simp add: spendUntil_None not_le)

lemma spendUntil_all: "spendUntil None gs None = ([], run_of gs)"
proof -
  have t: "takeWhile (\<lambda>_. True) gs = gs" by (induction gs) auto
  show ?thesis by (simp add: t spendUntil_None)
qed

lemma run_piastres:
  "sr_piastres (foldl join_run run gs) = sr_piastres run + spent_piastres gs"
  by (induction gs arbitrary: run) (simp_all add: join_run_def spent_piastres_def Let_def)

lemma run_of_piastres: "run_of gs = Some run \<Longrightarrow> sr_piastres run = spent_piastres gs"
  by (auto simp: run_of_def run_piastres emptyRun_def split: list.splits simp del: foldl_Cons)

lemma closeRun_run_of:
  "closeRun (rows, fund) (run_of gs) = (rows @ spend_rows gs fund, fund - spent_piastres gs)"
  by (cases "run_of gs")
    (auto simp: spend_rows_def run_of_piastres run_of_def spent_piastres_def split: list.splits)

lemma fold_ops_rows_from:
  "(case fold_ops los (rows, fund) gs of (acc, rest) \<Rightarrow>
     fst (closeRun acc (run_of rest))) = rows @ rows_from los gs fund"
proof (induction los arbitrary: rows fund gs)
  case Nil
  then show ?case by (simp add: closeRun_run_of)
next
  case (Cons lo los)
  then show ?case by (simp add: spendUntil_day closeRun_run_of Let_def)
qed

lemma foldCustodyLedger_rows:
  "foldCustodyLedger los groups =
     mark_latest (rows_from (sort_key ledger_order los) (sort_key rg_day groups) 0)"
  using fold_ops_rows_from [of "sort_key ledger_order los" "[]" 0 "sort_key rg_day groups"]
  by (auto simp: foldCustodyLedger_def spendUntil_all split: prod.splits)

section \<open>Facts\<close>

text \<open>A chain of rows: each starts at the fund the row before it left. A \<open>done\<close> row moves the fund by its
  amount, any other row leaves it.\<close>

fun ledger_chain :: "int \<Rightarrow> ledger_row list \<Rightarrow> int \<Rightarrow> bool" where
  "ledger_chain fund [] final \<longleftrightarrow> final = fund"
| "ledger_chain fund (r # rs) final \<longleftrightarrow>
     (\<exists>next. lr_before r = fromPiastres fund \<and> lr_after r = fromPiastres next \<and>
        (lr_status r = DoneStatus \<longrightarrow> lr_amount r = fromPiastres (next - fund)) \<and>
        (lr_status r \<noteq> DoneStatus \<longrightarrow> next = fund) \<and> ledger_chain next rs final)"

lemma ledger_chain_append:
  "ledger_chain a (rs @ ss) c \<longleftrightarrow> (\<exists>b. ledger_chain a rs b \<and> ledger_chain b ss c)"
  by (induction rs arbitrary: a) auto

lemma ledger_chain_last:
  "ledger_chain a rs b \<Longrightarrow> rs \<noteq> [] \<Longrightarrow> lr_after (last rs) = fromPiastres b"
  by (induction rs arbitrary: a) (auto split: if_splits)

lemmas row_defs = blankRow_def operationRow_def spendRow_def

lemma operationRow_fields [simp]:
  "lr_before (operationRow lo f) = fromPiastres f"
  "lr_after (operationRow lo f) = fromPiastres (f + countedPiastres lo)"
  "lr_amount (operationRow lo f) = fromPiastres (signedPiastres lo)"
  "lr_status (operationRow lo f) = lo_status_of lo"
  "lr_op (operationRow lo f) = ledger_op_of (lo_kind lo)"
  "lr_id (operationRow lo f) = lo_id lo"
  "lr_date (operationRow lo f) = lo_day lo"
  "lr_latest (operationRow lo f) = False"
  by (cases "lo_kind lo"; simp add: row_defs Let_def)+

lemma spendRow_fields [simp]:
  "lr_before (spendRow run f) = fromPiastres f"
  "lr_after (spendRow run f) = fromPiastres (f - sr_piastres run)"
  "lr_amount (spendRow run f) = fromPiastres (- sr_piastres run)"
  "lr_status (spendRow run f) = DoneStatus"
  "lr_op (spendRow run f) = LedgerSpend"
  "lr_date (spendRow run f) = sr_from run"
  "lr_dateTo (spendRow run f) = Some (sr_to run)"
  "lr_receipts (spendRow run f) = Some (sr_receipts run)"
  "lr_latest (spendRow run f) = False"
  by (simp_all add: row_defs)

lemma spend_rows_chain: "ledger_chain f (spend_rows gs f) (f - spent_piastres gs)"
  by (auto simp: spend_rows_def run_of_piastres split: option.splits)
    (auto simp: run_of_def spent_piastres_def split: list.splits)

lemma spent_split:
  "spent_piastres (takeWhile P gs) + spent_piastres (dropWhile P gs) = spent_piastres gs"
  unfolding spent_piastres_def by (metis map_append sum_list_append takeWhile_dropWhile_id)

lemma rows_from_chain:
  "ledger_chain f (rows_from los gs f)
     (f + sum_list (map countedPiastres los) - spent_piastres gs)"
proof (induction los arbitrary: gs f)
  case Nil
  then show ?case by (simp add: spend_rows_chain)
next
  case (Cons lo los)
  let ?P = "\<lambda>g. rg_day g < lo_day lo"
  let ?s = "spent_piastres (takeWhile ?P gs)" and ?r = "spent_piastres (dropWhile ?P gs)"
  have rest: "ledger_chain (f - ?s + countedPiastres lo)
      (rows_from los (dropWhile ?P gs) (f - ?s + countedPiastres lo))
      (f + sum_list (map countedPiastres (lo # los)) - spent_piastres gs)"
    using Cons.IH [where f = "f - ?s + countedPiastres lo" and gs = "dropWhile ?P gs"]
      spent_split [of ?P gs] by (simp add: algebra_simps)
  have row: "lo_status_of lo \<noteq> DoneStatus \<longrightarrow> countedPiastres lo = 0"
    "lo_status_of lo = DoneStatus \<longrightarrow> countedPiastres lo = signedPiastres lo"
    by (simp_all add: countedPiastres_def)
  have "ledger_chain (f - ?s) (operationRow lo (f - ?s) #
      rows_from los (dropWhile ?P gs) (f - ?s + countedPiastres lo))
      (f + sum_list (map countedPiastres (lo # los)) - spent_piastres gs)"
    using rest row by (intro ledger_chain.simps(2) [THEN iffD2] exI [of _ "f - ?s + countedPiastres lo"]) simp
  then show ?case using spend_rows_chain [where f = f and gs = "takeWhile ?P gs"]
    by (auto simp only: rows_from.simps Let_def ledger_chain_append)
qed

lemma mark_latest_fields:
  "map lr_before (mark_latest rs) = map lr_before rs"
  "map lr_after (mark_latest rs) = map lr_after rs"
  "map lr_date (mark_latest rs) = map lr_date rs"
  "map lr_op (mark_latest rs) = map lr_op rs"
  "map lr_id (mark_latest rs) = map lr_id rs"
  "map lr_receipts (mark_latest rs) = map lr_receipts rs"
  by (cases rs rule: rev_cases; simp add: mark_latest_def)+

lemma mark_latest_chain: "ledger_chain a (mark_latest rs) b \<longleftrightarrow> ledger_chain a rs b"
  by (cases rs rule: rev_cases) (auto simp: mark_latest_def ledger_chain_append)

lemma mark_latest_Nil [simp]: "mark_latest rs = [] \<longleftrightarrow> rs = []"
  by (simp add: mark_latest_def)

lemma ledger_chain_fold:
  "ledger_chain 0 (foldCustodyLedger los groups)
     (sum_list (map countedPiastres los) - spent_piastres groups)"
  using rows_from_chain [of 0 "sort_key ledger_order los" "sort_key rg_day groups"]
  by (simp add: foldCustodyLedger_rows mark_latest_chain spent_piastres_def sum_list_sort_key)

section \<open>Every receipt in one row, in day order\<close>

definition row_receipts :: "ledger_row \<Rightarrow> int" where
  "row_receipts r = (case lr_receipts r of None \<Rightarrow> 0 | Some n \<Rightarrow> n)"

lemma run_receipts: "sr_receipts (foldl join_run run gs) = sr_receipts run + sum_list (map rg_count gs)"
  by (induction gs arbitrary: run) (simp_all add: join_run_def Let_def)

lemma operationRow_receipts [simp]: "lr_receipts (operationRow lo f) = None"
  by (cases "lo_kind lo") (simp_all add: row_defs Let_def)

lemma spend_rows_receipts:
  "sum_list (map row_receipts (spend_rows gs f)) = sum_list (map rg_count gs)"
  by (cases gs)
    (simp_all add: spend_rows_def run_of_def row_receipts_def run_receipts emptyRun_def del: foldl_Cons)

lemma rows_from_receipts:
  "sum_list (map row_receipts (rows_from los gs f)) = sum_list (map rg_count gs)"
proof (induction los arbitrary: gs f)
  case (Cons lo los)
  let ?P = "\<lambda>g. rg_day g < lo_day lo"
  have "sum_list (map rg_count gs) =
      sum_list (map rg_count (takeWhile ?P gs)) + sum_list (map rg_count (dropWhile ?P gs))"
    by (metis map_append sum_list_append takeWhile_dropWhile_id)
  then show ?case using Cons by (simp add: Let_def spend_rows_receipts) (simp add: row_receipts_def)
qed (simp add: spend_rows_receipts)

lemma spend_rows_ops: "filter (\<lambda>r. lr_op r \<noteq> LedgerSpend) (spend_rows gs f) = []"
  by (auto simp: spend_rows_def split: option.splits)

lemma ledger_op_of_spend [simp]: "ledger_op_of k \<noteq> LedgerSpend"
  by (cases k) simp_all

lemma rows_from_operations:
  "map lr_id (filter (\<lambda>r. lr_op r \<noteq> LedgerSpend) (rows_from los gs f)) = map lo_id los"
  by (induction los arbitrary: gs f) (simp_all add: Let_def spend_rows_ops)

text \<open>A row lies on its first day; a run ends on its last.\<close>

definition row_end :: "ledger_row \<Rightarrow> string" where
  "row_end r = (case lr_dateTo r of None \<Rightarrow> lr_date r | Some d \<Rightarrow> d)"

lemma operationRow_dateTo [simp]: "lr_dateTo (operationRow lo f) = None"
  by (cases "lo_kind lo") (simp_all add: row_defs Let_def)

lemma run_from: "sr_from (foldl join_run run gs) = sr_from run"
  by (induction gs arbitrary: run) (simp_all add: join_run_def Let_def)

lemma run_to:
  "sr_to (foldl join_run run gs) = (if gs = [] then sr_to run else rg_day (last gs))"
  by (induction gs arbitrary: run) (simp_all add: join_run_def Let_def)

lemma spend_rows_days:
  assumes "r \<in> set (spend_rows gs f)"
  shows "gs \<noteq> [] \<and> lr_date r = rg_day (hd gs) \<and> row_end r = rg_day (last gs)"
  using assms
  by (cases gs) (auto simp: spend_rows_def run_of_def row_end_def run_from run_to emptyRun_def
      simp del: foldl_Cons)

text \<open>Consecutive rows do not go back in time, and spending before an operation is dated before it.\<close>

fun day_ordered :: "string \<Rightarrow> ledger_row list \<Rightarrow> bool" where
  "day_ordered d [] = True"
| "day_ordered d (r # rs) = (d \<le> lr_date r \<and> lr_date r \<le> row_end r \<and> day_ordered (row_end r) rs)"

lemma day_ordered_append:
  "day_ordered d (rs @ ss) \<longleftrightarrow>
     day_ordered d rs \<and> day_ordered (if rs = [] then d else row_end (last rs)) ss"
  by (induction rs arbitrary: d) auto

lemma spend_rows_ordered:
  assumes "sorted (map rg_day gs)" "\<forall>g \<in> set gs. d \<le> rg_day g"
  shows "day_ordered d (spend_rows gs f)"
proof (cases gs)
  case (Cons g rest)
  then have "rg_day g \<le> rg_day (last gs)" using assms(1) by (auto simp: last_map)
  then show ?thesis using assms(2) Cons spend_rows_days [of _ gs f]
    by (auto simp: spend_rows_def run_of_def simp del: foldl_Cons)
qed (simp add: spend_rows_def run_of_def)

lemma rows_from_ordered:
  assumes "sorted (map rg_day gs)" "sorted (map lo_day los)"
    "\<forall>g \<in> set gs. d \<le> rg_day g" "\<forall>lo \<in> set los. d \<le> lo_day lo"
  shows "day_ordered d (rows_from los gs f)"
  using assms
proof (induction los arbitrary: gs f d)
  case Nil
  then show ?case by (simp add: spend_rows_ordered)
next
  case (Cons lo los)
  let ?P = "\<lambda>g. rg_day g < lo_day lo"
  let ?t = "takeWhile ?P gs" and ?r = "dropWhile ?P gs"
  have st: "sorted (map rg_day ?t)" "sorted (map rg_day ?r)"
    using Cons.prems(1) by (metis map_append sorted_append takeWhile_dropWhile_id)+
  have t: "\<forall>g \<in> set ?t. d \<le> rg_day g \<and> rg_day g < lo_day lo"
    using Cons.prems(3) by (meson set_takeWhileD)
  have r: "\<forall>g \<in> set ?r. lo_day lo \<le> rg_day g"
  proof (cases ?r)
    case (Cons g gs')
    then have "\<not> ?P g" by (metis hd_dropWhile list.distinct(1) list.sel(1))
    then show ?thesis using st(2) Cons by auto
  next
    case Nil
    show ?thesis by (subst Nil) simp
  qed
  have "day_ordered (lo_day lo) (rows_from los ?r f')" for f'
    using Cons.prems st(2) r by (intro Cons.IH) auto
  moreover have "day_ordered d (spend_rows ?t f)" using st(1) t by (intro spend_rows_ordered) auto
  moreover have "(if spend_rows ?t f = [] then d else row_end (last (spend_rows ?t f))) \<le> lo_day lo"
    using t Cons.prems(4) spend_rows_days [of "last (spend_rows ?t f)" ?t f]
    by (auto simp: less_imp_le)
  ultimately show ?case
    by (simp add: Let_def day_ordered_append row_end_def)
qed

lemma lr_latest_days [simp]:
  "lr_date (r\<lparr>lr_latest := b\<rparr>) = lr_date r" "lr_dateTo (r\<lparr>lr_latest := b\<rparr>) = lr_dateTo r"
  by (cases r; simp)+

lemma row_end_latest [simp]: "row_end (r\<lparr>lr_latest := b\<rparr>) = row_end r"
  by (simp add: row_end_def split: option.splits)

lemma mark_latest_ordered: "day_ordered d (mark_latest rs) = day_ordered d rs"
  by (cases rs rule: rev_cases) (auto simp: mark_latest_def day_ordered_append)

lemma sorted_days: "sorted (map lo_day (sort_key ledger_order los))"
proof -
  have "sorted_wrt (\<lambda>a b. ledger_order a \<le> ledger_order b) (sort_key ledger_order los)"
    using sorted_sort_key [of ledger_order los] by (simp only: sorted_map)
  then show ?thesis unfolding sorted_map
    by (rule sorted_wrt_mono_rel [rotated]) (auto simp: ledger_order_def)
qed

section \<open>Pages\<close>

lemma directionOf_page [simp]: "directionOf (q\<lparr>lq_page := p\<rparr>) = directionOf q"
  by (simp add: directionOf_def split: option.splits)

lemma ordered_ledger_page [simp]: "ordered_ledger rows (q\<lparr>lq_page := p\<rparr>) = ordered_ledger rows q"
  by (simp add: ordered_ledger_def ledger_filters.truncate_def)

lemma concat_chunks:
  assumes "0 < n"
  shows "concat (map (\<lambda>i. take n (drop (i * n) xs)) [0..<k]) = take (k * n) xs"
proof (induction k)
  case (Suc k)
  have "Suc k * n = k * n + n" by simp
  then show ?case using Suc by (simp only: take_add upt_Suc_append map_append concat_append) simp
qed simp

lemma pages_enough: "0 < n \<Longrightarrow> (l::nat) \<le> ((l + n - 1) div n) * n"
proof -
  assume n: "0 < n"
  have "l + n - 1 < n * ((l + n - 1) div n) + n"
    using n by (metis add.commute add_strict_left_mono mod_less_divisor mult_div_mod_eq)
  then show ?thesis using n by (simp add: mult.commute)
qed

lemma ledger_pages_concat:
  assumes "0 < lq_pageSize q" "length (ordered_ledger rows q) \<le> k * lq_pageSize q"
  shows "concat (map (\<lambda>p. pg_items (pageCustodyLedger rows (q\<lparr>lq_page := p\<rparr>))) [1..<Suc k]) =
    ordered_ledger rows q"
proof -
  have "concat (map (\<lambda>p. pg_items (pageCustodyLedger rows (q\<lparr>lq_page := p\<rparr>))) [1..<Suc k]) =
      concat (map (\<lambda>i. take (lq_pageSize q) (drop (i * lq_pageSize q) (ordered_ledger rows q))) [0..<k])"
    by (simp add: pageCustodyLedger_def Let_def map_Suc_upt [symmetric] comp_def del: upt_Suc)
  then show ?thesis using assms by (simp add: concat_chunks)
qed

section \<open>Properties\<close>

text \<open>The ledger is one unbroken account from an empty fund: every row starts at the figure the row
  before it ended on, a row that is \<open>done\<close> moves the fund by exactly its amount, a held or cancelled one
  not at all, and the last row stands at the operations that count less the receipts, in whole
  piastres.\<close>

theorem ledger_account:
  "ledger_chain 0 (foldCustodyLedger los groups)
     (sum_list (map countedPiastres los) - spent_piastres groups) \<and>
   (foldCustodyLedger los groups = [] \<or>
    lr_after (last (foldCustodyLedger los groups)) =
      fromPiastres (sum_list (map countedPiastres los) - spent_piastres groups))"
  using ledger_chain_fold [of los groups] ledger_chain_last [OF ledger_chain_fold [of los groups]] by blast

text \<open>Nothing is lost in the ledger: each operation has one row, in the order of its day and moment, the
  spending rows together hold every receipt exactly once, and no row is dated before the row above it
  ends.\<close>

theorem ledger_complete:
  "map lr_id (filter (\<lambda>r. lr_op r \<noteq> LedgerSpend) (foldCustodyLedger los groups)) =
     map lo_id (sort_key ledger_order los) \<and>
   sum_list (map row_receipts (foldCustodyLedger los groups)) = sum_list (map rg_count groups) \<and>
   day_ordered [] (foldCustodyLedger los groups)"
proof -
  let ?rs = "rows_from (sort_key ledger_order los) (sort_key rg_day groups) 0"
  have ids: "map lr_id (filter (\<lambda>r. lr_op r \<noteq> LedgerSpend) (mark_latest rs)) =
      map lr_id (filter (\<lambda>r. lr_op r \<noteq> LedgerSpend) rs)" for rs
    by (cases rs rule: rev_cases) (simp_all add: mark_latest_def)
  have receipts: "map row_receipts (mark_latest rs) = map row_receipts rs" for rs
    by (cases rs rule: rev_cases) (simp_all add: mark_latest_def row_receipts_def)
  have "day_ordered [] ?rs" using sorted_days by (intro rows_from_ordered) auto
  then show ?thesis
    unfolding foldCustodyLedger_rows ids receipts mark_latest_ordered rows_from_operations rows_from_receipts
    by (simp add: sum_list_sort_key)
qed

text \<open>The pages of the ledger, one after the other, are the rows the filter keeps, each once, oldest or
  newest first as asked; no filter and no page changes a figure of a row.\<close>

theorem ledger_pages:
  assumes "0 < lq_pageSize q"
  shows "concat (map (\<lambda>p. pg_items (pageCustodyLedger rows (q\<lparr>lq_page := p\<rparr>)))
      [1..<Suc (pg_totalPages (pageCustodyLedger rows q))]) =
    (if directionOf q = Asc then filterCustodyLedger rows (ledger_filters.truncate q)
     else rev (filterCustodyLedger rows (ledger_filters.truncate q)))"
proof -
  let ?l = "length (ordered_ledger rows q)" and ?n = "lq_pageSize q"
  have "?l \<le> ((?l + ?n - 1) div ?n) * ?n" by (rule pages_enough [OF assms])
  also have "\<dots> \<le> pg_totalPages (pageCustodyLedger rows q) * ?n"
    by (intro mult_right_mono) (simp_all add: pageCustodyLedger_def Let_def)
  finally have "concat (map (\<lambda>p. pg_items (pageCustodyLedger rows (q\<lparr>lq_page := p\<rparr>)))
      [1..<Suc (pg_totalPages (pageCustodyLedger rows q))]) = ordered_ledger rows q"
    by (rule ledger_pages_concat [OF assms])
  then show ?thesis by (simp add: ordered_ledger_def Let_def)
qed

definition demo_query :: "ledger_query" where
  "demo_query = \<lparr>lf_op = None, lf_from = None, lf_to = None, lq_sort = Some ''date:asc'', lq_sortBy = None,
     lq_sortDir = Desc, lq_page = 1, lq_pageSize = 1\<rparr>"

definition demo_rows :: "ledger_row list" where
  "demo_rows = foldCustodyLedger
     [\<lparr>lo_id = ''1'', lo_kind = ChargeOp, lo_status = None, lo_day = ''2026-01-05'', lo_letterDay = None,
       lo_at = None, lo_transfer = None, lo_cancellation = None, lo_from = None, lo_to = None,
       lo_amount = 1000, lo_reason = ''fuel'', lo_memoKinds = [], lo_parts = []\<rparr>]
     [\<lparr>rg_day = ''2026-01-06'', rg_kind = FuelSource, rg_memoNo = Some 3, rg_count = 2, rg_amount = 250\<rparr>]"

lemma demo_query_asc: "directionOf demo_query = Asc" "0 < lq_pageSize demo_query"
  by code_simp+

theorem ledger_pages_witness:
  "concat (map (\<lambda>p. pg_items (pageCustodyLedger demo_rows (demo_query\<lparr>lq_page := p\<rparr>)))
      [1..<Suc (pg_totalPages (pageCustodyLedger demo_rows demo_query))]) =
    filterCustodyLedger demo_rows (ledger_filters.truncate demo_query)"
  unfolding ledger_pages [OF demo_query_asc(2)] by (simp only: demo_query_asc(1) simp_thms if_True)

end
