(* ===== verification/Custody_Fund.thy ===== *)
theory Custody_Fund
  imports Custody_Ledger
begin

text \<open>
  The fund: its store, \<open>fleet/custody/custody-fund.ts\<close>, \<open>custody-memo-totals.ts\<close>, \<open>custody-counter.model.ts\<close>,
  the transaction helper \<open>platform/kernel/unit-of-work.ts\<close>, and the read of the ledger's receipt groups in
  \<open>custody-fund.service.ts\<close>.

  \<^item> \<open>fleet_store\<close> holds the collections, in insertion order, the counters and the audit records and
    signals sent after a commit (their kind, entity and action; the diffs they carry are left out).
  \<^item> A transaction that is refused leaves the store as it was (\<open>unitOfWork\<close>). Two transactions never
    interleave: both write the fund's lock document, or the memo itself, so one of them is run again.
  \<^item> \<open>custody_env\<close> is what a request brings along: caller, clock, the papers' signatures, the vehicles'
    codes, the drivers' roster and the prices, which belong to other modules.
\<close>

section \<open>The store\<close>

datatype fleet_effect = FleetAudit string oid string | ReceiptsSignal oid

record fleet_store =
  fs_receipts :: "receipt_doc list"
  fs_memos :: "memo_doc list"
  fs_operations :: "operation_doc list"
  fs_expenses :: "expense_doc list"
  fs_cards :: "fuel_card list"
  fs_movements :: "card_movement list"
  fs_memoSeq :: "int option"
  fs_fundSeq :: "int option"
  fs_nextOid :: oid
  fs_effects :: "fleet_effect list"

record custody_env =
  ce_user :: oid
  ce_userName :: "string option"
  ce_now :: instant
  ce_signatures :: "string \<Rightarrow> paper_signatures"
  ce_reason :: "string \<Rightarrow> string"
  ce_codes :: "oid \<Rightarrow> string option"
  ce_vehicle :: "oid \<Rightarrow> bool"
  ce_driver :: "oid \<Rightarrow> string option"
  ce_price :: "string \<Rightarrow> rat"

definition unitOfWork :: "('s, 'a) st \<Rightarrow> ('s, 'a) st" where
  "unitOfWork m s = (case m s of (_, Inl e) \<Rightarrow> (s, Inl e) | (t, Inr x) \<Rightarrow> (t, Inr x))"

definition fleet_effect :: "fleet_effect \<Rightarrow> (fleet_store, unit) st" where
  "fleet_effect e = st_modify (\<lambda>s. s\<lparr>fs_effects := fs_effects s @ [e]\<rparr>)"

definition freshOid :: "(fleet_store, oid) st" where
  "freshOid s = (s\<lparr>fs_nextOid := fs_nextOid s + 1\<rparr>, Inr (fs_nextOid s))"

section \<open>Counters\<close>

text \<open>\<open>ensureCustodyCounter\<close> raises a counter to a floor, never lowers it; the next number is taken inside a
  transaction.\<close>

definition raise_counter :: "int \<Rightarrow> int option \<Rightarrow> int option" where
  "raise_counter least c = Some (case c of None \<Rightarrow> max 0 least | Some n \<Rightarrow> max n (max 0 least))"

definition ensureFundLock :: "(fleet_store, unit) st" where
  "ensureFundLock = st_modify (\<lambda>s. s\<lparr>fs_fundSeq := raise_counter 0 (fs_fundSeq s)\<rparr>)"

definition lockFund :: "(fleet_store, unit) st" where
  "lockFund s = (case fs_fundSeq s of
     None \<Rightarrow> (s, Inl (ConflictError ''the custody fund is not ready yet''))
   | Some n \<Rightarrow> (s\<lparr>fs_fundSeq := Some (n + 1)\<rparr>, Inr ()))"

definition maxNo :: "fleet_store \<Rightarrow> int" where
  "maxNo s = (case fs_memos s of [] \<Rightarrow> 0 | m # ms \<Rightarrow> foldl max (me_no m) (map me_no ms))"

definition ensureCustodyMemoCounter :: "(fleet_store, unit) st" where
  "ensureCustodyMemoCounter =
     st_modify (\<lambda>s. s\<lparr>fs_memoSeq := raise_counter (maxNo s) (fs_memoSeq s)\<rparr>)"

definition nextCustodyNumber :: "(fleet_store, int) st" where
  "nextCustodyNumber s = (case fs_memoSeq s of
     None \<Rightarrow> (s, Inl (ConflictError ''the counter is not ready yet''))
   | Some n \<Rightarrow> (s\<lparr>fs_memoSeq := Some (n + 1)\<rparr>, Inr (n + 1)))"

definition peekCustodyNumber :: "fleet_store \<Rightarrow> int" where
  "peekCustodyNumber s = max (case fs_memoSeq s of None \<Rightarrow> 0 | Some n \<Rightarrow> n) (maxNo s) + 1"

section \<open>The fund's terms\<close>

definition live_operations :: "fleet_store \<Rightarrow> operation_doc list" where
  "live_operations s = filter (\<lambda>d. \<not> op_isDeleted d) (fs_operations s)"

definition custody_receipt :: "receipt_doc \<Rightarrow> bool" where
  "custody_receipt r \<longleftrightarrow> \<not> rc_isDeleted r \<and> rc_source r = PaidByCustody"

definition receipts_piastres :: "receipt_doc list \<Rightarrow> int" where
  "receipts_piastres rs = sum_list (map (\<lambda>r. receipt_piastres (rc_amount r)) rs)"

text \<open>\<open>readReceiptSums\<close>: the count and the piastres of the live custody receipts.\<close>

definition readReceiptSums :: "fleet_store \<Rightarrow> nat \<times> int" where
  "readReceiptSums s =
     (let rs = filter custody_receipt (fs_receipts s) in (length rs, receipts_piastres rs))"

record operation_sums =
  os_count :: nat
  os_piastres :: int
  os_memos :: nat
  os_receipts :: int
  os_parts :: nat

text \<open>The row of \<open>readOperationSums\<close> for a kind and a status; the group that is missing sums to zero.\<close>

definition operation_group :: "operation_kind \<Rightarrow> operation_status \<Rightarrow> fleet_store \<Rightarrow> operation_doc list" where
  "operation_group k st s =
     filter (\<lambda>d. op_kind d = k \<and> operationStatusOf d = st) (live_operations s)"

definition operation_sums_of :: "operation_kind \<Rightarrow> operation_status \<Rightarrow> fleet_store \<Rightarrow> operation_sums" where
  "operation_sums_of k st s =
     (let ds = operation_group k st s in
      \<lparr>os_count = length ds,
       os_piastres = sum_list (map (\<lambda>d. receipt_piastres (op_amount d)) ds),
       os_memos = sum_list (map (\<lambda>d. length (op_memos d)) ds),
       os_receipts = sum_list (map (\<lambda>d. sum_list (map om_receipts (op_memos d))) ds),
       os_parts = sum_list (map (\<lambda>d. length (op_parts d)) ds)\<rparr>)"

record fund_count =
  fn_count :: nat
  fn_amount :: rat

record fund_terms =
  ft_charged :: fund_count
  ft_spent :: fund_count
  ft_replenished :: fund_count
  ft_replenishedMemos :: nat
  ft_held :: fund_count
  ft_heldMemos :: nat
  ft_heldReceipts :: int
  ft_cancelled :: fund_count
  ft_settled :: fund_count
  ft_settledParts :: nat
  ft_fundTotal :: rat

definition fundOf :: "rat \<Rightarrow> rat \<Rightarrow> rat \<Rightarrow> rat \<Rightarrow> rat" where
  "fundOf charged spent replenished settled =
     fromPiastres (toPiastres charged - toPiastres spent + toPiastres replenished - toPiastres settled)"

definition fund_count_of :: "nat \<Rightarrow> int \<Rightarrow> fund_count" where
  "fund_count_of n p = \<lparr>fn_count = n, fn_amount = fromPiastres p\<rparr>"

definition op_count_of :: "operation_kind \<Rightarrow> operation_status \<Rightarrow> fleet_store \<Rightarrow> fund_count" where
  "op_count_of k st s =
     (let g = operation_sums_of k st s in fund_count_of (os_count g) (os_piastres g))"

definition readCustodyFundTerms :: "fleet_store \<Rightarrow> fund_terms" where
  "readCustodyFundTerms s =
     (let charged = op_count_of ChargeOp DoneStatus s;
          spent = (case readReceiptSums s of (n, p) \<Rightarrow> fund_count_of n p);
          replenished = op_count_of ReplenishOp DoneStatus s;
          settled = op_count_of SettleOp DoneStatus s in
      \<lparr>ft_charged = charged, ft_spent = spent, ft_replenished = replenished,
       ft_replenishedMemos = os_memos (operation_sums_of ReplenishOp DoneStatus s),
       ft_held = op_count_of ReplenishOp HeldStatus s,
       ft_heldMemos = os_memos (operation_sums_of ReplenishOp HeldStatus s),
       ft_heldReceipts = os_receipts (operation_sums_of ReplenishOp HeldStatus s),
       ft_cancelled = op_count_of ReplenishOp CancelledStatus s,
       ft_settled = settled, ft_settledParts = os_parts (operation_sums_of SettleOp DoneStatus s),
       ft_fundTotal = fundOf (fn_amount charged) (fn_amount spent) (fn_amount replenished)
         (fn_amount settled)\<rparr>)"

fun letterFigureOf :: "operation_kind \<Rightarrow> fund_terms \<Rightarrow> rat option" where
  "letterFigureOf ReplenishOp t = Some (fn_amount (ft_charged t))"
| "letterFigureOf SettleOp t = Some (ft_fundTotal t)"
| "letterFigureOf ChargeOp t = None"

text \<open>\<open>monthBounds\<close>: from the first day of the earliest month to the last day of the latest.\<close>

definition monthBounds :: "instant list \<Rightarrow> (instant \<times> instant) option" where
  "monthBounds days = (case days of [] \<Rightarrow> None | d # ds \<Rightarrow>
     (let first = foldl min d ds; last = foldl max d ds in
      Some (date_utc (utc_full_year first) (int (utc_month first)) 1,
            date_utc (utc_full_year last) (int (utc_month last) + 1) 0)))"

section \<open>What a memo adds up to\<close>

definition memo_receipts :: "fleet_store \<Rightarrow> oid \<Rightarrow> receipt_doc list" where
  "memo_receipts s memoId =
     filter (\<lambda>r. custody_receipt r \<and> rc_memoId r = Some memoId) (fs_receipts s)"

definition readMemoTotals :: "fleet_store \<Rightarrow> oid \<Rightarrow> int \<times> rat" where
  "readMemoTotals s memoId =
     (let rs = memo_receipts s memoId in
      (int (length rs), fl (of_int (math_round (of_int (receipts_piastres rs))) / 100)))"

definition sumMemoTotals :: "(int \<times> rat) list \<Rightarrow> int \<times> rat" where
  "sumMemoTotals totals =
     (sum_list (map fst totals), fl (of_int (sum_list (map (\<lambda>t. toPiastres (snd t)) totals)) / 100))"

section \<open>The ledger of a store\<close>

text \<open>\<open>allLive\<close>: the live operations by day, then the order they were recorded in.\<close>

definition allLive :: "fleet_store \<Rightarrow> operation_doc list" where
  "allLive s = sort_key (\<lambda>d. (op_date d, op_createdAt d, op_id d)) (live_operations s)"

definition numbersByIds :: "fleet_store \<Rightarrow> oid \<Rightarrow> int option" where
  "numbersByIds s memoId = map_option me_no (List.find (\<lambda>m. me_id m = memoId) (fs_memos s))"

text \<open>\<open>readReceiptGroups\<close>: one group per day, kind and memo, in the order the keys are first met.\<close>

definition group_key :: "receipt_doc \<Rightarrow> string \<times> custody_source \<times> oid option" where
  "group_key r = (dayKey (rc_date r), rc_kind r, rc_memoId r)"

definition receipt_group_of :: "fleet_store \<Rightarrow> string \<times> custody_source \<times> oid option \<Rightarrow> receipt_group" where
  "receipt_group_of s key =
     (let rs = filter (\<lambda>r. custody_receipt r \<and> group_key r = key) (fs_receipts s) in
      case key of (day, kind, memoId) \<Rightarrow>
      \<lparr>rg_day = day, rg_kind = kind,
       rg_memoNo = (case memoId of None \<Rightarrow> None | Some m \<Rightarrow> numbersByIds s m),
       rg_count = int (length rs),
       rg_amount = fromPiastres (math_round (of_int (receipts_piastres rs)))\<rparr>)"

definition readReceiptGroups :: "fleet_store \<Rightarrow> receipt_group list" where
  "readReceiptGroups s =
     map (receipt_group_of s) (remdups (map group_key (filter custody_receipt (fs_receipts s))))"

definition ledgerRows :: "fleet_store \<Rightarrow> ledger_row list" where
  "ledgerRows s = foldCustodyLedger (map ledgerOperationOf (allLive s)) (readReceiptGroups s)"

section \<open>The ledger and the figures agree\<close>

text \<open>An amount in whole piastres, as every operation stores it.\<close>

definition piastre_amount :: "rat \<Rightarrow> bool" where
  "piastre_amount x \<longleftrightarrow>
     0 \<le> toPiastres x \<and> toPiastres x \<le> piastre_bound \<and> x = fromPiastres (toPiastres x)"

lemma piastre_amountI: "0 \<le> p \<Longrightarrow> p \<le> piastre_bound \<Longrightarrow> piastre_amount (fromPiastres p)"
  by (simp add: piastre_amount_def toPiastres_fromPiastres)

lemma receipt_piastres_amount: "piastre_amount x \<Longrightarrow> receipt_piastres x = toPiastres x"
  unfolding piastre_amount_def by (metis receipt_piastres_fromPiastres)

lemma receipt_piastres_nonneg: "0 \<le> x \<Longrightarrow> 0 \<le> receipt_piastres x"
proof -
  assume "0 \<le> x"
  then have "0 \<le> fl (x * 100)" by (intro fl_nonneg) simp
  then show ?thesis unfolding receipt_piastres_def by (simp add: fl_nonneg)
qed

text \<open>The figures of a store stay where doubles are exact.\<close>

definition fund_in_range :: "fleet_store \<Rightarrow> bool" where
  "fund_in_range s \<longleftrightarrow>
     (\<forall>d \<in> set (live_operations s). piastre_amount (op_amount d)) \<and>
     (\<forall>r \<in> set (filter custody_receipt (fs_receipts s)). 0 \<le> rc_amount r) \<and>
     sum_list (map (\<lambda>d. toPiastres (op_amount d)) (live_operations s)) \<le> piastre_bound div 4 \<and>
     receipts_piastres (filter custody_receipt (fs_receipts s)) \<le> piastre_bound div 4"

lemma sum_list_filter_le:
  "(\<And>x. x \<in> set xs \<Longrightarrow> 0 \<le> f x) \<Longrightarrow> sum_list (map f (filter P xs)) \<le> (sum_list (map f xs) :: int)"
  by (rule sum_list_map_le_filter)

lemma sum_by_key:
  fixes f :: "'a \<Rightarrow> int"
  assumes "finite K" "g ` set xs \<subseteq> K"
  shows "(\<Sum>k \<in> K. sum_list (map f (filter (\<lambda>x. g x = k) xs))) = sum_list (map f xs)"
  using assms(2)
proof (induction xs)
  case (Cons x xs)
  have "sum_list (map f (filter (\<lambda>x. g x = k) (x # xs))) =
      (if k = g x then f x else 0) + sum_list (map f (filter (\<lambda>x. g x = k) xs))" for k
    by auto
  then show ?case using Cons assms(1) by (simp add: sum.distrib sum.delta)
qed simp

lemma sum_groups:
  fixes f :: "'a \<Rightarrow> int"
  shows "sum_list (map (\<lambda>k. sum_list (map f (filter (\<lambda>x. g x = k) xs))) (remdups (map g xs))) =
    sum_list (map f xs)"
proof -
  have "sum_list (map (\<lambda>k. sum_list (map f (filter (\<lambda>x. g x = k) xs))) (remdups (map g xs))) =
      (\<Sum>k \<in> set (map g xs). sum_list (map f (filter (\<lambda>x. g x = k) xs)))"
    by (metis distinct_remdups set_remdups sum_list_distinct_conv_sum_set)
  also have "\<dots> = sum_list (map f xs)" by (intro sum_by_key) auto
  finally show ?thesis .
qed

lemma spent_receipts:
  assumes "fund_in_range s"
  shows "spent_piastres (readReceiptGroups s) = receipts_piastres (filter custody_receipt (fs_receipts s))"
proof -
  let ?rs = "filter custody_receipt (fs_receipts s)" and ?f = "\<lambda>r. receipt_piastres (rc_amount r)"
  have nn: "0 \<le> ?f r" if "r \<in> set ?rs" for r
    using assms that by (auto simp: fund_in_range_def intro: receipt_piastres_nonneg)
  have group: "toPiastres (rg_amount (receipt_group_of s k)) =
      sum_list (map ?f (filter (\<lambda>r. group_key r = k) ?rs))" for k
  proof -
    have le: "sum_list (map ?f (filter (\<lambda>r. group_key r = k) ?rs)) \<le> piastre_bound"
      using sum_list_filter_le [of ?rs ?f "\<lambda>r. group_key r = k"] nn assms
      by (auto simp: fund_in_range_def receipts_piastres_def piastre_bound_def)
    have "0 \<le> sum_list (map ?f (filter (\<lambda>r. group_key r = k) ?rs))"
      using nn by (intro sum_list_nonneg) auto
    then show ?thesis using le
      by (cases k)
        (simp add: receipt_group_of_def receipts_piastres_def Let_def filter_filter conj_commute
          toPiastres_fromPiastres)
  qed
  show ?thesis
    unfolding spent_piastres_def readReceiptGroups_def map_map comp_def group receipts_piastres_def
    by (rule sum_groups)
qed

lemma counted_operation:
  "countedPiastres (ledgerOperationOf d) =
     (if operationStatusOf d = DoneStatus
      then (if op_kind d = SettleOp then - toPiastres (op_amount d) else toPiastres (op_amount d)) else 0)"
  by (simp add: countedPiastres_def signedPiastres_def lo_status_of_def ledgerOperationOf_def Let_def)

definition group_piastres :: "operation_kind \<Rightarrow> operation_status \<Rightarrow> fleet_store \<Rightarrow> int" where
  "group_piastres k st s = sum_list (map (\<lambda>d. toPiastres (op_amount d)) (operation_group k st s))"

lemma counted_groups:
  "sum_list (map countedPiastres (map ledgerOperationOf (allLive s))) =
     group_piastres ChargeOp DoneStatus s + group_piastres ReplenishOp DoneStatus s -
     group_piastres SettleOp DoneStatus s"
proof -
  have "sum_list (map countedPiastres (map ledgerOperationOf ds)) =
      sum_list (map (\<lambda>d. toPiastres (op_amount d))
        (filter (\<lambda>d. op_kind d = ChargeOp \<and> operationStatusOf d = DoneStatus) ds)) +
      sum_list (map (\<lambda>d. toPiastres (op_amount d))
        (filter (\<lambda>d. op_kind d = ReplenishOp \<and> operationStatusOf d = DoneStatus) ds)) -
      sum_list (map (\<lambda>d. toPiastres (op_amount d))
        (filter (\<lambda>d. op_kind d = SettleOp \<and> operationStatusOf d = DoneStatus) ds))" for ds
  proof (induction ds)
    case (Cons d ds)
    then show ?case by (cases "op_kind d") (simp_all add: counted_operation)
  qed simp
  from this [of "live_operations s"] show ?thesis
    by (simp add: allLive_def group_piastres_def operation_group_def sum_list_sort_key comp_def)
qed

lemma op_count_amount:
  assumes "fund_in_range s"
  shows "toPiastres (fn_amount (op_count_of k st s)) = group_piastres k st s"
    and "0 \<le> group_piastres k st s" "group_piastres k st s \<le> piastre_bound div 4"
proof -
  let ?f = "\<lambda>d. toPiastres (op_amount d)"
  have amt: "piastre_amount (op_amount d)" if "d \<in> set (live_operations s)" for d
    using assms that by (auto simp: fund_in_range_def)
  then have nn: "0 \<le> ?f d" if "d \<in> set (live_operations s)" for d
    using that by (simp add: piastre_amount_def)
  show le: "group_piastres k st s \<le> piastre_bound div 4"
    using sum_list_filter_le [of "live_operations s" ?f] nn assms
    by (auto simp: group_piastres_def operation_group_def fund_in_range_def intro: order_trans)
  show ge: "0 \<le> group_piastres k st s"
    unfolding group_piastres_def operation_group_def using nn by (intro sum_list_nonneg) auto
  have "os_piastres (operation_sums_of k st s) = group_piastres k st s"
    using amt by (auto simp: operation_sums_of_def group_piastres_def Let_def operation_group_def
        receipt_piastres_amount intro!: arg_cong [where f = sum_list] map_cong)
  then show "toPiastres (fn_amount (op_count_of k st s)) = group_piastres k st s"
    using le ge by (simp add: op_count_of_def fund_count_of_def Let_def toPiastres_fromPiastres piastre_bound_def)
qed

lemma fundTotal_piastres:
  assumes "fund_in_range s"
  shows "ft_fundTotal (readCustodyFundTerms s) = fromPiastres
     (group_piastres ChargeOp DoneStatus s + group_piastres ReplenishOp DoneStatus s -
      group_piastres SettleOp DoneStatus s - receipts_piastres (filter custody_receipt (fs_receipts s)))"
proof -
  let ?r = "receipts_piastres (filter custody_receipt (fs_receipts s))"
  have "0 \<le> ?r" unfolding receipts_piastres_def
    using assms by (intro sum_list_nonneg) (auto simp: fund_in_range_def intro: receipt_piastres_nonneg)
  then have "toPiastres (fromPiastres ?r) = ?r"
    using assms by (intro toPiastres_fromPiastres) (simp add: fund_in_range_def piastre_bound_def)
  then show ?thesis
    by (simp add: readCustodyFundTerms_def Let_def fundOf_def op_count_amount [OF assms] readReceiptSums_def
        fund_count_of_def algebra_simps)
qed

text \<open>C39. The fund the figures and the letters show, summed in the database, is the fund the ledger's last
  row ends on, folded row by row: the two ways of reading the fund never disagree.\<close>

theorem ledger_is_the_fund:
  assumes "fund_in_range s"
  shows "ft_fundTotal (readCustodyFundTerms s) =
    (if ledgerRows s = [] then 0 else lr_after (last (ledgerRows s)))"
proof -
  have total: "ft_fundTotal (readCustodyFundTerms s) =
      fromPiastres (sum_list (map countedPiastres (map ledgerOperationOf (allLive s))) -
        spent_piastres (readReceiptGroups s))"
    by (simp only: fundTotal_piastres [OF assms] counted_groups spent_receipts [OF assms])
  have chain: "ledger_chain 0 (ledgerRows s)
      (sum_list (map countedPiastres (map ledgerOperationOf (allLive s))) - spent_piastres (readReceiptGroups s))"
    unfolding ledgerRows_def by (rule ledger_chain_fold)
  show ?thesis
  proof (cases "ledgerRows s = []")
    case True
    then show ?thesis using chain total by simp
  next
    case False
    then show ?thesis using ledger_chain_last [OF chain] total by simp
  qed
qed

text \<open>A store with one charge of a hundred pounds and one receipt of twenty-five.\<close>

definition demo_fund :: "fleet_store" where
  "demo_fund =
     \<lparr>fs_receipts = [\<lparr>rc_id = 1, rc_date = 0, rc_vehicleId = 7, rc_driverEmployeeId = None,
        rc_driverName = None, rc_kind = WashSource, rc_source = PaidByCustody, rc_cardId = None,
        rc_fuelType = None, rc_pricePerLitre = None, rc_litres = None, rc_amount = fromPiastres 2500,
        rc_odometer = None, rc_company = None, rc_memoId = None, rc_image = None, rc_createdAt = 0,
        rc_createdBy = None, rc_updatedBy = None, rc_deletedAt = None, rc_deletedBy = None,
        rc_version = 0, rc_isDeleted = False\<rparr>],
      fs_memos = [],
      fs_operations = [\<lparr>op_id = 2, op_kind = ChargeOp, op_status = Some DoneStatus, op_transfer = None,
        op_cancellation = None, op_deletion = None, op_date = 0, op_from = None, op_to = None,
        op_amount = fromPiastres 10000, op_reason = ''fuel'', op_memos = [], op_parts = [],
        op_fundBefore = 0, op_chargedTotal = 0, op_letterFigure = None,
        op_signatures = \<lparr>ps_blocks = [], ps_note = []\<rparr>, op_createdAt = 0, op_createdBy = None,
        op_updatedBy = None, op_deletedAt = None, op_deletedBy = None, op_version = 0,
        op_isDeleted = False\<rparr>],
      fs_expenses = [], fs_cards = [], fs_movements = [], fs_memoSeq = None, fs_fundSeq = None,
      fs_nextOid = 3, fs_effects = []\<rparr>"

lemma demo_fund_in_range: "fund_in_range demo_fund"
  by (simp add: fund_in_range_def demo_fund_def live_operations_def piastre_amountI toPiastres_fromPiastres
      receipts_piastres_def receipt_piastres_fromPiastres fromPiastres_nonneg custody_receipt_def
      piastre_bound_def)

theorem ledger_is_the_fund_witness:
  "ft_fundTotal (readCustodyFundTerms demo_fund) =
    (if ledgerRows demo_fund = [] then 0 else lr_after (last (ledgerRows demo_fund)))"
  using ledger_is_the_fund [OF demo_fund_in_range] by simp

end
