(* ===== verification/Custody_Memos.thy ===== *)
theory Custody_Memos
  imports Custody_Fund
begin

text \<open>
  The custody memos: \<open>fleet/custody/custody-memo-rules.ts\<close>, \<open>custody-memo.repository.ts\<close>, the writes of
  \<open>custody-memo.service.ts\<close>, and \<open>custody-memo-guard.ts\<close>, which the receipts screen asks before it changes a
  receipt that is a line of a memo.

  A handler is the code's handler, its transaction included; a refusal inside the transaction takes
  every write of it back. Ids are compared as values (the code compares them as lower-case text).
\<close>

section \<open>Rules\<close>

definition dayAfter :: "instant \<Rightarrow> instant" where
  "dayAfter day = utcDay day + ms_per_day"

definition FLEET_CUSTODY_STALE_DAYS :: int where
  "FLEET_CUSTODY_STALE_DAYS = 30"

definition custodyStaleCutoff :: "instant \<Rightarrow> instant" where
  "custodyStaleCutoff now =
     date_utc (utc_full_year now) (int (utc_month now)) (utc_date now - FLEET_CUSTODY_STALE_DAYS)"

record outside_group =
  og_count :: nat
  og_piastres :: int
  og_oldest :: "instant option"
  og_staleCount :: nat
  og_stalePiastres :: int

record outside_kind =
  ok_kind :: custody_source
  ok_count :: nat
  ok_total :: rat
  ok_oldest :: "string option"
  ok_staleCount :: nat
  ok_staleTotal :: rat

definition custodyOutsideKinds :: "(custody_source \<Rightarrow> outside_group option) \<Rightarrow> outside_kind list" where
  "custodyOutsideKinds byKind =
     map (\<lambda>k. case byKind k of
         None \<Rightarrow> \<lparr>ok_kind = k, ok_count = 0, ok_total = 0, ok_oldest = None, ok_staleCount = 0,
                  ok_staleTotal = 0\<rparr>
       | Some g \<Rightarrow> \<lparr>ok_kind = k, ok_count = og_count g,
           ok_total = fl (of_int (math_round (of_int (og_piastres g))) / 100),
           ok_oldest = (if og_count g = 0 then None else map_option dayKey (og_oldest g)),
           ok_staleCount = og_staleCount g,
           ok_staleTotal = fl (of_int (math_round (of_int (og_stalePiastres g))) / 100)\<rparr>)
       FLEET_CUSTODY_SOURCES"

text \<open>\<open>outside\<close>: the live custody receipts no memo holds, grouped by kind.\<close>

definition outside_receipts :: "fleet_store \<Rightarrow> custody_source \<Rightarrow> receipt_doc list" where
  "outside_receipts s k =
     filter (\<lambda>r. custody_receipt r \<and> rc_memoId r = None \<and> rc_kind r = k) (fs_receipts s)"

definition outside :: "fleet_store \<Rightarrow> instant \<Rightarrow> outside_kind list" where
  "outside s now = custodyOutsideKinds (\<lambda>k.
     case outside_receipts s k of [] \<Rightarrow> None
     | r # rs \<Rightarrow>
       (let late = filter (\<lambda>x. rc_date x < custodyStaleCutoff now) (r # rs) in
        Some \<lparr>og_count = length (r # rs), og_piastres = receipts_piastres (r # rs),
          og_oldest = Some (foldl min (rc_date r) (map rc_date rs)),
          og_staleCount = length late, og_stalePiastres = receipts_piastres late\<rparr>))"

section \<open>The figures of the fund\<close>

text \<open>\<open>counts\<close> of the memos: the live ones, the pending ones among them and what those add up to.\<close>

definition memo_counts :: "fleet_store \<Rightarrow> nat \<times> nat \<times> rat" where
  "memo_counts s =
     (let docs = filter (\<lambda>m. \<not> me_isDeleted m) (fs_memos s);
          pending = filter (\<lambda>m. me_replenishmentId m = None) docs in
      (length docs, length pending, snd (sumMemoTotals (map (\<lambda>m. readMemoTotals s (me_id m)) pending))))"

record fund_summary =
  su_terms :: fund_terms
  su_operations :: nat
  su_memos :: "nat \<times> nat \<times> rat"
  su_outside :: "outside_kind list"
  su_deleted :: nat

definition fund_summary_of :: "fleet_store \<Rightarrow> instant \<Rightarrow> fund_summary" where
  "fund_summary_of s now =
     (let t = readCustodyFundTerms s in
      \<lparr>su_terms = t,
       su_operations = fn_count (ft_charged t) + fn_count (ft_replenished t) + fn_count (ft_held t) +
         fn_count (ft_cancelled t) + fn_count (ft_settled t),
       su_memos = memo_counts s, su_outside = outside s now,
       su_deleted = length (filter op_isDeleted (fs_operations s))\<rparr>)"

section \<open>Periods, lines and verdicts\<close>

definition periodOf :: "instant list \<Rightarrow> (instant \<times> instant) option" where
  "periodOf days = (case days of [] \<Rightarrow> None
     | d # ds \<Rightarrow> Some (utcDay (foldl min d ds), utcDay (foldl max d ds)))"

definition lineChanges :: "oid list \<Rightarrow> oid list \<Rightarrow> oid list \<times> oid list" where
  "lineChanges earlier later =
     (filter (\<lambda>x. x \<notin> set later) earlier, filter (\<lambda>x. x \<notin> set earlier) later)"

definition line_order :: "(oid \<Rightarrow> receipt_doc option) \<Rightarrow> memo_line \<Rightarrow> instant \<times> instant \<times> oid" where
  "line_order receipts l =
     (case receipts (ml_receiptId l) of
        None \<Rightarrow> (0, 0, ml_receiptId l)
      | Some r \<Rightarrow> (utcDay (rc_date r), rc_createdAt r, ml_receiptId l))"

definition orderLines :: "memo_line list \<Rightarrow> (oid \<Rightarrow> receipt_doc option) \<Rightarrow> memo_line list" where
  "orderLines lines receipts = sort_key (line_order receipts) lines"

record receipt_facts =
  rf_date :: instant
  rf_vehicleId :: oid
  rf_kind :: custody_source
  rf_source :: receipt_source
  rf_cardId :: "oid option"
  rf_amount :: rat

datatype receipt_verdict = VerdictOk | VerdictKindOrSource | VerdictLocked

text \<open>The verdict on a change, from the memo that holds the receipt: \<open>None\<close> when none does, else whether a
  replenishment took it.\<close>

definition receiptChangeVerdict :: "receipt_facts \<Rightarrow> receipt_facts \<Rightarrow> bool option \<Rightarrow> receipt_verdict" where
  "receiptChangeVerdict live next memo =
     (case memo of None \<Rightarrow> VerdictOk
      | Some replenished \<Rightarrow>
        (let kindOrSource = (rf_kind next \<noteq> rf_kind live \<or> rf_source next \<noteq> rf_source live \<or>
               rf_cardId next \<noteq> rf_cardId live);
             moneyFacts = (utcDay (rf_date next) \<noteq> utcDay (rf_date live) \<or>
               rf_vehicleId next \<noteq> rf_vehicleId live \<or>
               toPiastres (rf_amount next) \<noteq> toPiastres (rf_amount live)) in
         if replenished then (if kindOrSource \<or> moneyFacts then VerdictLocked else VerdictOk)
         else if kindOrSource then VerdictKindOrSource else VerdictOk))"

section \<open>The memos' collection\<close>

definition find_memo :: "oid \<Rightarrow> fleet_store \<Rightarrow> memo_doc option" where
  "find_memo memoId s = List.find (\<lambda>m. me_id m = memoId \<and> \<not> me_isDeleted m) (fs_memos s)"

definition findLiveByIds :: "oid list \<Rightarrow> fleet_store \<Rightarrow> memo_doc list" where
  "findLiveByIds ids s =
     sort_key me_no (filter (\<lambda>m. me_id m \<in> set ids \<and> \<not> me_isDeleted m) (fs_memos s))"

definition assertCustodyMemoWritable :: "memo_doc \<Rightarrow> app_error + unit" where
  "assertCustodyMemoWritable m =
     res_ensure (me_replenishmentId m = None)
       (BusinessRuleError (if me_replenishmentHeld m = Some True then ''the memo is held by a replenishment''
                           else ''the memo was replenished''))"

definition update_memos :: "(memo_doc \<Rightarrow> bool) \<Rightarrow> (memo_doc \<Rightarrow> memo_doc) \<Rightarrow> fleet_store \<Rightarrow> fleet_store" where
  "update_memos P f s = s\<lparr>fs_memos := update_where P f (fs_memos s)\<rparr>"

definition bump_memo :: "oid option \<Rightarrow> memo_doc \<Rightarrow> memo_doc" where
  "bump_memo by m = m\<lparr>me_updatedBy := by, me_version := me_version m + 1\<rparr>"

text \<open>The unique index of the lines: a receipt is on at most one live memo.\<close>

definition line_ids :: "memo_doc \<Rightarrow> oid set" where
  "line_ids m = ml_receiptId ` set (me_lines m)"

definition line_taken :: "memo_doc \<Rightarrow> fleet_store \<Rightarrow> bool" where
  "line_taken m s \<longleftrightarrow>
     (\<exists>x \<in> set (fs_memos s). \<not> me_isDeleted x \<and> me_id x \<noteq> me_id m \<and> line_ids x \<inter> line_ids m \<noteq> {})"

definition insert_memo :: "memo_doc \<Rightarrow> (fleet_store, memo_doc) st" where
  "insert_memo m s =
     (if me_no m \<in> me_no ` set (fs_memos s) then (s, Inl (DuplicateKeyError ''ux_custody_memo_no''))
      else if line_taken m s then (s, Inl (DuplicateKeyError ''ux_custody_memo_receipt''))
      else (s\<lparr>fs_memos := fs_memos s @ [m]\<rparr>, Inr m))"

text \<open>\<open>updateById\<close> and \<open>softDeleteById\<close> under the repository's \<open>writeConditions\<close>: no replenishment.\<close>

definition updateMemoById ::
  "oid \<Rightarrow> nat \<Rightarrow> (memo_doc \<Rightarrow> memo_doc) \<Rightarrow> oid option \<Rightarrow> (fleet_store, memo_doc) st" where
  "updateMemoById memoId version f by s =
     (case List.find (\<lambda>m. me_id m = memoId \<and> \<not> me_isDeleted m \<and> me_version m = version \<and>
                        me_replenishmentId m = None) (fs_memos s) of
        Some m \<Rightarrow>
          (if line_taken (bump_memo by (f m)) s then (s, Inl (DuplicateKeyError ''ux_custody_memo_receipt''))
           else (update_memos (\<lambda>x. me_id x = memoId \<and> \<not> me_isDeleted x) (\<lambda>_. bump_memo by (f m)) s,
                 Inr (bump_memo by (f m))))
      | None \<Rightarrow> (s, Inl (case find_memo memoId s of None \<Rightarrow> NotFoundError ''Not found''
           | Some m \<Rightarrow> (case assertCustodyMemoWritable m of Inl e \<Rightarrow> e | Inr _ \<Rightarrow> StaleDocumentError))))"

definition deleted_memo :: "instant \<Rightarrow> oid option \<Rightarrow> memo_doc \<Rightarrow> memo_doc" where
  "deleted_memo now by m =
     (bump_memo by m)\<lparr>me_isDeleted := True, me_deletedAt := Some now, me_deletedBy := by\<rparr>"

definition softDeleteMemoById :: "oid \<Rightarrow> instant \<Rightarrow> oid option \<Rightarrow> (fleet_store, unit) st" where
  "softDeleteMemoById memoId now by s =
     (case List.find (\<lambda>m. me_id m = memoId \<and> \<not> me_isDeleted m \<and> me_replenishmentId m = None) (fs_memos s) of
        Some m \<Rightarrow> (update_memos (\<lambda>x. me_id x = memoId \<and> \<not> me_isDeleted x) (deleted_memo now by) s, Inr ())
      | None \<Rightarrow> (s, Inl (case find_memo memoId s of None \<Rightarrow> NotFoundError ''Not found''
           | Some m \<Rightarrow> (case assertCustodyMemoWritable m of Inl e \<Rightarrow> e | Inr _ \<Rightarrow> NotFoundError ''Not found''))))"

section \<open>Claiming receipts\<close>

definition find_receipt :: "oid \<Rightarrow> fleet_store \<Rightarrow> receipt_doc option" where
  "find_receipt receiptId s = List.find (\<lambda>r. rc_id r = receiptId) (fs_receipts s)"

definition update_receipts ::
  "(receipt_doc \<Rightarrow> bool) \<Rightarrow> (receipt_doc \<Rightarrow> receipt_doc) \<Rightarrow> fleet_store \<Rightarrow> fleet_store" where
  "update_receipts P f s = s\<lparr>fs_receipts := update_where P f (fs_receipts s)\<rparr>"

definition claimable :: "custody_source \<Rightarrow> oid list \<Rightarrow> receipt_doc \<Rightarrow> bool" where
  "claimable kind ids r \<longleftrightarrow>
     rc_id r \<in> set ids \<and> custody_receipt r \<and> rc_kind r = kind \<and> rc_memoId r = None"

definition claim_invalid :: "custody_source \<Rightarrow> fleet_store \<Rightarrow> oid \<Rightarrow> bool" where
  "claim_invalid kind s receiptId \<longleftrightarrow>
     (case find_receipt receiptId s of None \<Rightarrow> True
      | Some r \<Rightarrow> rc_isDeleted r \<or> rc_source r \<noteq> PaidByCustody \<or> rc_kind r \<noteq> kind)"

definition claim_held :: "oid \<Rightarrow> fleet_store \<Rightarrow> oid \<Rightarrow> bool" where
  "claim_held memoId s receiptId \<longleftrightarrow>
     (case find_receipt receiptId s of None \<Rightarrow> False
      | Some r \<Rightarrow> rc_memoId r \<noteq> None \<and> rc_memoId r \<noteq> Some memoId)"

definition set_memo :: "oid option \<Rightarrow> receipt_doc \<Rightarrow> receipt_doc" where
  "set_memo m r = r\<lparr>rc_memoId := m\<rparr>"

definition claim :: "oid \<Rightarrow> custody_source \<Rightarrow> oid list \<Rightarrow> (fleet_store, unit) st" where
  "claim memoId kind wanted s =
     (if wanted = [] then (s, Inr ())
      else
        (let count = length (filter (claimable kind wanted) (fs_receipts s));
             t = update_receipts (claimable kind wanted) (set_memo (Some memoId)) s in
         if count = length wanted then (t, Inr ())
         else if \<exists>w \<in> set wanted. claim_invalid kind t w
           then (t, Inl (ValidationError ''body.lines.receiptId''))
         else if \<exists>w \<in> set wanted. claim_held memoId t w
           then (t, Inl (ConflictError ''a receipt is already on another custody memo''))
         else (t, Inr ())))"

definition placeLines :: "memo_line list \<Rightarrow> fleet_store \<Rightarrow> memo_line list \<times> (instant \<times> instant) option" where
  "placeLines lines s =
     (orderLines lines (\<lambda>i. find_receipt i s),
      periodOf (map rc_date (filter (\<lambda>r. rc_id r \<in> ml_receiptId ` set lines) (fs_receipts s))))"

definition memoPeriodFor ::
  "instant option \<Rightarrow> instant option \<Rightarrow> (instant \<times> instant) option \<Rightarrow> instant \<Rightarrow> instant \<times> instant" where
  "memoPeriodFor inFrom inTo period fallback =
     (let from = (case inFrom of Some d \<Rightarrow> utcDay d
           | None \<Rightarrow> (case period of Some p \<Rightarrow> fst p | None \<Rightarrow> utcDay fallback));
          to = (case inTo of Some d \<Rightarrow> utcDay d
           | None \<Rightarrow> (case period of Some p \<Rightarrow> snd p | None \<Rightarrow> utcDay fallback)) in
      if to < from then (if inTo = None then (from, from) else (to, to)) else (from, to))"

section \<open>The memo service\<close>

fun paper_of :: "custody_source \<Rightarrow> string" where
  "paper_of MaintenanceSource = ''maintenance''"
| "paper_of FuelSource = ''fuel''"
| "paper_of TyresSource = ''tyres''"
| "paper_of WashSource = ''wash''"

record memo_input =
  mi_kind :: custody_source
  mi_name :: string
  mi_date :: "instant option"
  mi_from :: "instant option"
  mi_to :: "instant option"
  mi_lines :: "memo_line list"

definition new_memo ::
  "custody_env \<Rightarrow> memo_input \<Rightarrow> oid \<Rightarrow> int \<Rightarrow> instant \<Rightarrow> memo_line list \<Rightarrow> instant \<times> instant \<Rightarrow> memo_doc" where
  "new_memo env input memoId no date lines period =
     \<lparr>me_id = memoId, me_no = no, me_kind = mi_kind input, me_name = mi_name input, me_date = date,
      me_from = fst period, me_to = snd period, me_lines = lines,
      me_signatures = ce_signatures env (paper_of (mi_kind input)), me_replenishmentId = None,
      me_replenishedAt = None, me_replenishmentHeld = None, me_lockSeq = 0,
      me_createdAt = ce_now env, me_createdBy = Some (ce_user env), me_updatedBy = Some (ce_user env),
      me_deletedAt = None, me_deletedBy = None, me_version = 0, me_isDeleted = False\<rparr>"

definition create_memo :: "custody_env \<Rightarrow> memo_input \<Rightarrow> (fleet_store, memo_doc) st" where
  "create_memo env input =
     st_bind ensureCustodyMemoCounter (\<lambda>_.
     st_bind freshOid (\<lambda>memoId.
     let date = utcDay (case mi_date input of None \<Rightarrow> ce_now env | Some d \<Rightarrow> d) in
     st_bind (unitOfWork (
       st_bind nextCustodyNumber (\<lambda>no.
       st_bind (claim memoId (mi_kind input) (map ml_receiptId (mi_lines input))) (\<lambda>_.
       st_bind (st_gets (placeLines (mi_lines input))) (\<lambda>(lines, period).
       insert_memo (new_memo env input memoId no date lines
         (memoPeriodFor (mi_from input) (mi_to input) period date))))))) (\<lambda>created.
     st_bind (fleet_effect (FleetAudit ''custodyMemo'' memoId ''create'')) (\<lambda>_.
     st_bind (fleet_effect (ReceiptsSignal memoId)) (\<lambda>_.
     st_return created)))))"

definition edited_memo ::
  "memo_input \<Rightarrow> memo_line list \<Rightarrow> instant \<times> instant \<Rightarrow> memo_doc \<Rightarrow> memo_doc" where
  "edited_memo input lines period m =
     m\<lparr>me_name := mi_name input, me_lines := lines, me_from := fst period, me_to := snd period,
       me_date := (case mi_date input of None \<Rightarrow> me_date m | Some d \<Rightarrow> utcDay d)\<rparr>"

definition release_lines :: "oid list \<Rightarrow> oid \<Rightarrow> (fleet_store, unit) st" where
  "release_lines ids memoId =
     st_modify (update_receipts (\<lambda>r. rc_id r \<in> set ids \<and> rc_memoId r = Some memoId) (set_memo None))"

definition update_memo :: "custody_env \<Rightarrow> oid \<Rightarrow> memo_input \<Rightarrow> nat \<Rightarrow> (fleet_store, memo_doc) st" where
  "update_memo env memoId input version =
     st_bind (unitOfWork (
       st_bind (st_gets (find_memo memoId)) (\<lambda>found.
       st_bind (st_lift (option_or (NotFoundError ''Not found'') found)) (\<lambda>current.
       st_bind (st_lift (assertCustodyMemoWritable current)) (\<lambda>_.
       st_bind (st_ensure (mi_kind input = me_kind current) (BusinessRuleError ''a memo keeps its kind'')) (\<lambda>_.
       st_bind (st_ensure (version = me_version current) StaleDocumentError) (\<lambda>_.
       let (release, take) = lineChanges (map ml_receiptId (me_lines current)) (map ml_receiptId (mi_lines input)) in
       st_bind (if release \<noteq> [] then release_lines release memoId else st_return ()) (\<lambda>_.
       st_bind (claim memoId (me_kind current) take) (\<lambda>_.
       st_bind (st_gets (placeLines (mi_lines input))) (\<lambda>(lines, period).
       updateMemoById memoId version
         (edited_memo input lines (memoPeriodFor (mi_from input) (mi_to input) period
           (case mi_date input of None \<Rightarrow> me_date current | Some d \<Rightarrow> d)))
         (Some (ce_user env)))))))))))) (\<lambda>updated.
     st_bind (fleet_effect (FleetAudit ''custodyMemo'' memoId ''update'')) (\<lambda>_.
     st_bind (fleet_effect (ReceiptsSignal memoId)) (\<lambda>_.
     st_return updated)))"

definition remove_memo :: "custody_env \<Rightarrow> oid \<Rightarrow> (fleet_store, unit) st" where
  "remove_memo env memoId =
     st_bind (st_gets (find_memo memoId)) (\<lambda>found.
     st_bind (st_lift (option_or (NotFoundError ''Not found'') found)) (\<lambda>_.
     st_bind (unitOfWork (
       st_bind (softDeleteMemoById memoId (ce_now env) (Some (ce_user env))) (\<lambda>_.
       st_modify (update_receipts (\<lambda>r. rc_memoId r = Some memoId) (set_memo None))))) (\<lambda>_.
     st_bind (fleet_effect (FleetAudit ''custodyMemo'' memoId ''delete'')) (\<lambda>_.
     fleet_effect (ReceiptsSignal memoId)))))"

section \<open>The guard of the receipts screen\<close>

definition facts_of :: "receipt_doc \<Rightarrow> receipt_facts" where
  "facts_of r = \<lparr>rf_date = rc_date r, rf_vehicleId = rc_vehicleId r, rf_kind = rc_kind r,
     rf_source = rc_source r, rf_cardId = rc_cardId r, rf_amount = rc_amount r\<rparr>"

definition lockForReceipt :: "oid \<Rightarrow> (fleet_store, unit) st" where
  "lockForReceipt memoId =
     st_modify (update_memos (\<lambda>m. me_id m = memoId) (\<lambda>m. m\<lparr>me_lockSeq := me_lockSeq m + 1\<rparr>))"

definition holdingMemo :: "receipt_doc \<Rightarrow> (fleet_store, memo_doc option) st" where
  "holdingMemo r = (case rc_memoId r of None \<Rightarrow> st_return None
     | Some memoId \<Rightarrow> st_bind (lockForReceipt memoId) (\<lambda>_. st_gets (find_memo memoId)))"

definition memo_replenished :: "memo_doc \<Rightarrow> bool" where
  "memo_replenished m \<longleftrightarrow> me_replenishmentId m \<noteq> None"

definition assertReceiptChangeAllowed :: "receipt_doc \<Rightarrow> receipt_facts \<Rightarrow> (fleet_store, unit) st" where
  "assertReceiptChangeAllowed live next =
     st_bind (holdingMemo live) (\<lambda>memo.
     case receiptChangeVerdict (facts_of live) next (map_option memo_replenished memo) of
       VerdictOk \<Rightarrow> st_return ()
     | VerdictKindOrSource \<Rightarrow> st_throw (BusinessRuleError ''take the receipt off its memo first'')
     | VerdictLocked \<Rightarrow> st_throw (BusinessRuleError ''the memo of this receipt was replenished''))"

definition assertReceiptRemovable :: "receipt_doc \<Rightarrow> (fleet_store, unit) st" where
  "assertReceiptRemovable live =
     st_bind (holdingMemo live) (\<lambda>memo.
     case memo of None \<Rightarrow> st_return ()
     | Some m \<Rightarrow> st_throw (BusinessRuleError
         (if memo_replenished m then ''the memo of this receipt was replenished''
          else ''take the receipt off its memo first'')))"

text \<open>\<open>followReceiptDay\<close>: the ends of a pending memo's period follow a line whose receipt moved to another
  day. \<open>None\<close> leaves the period as it is.\<close>

definition moved_period :: "instant \<times> instant \<Rightarrow> instant list \<Rightarrow> instant \<Rightarrow> instant \<Rightarrow> instant \<times> instant" where
  "moved_period period days was now =
     (let first0 = foldl min was days; last0 = foldl max was days;
          first1 = foldl min now days; last1 = foldl max now days in
      (if fst period = first0 then first1 else min (fst period) now,
       if snd period = last0 then last1 else max (snd period) now))"

definition followReceiptDay :: "receipt_doc \<Rightarrow> instant \<Rightarrow> oid \<Rightarrow> (fleet_store, oid option) st" where
  "followReceiptDay live nextDate by s =
     (let was = utcDay (rc_date live); now = utcDay nextDate in
      case rc_memoId live of None \<Rightarrow> (s, Inr None)
      | Some memoId \<Rightarrow>
        (if was = now then (s, Inr None)
         else case List.find (\<lambda>m. me_id m = memoId \<and> \<not> me_isDeleted m \<and> me_replenishmentId m = None) (fs_memos s) of
           None \<Rightarrow> (s, Inr None)
         | Some m \<Rightarrow>
           (let days = map (\<lambda>r. utcDay (rc_date r)) (filter (\<lambda>r. rc_id r \<in> line_ids m \<and>
                  rc_id r \<noteq> rc_id live \<and> \<not> rc_isDeleted r) (fs_receipts s));
                p = moved_period (me_from m, me_to m) days was now in
            if p = (me_from m, me_to m) then (s, Inr None)
            else (update_memos (\<lambda>x. me_id x = memoId)
                    (\<lambda>x. (bump_memo (Some by) x)\<lparr>me_from := fst p, me_to := snd p\<rparr>) s, Inr (Some memoId)))))"

end
