(* ===== verification/Custody_Operations.thy ===== *)
theory Custody_Operations
  imports Custody_Memos
begin

text \<open>
  The fund's letters and what becomes of them: the writes of \<open>fleet/custody/custody-fund.service.ts\<close> (charge,
  replenish, settle), \<open>custody-fund-hold.ts\<close> (confirm a transfer, cancel), \<open>custody-fund-delete.ts\<close> (delete),
  with \<open>custody-operation.repository.ts\<close>, the replenishment writes of \<open>custody-memo.repository.ts\<close>, and the
  licensing records they settle (\<open>license-expense-lock.ts\<close>, \<open>license-expense-money.ts\<close>,
  \<open>license-expense.repository.ts\<close>, the writes of \<open>license-expense.service.ts\<close>).
\<close>

section \<open>Licensing records\<close>

fun expense_part_of :: "expense_doc \<Rightarrow> licence_kind \<Rightarrow> expense_part option" where
  "expense_part_of d RenewalPart = ex_renewal d"
| "expense_part_of d ExtensionPart = ex_extension d"

fun settlementOf :: "expense_doc \<Rightarrow> licence_kind \<Rightarrow> expense_settlement option" where
  "settlementOf d RenewalPart = ex_renewalSettlement d"
| "settlementOf d ExtensionPart = ex_extensionSettlement d"

fun set_settlement :: "licence_kind \<Rightarrow> expense_settlement option \<Rightarrow> expense_doc \<Rightarrow> expense_doc" where
  "set_settlement RenewalPart x d = d\<lparr>ex_renewalSettlement := x\<rparr>"
| "set_settlement ExtensionPart x d = d\<lparr>ex_extensionSettlement := x\<rparr>"

definition settledDayOf :: "expense_doc \<Rightarrow> string option" where
  "settledDayOf d =
     (case sort (map (\<lambda>x. dayKey (es_settledAt x))
              (List.map_filter (settlementOf d) FLEET_LICENSE_EXPENSE_KINDS)) of
        [] \<Rightarrow> None | day # _ \<Rightarrow> Some day)"

definition isLicenseExpenseLocked :: "expense_doc \<Rightarrow> bool" where
  "isLicenseExpenseLocked d \<longleftrightarrow> settledDayOf d \<noteq> None"

definition expense_writable :: "expense_doc \<Rightarrow> bool" where
  "expense_writable d \<longleftrightarrow> ex_renewalSettlement d = None \<and> ex_extensionSettlement d = None"

definition linePiastres :: "expense_item \<Rightarrow> int" where
  "linePiastres i =
     math_round (fl ((case ei_amount i of None \<Rightarrow> 0 | Some a \<Rightarrow> a) * 100)) * ei_count i"

definition partPiastres :: "paid_by \<Rightarrow> expense_part option \<Rightarrow> int" where
  "partPiastres by part =
     (case part of None \<Rightarrow> 0
      | Some p \<Rightarrow> sum_list (map linePiastres (filter (\<lambda>i. ei_paidBy i = by) (xp_items p))))"

text \<open>\<open>partMoney\<close>: by card, in cash, and together.\<close>

definition partMoney :: "expense_part option \<Rightarrow> rat \<times> rat \<times> rat" where
  "partMoney part =
     (let visa = partPiastres PaidVisa part; cash = partPiastres PaidCash part in
      (fromPiastres visa, fromPiastres cash, fromPiastres (visa + cash)))"

definition find_expense :: "oid \<Rightarrow> fleet_store \<Rightarrow> expense_doc option" where
  "find_expense expenseId s = List.find (\<lambda>d. ex_id d = expenseId \<and> \<not> ex_isDeleted d) (fs_expenses s)"

definition update_expenses ::
  "(expense_doc \<Rightarrow> bool) \<Rightarrow> (expense_doc \<Rightarrow> expense_doc) \<Rightarrow> fleet_store \<Rightarrow> fleet_store" where
  "update_expenses P f s = s\<lparr>fs_expenses := update_where P f (fs_expenses s)\<rparr>"

definition bump_expense :: "oid option \<Rightarrow> expense_doc \<Rightarrow> expense_doc" where
  "bump_expense by d = d\<lparr>ex_updatedBy := by, ex_version := ex_version d + 1\<rparr>"

text \<open>A conditional write answers whether it changed a row.\<close>

definition write_where ::
  "(expense_doc \<Rightarrow> bool) \<Rightarrow> (expense_doc \<Rightarrow> expense_doc) \<Rightarrow> (fleet_store, bool) st" where
  "write_where P f s = (update_expenses P f s, Inr (\<exists>d \<in> set (fs_expenses s). P d))"

definition markSettled ::
  "oid \<Rightarrow> licence_kind \<Rightarrow> expense_settlement \<Rightarrow> oid \<Rightarrow> (fleet_store, bool) st" where
  "markSettled expenseId part settlement by =
     write_where (\<lambda>d. ex_id d = expenseId \<and> \<not> ex_isDeleted d \<and> expense_part_of d part \<noteq> None \<and>
         settlementOf d part = None)
       (\<lambda>d. bump_expense (Some by) (set_settlement part (Some settlement) d))"

definition settled_by :: "oid \<Rightarrow> licence_kind \<Rightarrow> expense_doc \<Rightarrow> bool" where
  "settled_by operationId part d \<longleftrightarrow>
     (case settlementOf d part of None \<Rightarrow> False | Some x \<Rightarrow> es_operationId x = operationId)"

definition releaseSettlement :: "oid \<Rightarrow> licence_kind \<Rightarrow> oid \<Rightarrow> oid \<Rightarrow> (fleet_store, bool) st" where
  "releaseSettlement expenseId part operationId by =
     write_where (\<lambda>d. ex_id d = expenseId \<and> \<not> ex_isDeleted d \<and> settled_by operationId part d)
       (\<lambda>d. bump_expense (Some by) (set_settlement part None d))"

record expense_input =
  ein_date :: instant
  ein_renewal :: "expense_part option"
  ein_extension :: "expense_part option"
  ein_signatures :: expense_signatures

definition create_expense :: "custody_env \<Rightarrow> expense_input \<Rightarrow> (fleet_store, expense_doc) st" where
  "create_expense env input =
     st_bind freshOid (\<lambda>expenseId.
     let d = \<lparr>ex_id = expenseId, ex_date = ein_date input, ex_renewal = ein_renewal input,
         ex_extension = ein_extension input, ex_signatures = ein_signatures input,
         ex_renewalSettlement = None, ex_extensionSettlement = None, ex_createdAt = ce_now env,
         ex_createdBy = Some (ce_user env), ex_updatedBy = Some (ce_user env), ex_deletedAt = None,
         ex_deletedBy = None, ex_version = 0, ex_isDeleted = False\<rparr> in
     st_bind (st_modify (\<lambda>s. s\<lparr>fs_expenses := fs_expenses s @ [d]\<rparr>)) (\<lambda>_.
     st_bind (fleet_effect (FleetAudit ''licenseExpense'' expenseId ''create'')) (\<lambda>_.
     st_return d)))"

text \<open>\<open>updateById\<close> and \<open>softDeleteById\<close> under \<open>LICENSE_EXPENSE_WRITABLE\<close>.\<close>

definition expense_refusal :: "oid \<Rightarrow> fleet_store \<Rightarrow> app_error \<Rightarrow> app_error" where
  "expense_refusal expenseId s otherwise =
     (case find_expense expenseId s of None \<Rightarrow> NotFoundError ''Not found''
      | Some d \<Rightarrow> if isLicenseExpenseLocked d then BusinessRuleError ''the licence expense was settled''
                  else otherwise)"

definition write_expense ::
  "oid \<Rightarrow> (expense_doc \<Rightarrow> bool) \<Rightarrow> (expense_doc \<Rightarrow> expense_doc) \<Rightarrow> app_error \<Rightarrow> (fleet_store, unit) st" where
  "write_expense expenseId P f otherwise s =
     (if \<exists>d \<in> set (fs_expenses s). ex_id d = expenseId \<and> \<not> ex_isDeleted d \<and> expense_writable d \<and> P d
      then (update_expenses (\<lambda>d. ex_id d = expenseId \<and> \<not> ex_isDeleted d \<and> expense_writable d \<and> P d) f s, Inr ())
      else (s, Inl (expense_refusal expenseId s otherwise)))"

definition update_expense :: "custody_env \<Rightarrow> oid \<Rightarrow> expense_input \<Rightarrow> nat \<Rightarrow> (fleet_store, unit) st" where
  "update_expense env expenseId input version =
     st_bind (st_gets (find_expense expenseId)) (\<lambda>found.
     st_bind (st_lift (option_or (NotFoundError ''Not found'') found)) (\<lambda>_.
     st_bind (write_expense expenseId (\<lambda>d. ex_version d = version)
       (\<lambda>d. bump_expense (Some (ce_user env)) (d\<lparr>ex_date := ein_date input, ex_renewal := ein_renewal input,
          ex_extension := ein_extension input, ex_signatures := ein_signatures input\<rparr>)) StaleDocumentError) (\<lambda>_.
     fleet_effect (FleetAudit ''licenseExpense'' expenseId ''update''))))"

definition remove_expense :: "custody_env \<Rightarrow> oid \<Rightarrow> (fleet_store, unit) st" where
  "remove_expense env expenseId =
     st_bind (st_gets (find_expense expenseId)) (\<lambda>found.
     st_bind (st_lift (option_or (NotFoundError ''Not found'') found)) (\<lambda>_.
     st_bind (write_expense expenseId (\<lambda>_. True)
       (\<lambda>d. (bump_expense (Some (ce_user env)) d)\<lparr>ex_isDeleted := True, ex_deletedAt := Some (ce_now env),
          ex_deletedBy := Some (ce_user env)\<rparr>) (NotFoundError ''Not found'')) (\<lambda>_.
     fleet_effect (FleetAudit ''licenseExpense'' expenseId ''delete''))))"

section \<open>The operations' collection\<close>

definition find_operation :: "oid \<Rightarrow> fleet_store \<Rightarrow> operation_doc option" where
  "find_operation opId s = List.find (\<lambda>d. op_id d = opId \<and> \<not> op_isDeleted d) (fs_operations s)"

definition insert_operation :: "operation_doc \<Rightarrow> (fleet_store, operation_doc) st" where
  "insert_operation d s = (s\<lparr>fs_operations := fs_operations s @ [d]\<rparr>, Inr d)"

definition update_operations ::
  "(operation_doc \<Rightarrow> bool) \<Rightarrow> (operation_doc \<Rightarrow> operation_doc) \<Rightarrow> (fleet_store, bool) st" where
  "update_operations P f s =
     (s\<lparr>fs_operations := update_where P f (fs_operations s)\<rparr>, Inr (\<exists>d \<in> set (fs_operations s). P d))"

datatype leave_held = Transferred operation_transfer | Withdrawn operation_cancellation

fun apply_leave :: "leave_held \<Rightarrow> operation_doc \<Rightarrow> operation_doc" where
  "apply_leave (Transferred x) d = d\<lparr>op_status := Some DoneStatus, op_transfer := Some x\<rparr>"
| "apply_leave (Withdrawn x) d = d\<lparr>op_status := Some CancelledStatus, op_cancellation := Some x\<rparr>"

definition bump_operation :: "oid option \<Rightarrow> operation_doc \<Rightarrow> operation_doc" where
  "bump_operation by d = d\<lparr>op_updatedBy := by, op_version := op_version d + 1\<rparr>"

definition leaveHeldWrite :: "oid \<Rightarrow> leave_held \<Rightarrow> oid \<Rightarrow> (fleet_store, bool) st" where
  "leaveHeldWrite opId next by =
     update_operations (\<lambda>d. op_id d = opId \<and> \<not> op_isDeleted d \<and> op_kind d = ReplenishOp \<and>
         op_status d = Some HeldStatus)
       (\<lambda>d. bump_operation (Some by) (apply_leave next d))"

definition markDeleted :: "oid \<Rightarrow> nat \<Rightarrow> operation_deletion \<Rightarrow> oid \<Rightarrow> (fleet_store, bool) st" where
  "markDeleted opId version deletion by =
     update_operations (\<lambda>d. op_id d = opId \<and> \<not> op_isDeleted d \<and> op_version d = version)
       (\<lambda>d. (bump_operation (Some by) d)\<lparr>op_isDeleted := True, op_deletedAt := Some (xd_at deletion),
          op_deletedBy := xd_by deletion, op_deletion := Some deletion\<rparr>)"

section \<open>Memos taken by a replenishment\<close>

text \<open>\<open>updateMany\<close> over the memos; the answer is how many changed.\<close>

definition write_memos ::
  "(memo_doc \<Rightarrow> bool) \<Rightarrow> (memo_doc \<Rightarrow> memo_doc) \<Rightarrow> oid \<Rightarrow> (fleet_store, nat) st" where
  "write_memos P f by s =
     (update_memos P (\<lambda>m. bump_memo (Some by) (f m)) s, Inr (length (filter P (fs_memos s))))"

definition take_memo :: "oid option \<Rightarrow> instant option \<Rightarrow> bool \<Rightarrow> memo_doc \<Rightarrow> memo_doc" where
  "take_memo opId since held m =
     m\<lparr>me_replenishmentId := opId, me_replenishedAt := since, me_replenishmentHeld := Some held\<rparr>"

definition markReplenished :: "oid list \<Rightarrow> oid \<Rightarrow> instant \<Rightarrow> oid \<Rightarrow> bool \<Rightarrow> (fleet_store, nat) st" where
  "markReplenished ids operationId date by held =
     write_memos (\<lambda>m. me_id m \<in> set ids \<and> \<not> me_isDeleted m \<and> me_replenishmentId m = None)
       (take_memo (Some operationId) (Some date) held) by"

definition heldBy :: "oid list \<Rightarrow> oid \<Rightarrow> memo_doc \<Rightarrow> bool" where
  "heldBy ids operationId m \<longleftrightarrow>
     me_id m \<in> set ids \<and> \<not> me_isDeleted m \<and> me_replenishmentId m = Some operationId \<and>
     me_replenishmentHeld m = Some True"

definition markTransferred :: "oid list \<Rightarrow> oid \<Rightarrow> instant \<Rightarrow> oid \<Rightarrow> (fleet_store, nat) st" where
  "markTransferred ids operationId day by =
     write_memos (heldBy ids operationId) (take_memo (Some operationId) (Some day) False) by"

definition releaseHeld :: "oid list \<Rightarrow> oid \<Rightarrow> oid \<Rightarrow> (fleet_store, nat) st" where
  "releaseHeld ids operationId by = write_memos (heldBy ids operationId) (take_memo None None False) by"

definition freed_memo :: "memo_doc \<Rightarrow> memo_doc" where
  "freed_memo m = m\<lparr>me_replenishmentId := None, me_replenishedAt := None,
     me_replenishmentHeld := (case me_replenishmentHeld m of None \<Rightarrow> None | Some _ \<Rightarrow> Some False)\<rparr>"

definition releaseReplenishment :: "oid \<Rightarrow> oid \<Rightarrow> (fleet_store, memo_doc list) st" where
  "releaseReplenishment operationId by s =
     (let P = (\<lambda>m. \<not> me_isDeleted m \<and> me_replenishmentId m = Some operationId) in
      (update_memos P (\<lambda>m. bump_memo (Some by) (freed_memo m)) s,
       Inr (sort_key me_no (filter P (fs_memos s)))))"

section \<open>The three letters\<close>

definition letterPeriodFor ::
  "instant option \<Rightarrow> instant option \<Rightarrow> instant list \<Rightarrow> instant option \<times> instant option" where
  "letterPeriodFor inFrom inTo days =
     (let bounds = monthBounds days;
          from = (case inFrom of None \<Rightarrow> map_option fst bounds | Some d \<Rightarrow> Some (utcDay d));
          to = (case inTo of None \<Rightarrow> map_option snd bounds | Some d \<Rightarrow> Some (utcDay d)) in
      case (from, to) of
        (Some f, Some t) \<Rightarrow> (if t < f then (if inFrom = None then (Some t, Some t) else (Some f, Some f))
                             else (Some f, Some t))
      | _ \<Rightarrow> (from, to))"

definition new_operation ::
  "custody_env \<Rightarrow> operation_kind \<Rightarrow> operation_status \<Rightarrow> string \<Rightarrow> oid \<Rightarrow> instant \<Rightarrow>
     instant option \<times> instant option \<Rightarrow> rat \<Rightarrow> string \<Rightarrow> operation_memo list \<Rightarrow> operation_part list \<Rightarrow>
     fund_terms \<Rightarrow> operation_doc" where
  "new_operation env kind status paper opId date period amount reason memos parts terms =
     \<lparr>op_id = opId, op_kind = kind, op_status = Some status, op_transfer = None,
      op_cancellation = None, op_deletion = None, op_date = date, op_from = fst period,
      op_to = snd period, op_amount = amount, op_reason = reason, op_memos = memos, op_parts = parts,
      op_fundBefore = ft_fundTotal terms, op_chargedTotal = fn_amount (ft_charged terms),
      op_letterFigure = letterFigureOf kind terms, op_signatures = ce_signatures env paper,
      op_createdAt = ce_now env, op_createdBy = Some (ce_user env), op_updatedBy = Some (ce_user env),
      op_deletedAt = None, op_deletedBy = None, op_version = 0, op_isDeleted = False\<rparr>"

record charge_input =
  ci_date :: "instant option"
  ci_amount :: rat
  ci_reason :: string

definition letter_day :: "custody_env \<Rightarrow> instant option \<Rightarrow> instant" where
  "letter_day env d = utcDay (case d of None \<Rightarrow> ce_now env | Some x \<Rightarrow> x)"

definition charge :: "custody_env \<Rightarrow> charge_input \<Rightarrow> (fleet_store, operation_doc) st" where
  "charge env input =
     st_bind ensureFundLock (\<lambda>_.
     st_bind freshOid (\<lambda>operationId.
     st_bind (unitOfWork (
       st_bind lockFund (\<lambda>_.
       st_bind (st_gets readCustodyFundTerms) (\<lambda>terms.
       insert_operation (new_operation env ChargeOp DoneStatus ''charge'' operationId
         (letter_day env (ci_date input)) (None, None) (fromPiastres (toPiastres (ci_amount input)))
         (ce_reason env (ci_reason input)) [] [] terms))))) (\<lambda>doc.
     st_bind (fleet_effect (FleetAudit ''custodyOperation'' operationId ''create'')) (\<lambda>_.
     st_return doc))))"

record replenish_input =
  ri_date :: "instant option"
  ri_from :: "instant option"
  ri_to :: "instant option"
  ri_memoIds :: "oid list"

definition memo_snapshot :: "fleet_store \<Rightarrow> memo_doc \<Rightarrow> operation_memo" where
  "memo_snapshot s m =
     \<lparr>om_memoId = me_id m, om_no = me_no m, om_kind = me_kind m, om_name = me_name m,
      om_from = me_from m, om_to = me_to m, om_receipts = fst (readMemoTotals s (me_id m)),
      om_amount = snd (readMemoTotals s (me_id m))\<rparr>"

definition replenish_tx :: "custody_env \<Rightarrow> replenish_input \<Rightarrow> oid \<Rightarrow> (fleet_store, operation_doc) st" where
  "replenish_tx env input operationId =
     st_bind lockFund (\<lambda>_.
     st_bind (st_gets (findLiveByIds (ri_memoIds input))) (\<lambda>memos.
     st_bind (st_ensure (\<forall>i \<in> set (ri_memoIds input). i \<in> me_id ` set memos)
       (NotFoundError ''custody memo not found'')) (\<lambda>_.
     st_bind (st_ensure (\<forall>m \<in> set memos. me_replenishmentId m = None)
       (ConflictError ''a custody memo was already replenished'')) (\<lambda>_.
     st_bind (st_gets (\<lambda>s. map (memo_snapshot s) memos)) (\<lambda>snapshots.
     st_bind (st_gets readCustodyFundTerms) (\<lambda>terms.
     st_bind (insert_operation (new_operation env ReplenishOp HeldStatus ''replenish'' operationId
       (letter_day env (ri_date input))
       (letterPeriodFor (ri_from input) (ri_to input) (concat (map (\<lambda>m. [me_from m, me_to m]) memos)))
       (fromPiastres (sum_list (map (\<lambda>x. toPiastres (om_amount x)) snapshots))) '''' snapshots [] terms)) (\<lambda>created.
     st_bind (markReplenished (map me_id memos) operationId (letter_day env (ri_date input)) (ce_user env) True) (\<lambda>marked.
     st_bind (st_ensure (marked = length memos)
       (ConflictError ''a custody memo was replenished or deleted meanwhile'')) (\<lambda>_.
     st_return created)))))))))"

definition replenish :: "custody_env \<Rightarrow> replenish_input \<Rightarrow> (fleet_store, operation_doc) st" where
  "replenish env input =
     st_bind freshOid (\<lambda>operationId.
     st_bind ensureFundLock (\<lambda>_.
     st_bind (unitOfWork (replenish_tx env input operationId)) (\<lambda>doc.
     st_bind (fleet_effect (FleetAudit ''custodyOperation'' operationId ''create'')) (\<lambda>_.
     st_bind (st_each (\<lambda>x. fleet_effect (FleetAudit ''custodyMemo'' (om_memoId x) ''statusChange'')) (op_memos doc)) (\<lambda>_.
     st_bind (if op_memos doc = [] then st_return () else fleet_effect (ReceiptsSignal operationId)) (\<lambda>_.
     st_return doc))))))"

record settle_input =
  si_date :: "instant option"
  si_from :: "instant option"
  si_to :: "instant option"
  si_parts :: "(oid \<times> licence_kind) list"

text \<open>Each picked memo must exist, hold the part and wait for its settlement, in the order asked.\<close>

fun pick_parts ::
  "fleet_store \<Rightarrow> (oid \<times> licence_kind) list \<Rightarrow> app_error + (expense_doc \<times> licence_kind) list" where
  "pick_parts s [] = Inr []"
| "pick_parts s ((expenseId, part) # rest) =
     (case find_expense expenseId s of
        None \<Rightarrow> Inl (NotFoundError ''licence expense not found'')
      | Some d \<Rightarrow>
        (if expense_part_of d part = None then Inl (NotFoundError ''licence expense has no such part'')
         else if settlementOf d part \<noteq> None then Inl (ConflictError ''already settled'')
         else res_bind (pick_parts s rest) (\<lambda>ps. Inr ((d, part) # ps))))"

definition byLetterOrder :: "expense_doc \<times> licence_kind \<Rightarrow> instant \<times> licence_kind \<times> instant \<times> oid" where
  "byLetterOrder p = (ex_date (fst p), snd p, ex_createdAt (fst p), ex_id (fst p))"

definition partCodes :: "custody_env \<Rightarrow> expense_part option \<Rightarrow> string list" where
  "partCodes env part =
     filter (\<lambda>c. js_trim c \<noteq> '''')
       (map (\<lambda>v. case ev_vehicleId v of None \<Rightarrow> ev_plate v
          | Some i \<Rightarrow> (case ce_codes env i of None \<Rightarrow> ev_plate v | Some c \<Rightarrow> c))
         (case part of None \<Rightarrow> [] | Some p \<Rightarrow> xp_vehicles p))"

definition part_snapshot :: "custody_env \<Rightarrow> expense_doc \<times> licence_kind \<Rightarrow> operation_part" where
  "part_snapshot env p = (case p of (d, part) \<Rightarrow>
     case partMoney (expense_part_of d part) of (visa, cash, both) \<Rightarrow>
     \<lparr>pt_expenseId = ex_id d, pt_part = part, pt_date = ex_date d,
      pt_cars = (case expense_part_of d part of None \<Rightarrow> 0 | Some x \<Rightarrow> length (xp_vehicles x)),
      pt_codes = partCodes env (expense_part_of d part), pt_visaTotal = visa, pt_cashTotal = cash,
      pt_amount = both\<rparr>)"

fun settle_each :: "oid \<Rightarrow> instant \<Rightarrow> oid \<Rightarrow> operation_part list \<Rightarrow> (fleet_store, unit) st" where
  "settle_each operationId date by [] = st_return ()"
| "settle_each operationId date by (p # ps) =
     st_bind (markSettled (pt_expenseId p) (pt_part p)
       \<lparr>es_operationId = operationId, es_settledAt = date\<rparr> by) (\<lambda>marked.
     st_bind (st_ensure marked (ConflictError ''settled, changed or deleted meanwhile'')) (\<lambda>_.
     settle_each operationId date by ps))"

definition settle_tx :: "custody_env \<Rightarrow> settle_input \<Rightarrow> oid \<Rightarrow> (fleet_store, operation_doc) st" where
  "settle_tx env input operationId =
     st_bind lockFund (\<lambda>_.
     st_bind (\<lambda>s. (s, pick_parts s (si_parts input))) (\<lambda>picked.
     let parts = map (part_snapshot env) (sort_key byLetterOrder picked) in
     st_bind (st_gets readCustodyFundTerms) (\<lambda>terms.
     st_bind (insert_operation (new_operation env SettleOp DoneStatus ''settle'' operationId
       (letter_day env (si_date input)) (letterPeriodFor (si_from input) (si_to input) (map pt_date parts))
       (fromPiastres (sum_list (map (\<lambda>p. toPiastres (pt_amount p)) parts))) '''' [] parts terms)) (\<lambda>created.
     st_bind (settle_each operationId (letter_day env (si_date input)) (ce_user env) parts) (\<lambda>_.
     st_return created)))))"

definition settle :: "custody_env \<Rightarrow> settle_input \<Rightarrow> (fleet_store, operation_doc) st" where
  "settle env input =
     st_bind freshOid (\<lambda>operationId.
     st_bind ensureFundLock (\<lambda>_.
     st_bind (unitOfWork (settle_tx env input operationId)) (\<lambda>doc.
     st_bind (fleet_effect (FleetAudit ''custodyOperation'' operationId ''create'')) (\<lambda>_.
     st_bind (st_each (\<lambda>i. fleet_effect (FleetAudit ''licenseExpense'' i ''statusChange''))
       (remdups (map pt_expenseId (op_parts doc)))) (\<lambda>_.
     st_return doc)))))"

section \<open>A held replenishment moves on\<close>

definition leaveHeld_tx ::
  "oid \<Rightarrow> oid \<Rightarrow> (operation_doc \<Rightarrow> app_error + leave_held) \<Rightarrow>
     (oid list \<Rightarrow> operation_doc \<Rightarrow> (fleet_store, nat) st) \<Rightarrow> (fleet_store, operation_doc) st" where
  "leaveHeld_tx opId by change moveMemos =
     st_bind lockFund (\<lambda>_.
     st_bind (st_gets (find_operation opId)) (\<lambda>found.
     st_bind (st_lift (option_or (NotFoundError ''custody operation not found'') found)) (\<lambda>d.
     st_bind (st_ensure (op_kind d = ReplenishOp) (BusinessRuleError ''only a replenishment waits'')) (\<lambda>_.
     st_bind (st_ensure (operationStatusOf d = HeldStatus)
       (ConflictError ''already transferred or cancelled'')) (\<lambda>_.
     st_bind (st_lift (change d)) (\<lambda>next.
     st_bind (leaveHeldWrite opId next by) (\<lambda>moved.
     st_bind (st_ensure moved (ConflictError ''confirmed or cancelled meanwhile'')) (\<lambda>_.
     st_bind (moveMemos (map om_memoId (op_memos d)) d) (\<lambda>n.
     st_bind (st_ensure (n = length (op_memos d)) (ConflictError ''a memo changed meanwhile'')) (\<lambda>_.
     st_return d))))))))))"

definition audit_move :: "operation_doc \<Rightarrow> (fleet_store, unit) st" where
  "audit_move d =
     st_bind (fleet_effect (FleetAudit ''custodyOperation'' (op_id d) ''statusChange'')) (\<lambda>_.
     st_bind (st_each (\<lambda>x. fleet_effect (FleetAudit ''custodyMemo'' (om_memoId x) ''statusChange'')) (op_memos d)) (\<lambda>_.
     if op_memos d = [] then st_return () else fleet_effect (ReceiptsSignal (op_id d))))"

definition leaveHeld ::
  "oid \<Rightarrow> oid \<Rightarrow> (operation_doc \<Rightarrow> app_error + leave_held) \<Rightarrow>
     (oid list \<Rightarrow> operation_doc \<Rightarrow> (fleet_store, nat) st) \<Rightarrow> (fleet_store, unit) st" where
  "leaveHeld opId by change moveMemos =
     st_bind ensureFundLock (\<lambda>_.
     st_bind (unitOfWork (leaveHeld_tx opId by change moveMemos)) audit_move)"

record transfer_input =
  ti_date :: instant
  ti_reference :: string
  ti_note :: string

definition confirm_change :: "custody_env \<Rightarrow> transfer_input \<Rightarrow> operation_doc \<Rightarrow> app_error + leave_held" where
  "confirm_change env input d =
     res_bind (res_ensure (\<not> utcDay (ti_date input) < utcDay (op_date d))
       (BusinessRuleError ''the transfer day is before the letter'')) (\<lambda>_.
     Inr (Transferred \<lparr>xf_date = utcDay (ti_date input), xf_reference = ti_reference input,
       xf_note = ti_note input, xf_by = Some (ce_user env), xf_byName = ce_userName env,
       xf_at = ce_now env\<rparr>))"

definition confirmTransfer :: "custody_env \<Rightarrow> oid \<Rightarrow> transfer_input \<Rightarrow> (fleet_store, unit) st" where
  "confirmTransfer env opId input =
     leaveHeld opId (ce_user env) (confirm_change env input)
       (\<lambda>memoIds d. markTransferred memoIds (op_id d) (utcDay (ti_date input)) (ce_user env))"

definition cancelHeld :: "custody_env \<Rightarrow> oid \<Rightarrow> string \<Rightarrow> (fleet_store, unit) st" where
  "cancelHeld env opId reason =
     leaveHeld opId (ce_user env)
       (\<lambda>_. Inr (Withdrawn \<lparr>xc_reason = reason, xc_by = Some (ce_user env), xc_byName = ce_userName env,
          xc_at = ce_now env\<rparr>))
       (\<lambda>memoIds d. releaseHeld memoIds (op_id d) (ce_user env))"

section \<open>Deleting an operation\<close>

definition deletionEffectPiastres :: "operation_doc \<Rightarrow> int" where
  "deletionEffectPiastres d =
     (let p = toPiastres (op_amount d) in
      case op_kind d of ChargeOp \<Rightarrow> - p | SettleOp \<Rightarrow> p
      | ReplenishOp \<Rightarrow> if operationStatusOf d = DoneStatus then - p else 0)"

definition fundAfterDeleteOf :: "rat \<Rightarrow> operation_doc \<Rightarrow> rat" where
  "fundAfterDeleteOf fundBefore d = fromPiastres (toPiastres fundBefore + deletionEffectPiastres d)"

definition release_one :: "oid \<Rightarrow> oid \<Rightarrow> expense_doc \<times> licence_kind \<Rightarrow> (fleet_store, (oid \<times> licence_kind) list) st" where
  "release_one operationId by p =
     (if settled_by operationId (snd p) (fst p)
      then st_bind (releaseSettlement (ex_id (fst p)) (snd p) operationId by) (\<lambda>freed.
             st_return (if freed then [(ex_id (fst p), snd p)] else []))
      else st_return [])"

fun release_each ::
  "oid \<Rightarrow> oid \<Rightarrow> (expense_doc \<times> licence_kind) list \<Rightarrow> (fleet_store, (oid \<times> licence_kind) list) st" where
  "release_each operationId by [] = st_return []"
| "release_each operationId by (p # ps) =
     st_bind (release_one operationId by p) (\<lambda>xs.
     st_bind (release_each operationId by ps) (\<lambda>ys. st_return (xs @ ys)))"

definition settled_records :: "oid \<Rightarrow> fleet_store \<Rightarrow> expense_doc list" where
  "settled_records operationId s =
     sort_key (\<lambda>d. (ex_date d, ex_id d))
       (filter (\<lambda>d. \<not> ex_isDeleted d \<and> (\<exists>part \<in> set FLEET_LICENSE_EXPENSE_KINDS. settled_by operationId part d))
         (fs_expenses s))"

definition releaseParts :: "oid \<Rightarrow> oid \<Rightarrow> (fleet_store, (oid \<times> licence_kind) list) st" where
  "releaseParts operationId by =
     st_bind (st_gets (settled_records operationId)) (\<lambda>records.
     release_each operationId by
       (concat (map (\<lambda>d. map (\<lambda>part. (d, part)) FLEET_LICENSE_EXPENSE_KINDS) records)))"

definition deletion_of :: "custody_env \<Rightarrow> string \<Rightarrow> rat \<Rightarrow> operation_doc \<Rightarrow> operation_deletion" where
  "deletion_of env reason fundTotal d =
     \<lparr>xd_reason = reason, xd_by = Some (ce_user env), xd_byName = ce_userName env, xd_at = ce_now env,
      xd_fundBefore = fundTotal, xd_fundAfter = fundAfterDeleteOf fundTotal d\<rparr>"

type_synonym deleted_operation =
  "operation_doc \<times> operation_deletion \<times> memo_doc list \<times> (oid \<times> licence_kind) list"

definition remove_tx :: "custody_env \<Rightarrow> oid \<Rightarrow> nat \<Rightarrow> string \<Rightarrow> (fleet_store, deleted_operation) st" where
  "remove_tx env opId version reason =
     st_bind lockFund (\<lambda>_.
     st_bind (st_gets (find_operation opId)) (\<lambda>found.
     st_bind (st_lift (option_or (NotFoundError ''custody operation not found'') found)) (\<lambda>d.
     st_bind (st_ensure (op_version d = version) StaleDocumentError) (\<lambda>_.
     st_bind (st_gets readCustodyFundTerms) (\<lambda>terms.
     st_bind (if op_kind d = ReplenishOp then releaseReplenishment (op_id d) (ce_user env) else st_return []) (\<lambda>memos.
     st_bind (if op_kind d = SettleOp then releaseParts (op_id d) (ce_user env) else st_return []) (\<lambda>parts.
     let deletion = deletion_of env reason (ft_fundTotal terms) d in
     st_bind (markDeleted (op_id d) version deletion (ce_user env)) (\<lambda>marked.
     st_bind (st_ensure marked StaleDocumentError) (\<lambda>_.
     st_return (d, deletion, memos, parts))))))))))"

definition remove_operation ::
  "custody_env \<Rightarrow> oid \<Rightarrow> nat \<Rightarrow> string \<Rightarrow> (fleet_store, deleted_operation) st" where
  "remove_operation env opId version reason =
     st_bind ensureFundLock (\<lambda>_.
     st_bind (unitOfWork (remove_tx env opId version reason)) (\<lambda>(d, deletion, memos, parts).
     st_bind (fleet_effect (FleetAudit ''custodyOperation'' (op_id d) ''delete'')) (\<lambda>_.
     st_bind (st_each (\<lambda>m. fleet_effect (FleetAudit ''custodyMemo'' (me_id m) ''statusChange'')) memos) (\<lambda>_.
     st_bind (st_each (\<lambda>i. fleet_effect (FleetAudit ''licenseExpense'' i ''statusChange''))
       (remdups (map fst parts))) (\<lambda>_.
     st_bind (if memos = [] then st_return () else fleet_effect (ReceiptsSignal (op_id d))) (\<lambda>_.
     st_return (d, deletion, memos, parts)))))))"

end
