(* ===== verification/Custody_Receipts.thy ===== *)
theory Custody_Receipts
  imports Custody_Memos
begin

text \<open>
  The receipts screen: \<open>prepare\<close>, \<open>create\<close>, \<open>update\<close> and \<open>remove\<close> of \<open>fleet/receipts/receipt.service.ts\<close>, with
  \<open>debit\<close>, \<open>credit\<close> and \<open>movement\<close> of \<open>fleet/fuel-cards/fuel-card.service.ts\<close>. A fuel receipt taken off a card
  and the card's balance are written in one transaction. The photo of a receipt is not modelled: its
  writes touch only \<open>rc_image\<close> and the version.
\<close>

section \<open>Fuel cards\<close>

definition find_card :: "oid \<Rightarrow> fleet_store \<Rightarrow> fuel_card option" where
  "find_card cardId s = List.find (\<lambda>c. fc_id c = cardId \<and> \<not> fc_isDeleted c) (fs_cards s)"

definition set_balance :: "oid \<Rightarrow> rat \<Rightarrow> oid \<Rightarrow> (fleet_store, unit) st" where
  "set_balance cardId balance by =
     st_modify (\<lambda>s. s\<lparr>fs_cards := update_where (\<lambda>c. fc_id c = cardId \<and> \<not> fc_isDeleted c)
       (\<lambda>c. c\<lparr>fc_balance := balance, fc_updatedBy := Some by, fc_version := fc_version c + 1\<rparr>) (fs_cards s)\<rparr>)"

definition movement :: "oid \<Rightarrow> rat \<Rightarrow> rat \<Rightarrow> oid \<Rightarrow> instant \<Rightarrow> oid \<Rightarrow> (fleet_store, unit) st" where
  "movement cardId amount balanceAfter receiptId moment by =
     st_modify (\<lambda>s. s\<lparr>fs_movements := fs_movements s @
       [\<lparr>cm_cardId = cardId, cm_amount = amount, cm_balanceAfter = balanceAfter, cm_receiptId = receiptId,
         cm_at = moment, cm_createdBy = by\<rparr>]\<rparr>)"

definition debit :: "oid \<Rightarrow> rat \<Rightarrow> oid \<Rightarrow> instant \<Rightarrow> oid \<Rightarrow> (fleet_store, unit) st" where
  "debit cardId amount receiptId moment by =
     st_bind (st_gets (find_card cardId)) (\<lambda>found.
     st_bind (st_lift (option_or (NotFoundError ''card not found'') found)) (\<lambda>c.
     st_bind (st_ensure (\<not> toPiastres (fc_balance c) < toPiastres amount)
       (ValidationError ''body.amount'')) (\<lambda>_.
     let after = fromPiastres (toPiastres (fc_balance c) - toPiastres amount) in
     st_bind (set_balance cardId after by) (\<lambda>_.
     movement cardId (- amount) after receiptId moment by))))"

definition credit :: "oid \<Rightarrow> rat \<Rightarrow> oid \<Rightarrow> instant \<Rightarrow> oid \<Rightarrow> (fleet_store, unit) st" where
  "credit cardId amount receiptId moment by =
     st_bind (st_gets (find_card cardId)) (\<lambda>found.
     case found of None \<Rightarrow> st_return ()
     | Some c \<Rightarrow>
       (let after = fromPiastres (toPiastres (fc_balance c) + toPiastres amount) in
        st_bind (set_balance cardId after by) (\<lambda>_.
        movement cardId amount after receiptId moment by)))"

section \<open>What a receipt is written from\<close>

record receipt_input =
  rin_date :: instant
  rin_vehicleId :: oid
  rin_driverEmployeeId :: "oid option"
  rin_driverName :: "string option"
  rin_kind :: custody_source
  rin_cardId :: "oid option"
  rin_fuelType :: "string option"
  rin_amount :: rat
  rin_odometer :: "rat option"
  rin_company :: "string option"

definition litres_of :: "rat \<Rightarrow> rat \<Rightarrow> rat option" where
  "litres_of amount price =
     (if 0 < price then Some (fl (of_int (math_round (fl (fl (amount / price) * 100))) / 100)) else None)"

definition write_facts ::
  "custody_env \<Rightarrow> receipt_input \<Rightarrow> string option \<Rightarrow> receipt_doc \<Rightarrow> receipt_doc" where
  "write_facts env f driverName r =
     (let price = (case rin_fuelType f of None \<Rightarrow> None
            | Some t \<Rightarrow> if rin_kind f = FuelSource then Some (ce_price env t) else None) in
      r\<lparr>rc_date := rin_date f, rc_vehicleId := rin_vehicleId f,
        rc_driverEmployeeId := rin_driverEmployeeId f, rc_driverName := driverName,
        rc_kind := rin_kind f,
        rc_source := (if rin_cardId f = None then PaidByCustody else PaidByCard),
        rc_cardId := rin_cardId f,
        rc_fuelType := (if rin_kind f = FuelSource then rin_fuelType f else None),
        rc_pricePerLitre := price,
        rc_litres := (case price of None \<Rightarrow> None | Some p \<Rightarrow> litres_of (rin_amount f) p),
        rc_amount := rin_amount f,
        rc_odometer := (if rin_kind f = FuelSource then rin_odometer f else None),
        rc_company := (if rin_kind f = FuelSource \<and> rin_cardId f = None then rin_company f else None)\<rparr>)"

definition prepare :: "custody_env \<Rightarrow> receipt_input \<Rightarrow> (fleet_store, receipt_doc \<Rightarrow> receipt_doc) st" where
  "prepare env f =
     st_bind (st_ensure (rin_company f = None \<or> rin_kind f = FuelSource \<and> rin_cardId f = None)
       (ValidationError ''body.company'')) (\<lambda>_.
     st_bind (st_ensure (ce_vehicle env (rin_vehicleId f)) (NotFoundError ''Not found'')) (\<lambda>_.
     st_bind (st_gets (\<lambda>s. case rin_cardId f of None \<Rightarrow> True | Some c \<Rightarrow> find_card c s \<noteq> None)) (\<lambda>known.
     st_bind (st_ensure known (ValidationError ''body.cardId'')) (\<lambda>_.
     case rin_driverEmployeeId f of
       None \<Rightarrow> st_return (write_facts env f (rin_driverName f))
     | Some e \<Rightarrow> st_bind (st_lift (option_or (ValidationError ''body.driverEmployeeId'') (ce_driver env e)))
         (\<lambda>name. st_return (write_facts env f (Some name)))))))"

section \<open>The receipt service\<close>

definition blank_receipt :: "custody_env \<Rightarrow> oid \<Rightarrow> receipt_doc" where
  "blank_receipt env receiptId =
     \<lparr>rc_id = receiptId, rc_date = 0, rc_vehicleId = 0, rc_driverEmployeeId = None, rc_driverName = None,
      rc_kind = FuelSource, rc_source = PaidByCustody, rc_cardId = None, rc_fuelType = None,
      rc_pricePerLitre = None, rc_litres = None, rc_amount = 0, rc_odometer = None, rc_company = None,
      rc_memoId = None, rc_image = None, rc_createdAt = ce_now env, rc_createdBy = Some (ce_user env),
      rc_updatedBy = Some (ce_user env), rc_deletedAt = None, rc_deletedBy = None, rc_version = 0,
      rc_isDeleted = False\<rparr>"

definition find_live_receipt :: "oid \<Rightarrow> fleet_store \<Rightarrow> receipt_doc option" where
  "find_live_receipt receiptId s = List.find (\<lambda>r. rc_id r = receiptId \<and> \<not> rc_isDeleted r) (fs_receipts s)"

definition create_facts :: "receipt_input \<Rightarrow> receipt_input" where
  "create_facts input = input
     \<lparr>rin_cardId := (if rin_kind input = FuelSource then rin_cardId input else None),
      rin_odometer := (if rin_kind input = FuelSource then rin_odometer input else None)\<rparr>"

definition create_receipt :: "custody_env \<Rightarrow> receipt_input \<Rightarrow> (fleet_store, receipt_doc) st" where
  "create_receipt env input =
     st_bind (prepare env (create_facts input)) (\<lambda>facts.
     st_bind freshOid (\<lambda>receiptId.
     let created = facts (blank_receipt env receiptId) in
     st_bind (unitOfWork (
       st_bind (st_modify (\<lambda>s. s\<lparr>fs_receipts := fs_receipts s @ [created]\<rparr>)) (\<lambda>_.
       case rc_cardId created of None \<Rightarrow> st_return ()
       | Some c \<Rightarrow> debit c (rc_amount created) receiptId (rc_date created) (ce_user env)))) (\<lambda>_.
     st_bind (fleet_effect (FleetAudit ''receipt'' receiptId ''create'')) (\<lambda>_.
     st_return created))))"

text \<open>An edit: \<open>None\<close> is a field left out, \<open>Some None\<close> one that is cleared.\<close>

record receipt_edit =
  red_date :: "instant option"
  red_vehicleId :: "oid option"
  red_driverEmployeeId :: "oid option option"
  red_driverName :: "string option option"
  red_kind :: custody_source
  red_cardId :: "oid option option"
  red_fuelType :: "string option option"
  red_amount :: "rat option"
  red_odometer :: "rat option option"
  red_company :: "string option option"
  red_version :: nat

definition edit_or :: "'a option \<Rightarrow> 'a \<Rightarrow> 'a" where
  "edit_or x otherwise = (case x of None \<Rightarrow> otherwise | Some y \<Rightarrow> y)"

definition merge_edit :: "receipt_doc \<Rightarrow> receipt_edit \<Rightarrow> receipt_input" where
  "merge_edit r e =
     (let fuel = (red_kind e = FuelSource); cardId = (if fuel then edit_or (red_cardId e) (rc_cardId r) else None) in
      \<lparr>rin_date = edit_or (red_date e) (rc_date r), rin_vehicleId = edit_or (red_vehicleId e) (rc_vehicleId r),
       rin_driverEmployeeId = edit_or (red_driverEmployeeId e) (rc_driverEmployeeId r),
       rin_driverName = edit_or (red_driverName e) (rc_driverName r), rin_kind = red_kind e,
       rin_cardId = cardId, rin_fuelType = (if fuel then edit_or (red_fuelType e) (rc_fuelType r) else None),
       rin_amount = edit_or (red_amount e) (rc_amount r),
       rin_odometer = (if fuel then edit_or (red_odometer e) (rc_odometer r) else None),
       rin_company = edit_or (red_company e) (if fuel \<and> cardId = None then rc_company r else None)\<rparr>)"

definition bump_receipt :: "oid \<Rightarrow> receipt_doc \<Rightarrow> receipt_doc" where
  "bump_receipt by r = r\<lparr>rc_updatedBy := Some by, rc_version := rc_version r + 1\<rparr>"

definition updateReceiptById ::
  "oid \<Rightarrow> nat \<Rightarrow> (receipt_doc \<Rightarrow> receipt_doc) \<Rightarrow> oid \<Rightarrow> (fleet_store, receipt_doc) st" where
  "updateReceiptById receiptId version f by s =
     (case List.find (\<lambda>r. rc_id r = receiptId \<and> \<not> rc_isDeleted r \<and> rc_version r = version) (fs_receipts s) of
        Some r \<Rightarrow> (update_receipts (\<lambda>x. rc_id x = receiptId \<and> \<not> rc_isDeleted x)
            (\<lambda>_. bump_receipt by (f r)) s, Inr (bump_receipt by (f r)))
      | None \<Rightarrow> (s, Inl (case find_live_receipt receiptId s of None \<Rightarrow> NotFoundError ''Not found''
          | Some _ \<Rightarrow> StaleDocumentError)))"

definition giveBack :: "receipt_doc \<Rightarrow> custody_env \<Rightarrow> (fleet_store, unit) st" where
  "giveBack r env = (case rc_cardId r of None \<Rightarrow> st_return ()
     | Some c \<Rightarrow> credit c (rc_amount r) (rc_id r) (ce_now env) (ce_user env))"

definition money_moved :: "receipt_doc \<Rightarrow> receipt_doc \<Rightarrow> bool" where
  "money_moved r next \<longleftrightarrow>
     rc_cardId r \<noteq> rc_cardId next \<or> rc_amount r \<noteq> rc_amount next \<or> rc_date r \<noteq> rc_date next"

definition update_receipt :: "custody_env \<Rightarrow> oid \<Rightarrow> receipt_edit \<Rightarrow> (fleet_store, receipt_doc) st" where
  "update_receipt env receiptId input =
     st_bind (st_gets (find_live_receipt receiptId)) (\<lambda>found.
     st_bind (st_lift (option_or (NotFoundError ''Not found'') found)) (\<lambda>r0.
     st_bind (prepare env (merge_edit r0 input)) (\<lambda>facts.
     let moved = money_moved r0 (facts r0) in
     st_bind (unitOfWork (
       st_bind (st_gets (find_live_receipt receiptId)) (\<lambda>again.
       st_bind (st_lift (option_or (NotFoundError ''Not found'') again)) (\<lambda>live.
       st_bind (assertReceiptChangeAllowed live (facts_of (facts r0))) (\<lambda>_.
       st_bind (if moved then giveBack live env else st_return ()) (\<lambda>_.
       st_bind (updateReceiptById receiptId (red_version input) facts (ce_user env)) (\<lambda>next.
       st_bind (followReceiptDay live (rc_date next) (ce_user env)) (\<lambda>periodMove.
       st_bind (case rc_cardId next of None \<Rightarrow> st_return ()
          | Some c \<Rightarrow> if moved then debit c (rc_amount next) receiptId (rc_date next) (ce_user env)
                      else st_return ()) (\<lambda>_.
       st_return (next, periodMove)))))))))) (\<lambda>(updated, periodMove).
     st_bind (fleet_effect (FleetAudit ''receipt'' receiptId ''update'')) (\<lambda>_.
     st_bind (case periodMove of None \<Rightarrow> st_return ()
        | Some memoId \<Rightarrow> fleet_effect (FleetAudit ''custodyMemo'' memoId ''update'')) (\<lambda>_.
     st_return updated))))))"

definition softDeleteReceipt :: "oid \<Rightarrow> custody_env \<Rightarrow> (fleet_store, unit) st" where
  "softDeleteReceipt receiptId env s =
     (case find_live_receipt receiptId s of None \<Rightarrow> (s, Inl (NotFoundError ''Not found''))
      | Some _ \<Rightarrow> (update_receipts (\<lambda>x. rc_id x = receiptId \<and> \<not> rc_isDeleted x)
          (\<lambda>x. (bump_receipt (ce_user env) x)\<lparr>rc_isDeleted := True, rc_deletedAt := Some (ce_now env),
             rc_deletedBy := Some (ce_user env)\<rparr>) s, Inr ()))"

definition remove_receipt :: "custody_env \<Rightarrow> oid \<Rightarrow> (fleet_store, unit) st" where
  "remove_receipt env receiptId =
     st_bind (st_gets (find_live_receipt receiptId)) (\<lambda>found.
     st_bind (st_lift (option_or (NotFoundError ''Not found'') found)) (\<lambda>_.
     st_bind (unitOfWork (
       st_bind (st_gets (find_live_receipt receiptId)) (\<lambda>again.
       st_bind (st_lift (option_or (NotFoundError ''Not found'') again)) (\<lambda>live.
       st_bind (assertReceiptRemovable live) (\<lambda>_.
       st_bind (giveBack live env) (\<lambda>_.
       softDeleteReceipt receiptId env)))))) (\<lambda>_.
     fleet_effect (FleetAudit ''receipt'' receiptId ''delete''))))"

end
