(* ===== verification/Custody_System.thy ===== *)
theory Custody_System
  imports Custody_Operations Custody_Receipts
begin

text \<open>
  The custody screens as one system: every request that writes, the stores they can reach, and the
  abstract specification \<open>fleet_event\<close> of what a committed request does to the collections. Each
  handler, accepted or refused, is one event (\<open>run_fleet_op_event\<close>), and the invariants of the later
  theories are proved on the events. An event fixes what matters of each collection; a write that
  only moves versions, locks or audit records is \<open>quiet\<close>.
\<close>

section \<open>Requests\<close>

datatype fleet_op =
    DoCreateReceipt receipt_input
  | DoUpdateReceipt oid receipt_edit
  | DoRemoveReceipt oid
  | DoCreateMemo memo_input
  | DoUpdateMemo oid memo_input nat
  | DoRemoveMemo oid
  | DoCharge charge_input
  | DoReplenish replenish_input
  | DoSettle settle_input
  | DoConfirm oid transfer_input
  | DoCancel oid string
  | DoDelete oid nat string
  | DoCreateExpense expense_input
  | DoUpdateExpense oid expense_input nat
  | DoRemoveExpense oid

definition store_after :: "(fleet_store, 'a) st \<Rightarrow> fleet_store \<Rightarrow> fleet_store" where
  "store_after m s = fst (m s)"

fun run_fleet_op :: "custody_env \<Rightarrow> fleet_op \<Rightarrow> fleet_store \<Rightarrow> fleet_store" where
  "run_fleet_op env (DoCreateReceipt i) = store_after (create_receipt env i)"
| "run_fleet_op env (DoUpdateReceipt d e) = store_after (update_receipt env d e)"
| "run_fleet_op env (DoRemoveReceipt d) = store_after (remove_receipt env d)"
| "run_fleet_op env (DoCreateMemo i) = store_after (create_memo env i)"
| "run_fleet_op env (DoUpdateMemo d i v) = store_after (update_memo env d i v)"
| "run_fleet_op env (DoRemoveMemo d) = store_after (remove_memo env d)"
| "run_fleet_op env (DoCharge i) = store_after (charge env i)"
| "run_fleet_op env (DoReplenish i) = store_after (replenish env i)"
| "run_fleet_op env (DoSettle i) = store_after (settle env i)"
| "run_fleet_op env (DoConfirm d i) = store_after (confirmTransfer env d i)"
| "run_fleet_op env (DoCancel d r) = store_after (cancelHeld env d r)"
| "run_fleet_op env (DoDelete d v r) = store_after (remove_operation env d v r)"
| "run_fleet_op env (DoCreateExpense i) = store_after (create_expense env i)"
| "run_fleet_op env (DoUpdateExpense d i v) = store_after (update_expense env d i v)"
| "run_fleet_op env (DoRemoveExpense d) = store_after (remove_expense env d)"

text \<open>What the request schemas let through, as far as it matters here: no memo, line or part twice. A
  receipt's amount is positive and one on which the two roundings of the code agree, as they do on
  every amount of whole piastres (\<open>receipt_piastres_amount\<close>).\<close>

definition exact_amount :: "rat \<Rightarrow> bool" where
  "exact_amount a \<longleftrightarrow> 0 < a \<and> receipt_piastres a = toPiastres a"

fun valid_fleet_op :: "fleet_op \<Rightarrow> bool" where
  "valid_fleet_op (DoCreateReceipt i) = exact_amount (rin_amount i)"
| "valid_fleet_op (DoUpdateReceipt d e) = (case red_amount e of None \<Rightarrow> True | Some a \<Rightarrow> exact_amount a)"
| "valid_fleet_op (DoCreateMemo i) = distinct (map ml_receiptId (mi_lines i))"
| "valid_fleet_op (DoUpdateMemo d i v) = distinct (map ml_receiptId (mi_lines i))"
| "valid_fleet_op (DoCharge i) = (0 < ci_amount i)"
| "valid_fleet_op (DoReplenish i) = distinct (ri_memoIds i)"
| "valid_fleet_op (DoSettle i) = distinct (si_parts i)"
| "valid_fleet_op _ = True"

inductive fleet_step :: "fleet_store \<Rightarrow> fleet_store \<Rightarrow> bool" where
  request: "valid_fleet_op req \<Longrightarrow> fleet_step s (run_fleet_op env req s)"

text \<open>The screens start with no receipt, memo or operation; the cards are what they are.\<close>

definition empty_fleet_store :: "fuel_card list \<Rightarrow> fleet_store" where
  "empty_fleet_store cards =
     \<lparr>fs_receipts = [], fs_memos = [], fs_operations = [], fs_expenses = [], fs_cards = cards,
      fs_movements = [], fs_memoSeq = None, fs_fundSeq = None, fs_nextOid = 1, fs_effects = []\<rparr>"

inductive fleet_reachable :: "fleet_store \<Rightarrow> bool" where
  init: "fleet_reachable (empty_fleet_store cards)"
| step: "fleet_reachable s \<Longrightarrow> fleet_step s t \<Longrightarrow> fleet_reachable t"

section \<open>Handlers that only add\<close>

named_theorems quiet "writes that leave the collections alone"

text \<open>Receipts, memos, operations and licensing records as they were; ids and numbers only grow.\<close>

definition grows :: "fleet_store \<Rightarrow> fleet_store \<Rightarrow> bool" where
  "grows s t \<longleftrightarrow> fs_nextOid s \<le> fs_nextOid t \<and>
     (\<forall>n. fs_memoSeq s = Some n \<longrightarrow> (\<exists>n'. fs_memoSeq t = Some n' \<and> n \<le> n'))"

definition quiet_change :: "fleet_store \<Rightarrow> fleet_store \<Rightarrow> bool" where
  "quiet_change s t \<longleftrightarrow> fs_receipts t = fs_receipts s \<and> fs_memos t = fs_memos s \<and>
     fs_operations t = fs_operations s \<and> fs_expenses t = fs_expenses s \<and> grows s t"

definition quiet_run :: "(fleet_store, 'a) st \<Rightarrow> bool" where
  "quiet_run m \<longleftrightarrow> (\<forall>s. quiet_change s (fst (m s)))"

lemma grows_refl [simp, intro]: "grows s s"
  by (auto simp: grows_def)

lemma grows_trans: "grows s t \<Longrightarrow> grows t u \<Longrightarrow> grows s u"
  unfolding grows_def by (metis order_trans)

lemma quiet_refl [simp, intro]: "quiet_change s s"
  by (simp add: quiet_change_def)

lemma quiet_trans: "quiet_change s t \<Longrightarrow> quiet_change t u \<Longrightarrow> quiet_change s u"
  unfolding quiet_change_def using grows_trans by metis

lemma quiet_bind:
  assumes "quiet_run m" "\<And>x. quiet_run (f x)"
  shows "quiet_run (st_bind m f)"
  unfolding quiet_run_def
proof
  fix s
  show "quiet_change s (fst (st_bind m f s))"
    using assms quiet_trans [of s "fst (m s)"]
    by (fastforce simp: quiet_run_def st_bind_def split: prod.splits sum.splits)
qed

lemma quiet_each: "(\<And>x. quiet_run (f x)) \<Longrightarrow> quiet_run (st_each f xs)"
proof (induction xs)
  case Nil
  then show ?case by (simp add: quiet_run_def st_return_def)
next
  case (Cons x xs)
  then show ?case by (simp add: quiet_bind)
qed

lemma quiet_basic [quiet]:
  "quiet_run (st_return x)" "quiet_run (st_throw e)" "quiet_run (st_lift r)" "quiet_run (st_gets g)"
  "quiet_run (st_ensure c e)" "quiet_run (fleet_effect ef)" "quiet_run freshOid" "quiet_run ensureFundLock"
  "quiet_run lockFund" "quiet_run ensureCustodyMemoCounter"
  by (auto simp: quiet_run_def st_defs fleet_effect_def freshOid_def ensureFundLock_def lockFund_def
      ensureCustodyMemoCounter_def raise_counter_def quiet_change_def grows_def split: option.splits)

lemma quiet_runD: "quiet_run m \<Longrightarrow> m s = (t, r) \<Longrightarrow> quiet_change s t"
  unfolding quiet_run_def by (metis fst_conv)

text \<open>A transaction commits what it did, or nothing.\<close>

lemma unitOfWork_Inr: "unitOfWork m s = (t, Inr x) \<longleftrightarrow> m s = (t, Inr x)"
  by (auto simp: unitOfWork_def split: prod.splits sum.splits)

lemma unitOfWork_Inl: "unitOfWork m s = (t, Inl e) \<Longrightarrow> t = s"
  by (auto simp: unitOfWork_def split: prod.splits sum.splits)

text \<open>A handler is a quiet prefix, one write and a quiet suffix: either nothing happened to the
  collections, or the write committed a store with \<open>P\<close>.\<close>

definition commits :: "(fleet_store \<Rightarrow> bool) \<Rightarrow> (fleet_store, 'a) st \<Rightarrow> fleet_store \<Rightarrow> bool" where
  "commits P m s \<longleftrightarrow> quiet_change s (store_after m s) \<or> (\<exists>v. P v \<and> quiet_change v (store_after m s))"

lemma commits_quiet: "quiet_run m \<Longrightarrow> commits P m s"
  by (simp add: commits_def quiet_run_def store_after_def)

lemma commits_write:
  assumes "\<And>t x. m s = (t, Inr x) \<Longrightarrow> P t" "\<And>t e. m s = (t, Inl e) \<Longrightarrow> quiet_change s t" "\<And>x. quiet_run (f x)"
  shows "commits P (st_bind m f) s"
proof -
  obtain v r where m: "m s = (v, r)" by (cases "m s")
  show ?thesis
  proof (cases r)
    case (Inl e)
    then show ?thesis using assms(2) m by (simp add: commits_def store_after_def st_bind_def)
  next
    case (Inr x)
    then have "P v" "quiet_change v (fst (f x v))" using assms(1,3) m by (auto simp: quiet_run_def)
    then show ?thesis using Inr m by (auto simp: commits_def store_after_def st_bind_def)
  qed
qed

lemma commits_tx:
  assumes "\<And>t x. m s = (t, Inr x) \<Longrightarrow> P t" "\<And>x. quiet_run (f x)"
  shows "commits P (st_bind (unitOfWork m) f) s"
  using assms by (intro commits_write) (auto simp: unitOfWork_Inr dest: unitOfWork_Inl)

lemma commits_bind:
  assumes "quiet_run m" "\<And>x u. m s = (u, Inr x) \<Longrightarrow> quiet_change s u \<Longrightarrow> commits P (f x) u"
  shows "commits P (st_bind m f) s"
proof -
  obtain u r where u: "m s = (u, r)" by (cases "m s")
  have q: "quiet_change s u" using quiet_runD [OF assms(1) u] .
  show ?thesis
  proof (cases r)
    case (Inl e)
    then show ?thesis using q by (simp add: commits_def store_after_def st_bind_def u)
  next
    case (Inr x)
    then have "store_after (st_bind m f) s = store_after (f x) u"
      by (simp add: store_after_def st_bind_def u)
    then show ?thesis using assms(2) [of u x] u Inr q quiet_trans unfolding commits_def by metis
  qed
qed

end
