(* ===== verification/Custody_Events.thy ===== *)
theory Custody_Events
  imports Custody_System
begin

text \<open>
  The abstract specification of the custody screens: \<open>fleet_event\<close> lists what one committed request may
  do, with the guard under which it may, and the invariants \<open>fleet_ok\<close> of the collections. The theories
  after this one show that every handler is an event and that every event keeps the invariants.
\<close>

section \<open>Invariants\<close>

definition ids_distinct :: "fleet_store \<Rightarrow> bool" where
  "ids_distinct s \<longleftrightarrow>
     distinct (map rc_id (fs_receipts s)) \<and> distinct (map me_id (fs_memos s)) \<and>
     distinct (map op_id (fs_operations s)) \<and> distinct (map ex_id (fs_expenses s))"

definition ids_fresh :: "fleet_store \<Rightarrow> bool" where
  "ids_fresh s \<longleftrightarrow>
     (\<forall>r \<in> set (fs_receipts s). rc_id r < fs_nextOid s) \<and> (\<forall>m \<in> set (fs_memos s). me_id m < fs_nextOid s) \<and>
     (\<forall>d \<in> set (fs_operations s). op_id d < fs_nextOid s) \<and> (\<forall>e \<in> set (fs_expenses s). ex_id e < fs_nextOid s)"

definition amounts_exact :: "fleet_store \<Rightarrow> bool" where
  "amounts_exact s \<longleftrightarrow> (\<forall>r \<in> set (fs_receipts s). exact_amount (rc_amount r))"

text \<open>A receipt says it is on a memo exactly when that memo, alive, has it as a line; it is then a live
  custody receipt of the memo's kind.\<close>

definition receipt_linked :: "fleet_store \<Rightarrow> receipt_doc \<Rightarrow> bool" where
  "receipt_linked s r \<longleftrightarrow> (\<forall>i. rc_memoId r = Some i \<longrightarrow>
     custody_receipt r \<and> (\<exists>m \<in> set (fs_memos s). me_id m = i \<and> \<not> me_isDeleted m \<and>
       rc_id r \<in> line_ids m \<and> rc_kind r = me_kind m))"

definition memo_linked :: "fleet_store \<Rightarrow> memo_doc \<Rightarrow> bool" where
  "memo_linked s m \<longleftrightarrow> (\<not> me_isDeleted m \<longrightarrow>
     (\<forall>i \<in> line_ids m. \<exists>r \<in> set (fs_receipts s). rc_id r = i \<and> rc_memoId r = Some (me_id m)))"

definition links_ok :: "fleet_store \<Rightarrow> bool" where
  "links_ok s \<longleftrightarrow> (\<forall>r \<in> set (fs_receipts s). receipt_linked s r) \<and> (\<forall>m \<in> set (fs_memos s). memo_linked s m)"

text \<open>A memo is taken by a live replenishment that lists it, held or transferred as the memo says; and a
  live replenishment that is not cancelled still has every memo it listed.\<close>

definition in_force :: "operation_doc \<Rightarrow> bool" where
  "in_force d \<longleftrightarrow> \<not> op_isDeleted d \<and> op_kind d = ReplenishOp \<and> operationStatusOf d \<noteq> CancelledStatus"

definition memo_taken :: "fleet_store \<Rightarrow> memo_doc \<Rightarrow> bool" where
  "memo_taken s m \<longleftrightarrow> (\<forall>i. \<not> me_isDeleted m \<and> me_replenishmentId m = Some i \<longrightarrow>
     (\<exists>d \<in> set (fs_operations s). op_id d = i \<and> in_force d \<and> me_id m \<in> om_memoId ` set (op_memos d) \<and>
        (me_replenishmentHeld m = Some True \<longleftrightarrow> operationStatusOf d = HeldStatus)))"

definition snapshot_held :: "fleet_store \<Rightarrow> operation_doc \<Rightarrow> operation_memo \<Rightarrow> bool" where
  "snapshot_held s d x \<longleftrightarrow> (\<exists>m \<in> set (fs_memos s). me_id m = om_memoId x \<and> \<not> me_isDeleted m \<and>
     me_replenishmentId m = Some (op_id d))"

definition takes_ok :: "fleet_store \<Rightarrow> bool" where
  "takes_ok s \<longleftrightarrow> (\<forall>m \<in> set (fs_memos s). memo_taken s m) \<and>
     (\<forall>d \<in> set (fs_operations s). in_force d \<longrightarrow>
        distinct (map om_memoId (op_memos d)) \<and> (\<forall>x \<in> set (op_memos d). snapshot_held s d x))"

text \<open>What a replenishment in force printed for a memo is what the memo's receipts still add up to.\<close>

definition figures_ok :: "fleet_store \<Rightarrow> bool" where
  "figures_ok s \<longleftrightarrow> (\<forall>d \<in> set (fs_operations s). in_force d \<longrightarrow>
     (\<forall>x \<in> set (op_memos d). (om_receipts x, om_amount x) = readMemoTotals s (om_memoId x)) \<and>
     op_amount d = fromPiastres (sum_list (map (\<lambda>x. toPiastres (om_amount x)) (op_memos d))))"

text \<open>A licensing memo is settled by a live settlement that lists it, and a live settlement still has every
  part it listed.\<close>

definition listed_part :: "operation_doc \<Rightarrow> oid \<Rightarrow> licence_kind \<Rightarrow> bool" where
  "listed_part d i part \<longleftrightarrow> (i, part) \<in> (\<lambda>p. (pt_expenseId p, pt_part p)) ` set (op_parts d)"

definition part_settled :: "fleet_store \<Rightarrow> expense_doc \<Rightarrow> licence_kind \<Rightarrow> bool" where
  "part_settled s e part \<longleftrightarrow> (\<forall>x. settlementOf e part = Some x \<longrightarrow> \<not> ex_isDeleted e \<and>
     (\<exists>d \<in> set (fs_operations s). op_id d = es_operationId x \<and> \<not> op_isDeleted d \<and> op_kind d = SettleOp \<and>
        listed_part d (ex_id e) part))"

definition settles_ok :: "fleet_store \<Rightarrow> bool" where
  "settles_ok s \<longleftrightarrow> (\<forall>e \<in> set (fs_expenses s). \<forall>part. part_settled s e part) \<and>
     (\<forall>d \<in> set (fs_operations s). \<not> op_isDeleted d \<and> op_kind d = SettleOp \<longrightarrow>
        (\<forall>i part. listed_part d i part \<longrightarrow>
           (\<exists>e \<in> set (fs_expenses s). ex_id e = i \<and> settled_by (op_id d) part e)))"

definition numbers_ok :: "fleet_store \<Rightarrow> bool" where
  "numbers_ok s \<longleftrightarrow> distinct (map me_no (fs_memos s)) \<and>
     (\<forall>m \<in> set (fs_memos s). \<exists>n. fs_memoSeq s = Some n \<and> 1 \<le> me_no m \<and> me_no m \<le> n)"

text \<open>A charge and a settlement are \<open>done\<close> from the start; only a replenishment lists memos.\<close>

definition kind_ok :: "operation_doc \<Rightarrow> bool" where
  "kind_ok d \<longleftrightarrow> op_status d \<noteq> None \<and> (op_kind d \<noteq> ReplenishOp \<longrightarrow> op_status d = Some DoneStatus \<and> op_memos d = []) \<and>
     (op_kind d \<noteq> SettleOp \<longrightarrow> op_parts d = []) \<and> (\<exists>p. op_amount d = fromPiastres p)"

definition fleet_ok :: "fleet_store \<Rightarrow> bool" where
  "fleet_ok s \<longleftrightarrow> ids_distinct s \<and> ids_fresh s \<and> amounts_exact s \<and> links_ok s \<and> takes_ok s \<and>
     figures_ok s \<and> settles_ok s \<and> numbers_ok s \<and> (\<forall>d \<in> set (fs_operations s). kind_ok d)"

lemma by_key: "distinct (map k xs) \<Longrightarrow> x \<in> set xs \<Longrightarrow> y \<in> set xs \<Longrightarrow> k x = k y \<Longrightarrow> x = y"
  by (metis distinct_map inj_on_contraD)

section \<open>Events\<close>

text \<open>What a memo is to the rest of the system; versions, locks and periods are not part of it.\<close>

definition memo_core ::
  "memo_doc \<Rightarrow> oid \<times> int \<times> custody_source \<times> oid set \<times> oid option \<times> bool option \<times> bool" where
  "memo_core m = (me_id m, me_no m, me_kind m, line_ids m, me_replenishmentId m, me_replenishmentHeld m,
     me_isDeleted m)"

definition cosmetic :: "(memo_doc \<Rightarrow> memo_doc) \<Rightarrow> bool" where
  "cosmetic h \<longleftrightarrow> (\<forall>m. memo_core (h m) = memo_core m)"

definition fresh_id :: "fleet_store \<Rightarrow> fleet_store \<Rightarrow> oid \<Rightarrow> bool" where
  "fresh_id s t i \<longleftrightarrow> fs_nextOid s \<le> i \<and> i < fs_nextOid t"

text \<open>A memo may keep a receipt from changing: what it is and what paid for it, and once taken its amount
  too.\<close>

definition held_unchanged :: "fleet_store \<Rightarrow> receipt_doc \<Rightarrow> receipt_doc \<Rightarrow> bool" where
  "held_unchanged s r r' \<longleftrightarrow> (\<forall>m \<in> set (fs_memos s). \<not> me_isDeleted m \<and> rc_memoId r = Some (me_id m) \<longrightarrow>
     rc_kind r' = rc_kind r \<and> rc_source r' = rc_source r \<and>
     (me_replenishmentId m \<noteq> None \<longrightarrow>
        receipt_piastres (rc_amount r') = receipt_piastres (rc_amount r) \<and>
        utcDay (rc_date r') = utcDay (rc_date r) \<and> rc_vehicleId r' = rc_vehicleId r))"

definition live_receipt_id :: "receipt_doc \<Rightarrow> receipt_doc \<Rightarrow> bool" where
  "live_receipt_id r x \<longleftrightarrow> rc_id x = rc_id r \<and> \<not> rc_isDeleted x"

text \<open>The receipts of one memo are let go or taken so that exactly the lines \<open>L\<close> are on it.\<close>

definition relinks :: "oid \<Rightarrow> custody_source \<Rightarrow> oid set \<Rightarrow> fleet_store \<Rightarrow> (receipt_doc \<Rightarrow> receipt_doc) \<Rightarrow> bool" where
  "relinks mid kind L s g \<longleftrightarrow>
     (\<forall>r \<in> set (fs_receipts s).
        (g r = r \<or> rc_memoId r = Some mid \<and> g r = set_memo None r \<or>
         rc_memoId r = None \<and> g r = set_memo (Some mid) r) \<and>
        (rc_memoId (g r) = Some mid \<longrightarrow> rc_id r \<in> L \<and> custody_receipt r \<and> rc_kind r = kind)) \<and>
     (\<forall>i \<in> L. \<exists>r \<in> set (fs_receipts s). rc_id r = i \<and> rc_memoId (g r) = Some mid)"

definition live_memo_id :: "oid \<Rightarrow> memo_doc \<Rightarrow> bool" where
  "live_memo_id i m \<longleftrightarrow> me_id m = i \<and> \<not> me_isDeleted m"

definition expense_core :: "expense_doc \<Rightarrow> oid \<times> bool \<times> expense_part option \<times> expense_part option" where
  "expense_core e = (ex_id e, ex_isDeleted e, ex_renewal e, ex_extension e)"

text \<open>Settling marks every listed part, each of a live record that had it and had not settled it.\<close>

definition settles :: "operation_doc \<Rightarrow> fleet_store \<Rightarrow> (expense_doc \<Rightarrow> expense_doc) \<Rightarrow> bool" where
  "settles d s f \<longleftrightarrow>
     (\<forall>e \<in> set (fs_expenses s). expense_core (f e) = expense_core e \<and>
        (\<forall>part. settlementOf (f e) part =
           (if listed_part d (ex_id e) part \<and> \<not> ex_isDeleted e
            then Some \<lparr>es_operationId = op_id d, es_settledAt = op_date d\<rparr> else settlementOf e part))) \<and>
     (\<forall>i part. listed_part d i part \<longrightarrow>
        (\<exists>e \<in> set (fs_expenses s). ex_id e = i \<and> \<not> ex_isDeleted e \<and> expense_part_of e part \<noteq> None \<and>
           settlementOf e part = None))"

definition frees :: "oid \<Rightarrow> fleet_store \<Rightarrow> (expense_doc \<Rightarrow> expense_doc) \<Rightarrow> bool" where
  "frees i s f \<longleftrightarrow> (\<forall>e \<in> set (fs_expenses s). expense_core (f e) = expense_core e \<and>
     (\<forall>part. settlementOf (f e) part =
        (if settled_by i part e \<and> \<not> ex_isDeleted e then None else settlementOf e part)))"

text \<open>A live operation as it is printed: nothing here ever changes.\<close>

definition printed :: "operation_doc \<Rightarrow> operation_doc" where
  "printed d = d\<lparr>op_status := None, op_transfer := None, op_cancellation := None, op_deletion := None,
     op_updatedBy := None, op_deletedAt := None, op_deletedBy := None, op_version := 0, op_isDeleted := False\<rparr>"

inductive fleet_event :: "fleet_store \<Rightarrow> fleet_store \<Rightarrow> bool" for s t where
  quiet_event: "quiet_change s t \<Longrightarrow> fleet_event s t"
| receipt_new: "fs_receipts t = fs_receipts s @ [r] \<Longrightarrow> fresh_id s t (rc_id r) \<Longrightarrow> rc_memoId r = None \<Longrightarrow>
    exact_amount (rc_amount r) \<Longrightarrow> fs_memos t = fs_memos s \<Longrightarrow> fs_operations t = fs_operations s \<Longrightarrow>
    fs_expenses t = fs_expenses s \<Longrightarrow> grows s t \<Longrightarrow> fleet_event s t"
| receipt_edit: "r \<in> set (fs_receipts s) \<Longrightarrow> \<not> rc_isDeleted r \<Longrightarrow> rc_id r' = rc_id r \<Longrightarrow>
    rc_memoId r' = rc_memoId r \<Longrightarrow> rc_isDeleted r' = rc_isDeleted r \<Longrightarrow> exact_amount (rc_amount r') \<Longrightarrow>
    held_unchanged s r r' \<Longrightarrow>
    fs_receipts t = update_where (live_receipt_id r) (\<lambda>_. r') (fs_receipts s) \<Longrightarrow>
    cosmetic h \<Longrightarrow> fs_memos t = map h (fs_memos s) \<Longrightarrow> fs_operations t = fs_operations s \<Longrightarrow>
    fs_expenses t = fs_expenses s \<Longrightarrow> grows s t \<Longrightarrow> fleet_event s t"
| receipt_gone: "r \<in> set (fs_receipts s) \<Longrightarrow> rc_memoId r = None \<Longrightarrow>
    (\<And>x. rc_id (g x) = rc_id x \<and> rc_memoId (g x) = rc_memoId x \<and> rc_amount (g x) = rc_amount x) \<Longrightarrow>
    fs_receipts t = update_where (live_receipt_id r) g (fs_receipts s) \<Longrightarrow>
    fs_memos t = fs_memos s \<Longrightarrow> fs_operations t = fs_operations s \<Longrightarrow>
    fs_expenses t = fs_expenses s \<Longrightarrow> grows s t \<Longrightarrow> fleet_event s t"
| memo_new: "fs_memos t = fs_memos s @ [m] \<Longrightarrow> fresh_id s t (me_id m) \<Longrightarrow> \<not> me_isDeleted m \<Longrightarrow>
    me_replenishmentId m = None \<Longrightarrow> me_no m \<notin> me_no ` set (fs_memos s) \<Longrightarrow> 1 \<le> me_no m \<Longrightarrow>
    fs_memoSeq t = Some n \<Longrightarrow> me_no m \<le> n \<Longrightarrow>
    relinks (me_id m) (me_kind m) (line_ids m) s g \<Longrightarrow> fs_receipts t = map g (fs_receipts s) \<Longrightarrow>
    fs_operations t = fs_operations s \<Longrightarrow> fs_expenses t = fs_expenses s \<Longrightarrow> grows s t \<Longrightarrow> fleet_event s t"
| memo_edit: "m \<in> set (fs_memos s) \<Longrightarrow> \<not> me_isDeleted m \<Longrightarrow> me_replenishmentId m = None \<Longrightarrow>
    me_id m' = me_id m \<Longrightarrow> me_no m' = me_no m \<Longrightarrow> me_kind m' = me_kind m \<Longrightarrow>
    me_replenishmentId m' = None \<Longrightarrow> \<not> me_isDeleted m' \<Longrightarrow>
    fs_memos t = update_where (live_memo_id (me_id m)) (\<lambda>_. m') (fs_memos s) \<Longrightarrow>
    relinks (me_id m) (me_kind m) (line_ids m') s g \<Longrightarrow> fs_receipts t = map g (fs_receipts s) \<Longrightarrow>
    fs_operations t = fs_operations s \<Longrightarrow> fs_expenses t = fs_expenses s \<Longrightarrow> grows s t \<Longrightarrow> fleet_event s t"
| memo_gone: "m \<in> set (fs_memos s) \<Longrightarrow> \<not> me_isDeleted m \<Longrightarrow> me_replenishmentId m = None \<Longrightarrow>
    fs_memos t = update_where (live_memo_id (me_id m)) (deleted_memo now by) (fs_memos s) \<Longrightarrow>
    relinks (me_id m) (me_kind m) {} s g \<Longrightarrow> fs_receipts t = map g (fs_receipts s) \<Longrightarrow>
    fs_operations t = fs_operations s \<Longrightarrow> fs_expenses t = fs_expenses s \<Longrightarrow> grows s t \<Longrightarrow> fleet_event s t"
| charged: "fs_operations t = fs_operations s @ [d] \<Longrightarrow> fresh_id s t (op_id d) \<Longrightarrow> op_kind d = ChargeOp \<Longrightarrow>
    kind_ok d \<Longrightarrow> \<not> op_isDeleted d \<Longrightarrow> fs_receipts t = fs_receipts s \<Longrightarrow> fs_memos t = fs_memos s \<Longrightarrow>
    fs_expenses t = fs_expenses s \<Longrightarrow> grows s t \<Longrightarrow> fleet_event s t"
| replenished: "fs_operations t = fs_operations s @ [d] \<Longrightarrow> fresh_id s t (op_id d) \<Longrightarrow> op_kind d = ReplenishOp \<Longrightarrow>
    kind_ok d \<Longrightarrow> \<not> op_isDeleted d \<Longrightarrow> op_status d = Some HeldStatus \<Longrightarrow>
    distinct (map me_id ms) \<Longrightarrow>
    (\<And>m. m \<in> set ms \<Longrightarrow> m \<in> set (fs_memos s) \<and> \<not> me_isDeleted m \<and> me_replenishmentId m = None) \<Longrightarrow>
    op_memos d = map (memo_snapshot s) ms \<Longrightarrow>
    op_amount d = fromPiastres (sum_list (map (\<lambda>x. toPiastres (om_amount x)) (op_memos d))) \<Longrightarrow>
    fs_memos t = update_where
      (\<lambda>m. me_id m \<in> me_id ` set ms \<and> \<not> me_isDeleted m \<and> me_replenishmentId m = None)
      (\<lambda>m. bump_memo by (take_memo (Some (op_id d)) since True m)) (fs_memos s) \<Longrightarrow>
    fs_receipts t = fs_receipts s \<Longrightarrow> fs_expenses t = fs_expenses s \<Longrightarrow> grows s t \<Longrightarrow> fleet_event s t"
| settled: "fs_operations t = fs_operations s @ [d] \<Longrightarrow> fresh_id s t (op_id d) \<Longrightarrow> op_kind d = SettleOp \<Longrightarrow>
    kind_ok d \<Longrightarrow> \<not> op_isDeleted d \<Longrightarrow> settles d s f \<Longrightarrow> fs_expenses t = map f (fs_expenses s) \<Longrightarrow>
    fs_receipts t = fs_receipts s \<Longrightarrow> fs_memos t = fs_memos s \<Longrightarrow> grows s t \<Longrightarrow> fleet_event s t"
| moved_on: "d \<in> set (fs_operations s) \<Longrightarrow> \<not> op_isDeleted d \<Longrightarrow> op_kind d = ReplenishOp \<Longrightarrow>
    op_status d = Some HeldStatus \<Longrightarrow>
    fs_operations t = update_where (\<lambda>x. op_id x = op_id d \<and> \<not> op_isDeleted x \<and> op_kind x = ReplenishOp \<and>
        op_status x = Some HeldStatus) (\<lambda>x. bump_operation by (apply_leave next x)) (fs_operations s) \<Longrightarrow>
    fs_memos t = update_where (heldBy (map om_memoId (op_memos d)) (op_id d))
      (\<lambda>m. bump_memo by (case next of Transferred x \<Rightarrow> take_memo (Some (op_id d)) (Some (xf_date x)) False m
                            | Withdrawn _ \<Rightarrow> take_memo None None False m)) (fs_memos s) \<Longrightarrow>
    fs_receipts t = fs_receipts s \<Longrightarrow> fs_expenses t = fs_expenses s \<Longrightarrow> grows s t \<Longrightarrow> fleet_event s t"
| deleted: "d \<in> set (fs_operations s) \<Longrightarrow> \<not> op_isDeleted d \<Longrightarrow>
    (\<And>x. printed (g x) = printed x \<and> op_isDeleted (g x)) \<Longrightarrow> (\<And>x. op_status (g x) = op_status x) \<Longrightarrow>
    fs_operations t = update_where (\<lambda>x. op_id x = op_id d \<and> \<not> op_isDeleted x) g (fs_operations s) \<Longrightarrow>
    fs_memos t = (if op_kind d = ReplenishOp
      then update_where (\<lambda>m. \<not> me_isDeleted m \<and> me_replenishmentId m = Some (op_id d))
             (\<lambda>m. bump_memo by (freed_memo m)) (fs_memos s)
      else fs_memos s) \<Longrightarrow>
    frees (op_id d) s f \<Longrightarrow> fs_expenses t = map f (fs_expenses s) \<Longrightarrow>
    fs_receipts t = fs_receipts s \<Longrightarrow> grows s t \<Longrightarrow> fleet_event s t"
| expense_new: "fs_expenses t = fs_expenses s @ [e] \<Longrightarrow> fresh_id s t (ex_id e) \<Longrightarrow> expense_writable e \<Longrightarrow>
    fs_receipts t = fs_receipts s \<Longrightarrow> fs_memos t = fs_memos s \<Longrightarrow> fs_operations t = fs_operations s \<Longrightarrow>
    grows s t \<Longrightarrow> fleet_event s t"
| expense_edit: "(\<And>e. e \<in> set (fs_expenses s) \<Longrightarrow> ex_id (f e) = ex_id e \<and>
        (f e \<noteq> e \<longrightarrow> expense_writable e \<and> expense_writable (f e))) \<Longrightarrow>
    fs_expenses t = map f (fs_expenses s) \<Longrightarrow>
    fs_receipts t = fs_receipts s \<Longrightarrow> fs_memos t = fs_memos s \<Longrightarrow> fs_operations t = fs_operations s \<Longrightarrow>
    grows s t \<Longrightarrow> fleet_event s t"

inductive_cases fleet_eventE: "fleet_event s t"

text \<open>Quiet writes before and after an event do not show.\<close>

lemma fresh_quiet:
  "quiet_change s u \<Longrightarrow> fresh_id u v i \<Longrightarrow> fresh_id s v i"
  "fresh_id s u i \<Longrightarrow> quiet_change u v \<Longrightarrow> fresh_id s v i"
  by (auto simp: fresh_id_def quiet_change_def grows_def)

end
