(* ===== verification/Custody_Invariants.thy ===== *)
theory Custody_Invariants
  imports Custody_Events
begin

text \<open>Every event of the specification keeps every invariant of \<open>fleet_ok\<close>, one invariant at a time.\<close>

section \<open>Fields that writes leave alone\<close>

named_theorems keeps "fields a write does not touch"

lemma set_memo_fields [keeps]:
  "rc_id (set_memo i r) = rc_id r" "rc_amount (set_memo i r) = rc_amount r"
  "rc_isDeleted (set_memo i r) = rc_isDeleted r" "rc_source (set_memo i r) = rc_source r"
  "rc_kind (set_memo i r) = rc_kind r" "rc_memoId (set_memo i r) = i" "rc_date (set_memo i r) = rc_date r"
  "custody_receipt (set_memo i r) = custody_receipt r"
  by (simp_all add: set_memo_def custody_receipt_def)

lemma bump_memo_fields [keeps]:
  "me_id (bump_memo by m) = me_id m" "me_no (bump_memo by m) = me_no m" "me_kind (bump_memo by m) = me_kind m"
  "line_ids (bump_memo by m) = line_ids m" "me_replenishmentId (bump_memo by m) = me_replenishmentId m"
  "me_replenishmentHeld (bump_memo by m) = me_replenishmentHeld m" "me_isDeleted (bump_memo by m) = me_isDeleted m"
  "me_replenishedAt (bump_memo by m) = me_replenishedAt m"
  by (simp_all add: bump_memo_def line_ids_def)

lemma deleted_memo_fields [keeps]:
  "me_id (deleted_memo now by m) = me_id m" "me_no (deleted_memo now by m) = me_no m"
  "me_kind (deleted_memo now by m) = me_kind m" "line_ids (deleted_memo now by m) = line_ids m"
  "me_replenishmentId (deleted_memo now by m) = me_replenishmentId m"
  "me_replenishmentHeld (deleted_memo now by m) = me_replenishmentHeld m" "me_isDeleted (deleted_memo now by m)"
  by (simp_all add: deleted_memo_def bump_memo_def line_ids_def)

lemma take_memo_fields [keeps]:
  "me_id (take_memo i d h m) = me_id m" "me_no (take_memo i d h m) = me_no m"
  "me_kind (take_memo i d h m) = me_kind m" "line_ids (take_memo i d h m) = line_ids m"
  "me_replenishmentId (take_memo i d h m) = i" "me_replenishmentHeld (take_memo i d h m) = Some h"
  "me_isDeleted (take_memo i d h m) = me_isDeleted m"
  by (simp_all add: take_memo_def line_ids_def)

lemma freed_memo_fields [keeps]:
  "me_id (freed_memo m) = me_id m" "me_no (freed_memo m) = me_no m" "me_kind (freed_memo m) = me_kind m"
  "line_ids (freed_memo m) = line_ids m" "me_replenishmentId (freed_memo m) = None"
  "me_isDeleted (freed_memo m) = me_isDeleted m"
  by (simp_all add: freed_memo_def line_ids_def)

lemma bump_operation_fields [keeps]:
  "op_id (bump_operation by d) = op_id d" "op_kind (bump_operation by d) = op_kind d"
  "op_status (bump_operation by d) = op_status d" "op_memos (bump_operation by d) = op_memos d"
  "op_parts (bump_operation by d) = op_parts d" "op_amount (bump_operation by d) = op_amount d"
  "op_isDeleted (bump_operation by d) = op_isDeleted d" "op_date (bump_operation by d) = op_date d"
  "printed (bump_operation by d) = printed d"
  by (simp_all add: bump_operation_def printed_def)

lemma apply_leave_fields [keeps]:
  "op_id (apply_leave n d) = op_id d" "op_kind (apply_leave n d) = op_kind d"
  "op_memos (apply_leave n d) = op_memos d" "op_parts (apply_leave n d) = op_parts d"
  "op_amount (apply_leave n d) = op_amount d" "op_isDeleted (apply_leave n d) = op_isDeleted d"
  "op_date (apply_leave n d) = op_date d" "printed (apply_leave n d) = printed d"
  "op_status (apply_leave n d) =
     Some (case n of Transferred _ \<Rightarrow> DoneStatus | Withdrawn _ \<Rightarrow> CancelledStatus)"
  by (cases n; simp add: printed_def)+

lemma printed_eq:
  assumes "printed x = printed y"
  shows "op_id x = op_id y" "op_kind x = op_kind y" "op_memos x = op_memos y" "op_parts x = op_parts y"
    "op_amount x = op_amount y" "op_date x = op_date y" "op_fundBefore x = op_fundBefore y"
    "op_chargedTotal x = op_chargedTotal y" "op_letterFigure x = op_letterFigure y"
    "op_signatures x = op_signatures y" "op_from x = op_from y" "op_to x = op_to y" "op_reason x = op_reason y"
    "op_createdAt x = op_createdAt y"
  using assms by (cases x; cases y; simp add: printed_def)+

lemma cosmetic_fields:
  assumes "cosmetic h"
  shows "me_id (h m) = me_id m" "me_no (h m) = me_no m" "me_kind (h m) = me_kind m"
    "line_ids (h m) = line_ids m" "me_replenishmentId (h m) = me_replenishmentId m"
    "me_replenishmentHeld (h m) = me_replenishmentHeld m" "me_isDeleted (h m) = me_isDeleted m"
  using assms by (simp_all add: cosmetic_def memo_core_def)

lemma expense_core_fields:
  "expense_core (f e) = expense_core e \<Longrightarrow> ex_id (f e) = ex_id e \<and> ex_isDeleted (f e) = ex_isDeleted e"
  by (simp add: expense_core_def)

section \<open>Ids\<close>

lemma map_key_update: "(\<And>x. x \<in> set xs \<Longrightarrow> P x \<Longrightarrow> k (f x) = k x) \<Longrightarrow> map k (update_where P f xs) = map k xs"
  by (simp add: update_where_def)

lemma map_key_map: "(\<And>x. x \<in> set xs \<Longrightarrow> k (g x) = k x) \<Longrightarrow> map k (map g xs) = map k xs"
  by simp

text \<open>An event leaves the ids of a collection as they were, or adds a fresh one at the end.\<close>

definition ids_step :: "fleet_store \<Rightarrow> fleet_store \<Rightarrow> oid list \<Rightarrow> oid list \<Rightarrow> bool" where
  "ids_step s t is js \<longleftrightarrow> js = is \<or> (\<exists>i. js = is @ [i] \<and> fresh_id s t i)"

lemma ids_step_same: "js = is \<Longrightarrow> ids_step s t is js"
  by (simp add: ids_step_def)

lemma ids_step_new: "ys = xs @ [y] \<Longrightarrow> fresh_id s t (k y) \<Longrightarrow> ids_step s t (map k xs) (map k ys)"
  by (auto simp: ids_step_def)

lemma relinks_ids: "relinks mid kind L s g \<Longrightarrow> r \<in> set (fs_receipts s) \<Longrightarrow>
    rc_id (g r) = rc_id r \<and> rc_amount (g r) = rc_amount r \<and> custody_receipt (g r) = custody_receipt r \<and>
    rc_kind (g r) = rc_kind r"
  unfolding relinks_def by (metis set_memo_fields(1,2,5,8))

lemma event_ids:
  assumes "fleet_event s t"
  shows "ids_step s t (map rc_id (fs_receipts s)) (map rc_id (fs_receipts t)) \<and>
    ids_step s t (map me_id (fs_memos s)) (map me_id (fs_memos t)) \<and>
    ids_step s t (map op_id (fs_operations s)) (map op_id (fs_operations t)) \<and>
    ids_step s t (map ex_id (fs_expenses s)) (map ex_id (fs_expenses t)) \<and> grows s t"
  using assms
proof cases
  case quiet_event
  then show ?thesis by (simp add: quiet_change_def ids_step_same)
next
  case (receipt_new r)
  then show ?thesis by (simp add: ids_step_same ids_step_def)
next
  case (receipt_edit r r' h)
  then show ?thesis
    by (auto intro!: ids_step_same map_key_update map_key_map simp: live_receipt_id_def cosmetic_fields
        simp del: map_map)
next
  case (receipt_gone r g)
  then show ?thesis by (simp add: ids_step_same map_key_update)
next
  case (memo_new m n g)
  then show ?thesis using relinks_ids [OF memo_new(9)]
    by (simp add: ids_step_same ids_step_def)
next
  case (memo_edit m m' g)
  then show ?thesis using relinks_ids [OF memo_edit(10)]
    by (auto intro!: ids_step_same map_key_update map_key_map simp: live_memo_id_def simp del: map_map)
next
  case (memo_gone m now b g)
  then show ?thesis using relinks_ids [OF memo_gone(5)]
    by (auto intro!: ids_step_same map_key_update map_key_map simp: keeps simp del: map_map)
next
  case (charged d)
  then show ?thesis by (simp add: ids_step_same ids_step_def)
next
  case (replenished d ms b since)
  then show ?thesis by (auto simp: ids_step_def map_key_update keeps)
next
  case (settled d f)
  then show ?thesis by (auto simp: ids_step_def settles_def dest: expense_core_fields)
next
  case (moved_on d b n)
  then show ?thesis
    by (auto intro!: ids_step_same map_key_update simp: keeps split: leave_held.splits)
next
  case (deleted d g f)
  then show ?thesis using printed_eq(1) [of "g _"]
    by (auto intro!: ids_step_same map_key_update map_key_map simp: keeps frees_def dest: expense_core_fields
        simp del: map_map)
next
  case (expense_new e)
  then show ?thesis by (simp add: ids_step_same ids_step_def)
next
  case (expense_edit f)
  then show ?thesis by (auto intro!: ids_step_same map_key_map simp del: map_map)
qed

lemma ids_kept:
  assumes "fleet_event s t" "ids_distinct s" "ids_fresh s"
  shows "ids_distinct t \<and> ids_fresh t"
proof -
  have one: "distinct js \<and> (\<forall>j \<in> set js. j < fs_nextOid t)"
    if "ids_step s t is js" "distinct is" "\<forall>i \<in> set is. i < fs_nextOid s" "grows s t" for "is" js
    using that by (fastforce simp: ids_step_def fresh_id_def grows_def)
  note e = event_ids [OF assms(1)]
  have g: "grows s t" using e by blast
  have in_map: "(\<forall>i \<in> set (map k xs). i < n) \<longleftrightarrow> (\<forall>x \<in> set xs. k x < n)" for k :: "'x \<Rightarrow> oid" and xs n
    by simp
  show ?thesis
    using e one [OF _ _ _ g, of "map rc_id (fs_receipts s)" "map rc_id (fs_receipts t)"]
      one [OF _ _ _ g, of "map me_id (fs_memos s)" "map me_id (fs_memos t)"]
      one [OF _ _ _ g, of "map op_id (fs_operations s)" "map op_id (fs_operations t)"]
      one [OF _ _ _ g, of "map ex_id (fs_expenses s)" "map ex_id (fs_expenses t)"] assms(2,3)
    unfolding ids_distinct_def ids_fresh_def in_map by blast
qed

lemma amounts_kept:
  assumes "fleet_event s t" "amounts_exact s"
  shows "amounts_exact t"
  using assms
proof (cases rule: fleet_event.cases)
  case (memo_new m n g)
  then show ?thesis using assms(2) relinks_ids [OF memo_new(9)] by (auto simp: amounts_exact_def)
next
  case (memo_edit m m' g)
  then show ?thesis using assms(2) relinks_ids [OF memo_edit(10)] by (auto simp: amounts_exact_def)
next
  case (memo_gone m now b g)
  then show ?thesis using assms(2) relinks_ids [OF memo_gone(5)] by (auto simp: amounts_exact_def)
qed (auto simp: amounts_exact_def quiet_change_def in_update_where)

lemma kinds_kept:
  assumes "fleet_event s t" "\<forall>d \<in> set (fs_operations s). kind_ok d"
  shows "\<forall>d \<in> set (fs_operations t). kind_ok d"
  using assms
proof (cases rule: fleet_event.cases)
  case (moved_on d b n)
  then show ?thesis using assms(2) by (auto simp: in_update_where kind_ok_def keeps)
next
  case (deleted d g f)
  have "kind_ok (g x) = kind_ok x" for x
    using printed_eq [of "g x" x] deleted(3,4) by (simp add: kind_ok_def)
  then show ?thesis using assms(2) deleted by (auto simp: in_update_where)
qed (use assms(2) in \<open>auto simp: quiet_change_def\<close>)

end
