(* ===== verification/Custody_Links.thy ===== *)
theory Custody_Links
  imports Custody_Invariants
begin

text \<open>A receipt and the memo that has it as a line always name each other, whatever happens.\<close>

lemma links_okI:
  "(\<And>r. r \<in> set (fs_receipts t) \<Longrightarrow> receipt_linked t r) \<Longrightarrow> (\<And>m. m \<in> set (fs_memos t) \<Longrightarrow> memo_linked t m) \<Longrightarrow>
     links_ok t"
  by (simp add: links_ok_def)

lemma links_okD:
  assumes "links_ok s"
  shows "r \<in> set (fs_receipts s) \<Longrightarrow> receipt_linked s r" "m \<in> set (fs_memos s) \<Longrightarrow> memo_linked s m"
  using assms by (simp_all add: links_ok_def)

lemma receipt_by_id: "ids_distinct s \<Longrightarrow> r \<in> set (fs_receipts s) \<Longrightarrow> x \<in> set (fs_receipts s) \<Longrightarrow> rc_id r = rc_id x \<Longrightarrow> r = x"
  unfolding ids_distinct_def using by_key [of rc_id] by blast

lemma memo_by_id: "ids_distinct s \<Longrightarrow> m \<in> set (fs_memos s) \<Longrightarrow> x \<in> set (fs_memos s) \<Longrightarrow> me_id m = me_id x \<Longrightarrow> m = x"
  unfolding ids_distinct_def using by_key [of me_id] by blast

lemma operation_by_id:
  "ids_distinct s \<Longrightarrow> d \<in> set (fs_operations s) \<Longrightarrow> x \<in> set (fs_operations s) \<Longrightarrow> op_id d = op_id x \<Longrightarrow> d = x"
  unfolding ids_distinct_def using by_key [of op_id] by blast

lemma expense_by_id:
  "ids_distinct s \<Longrightarrow> e \<in> set (fs_expenses s) \<Longrightarrow> x \<in> set (fs_expenses s) \<Longrightarrow> ex_id e = ex_id x \<Longrightarrow> e = x"
  unfolding ids_distinct_def using by_key [of ex_id] by blast

text \<open>What a link reads of a memo: writes that leave it alone leave the links alone.\<close>

lemma links_ok_memos:
  assumes "links_ok s" "fs_receipts t = fs_receipts s" "fs_memos t = map h (fs_memos s)"
    "\<And>m. m \<in> set (fs_memos s) \<Longrightarrow> me_id (h m) = me_id m \<and> me_kind (h m) = me_kind m \<and> line_ids (h m) = line_ids m \<and>
       me_isDeleted (h m) = me_isDeleted m"
  shows "links_ok t"
proof (rule links_okI)
  fix r assume r: "r \<in> set (fs_receipts t)"
  then have "receipt_linked s r" using assms(1,2) by (simp add: links_ok_def)
  then show "receipt_linked t r" using assms(3,4) unfolding receipt_linked_def by fastforce
next
  fix m assume "m \<in> set (fs_memos t)"
  then obtain m0 where "m0 \<in> set (fs_memos s)" "m = h m0" using assms(3) by auto
  then show "memo_linked t m" using links_okD(2) [OF assms(1)] assms(2,4) by (simp add: memo_linked_def)
qed

lemma update_where_map: "update_where P f xs = map (\<lambda>x. if P x then f x else x) xs"
  by (simp add: update_where_def)

lemma update_where_other: "x \<in> set xs \<Longrightarrow> \<not> P x \<Longrightarrow> x \<in> set (update_where P f xs)"
  by (auto simp: in_update_where)

lemma links_receipt_new:
  assumes "links_ok s" "fs_receipts t = fs_receipts s @ [r]" "rc_memoId r = None" "fs_memos t = fs_memos s"
  shows "links_ok t"
proof (rule links_okI)
  fix x assume "x \<in> set (fs_receipts t)"
  then show "receipt_linked t x" using assms by (auto simp: receipt_linked_def links_ok_def)
next
  fix m assume "m \<in> set (fs_memos t)"
  then show "memo_linked t m" using links_okD(2) [OF assms(1)] assms(2,4) by (auto simp: memo_linked_def)
qed

text \<open>A change of one receipt that keeps its id and its memo, and its kind and source when it has one.\<close>

lemma links_receipt_map:
  assumes "links_ok s" "fs_receipts t = map g (fs_receipts s)" "fs_memos t = map h (fs_memos s)" "cosmetic h"
    "\<And>r. r \<in> set (fs_receipts s) \<Longrightarrow> rc_id (g r) = rc_id r \<and> rc_memoId (g r) = rc_memoId r"
    "\<And>r. r \<in> set (fs_receipts s) \<Longrightarrow> rc_memoId r \<noteq> None \<Longrightarrow> receipt_linked s r \<Longrightarrow>
       rc_kind (g r) = rc_kind r \<and> (custody_receipt r \<longrightarrow> custody_receipt (g r))"
  shows "links_ok t"
proof (rule links_okI)
  note h = cosmetic_fields [OF assms(4)]
  fix x assume "x \<in> set (fs_receipts t)"
  then obtain r where r: "r \<in> set (fs_receipts s)" "x = g r" using assms(2) by auto
  have l: "receipt_linked s r" using links_okD(1) [OF assms(1) r(1)] .
  show "receipt_linked t x"
    unfolding receipt_linked_def
  proof (intro allI impI)
    fix i assume i: "rc_memoId x = Some i"
    then have i': "rc_memoId r = Some i" using assms(5) [OF r(1)] r(2) by simp
    then obtain m where m: "m \<in> set (fs_memos s)" "me_id m = i" "\<not> me_isDeleted m" "rc_id r \<in> line_ids m"
        "rc_kind r = me_kind m" and c: "custody_receipt r"
      using l by (auto simp: receipt_linked_def)
    have "h m \<in> set (fs_memos t)" using m(1) assms(3) by simp
    then show "custody_receipt x \<and> (\<exists>m\<in>set (fs_memos t). me_id m = i \<and> \<not> me_isDeleted m \<and> rc_id x \<in> line_ids m \<and>
        rc_kind x = me_kind m)"
      using assms(5,6) [OF r(1)] i' l m c r(2) h by (intro conjI bexI [of _ "h m"]) auto
  qed
next
  note h = cosmetic_fields [OF assms(4)]
  fix m assume "m \<in> set (fs_memos t)"
  then obtain m0 where m: "m0 \<in> set (fs_memos s)" "m = h m0" using assms(3) by auto
  have "memo_linked s m0" using links_okD(2) [OF assms(1) m(1)] .
  then show "memo_linked t m"
    using assms(2,5) unfolding m(2) memo_linked_def h by fastforce
qed

lemma relinks_memo:
  assumes "relinks mid kind L s g" "r \<in> set (fs_receipts s)"
  shows "g r = r \<or> rc_memoId r = Some mid \<and> rc_memoId (g r) = None \<or> rc_memoId r = None \<and> rc_memoId (g r) = Some mid"
    "rc_memoId (g r) = Some mid \<Longrightarrow> rc_id r \<in> L \<and> custody_receipt r \<and> rc_kind r = kind"
  using assms unfolding relinks_def by (metis set_memo_fields(6), blast)

lemma relinks_line: "relinks mid kind L s g \<Longrightarrow> i \<in> L \<Longrightarrow>
    \<exists>r \<in> set (fs_receipts s). rc_id r = i \<and> rc_memoId (g r) = Some mid"
  unfolding relinks_def by blast

text \<open>A memo's lines are taken and let go: the memo \<open>m\<close> is \<open>m'\<close> afterwards, every other one is as it was.\<close>

lemma links_relink:
  assumes "links_ok s" "relinks mid kind L s g" "fs_receipts t = map g (fs_receipts s)"
    "\<And>m. m \<in> set (fs_memos t) \<Longrightarrow> me_id m \<noteq> mid \<Longrightarrow> \<not> me_isDeleted m \<Longrightarrow> m \<in> set (fs_memos s)"
    "\<And>m. m \<in> set (fs_memos s) \<Longrightarrow> me_id m \<noteq> mid \<Longrightarrow> m \<in> set (fs_memos t)"
    "\<And>m. m \<in> set (fs_memos t) \<Longrightarrow> me_id m = mid \<Longrightarrow> \<not> me_isDeleted m \<Longrightarrow> line_ids m \<subseteq> L"
    "L \<noteq> {} \<Longrightarrow> \<exists>m \<in> set (fs_memos t). me_id m = mid \<and> \<not> me_isDeleted m \<and> line_ids m = L \<and> me_kind m = kind"
  shows "links_ok t"
proof (rule links_okI)
  fix x assume "x \<in> set (fs_receipts t)"
  then obtain r where r: "r \<in> set (fs_receipts s)" "x = g r" using assms(3) by auto
  have l: "receipt_linked s r" using links_okD(1) [OF assms(1) r(1)] .
  have g: "rc_id x = rc_id r" "custody_receipt x = custody_receipt r" "rc_kind x = rc_kind r"
    using relinks_ids [OF assms(2) r(1)] r(2) by simp_all
  have cases: "rc_memoId x = Some mid \<Longrightarrow> rc_id r \<in> L \<and> custody_receipt r \<and> rc_kind r = kind"
    "g r = r \<or> rc_memoId x = None \<or> rc_memoId x = Some mid"
    using relinks_memo [OF assms(2) r(1)] r(2) by auto
  show "receipt_linked t x"
    unfolding receipt_linked_def
  proof (intro allI impI)
    fix i assume i: "rc_memoId x = Some i"
    show "custody_receipt x \<and> (\<exists>m\<in>set (fs_memos t). me_id m = i \<and> \<not> me_isDeleted m \<and> rc_id x \<in> line_ids m \<and>
        rc_kind x = me_kind m)"
    proof (cases "i = mid")
      case True
      then have c: "rc_id r \<in> L" "custody_receipt r" "rc_kind r = kind" using cases(1) i by auto
      then obtain m where "m \<in> set (fs_memos t)" "me_id m = mid" "\<not> me_isDeleted m" "line_ids m = L" "me_kind m = kind"
        using assms(7) by blast
      then show ?thesis using c g True by auto
    next
      case False
      then have "rc_memoId r = Some i" using cases(2) i r(2) by auto
      then show ?thesis using l g False assms(5) unfolding receipt_linked_def by metis
    qed
  qed
next
  fix m assume m: "m \<in> set (fs_memos t)"
  show "memo_linked t m"
    unfolding memo_linked_def
  proof (intro impI ballI)
    fix i assume live: "\<not> me_isDeleted m" and i: "i \<in> line_ids m"
    show "\<exists>r\<in>set (fs_receipts t). rc_id r = i \<and> rc_memoId r = Some (me_id m)"
    proof (cases "me_id m = mid")
      case True
      then have "i \<in> L" using assms(6) m live i by blast
      then obtain r where "r \<in> set (fs_receipts s)" "rc_id r = i" "rc_memoId (g r) = Some mid"
        using relinks_line [OF assms(2)] by blast
      then show ?thesis using assms(3) True relinks_ids [OF assms(2)] by auto
    next
      case False
      then have "memo_linked s m" using assms(4) m live links_okD(2) [OF assms(1)] by blast
      then obtain r where r: "r \<in> set (fs_receipts s)" "rc_id r = i" "rc_memoId r = Some (me_id m)"
        using live i by (auto simp: memo_linked_def)
      then have "g r = r" using relinks_memo(1) [OF assms(2) r(1)] False by auto
      then show ?thesis using r assms(3) by force
    qed
  qed
qed

lemma links_kept:
  assumes "fleet_event s t" "links_ok s" "ids_distinct s" "ids_fresh s"
  shows "links_ok t"
  using assms(1)
proof cases
  case quiet_event
  then show ?thesis using assms(2) by (auto simp: quiet_change_def links_ok_def receipt_linked_def memo_linked_def)
next
  case (receipt_new r)
  then show ?thesis using links_receipt_new [OF assms(2)] by blast
next
  case (receipt_edit r r' h)
  have one: "x = r" if "x \<in> set (fs_receipts s)" "live_receipt_id r x" for x
    using receipt_by_id [OF assms(3) that(1) receipt_edit(1)] that(2) by (simp add: live_receipt_id_def)
  show ?thesis
  proof (rule links_receipt_map [OF assms(2) receipt_edit(8) [unfolded update_where_map] receipt_edit(10,9)])
    fix x assume x: "x \<in> set (fs_receipts s)"
    show "rc_id (if live_receipt_id r x then r' else x) = rc_id x \<and>
        rc_memoId (if live_receipt_id r x then r' else x) = rc_memoId x"
      using one [OF x] receipt_edit(3,4) by auto
    show "rc_kind (if live_receipt_id r x then r' else x) = rc_kind x \<and>
        (custody_receipt x \<longrightarrow> custody_receipt (if live_receipt_id r x then r' else x))"
      if "rc_memoId x \<noteq> None" "receipt_linked s x"
      using that one [OF x] receipt_edit(5,7)
      by (auto simp: held_unchanged_def receipt_linked_def custody_receipt_def)
  qed
next
  case (receipt_gone r g)
  have one: "x = r" if "x \<in> set (fs_receipts s)" "live_receipt_id r x" for x
    using receipt_by_id [OF assms(3) that(1) receipt_gone(1)] that(2) by (simp add: live_receipt_id_def)
  show ?thesis
  proof (rule links_receipt_map [OF assms(2) receipt_gone(4) [unfolded update_where_map], of id])
    show "cosmetic id" by (simp add: cosmetic_def)
    fix x assume x: "x \<in> set (fs_receipts s)"
    show "rc_id (if live_receipt_id r x then g x else x) = rc_id x \<and>
        rc_memoId (if live_receipt_id r x then g x else x) = rc_memoId x"
      using receipt_gone(3) by auto
    show "rc_kind (if live_receipt_id r x then g x else x) = rc_kind x \<and>
        (custody_receipt x \<longrightarrow> custody_receipt (if live_receipt_id r x then g x else x))"
      if "rc_memoId x \<noteq> None" "receipt_linked s x"
      using that one [OF x] receipt_gone(2) by auto
  qed (simp add: receipt_gone(5))
next
  case (memo_new m n g)
  have new: "me_id x \<noteq> me_id m" if "x \<in> set (fs_memos s)" for x
    using that assms(4) memo_new(2) by (auto simp: ids_fresh_def fresh_id_def)
  show ?thesis
    by (rule links_relink [OF assms(2) memo_new(9,10)]) (use memo_new(1,3) new in auto)
next
  case (memo_edit m m' g)
  have one: "x = m" if "x \<in> set (fs_memos s)" "me_id x = me_id m" for x
    using memo_by_id [OF assms(3) that(1) memo_edit(1) that(2)] .
  note upd = memo_edit(9) [unfolded update_where_map]
  have "m' \<in> set (fs_memos t)"
    using memo_edit(1,2) upd by (force simp: live_memo_id_def)
  then show ?thesis
    by (intro links_relink [OF assms(2) memo_edit(10,11)])
      (use memo_edit(2,4,6,8) upd one in \<open>auto simp: live_memo_id_def split: if_splits\<close>)
next
  case (memo_gone m now b g)
  have one: "x = m" if "x \<in> set (fs_memos s)" "me_id x = me_id m" for x
    using memo_by_id [OF assms(3) that(1) memo_gone(1) that(2)] .
  note upd = memo_gone(4) [unfolded update_where_map]
  show ?thesis
    by (intro links_relink [OF assms(2) memo_gone(5,6)])
      (use memo_gone(2) upd one in \<open>auto simp: live_memo_id_def keeps split: if_splits\<close>)
next
  case (charged d)
  then show ?thesis using links_ok_memos [OF assms(2), of t id] by simp
next
  case (replenished d ms b since)
  then show ?thesis using links_ok_memos [OF assms(2) _ replenished(11) [unfolded update_where_map]] by (simp add: keeps)
next
  case (settled d f)
  then show ?thesis using links_ok_memos [OF assms(2), of t id] by simp
next
  case (moved_on d b n)
  then show ?thesis using links_ok_memos [OF assms(2) _ moved_on(6) [unfolded update_where_map]]
    by (simp add: keeps split: leave_held.splits)
next
  case (deleted d g b f)
  show ?thesis
  proof (cases "op_kind d = ReplenishOp")
    case True
    then show ?thesis
      using links_ok_memos [OF assms(2) deleted(9), of "\<lambda>m. if \<not> me_isDeleted m \<and> me_replenishmentId m = Some (op_id d)
          then bump_memo b (freed_memo m) else m"] deleted(6) by (simp add: update_where_map keeps)
  next
    case False
    then show ?thesis using links_ok_memos [OF assms(2) deleted(9), of id] deleted(6) by simp
  qed
next
  case (expense_new e)
  then show ?thesis using links_ok_memos [OF assms(2), of t id] by simp
next
  case (expense_edit f)
  then show ?thesis using links_ok_memos [OF assms(2), of t id] by simp
qed

end
