(* ===== verification/Custody_Takes.thy ===== *)
theory Custody_Takes
  imports Custody_Links
begin

text \<open>
  A memo and the replenishment that took it always name each other, and what the replenishment printed
  for the memo is what its receipts add up to for as long as it is in force.
\<close>

section \<open>Memos and their replenishments\<close>

definition taken_by :: "operation_doc \<Rightarrow> memo_doc \<Rightarrow> bool" where
  "taken_by d m \<longleftrightarrow> in_force d \<and> me_id m \<in> om_memoId ` set (op_memos d) \<and>
     (me_replenishmentHeld m = Some True \<longleftrightarrow> operationStatusOf d = HeldStatus)"

lemma memo_taken_iff:
  "memo_taken s m \<longleftrightarrow> (\<forall>i. \<not> me_isDeleted m \<and> me_replenishmentId m = Some i \<longrightarrow>
     (\<exists>d \<in> set (fs_operations s). op_id d = i \<and> taken_by d m))"
  by (simp add: memo_taken_def taken_by_def)

lemma takes_okI:
  "(\<And>m. m \<in> set (fs_memos t) \<Longrightarrow> memo_taken t m) \<Longrightarrow>
   (\<And>d. d \<in> set (fs_operations t) \<Longrightarrow> in_force d \<Longrightarrow> distinct (map om_memoId (op_memos d))) \<Longrightarrow>
   (\<And>d x. d \<in> set (fs_operations t) \<Longrightarrow> in_force d \<Longrightarrow> x \<in> set (op_memos d) \<Longrightarrow> snapshot_held t d x) \<Longrightarrow>
   takes_ok t"
  by (simp add: takes_ok_def)

lemma takes_okD:
  assumes "takes_ok s"
  shows "m \<in> set (fs_memos s) \<Longrightarrow> memo_taken s m"
    "d \<in> set (fs_operations s) \<Longrightarrow> in_force d \<Longrightarrow> distinct (map om_memoId (op_memos d))"
    "d \<in> set (fs_operations s) \<Longrightarrow> in_force d \<Longrightarrow> x \<in> set (op_memos d) \<Longrightarrow> snapshot_held s d x"
  using assms by (simp_all add: takes_ok_def)

lemma memo_core_fields:
  "memo_core m = memo_core n \<Longrightarrow> me_id m = me_id n \<and> me_no m = me_no n \<and> me_kind m = me_kind n \<and> line_ids m = line_ids n \<and>
     me_replenishmentId m = me_replenishmentId n \<and> me_replenishmentHeld m = me_replenishmentHeld n \<and>
     me_isDeleted m = me_isDeleted n"
  by (simp add: memo_core_def)

lemma taken_by_core: "memo_core m = memo_core n \<Longrightarrow> taken_by d m = taken_by d n"
  by (auto simp: taken_by_def dest: memo_core_fields)

text \<open>Nothing about takes changes when the memos that are taken and the operations in force stay.\<close>

lemma takes_frame:
  assumes ok: "takes_ok s"
    and memos: "\<And>m. m \<in> set (fs_memos t) \<Longrightarrow> \<not> me_isDeleted m \<Longrightarrow> me_replenishmentId m \<noteq> None \<Longrightarrow>
      \<exists>n \<in> set (fs_memos s). memo_core n = memo_core m"
    and stay: "\<And>m. m \<in> set (fs_memos s) \<Longrightarrow> \<not> me_isDeleted m \<Longrightarrow> me_replenishmentId m \<noteq> None \<Longrightarrow>
      \<exists>n \<in> set (fs_memos t). memo_core n = memo_core m"
    and ops: "\<And>d. in_force d \<Longrightarrow> d \<in> set (fs_operations t) \<longleftrightarrow> d \<in> set (fs_operations s)"
  shows "takes_ok t"
proof (rule takes_okI)
  fix m assume m: "m \<in> set (fs_memos t)"
  show "memo_taken t m"
    unfolding memo_taken_iff
  proof (intro allI impI)
    fix i assume i: "\<not> me_isDeleted m \<and> me_replenishmentId m = Some i"
    then obtain n where n: "n \<in> set (fs_memos s)" "memo_core n = memo_core m" using memos m by blast
    then have "\<not> me_isDeleted n \<and> me_replenishmentId n = Some i" using i memo_core_fields [OF n(2)] by simp
    then obtain d where "d \<in> set (fs_operations s)" "op_id d = i" "taken_by d n"
      using takes_okD(1) [OF ok n(1)] unfolding memo_taken_iff by blast
    then show "\<exists>d \<in> set (fs_operations t). op_id d = i \<and> taken_by d m"
      using ops taken_by_core [OF n(2)] unfolding taken_by_def by blast
  qed
next
  fix d assume d: "d \<in> set (fs_operations t)" "in_force d"
  then have d': "d \<in> set (fs_operations s)" using ops by blast
  then show "distinct (map om_memoId (op_memos d))" using takes_okD(2) [OF ok] d(2) by blast
  fix x assume "x \<in> set (op_memos d)"
  then obtain m where "m \<in> set (fs_memos s)" "me_id m = om_memoId x" "\<not> me_isDeleted m"
      "me_replenishmentId m = Some (op_id d)"
    using takes_okD(3) [OF ok d' d(2)] unfolding snapshot_held_def by blast
  then show "snapshot_held t d x"
    using stay [of m] unfolding snapshot_held_def by (metis memo_core_fields option.distinct(1))
qed

lemma cosmetic_core: "cosmetic h \<Longrightarrow> memo_core (h m) = memo_core m"
  by (simp add: cosmetic_def)

lemma not_in_force: "op_kind d \<noteq> ReplenishOp \<Longrightarrow> \<not> in_force d" "op_isDeleted d \<Longrightarrow> \<not> in_force d"
  by (simp_all add: in_force_def)

lemma memo_of_taken:
  assumes "takes_ok s" "ids_distinct s" "d \<in> set (fs_operations s)" "in_force d" "x \<in> set (op_memos d)"
    "m \<in> set (fs_memos s)" "me_id m = om_memoId x"
  shows "\<not> me_isDeleted m" "me_replenishmentId m = Some (op_id d)"
  using takes_okD(3) [OF assms(1,3,4,5)] memo_by_id [OF assms(2)] assms(6,7) unfolding snapshot_held_def by metis+

lemma operation_of_taken:
  assumes "takes_ok s" "ids_distinct s" "m \<in> set (fs_memos s)" "\<not> me_isDeleted m"
    "me_replenishmentId m = Some (op_id d)" "d \<in> set (fs_operations s)"
  shows "taken_by d m"
proof -
  obtain d' where d': "d' \<in> set (fs_operations s)" "op_id d' = op_id d" "taken_by d' m"
    using takes_okD(1) [OF assms(1,3)] assms(4,5) unfolding memo_taken_iff by blast
  then show ?thesis using operation_by_id [OF assms(2) d'(1) assms(6)] by simp
qed

text \<open>A new replenishment takes memos nobody had.\<close>

lemma takes_replenished:
  assumes ok: "takes_ok s" and ids: "ids_distinct s"
    and ops: "fs_operations t = fs_operations s @ [d]" and d: "op_kind d = ReplenishOp" "\<not> op_isDeleted d"
      "op_status d = Some HeldStatus"
    and ms: "distinct (map me_id ms)"
      "\<And>m. m \<in> set ms \<Longrightarrow> m \<in> set (fs_memos s) \<and> \<not> me_isDeleted m \<and> me_replenishmentId m = None"
    and listed: "map om_memoId (op_memos d) = map me_id ms"
    and memos: "fs_memos t = map (\<lambda>m. if me_id m \<in> me_id ` set ms \<and> \<not> me_isDeleted m \<and> me_replenishmentId m = None
      then bump_memo b (take_memo (Some (op_id d)) since True m) else m) (fs_memos s)"
  shows "takes_ok t"
proof -
  let ?P = "\<lambda>m. me_id m \<in> me_id ` set ms \<and> \<not> me_isDeleted m \<and> me_replenishmentId m = None"
  have force: "in_force d" "operationStatusOf d = HeldStatus" using d by (simp_all add: in_force_def operationStatusOf_def)
  have ids_d: "om_memoId ` set (op_memos d) = me_id ` set ms" using listed by (metis set_map)
  have keep: "m \<in> set (fs_memos t)" if "m \<in> set (fs_memos s)" "me_replenishmentId m \<noteq> None" for m
    using that memos by auto
  show ?thesis
  proof (rule takes_okI)
    fix m assume "m \<in> set (fs_memos t)"
    then obtain n where n: "n \<in> set (fs_memos s)"
      and m: "m = (if ?P n then bump_memo b (take_memo (Some (op_id d)) since True n) else n)"
      using memos by auto
    show "memo_taken t m"
    proof (cases "?P n")
      case True
      then have "taken_by d m" using m force ids_d by (simp add: taken_by_def keeps)
      then show ?thesis using True m ops by (simp add: memo_taken_iff keeps)
    next
      case False
      then show ?thesis using takes_okD(1) [OF ok n] m ops by (auto simp: memo_taken_iff)
    qed
  next
    fix e assume e: "e \<in> set (fs_operations t)" "in_force e"
    then consider "e = d" | "e \<in> set (fs_operations s)" using ops by auto
    note e_cases = this
    show "distinct (map om_memoId (op_memos e))"
      using e_cases listed ms(1) takes_okD(2) [OF ok] e(2) by cases auto
    fix x assume x: "x \<in> set (op_memos e)"
    show "snapshot_held t e x"
      using e_cases
    proof cases
      case 1
      then obtain m where m: "m \<in> set ms" "me_id m = om_memoId x" using x ids_d by (metis imageE imageI)
      then have "bump_memo b (take_memo (Some (op_id d)) since True m) \<in> set (fs_memos t)"
        using ms(2) [OF m(1)] memos by (force intro!: image_eqI [of _ _ m])
      then show ?thesis
        unfolding snapshot_held_def using 1 m(2) ms(2) [OF m(1)]
        by (intro bexI [of _ "bump_memo b (take_memo (Some (op_id d)) since True m)"]) (simp_all add: keeps)
    next
      case 2
      then show ?thesis using takes_okD(3) [OF ok 2 e(2) x] keep unfolding snapshot_held_def by fastforce
    qed
  qed
qed

lemma takes_deleted:
  assumes ok: "takes_ok s" and ids: "ids_distinct s" and d: "d \<in> set (fs_operations s)"
    and g: "\<And>x. op_isDeleted (g x)"
    and ops: "fs_operations t = map (\<lambda>x. if op_id x = op_id d \<and> \<not> op_isDeleted x then g x else x) (fs_operations s)"
    and memos: "fs_memos t = (if op_kind d = ReplenishOp
      then map (\<lambda>m. if \<not> me_isDeleted m \<and> me_replenishmentId m = Some (op_id d) then bump_memo b (freed_memo m) else m)
             (fs_memos s)
      else fs_memos s)"
  shows "takes_ok t"
proof -
  have other: "me_replenishmentId m \<noteq> Some (op_id d)"
    if "m \<in> set (fs_memos s)" "\<not> me_isDeleted m" "op_kind d \<noteq> ReplenishOp" for m
    using operation_of_taken [OF ok ids that(1,2) _ d] that(3) by (auto simp: taken_by_def in_force_def)
  have e_ops: "e \<in> set (fs_operations t) \<longleftrightarrow> e \<in> set (fs_operations s) \<and> op_id e \<noteq> op_id d" if "in_force e" for e
    using that g ops by (auto simp: in_force_def split: if_splits)
  have t_memo: "\<exists>n \<in> set (fs_memos s). m = n \<and> me_replenishmentId n \<noteq> Some (op_id d)"
    if "m \<in> set (fs_memos t)" "\<not> me_isDeleted m" "me_replenishmentId m \<noteq> None" for m
    using that memos other by (auto simp: keeps split: if_splits)
  have s_memo: "m \<in> set (fs_memos t)" if "m \<in> set (fs_memos s)" "me_replenishmentId m \<noteq> Some (op_id d)" for m
    using that memos by auto
  show ?thesis
  proof (rule takes_okI)
    fix m assume m: "m \<in> set (fs_memos t)"
    show "memo_taken t m"
      unfolding memo_taken_iff
    proof (intro allI impI)
      fix i assume i: "\<not> me_isDeleted m \<and> me_replenishmentId m = Some i"
      then have m': "m \<in> set (fs_memos s)" "i \<noteq> op_id d" using t_memo [OF m] by auto
      then obtain e where "e \<in> set (fs_operations s)" "op_id e = i" "taken_by e m"
        using takes_okD(1) [OF ok m'(1)] i unfolding memo_taken_iff by blast
      then show "\<exists>e \<in> set (fs_operations t). op_id e = i \<and> taken_by e m"
        using e_ops [of e] m'(2) by (auto simp: taken_by_def)
    qed
  next
    fix e assume e: "e \<in> set (fs_operations t)" "in_force e"
    then have e': "e \<in> set (fs_operations s)" "op_id e \<noteq> op_id d" using e_ops by auto
    show "distinct (map om_memoId (op_memos e))" using takes_okD(2) [OF ok e'(1) e(2)] .
    fix x assume "x \<in> set (op_memos e)"
    then show "snapshot_held t e x"
      using takes_okD(3) [OF ok e'(1) e(2)] s_memo e'(2) unfolding snapshot_held_def by fastforce
  qed
qed

text \<open>A held replenishment is transferred, and its memos are replenished; or withdrawn, and they are free.\<close>

lemma held_exactly:
  assumes ok: "takes_ok s" and ids: "ids_distinct s" and d: "d \<in> set (fs_operations s)" "\<not> op_isDeleted d"
    "op_kind d = ReplenishOp" "op_status d = Some HeldStatus" and m: "m \<in> set (fs_memos s)"
  shows "heldBy (map om_memoId (op_memos d)) (op_id d) m \<longleftrightarrow> \<not> me_isDeleted m \<and> me_replenishmentId m = Some (op_id d)"
proof -
  have "operationStatusOf d = HeldStatus" using d(4) by (simp add: operationStatusOf_def)
  then show ?thesis
    using operation_of_taken [OF ok ids m _ _ d(1)] by (auto simp: heldBy_def taken_by_def)
qed

lemma takes_moved_on:
  assumes ok: "takes_ok s" and ids: "ids_distinct s" and d: "d \<in> set (fs_operations s)" "\<not> op_isDeleted d"
      "op_kind d = ReplenishOp" "op_status d = Some HeldStatus"
    and ops: "fs_operations t = map (\<lambda>x. if op_id x = op_id d \<and> \<not> op_isDeleted x \<and> op_kind x = ReplenishOp \<and>
        op_status x = Some HeldStatus then bump_operation b (apply_leave n x) else x) (fs_operations s)"
    and memos: "fs_memos t = map (\<lambda>m. if heldBy (map om_memoId (op_memos d)) (op_id d) m then
        bump_memo b (case n of Transferred x \<Rightarrow> take_memo (Some (op_id d)) (Some (xf_date x)) False m
                             | Withdrawn _ \<Rightarrow> take_memo None None False m) else m) (fs_memos s)"
  shows "takes_ok t"
proof -
  let ?d = "bump_operation b (apply_leave n d)"
  let ?w = "\<lambda>m. bump_memo b (case n of Transferred x \<Rightarrow> take_memo (Some (op_id d)) (Some (xf_date x)) False m
                             | Withdrawn _ \<Rightarrow> take_memo None None False m)"
  note held = held_exactly [OF ok ids d]
  have force_d: "in_force d" using d by (simp add: in_force_def operationStatusOf_def)
  have d_only: "x = d" if "x \<in> set (fs_operations s)" "op_id x = op_id d" for x
    using operation_by_id [OF ids that(1) d(1) that(2)] .
  have e_ops: "e \<in> set (fs_operations t) \<longleftrightarrow> e = ?d \<or> e \<in> set (fs_operations s) \<and> op_id e \<noteq> op_id d" for e
    using ops d d_only by (auto simp: image_iff keeps split: if_splits)
  have t_memo: "\<exists>n \<in> set (fs_memos s). m = (if \<not> me_isDeleted n \<and> me_replenishmentId n = Some (op_id d) then ?w n else n)"
    if "m \<in> set (fs_memos t)" for m
    using that memos held by auto
  have s_memo: "(if \<not> me_isDeleted m \<and> me_replenishmentId m = Some (op_id d) then ?w m else m) \<in> set (fs_memos t)"
    if "m \<in> set (fs_memos s)" for m
    using that memos held by auto
  have w: "me_id (?w m) = me_id m" "me_isDeleted (?w m) = me_isDeleted m" for m
    by (cases n; simp add: keeps)+
  have status: "operationStatusOf ?d = (case n of Transferred _ \<Rightarrow> DoneStatus | Withdrawn _ \<Rightarrow> CancelledStatus)"
    by (simp add: operationStatusOf_def keeps)
  have force: "in_force ?d \<longleftrightarrow> (\<exists>x. n = Transferred x)"
    unfolding in_force_def status using d by (cases n) (simp_all add: keeps)
  show ?thesis
  proof (rule takes_okI)
    fix m assume "m \<in> set (fs_memos t)"
    then obtain k where k: "k \<in> set (fs_memos s)"
      and m: "m = (if \<not> me_isDeleted k \<and> me_replenishmentId k = Some (op_id d) then ?w k else k)"
      using t_memo by blast
    show "memo_taken t m"
      unfolding memo_taken_iff
    proof (intro allI impI)
      fix i assume i: "\<not> me_isDeleted m \<and> me_replenishmentId m = Some i"
      show "\<exists>e \<in> set (fs_operations t). op_id e = i \<and> taken_by e m"
      proof (cases "\<not> me_isDeleted k \<and> me_replenishmentId k = Some (op_id d)")
        case True
        then obtain x where n: "n = Transferred x" using i m by (cases n) (auto simp: keeps)
        have "taken_by d k" using operation_of_taken [OF ok ids k _ _ d(1)] True by blast
        then have "taken_by ?d m" using n m True force status by (simp add: taken_by_def keeps)
        moreover have "op_id ?d = i" using i m True n by (simp add: keeps)
        ultimately show ?thesis using e_ops by blast
      next
        case False
        then have m': "m = k" using m by (simp only: if_False)
        then obtain e where e: "e \<in> set (fs_operations s)" "op_id e = i" "taken_by e m"
          using takes_okD(1) [OF ok k] i unfolding memo_taken_iff by blast
        then show ?thesis using e_ops False i m' by auto
      qed
    qed
  next
    fix e assume e: "e \<in> set (fs_operations t)" "in_force e"
    then consider "e = ?d" | "e \<in> set (fs_operations s)" "op_id e \<noteq> op_id d" using e_ops by blast
    note e_cases = this
    show "distinct (map om_memoId (op_memos e))"
      using e_cases takes_okD(2) [OF ok] e(2) force_d d(1) by cases (auto simp: keeps)
    fix x assume x: "x \<in> set (op_memos e)"
    show "snapshot_held t e x"
      using e_cases
    proof cases
      case 1
      then obtain y where n: "n = Transferred y" using e(2) force by blast
      have "x \<in> set (op_memos d)" using x 1 by (simp add: keeps)
      then obtain m where "m \<in> set (fs_memos s)" "me_id m = om_memoId x" "\<not> me_isDeleted m"
          "me_replenishmentId m = Some (op_id d)"
        using takes_okD(3) [OF ok d(1) force_d] unfolding snapshot_held_def by blast
      then show ?thesis
        using s_memo [of m] 1 n unfolding snapshot_held_def by (intro bexI [of _ "?w m"]) (simp_all add: keeps)
    next
      case 2
      then obtain m where "m \<in> set (fs_memos s)" "me_id m = om_memoId x" "\<not> me_isDeleted m"
          "me_replenishmentId m = Some (op_id e)"
        using takes_okD(3) [OF ok _ e(2) x] unfolding snapshot_held_def by blast
      then show ?thesis using s_memo [of m] 2(2) unfolding snapshot_held_def by force
    qed
  qed
qed

lemma takes_kept:
  assumes "fleet_event s t" "takes_ok s" "ids_distinct s" "ids_fresh s"
  shows "takes_ok t"
  using assms(1)
proof cases
  case quiet_event
  then show ?thesis by (intro takes_frame [OF assms(2)]) (auto simp: quiet_change_def)
next
  case (receipt_new r)
  then show ?thesis by (intro takes_frame [OF assms(2)]) auto
next
  case (receipt_edit r r' h)
  show ?thesis
    by (intro takes_frame [OF assms(2)])
      (use receipt_edit(10,11) cosmetic_core [OF receipt_edit(9)] in \<open>auto intro: sym\<close>)
next
  case (receipt_gone r g)
  then show ?thesis by (intro takes_frame [OF assms(2)]) auto
next
  case (memo_new m n g)
  then show ?thesis by (intro takes_frame [OF assms(2)]) auto
next
  case (memo_edit m m' g)
  have one: "x = m" if "x \<in> set (fs_memos s)" "live_memo_id (me_id m) x" for x
    using that memo_by_id [OF assms(3) _ memo_edit(1)] by (simp add: live_memo_id_def)
  have stay: "x \<in> set (fs_memos t)" if "x \<in> set (fs_memos s)" "me_replenishmentId x \<noteq> None" for x
    using that one [OF that(1)] memo_edit(3) unfolding memo_edit(9) by (intro update_where_other) auto
  show ?thesis
    by (intro takes_frame [OF assms(2)])
      (use memo_edit(7,9,12) stay in \<open>auto simp: in_update_where split: if_splits\<close>)
next
  case (memo_gone m now b g)
  have one: "x = m" if "x \<in> set (fs_memos s)" "live_memo_id (me_id m) x" for x
    using that memo_by_id [OF assms(3) _ memo_gone(1)] by (simp add: live_memo_id_def)
  have stay: "x \<in> set (fs_memos t)" if "x \<in> set (fs_memos s)" "me_replenishmentId x \<noteq> None" for x
    using that one [OF that(1)] memo_gone(3) unfolding memo_gone(4) by (intro update_where_other) auto
  show ?thesis
    by (intro takes_frame [OF assms(2)])
      (use memo_gone(4,7) stay in \<open>auto simp: in_update_where keeps split: if_splits\<close>)
next
  case (charged d)
  then show ?thesis by (intro takes_frame [OF assms(2)]) (auto simp: in_force_def)
next
  case (replenished d ms b since)
  have "map om_memoId (op_memos d) = map me_id ms"
    using replenished(9) by (simp add: memo_snapshot_def)
  then show ?thesis
    using takes_replenished [OF assms(2,3) replenished(1,3,5,6,7,8) _ replenished(11) [unfolded update_where_map]] by blast
next
  case (settled d f)
  then show ?thesis by (intro takes_frame [OF assms(2)]) (auto simp: in_force_def)
next
  case (moved_on d b n)
  then show ?thesis
    using takes_moved_on [OF assms(2,3) moved_on(1,2,3,4) moved_on(5,6) [unfolded update_where_map]] by blast
next
  case (deleted d g b f)
  have "op_isDeleted (g x)" for x using deleted(3) by blast
  then show ?thesis
    using takes_deleted [OF assms(2,3) deleted(1) _ deleted(5,6) [unfolded update_where_map]] by blast
next
  case (expense_new e)
  then show ?thesis by (intro takes_frame [OF assms(2)]) auto
next
  case (expense_edit f)
  then show ?thesis by (intro takes_frame [OF assms(2)]) auto
qed

section \<open>What a replenishment printed\<close>

lemma figures_frame:
  assumes "figures_ok s"
    "\<And>d. d \<in> set (fs_operations t) \<Longrightarrow> in_force d \<Longrightarrow>
       \<exists>e \<in> set (fs_operations s). in_force e \<and> op_memos e = op_memos d \<and> op_amount e = op_amount d"
    "\<And>d x. d \<in> set (fs_operations s) \<Longrightarrow> in_force d \<Longrightarrow> x \<in> set (op_memos d) \<Longrightarrow>
       readMemoTotals t (om_memoId x) = readMemoTotals s (om_memoId x)"
  shows "figures_ok t"
  unfolding figures_ok_def
proof (intro ballI impI)
  fix d assume "d \<in> set (fs_operations t)" "in_force d"
  then obtain e where "e \<in> set (fs_operations s)" "in_force e" "op_memos e = op_memos d" "op_amount e = op_amount d"
    using assms(2) by blast
  then show "(\<forall>x \<in> set (op_memos d). (om_receipts x, om_amount x) = readMemoTotals t (om_memoId x)) \<and>
     op_amount d = fromPiastres (sum_list (map (\<lambda>x. toPiastres (om_amount x)) (op_memos d)))"
    using assms(1,3) unfolding figures_ok_def by metis
qed

lemma memo_totals_same: "fs_receipts t = fs_receipts s \<Longrightarrow> readMemoTotals t i = readMemoTotals s i"
  by (simp add: readMemoTotals_def memo_receipts_def)

lemma memo_totals_new:
  "fs_receipts t = fs_receipts s @ [r] \<Longrightarrow> rc_memoId r = None \<Longrightarrow> readMemoTotals t i = readMemoTotals s i"
  by (simp add: readMemoTotals_def memo_receipts_def)

lemma memo_totals_map:
  assumes "fs_receipts t = map g (fs_receipts s)"
    "\<And>r. r \<in> set (fs_receipts s) \<Longrightarrow>
       (custody_receipt (g r) \<and> rc_memoId (g r) = Some i) = (custody_receipt r \<and> rc_memoId r = Some i)"
    "\<And>r. r \<in> set (fs_receipts s) \<Longrightarrow> custody_receipt r \<Longrightarrow> rc_memoId r = Some i \<Longrightarrow>
       receipt_piastres (rc_amount (g r)) = receipt_piastres (rc_amount r)"
  shows "readMemoTotals t i = readMemoTotals s i"
proof -
  have "memo_receipts t i = map g (memo_receipts s i)"
    using assms(1,2) by (simp add: memo_receipts_def filter_map comp_def cong: filter_cong)
  moreover have "receipts_piastres (map g (memo_receipts s i)) = receipts_piastres (memo_receipts s i)"
    using assms(3) by (auto simp: receipts_piastres_def memo_receipts_def comp_def
        intro!: arg_cong [where f = sum_list] map_cong)
  ultimately show ?thesis by (simp add: readMemoTotals_def Let_def)
qed

lemma memo_totals_relink:
  assumes "relinks mid kind L s g" "fs_receipts t = map g (fs_receipts s)" "i \<noteq> mid"
  shows "readMemoTotals t i = readMemoTotals s i"
proof (rule memo_totals_map [OF assms(2)])
  fix r assume r: "r \<in> set (fs_receipts s)"
  show "(custody_receipt (g r) \<and> rc_memoId (g r) = Some i) = (custody_receipt r \<and> rc_memoId r = Some i)"
    using relinks_memo(1) [OF assms(1) r] relinks_ids [OF assms(1) r] assms(3) by auto
  show "receipt_piastres (rc_amount (g r)) = receipt_piastres (rc_amount r)"
    using relinks_ids [OF assms(1) r] by simp
qed

lemma figures_kept:
  assumes "fleet_event s t" "figures_ok s" "takes_ok s" "links_ok s" "ids_distinct s" "ids_fresh s"
  shows "figures_ok t"
proof -
  have untaken: "om_memoId x \<noteq> me_id m"
    if "m \<in> set (fs_memos s)" "me_replenishmentId m = None" "d \<in> set (fs_operations s)" "in_force d"
      "x \<in> set (op_memos d)" for m d x
    using memo_of_taken [OF assms(3,5) that(3,4,5,1)] that(2) by auto
  from assms(1) show ?thesis
  proof cases
    case quiet_event
    then show ?thesis
      by (intro figures_frame [OF assms(2)]) (auto simp: quiet_change_def intro: memo_totals_same)
  next
    case (receipt_new r)
    then show ?thesis by (intro figures_frame [OF assms(2)]) (auto intro: memo_totals_new)
  next
    case (receipt_edit r r' h)
    note upd = receipt_edit(8) [unfolded update_where_map]
    have one: "x = r" if "x \<in> set (fs_receipts s)" "live_receipt_id r x" for x
      using receipt_by_id [OF assms(5) that(1) receipt_edit(1)] that(2) by (simp add: live_receipt_id_def)
    show ?thesis
    proof (rule figures_frame [OF assms(2)])
      fix d x assume d: "d \<in> set (fs_operations s)" "in_force d" "x \<in> set (op_memos d)"
      then obtain m where m: "m \<in> set (fs_memos s)" "me_id m = om_memoId x" "\<not> me_isDeleted m"
          "me_replenishmentId m \<noteq> None"
        using takes_okD(3) [OF assms(3)] unfolding snapshot_held_def by blast
      have held: "rc_source r' = rc_source r \<and> receipt_piastres (rc_amount r') = receipt_piastres (rc_amount r)"
        if "rc_memoId r = Some (om_memoId x)"
        using receipt_edit(7) m that unfolding held_unchanged_def by metis
      show "readMemoTotals t (om_memoId x) = readMemoTotals s (om_memoId x)"
      proof (rule memo_totals_map [OF upd])
        fix y assume y: "y \<in> set (fs_receipts s)"
        show "(custody_receipt (if live_receipt_id r y then r' else y) \<and>
              rc_memoId (if live_receipt_id r y then r' else y) = Some (om_memoId x)) =
            (custody_receipt y \<and> rc_memoId y = Some (om_memoId x))"
          "rc_memoId y = Some (om_memoId x) \<Longrightarrow>
            receipt_piastres (rc_amount (if live_receipt_id r y then r' else y)) = receipt_piastres (rc_amount y)"
          using one [OF y] held receipt_edit(4,5)
          by (cases "live_receipt_id r y"; force simp: custody_receipt_def)+
      qed
    qed (use receipt_edit(11) in auto)
  next
    case (receipt_gone r g)
    note upd = receipt_gone(4) [unfolded update_where_map]
    have one: "x = r" if "x \<in> set (fs_receipts s)" "live_receipt_id r x" for x
      using receipt_by_id [OF assms(5) that(1) receipt_gone(1)] that(2) by (simp add: live_receipt_id_def)
    show ?thesis
    proof (rule figures_frame [OF assms(2)])
      fix d x
      show "readMemoTotals t (om_memoId x) = readMemoTotals s (om_memoId x)"
      proof (rule memo_totals_map [OF upd])
        fix y assume y: "y \<in> set (fs_receipts s)"
        show "(custody_receipt (if live_receipt_id r y then g y else y) \<and>
              rc_memoId (if live_receipt_id r y then g y else y) = Some (om_memoId x)) =
            (custody_receipt y \<and> rc_memoId y = Some (om_memoId x))"
          "receipt_piastres (rc_amount (if live_receipt_id r y then g y else y)) = receipt_piastres (rc_amount y)"
          using one [OF y] receipt_gone(2,3) by (cases "live_receipt_id r y"; simp)+
      qed
    qed (use receipt_gone(6) in auto)
  next
    case (memo_new m n g)
    have "om_memoId x \<noteq> me_id m" if "d \<in> set (fs_operations s)" "in_force d" "x \<in> set (op_memos d)" for d x
      using takes_okD(3) [OF assms(3) that] assms(6) memo_new(2)
      unfolding snapshot_held_def ids_fresh_def fresh_id_def by (metis leD)
    then show ?thesis
      using memo_new(11) memo_totals_relink [OF memo_new(9,10)] by (intro figures_frame [OF assms(2)]) auto
  next
    case (memo_edit m m' g)
    then show ?thesis
      using untaken [OF memo_edit(1,3)] memo_totals_relink [OF memo_edit(10,11)]
      by (intro figures_frame [OF assms(2)]) auto
  next
    case (memo_gone m now b g)
    then show ?thesis
      using untaken [OF memo_gone(1,3)] memo_totals_relink [OF memo_gone(5,6)]
      by (intro figures_frame [OF assms(2)]) auto
  next
    case (charged d)
    then show ?thesis by (intro figures_frame [OF assms(2)]) (auto simp: in_force_def intro: memo_totals_same)
  next
    case (replenished d ms b since)
    have same: "readMemoTotals t i = readMemoTotals s i" for i
      using memo_totals_same replenished(12) by blast
    have "(om_receipts x, om_amount x) = readMemoTotals s (om_memoId x)" if "x \<in> set (op_memos d)" for x
      using that replenished(9) by (auto simp: memo_snapshot_def)
    then show ?thesis using assms(2) replenished(1,10) by (auto simp: figures_ok_def same)
  next
    case (settled d f)
    then show ?thesis by (intro figures_frame [OF assms(2)]) (auto simp: in_force_def intro: memo_totals_same)
  next
    case (moved_on d b n)
    have d: "in_force d" using moved_on(2,3,4) by (simp add: in_force_def operationStatusOf_def)
    show ?thesis
    proof (rule figures_frame [OF assms(2)])
      fix e assume "e \<in> set (fs_operations t)" "in_force e"
      then obtain x where x: "x \<in> set (fs_operations s)" and e: "e = (if op_id x = op_id d \<and> \<not> op_isDeleted x \<and>
          op_kind x = ReplenishOp \<and> op_status x = Some HeldStatus then bump_operation b (apply_leave n x) else x)"
        using moved_on(5) by (auto simp: in_update_where)
      have "in_force x \<and> op_memos x = op_memos e \<and> op_amount x = op_amount e"
      proof (cases "op_id x = op_id d \<and> \<not> op_isDeleted x \<and> op_kind x = ReplenishOp \<and> op_status x = Some HeldStatus")
        case True
        then have "in_force x" by (simp add: in_force_def operationStatusOf_def)
        moreover have "e = bump_operation b (apply_leave n x)" using e True by simp
        ultimately show ?thesis by (simp add: keeps)
      next
        case False
        then have "e = x" using e by (simp only: if_False)
        then show ?thesis using \<open>in_force e\<close> by simp
      qed
      then show "\<exists>x \<in> set (fs_operations s). in_force x \<and> op_memos x = op_memos e \<and> op_amount x = op_amount e"
        using x by blast
    qed (use moved_on(7) memo_totals_same in blast)
  next
    case (deleted d g b f)
    have g: "op_isDeleted (g x)" for x using deleted(3) by blast
    show ?thesis
    proof (rule figures_frame [OF assms(2)])
      fix e assume "e \<in> set (fs_operations t)" "in_force e"
      then have "e \<in> set (fs_operations s)"
        using deleted(5) g by (auto simp: in_update_where in_force_def split: if_splits)
      then show "\<exists>x \<in> set (fs_operations s). in_force x \<and> op_memos x = op_memos e \<and> op_amount x = op_amount e"
        using \<open>in_force e\<close> by blast
    qed (use deleted(9) memo_totals_same in blast)
  next
    case (expense_new e)
    then show ?thesis by (intro figures_frame [OF assms(2)]) (auto intro: memo_totals_same)
  next
    case (expense_edit f)
    then show ?thesis by (intro figures_frame [OF assms(2)]) (auto intro: memo_totals_same)
  qed
qed

end
