(* ===== verification/Custody_Settlements.thy ===== *)
theory Custody_Settlements
  imports Custody_Takes
begin

text \<open>
  A part of a licensing record and the settlement that took it off the fund always name each other; memo
  numbers are never handed out twice; and with that every invariant of \<open>fleet_ok\<close> holds after an event.
\<close>

definition settlement :: "operation_doc \<Rightarrow> bool" where
  "settlement d \<longleftrightarrow> \<not> op_isDeleted d \<and> op_kind d = SettleOp"

lemma settles_okI:
  assumes "\<And>e part x. e \<in> set (fs_expenses t) \<Longrightarrow> settlementOf e part = Some x \<Longrightarrow> \<not> ex_isDeleted e \<and>
      (\<exists>d \<in> set (fs_operations t). op_id d = es_operationId x \<and> settlement d \<and> listed_part d (ex_id e) part)"
    "\<And>d i part. d \<in> set (fs_operations t) \<Longrightarrow> settlement d \<Longrightarrow> listed_part d i part \<Longrightarrow>
      \<exists>e \<in> set (fs_expenses t). ex_id e = i \<and> settled_by (op_id d) part e"
  shows "settles_ok t"
  using assms unfolding settles_ok_def part_settled_def settlement_def by blast

lemma settles_okD:
  assumes "settles_ok s"
  shows "e \<in> set (fs_expenses s) \<Longrightarrow> settlementOf e part = Some x \<Longrightarrow> \<not> ex_isDeleted e \<and>
      (\<exists>d \<in> set (fs_operations s). op_id d = es_operationId x \<and> settlement d \<and> listed_part d (ex_id e) part)"
    "d \<in> set (fs_operations s) \<Longrightarrow> settlement d \<Longrightarrow> listed_part d i part \<Longrightarrow>
      \<exists>e \<in> set (fs_expenses s). ex_id e = i \<and> settled_by (op_id d) part e"
  using assms unfolding settles_ok_def part_settled_def settlement_def by blast+

lemma settled_by_iff: "settled_by i part e \<longleftrightarrow> (\<exists>x. settlementOf e part = Some x \<and> es_operationId x = i)"
  by (auto simp: settled_by_def split: option.splits)

lemma writable_settlementOf: "expense_writable e \<longleftrightarrow> (\<forall>part. settlementOf e part = None)"
proof
  assume "\<forall>part. settlementOf e part = None"
  then have "settlementOf e RenewalPart = None" "settlementOf e ExtensionPart = None" by blast+
  then show "expense_writable e" by (simp add: expense_writable_def)
next
  assume w: "expense_writable e"
  show "\<forall>part. settlementOf e part = None"
  proof
    fix part show "settlementOf e part = None" using w by (cases part) (simp_all add: expense_writable_def)
  qed
qed

lemma settles_frame:
  assumes ok: "settles_ok s" and ops: "\<And>d. settlement d \<Longrightarrow> d \<in> set (fs_operations t) \<longleftrightarrow> d \<in> set (fs_operations s)"
    and expenses: "\<And>e. \<not> expense_writable e \<Longrightarrow> e \<in> set (fs_expenses t) \<longleftrightarrow> e \<in> set (fs_expenses s)"
  shows "settles_ok t"
proof (rule settles_okI)
  fix e part x assume e: "e \<in> set (fs_expenses t)" "settlementOf e part = Some x"
  then have "e \<in> set (fs_expenses s)" using expenses by (auto simp: writable_settlementOf)
  then show "\<not> ex_isDeleted e \<and>
      (\<exists>d \<in> set (fs_operations t). op_id d = es_operationId x \<and> settlement d \<and> listed_part d (ex_id e) part)"
    using settles_okD(1) [OF ok _ e(2)] ops by blast
next
  fix d i part assume d: "d \<in> set (fs_operations t)" "settlement d" "listed_part d i part"
  then obtain e where "e \<in> set (fs_expenses s)" "ex_id e = i" "settled_by (op_id d) part e"
    using settles_okD(2) [OF ok] ops by blast
  then show "\<exists>e \<in> set (fs_expenses t). ex_id e = i \<and> settled_by (op_id d) part e"
    using expenses [of e] by (auto simp: settled_by_iff writable_settlementOf)
qed

lemma settles_settled:
  assumes ok: "settles_ok s" and ids: "ids_distinct s" and d: "settlement d"
    and ops: "fs_operations t = fs_operations s @ [d]" and f: "settles d s f" and exps: "fs_expenses t = map f (fs_expenses s)"
  shows "settles_ok t"
proof -
  have core: "ex_id (f e) = ex_id e \<and> ex_isDeleted (f e) = ex_isDeleted e" if "e \<in> set (fs_expenses s)" for e
    using f that expense_core_fields unfolding settles_def by blast
  have set: "settlementOf (f e) part = (if listed_part d (ex_id e) part \<and> \<not> ex_isDeleted e
      then Some \<lparr>es_operationId = op_id d, es_settledAt = op_date d\<rparr> else settlementOf e part)"
    if "e \<in> set (fs_expenses s)" for e part
    using f that by (auto simp: settles_def)
  have had: "\<exists>e \<in> set (fs_expenses s). ex_id e = i \<and> \<not> ex_isDeleted e \<and> settlementOf e part = None"
    if "listed_part d i part" for i part
    using f that unfolding settles_def by blast
  show ?thesis
  proof (rule settles_okI)
    fix e' part x assume "e' \<in> set (fs_expenses t)" and x: "settlementOf e' part = Some x"
    then obtain e where e: "e \<in> set (fs_expenses s)" "e' = f e" using exps by auto
    show "\<not> ex_isDeleted e' \<and>
        (\<exists>d \<in> set (fs_operations t). op_id d = es_operationId x \<and> settlement d \<and> listed_part d (ex_id e') part)"
    proof (cases "listed_part d (ex_id e) part \<and> \<not> ex_isDeleted e")
      case True
      then have "x = \<lparr>es_operationId = op_id d, es_settledAt = op_date d\<rparr>" using set [OF e(1), of part] x e(2) by simp
      then show ?thesis using True d core [OF e(1)] e(2) ops by auto
    next
      case False
      then have "settlementOf e part = Some x" using set [OF e(1), of part] x e(2) by (simp only: if_False)
      then show ?thesis using settles_okD(1) [OF ok e(1)] core [OF e(1)] e(2) ops by auto
    qed
  next
    fix k i part assume k: "k \<in> set (fs_operations t)" "settlement k" "listed_part k i part"
    show "\<exists>e \<in> set (fs_expenses t). ex_id e = i \<and> settled_by (op_id k) part e"
    proof (cases "k = d")
      case True
      then obtain e where e: "e \<in> set (fs_expenses s)" "ex_id e = i" "\<not> ex_isDeleted e" using had k(3) by blast
      then have "settled_by (op_id k) part (f e)" using set [OF e(1), of part] k(3) True by (simp add: settled_by_iff)
      then show ?thesis using core [OF e(1)] e(1,2) exps by auto
    next
      case False
      then have "k \<in> set (fs_operations s)" using k(1) ops by auto
      then obtain e where e: "e \<in> set (fs_expenses s)" "ex_id e = i" "settled_by (op_id k) part e"
        using settles_okD(2) [OF ok _ k(2,3)] by blast
      have "\<not> listed_part d (ex_id e) part"
        using had expense_by_id [OF ids e(1)] e(3) by (fastforce simp: settled_by_iff)
      then have "settled_by (op_id k) part (f e)" using set [OF e(1), of part] e(3) by (simp add: settled_by_iff)
      then show ?thesis using core [OF e(1)] e(1,2) exps by auto
    qed
  qed
qed

lemma settles_deleted:
  assumes ok: "settles_ok s" and ids: "ids_distinct s" and d: "d \<in> set (fs_operations s)"
    and g: "\<And>x. op_isDeleted (g x)"
    and ops: "fs_operations t = update_where (\<lambda>x. op_id x = op_id d \<and> \<not> op_isDeleted x) g (fs_operations s)"
    and f: "frees (op_id d) s f" and exps: "fs_expenses t = map f (fs_expenses s)"
  shows "settles_ok t"
proof -
  have core: "ex_id (f e) = ex_id e \<and> ex_isDeleted (f e) = ex_isDeleted e" if "e \<in> set (fs_expenses s)" for e
    using f that expense_core_fields unfolding frees_def by blast
  have set: "settlementOf (f e) part = (if settled_by (op_id d) part e \<and> \<not> ex_isDeleted e then None else settlementOf e part)"
    if "e \<in> set (fs_expenses s)" for e part
    using f that by (auto simp: frees_def)
  have e_ops: "k \<in> set (fs_operations t) \<longleftrightarrow> k \<in> set (fs_operations s) \<and> op_id k \<noteq> op_id d" if "settlement k" for k
    using that g ops by (auto simp: settlement_def in_update_where)
  show ?thesis
  proof (rule settles_okI)
    fix e' part x assume "e' \<in> set (fs_expenses t)" and x: "settlementOf e' part = Some x"
    then obtain e where e: "e \<in> set (fs_expenses s)" "e' = f e" using exps by auto
    have "settlementOf e part = Some x" using set [OF e(1), of part] x e(2) by (simp split: if_splits)
    note old = settles_okD(1) [OF ok e(1) this]
    then have "\<not> settled_by (op_id d) part e"
      using set [OF e(1), of part] x e(2) by (auto split: if_splits)
    then have "es_operationId x \<noteq> op_id d" using \<open>settlementOf e part = Some x\<close> by (simp add: settled_by_iff)
    then show "\<not> ex_isDeleted e' \<and>
        (\<exists>d \<in> set (fs_operations t). op_id d = es_operationId x \<and> settlement d \<and> listed_part d (ex_id e') part)"
      using old core [OF e(1)] e(2) e_ops by auto
  next
    fix k i part assume k: "k \<in> set (fs_operations t)" "settlement k" "listed_part k i part"
    then have k': "k \<in> set (fs_operations s)" "op_id k \<noteq> op_id d" using e_ops by auto
    then obtain e where e: "e \<in> set (fs_expenses s)" "ex_id e = i" "settled_by (op_id k) part e"
      using settles_okD(2) [OF ok _ k(2,3)] by blast
    then have "settled_by (op_id k) part (f e)" using set [OF e(1), of part] k'(2) by (auto simp: settled_by_iff)
    then show "\<exists>e \<in> set (fs_expenses t). ex_id e = i \<and> settled_by (op_id k) part e"
      using core [OF e(1)] e(1,2) exps by auto
  qed
qed

lemma same_members:
  "(\<And>x. P x \<Longrightarrow> \<not> Q (f x)) \<Longrightarrow> (\<And>x. P x \<Longrightarrow> \<not> Q x) \<Longrightarrow> Q y \<Longrightarrow> y \<in> set (update_where P f xs) \<longleftrightarrow> y \<in> set xs"
  by (auto simp: in_update_where)

lemma settles_kept:
  assumes "fleet_event s t" "settles_ok s" "ids_distinct s"
  shows "settles_ok t"
  using assms(1)
proof cases
  case (moved_on d b n)
  have "e \<in> set (fs_operations t) \<longleftrightarrow> e \<in> set (fs_operations s)" if "settlement e" for e
    using that unfolding moved_on(5)
    by (intro same_members [where Q = settlement]) (auto simp: settlement_def keeps)
  then show ?thesis using moved_on(8) by (intro settles_frame [OF assms(2)]) auto
next
  case (settled d f)
  then show ?thesis
    using settles_settled [OF assms(2,3) _ settled(1,6,7)] by (simp add: settlement_def)
next
  case (deleted d g b f)
  have g: "op_isDeleted (g x)" for x using deleted(3) by blast
  show ?thesis by (rule settles_deleted [OF assms(2,3) deleted(1) g deleted(5,7,8)])
next
  case (expense_edit f)
  have "e \<in> set (fs_expenses t) \<longleftrightarrow> e \<in> set (fs_expenses s)" if "\<not> expense_writable e" for e
    using that expense_edit(1,2) by (auto simp: image_iff) metis+
  then show ?thesis using expense_edit(5) by (intro settles_frame [OF assms(2)]) auto
qed (auto simp: quiet_change_def settlement_def intro!: settles_frame [OF assms(2)])

section \<open>Memo numbers\<close>

lemma numbers_frame:
  assumes "numbers_ok s" "map me_no (fs_memos t) = map me_no (fs_memos s)" "grows s t"
  shows "numbers_ok t"
  unfolding numbers_ok_def
proof (intro conjI ballI)
  show "distinct (map me_no (fs_memos t))" using assms(1,2) by (simp add: numbers_ok_def)
  fix m assume "m \<in> set (fs_memos t)"
  then have "me_no m \<in> set (map me_no (fs_memos s))" using assms(2) by (metis image_eqI set_map)
  then obtain n where "fs_memoSeq s = Some n" "1 \<le> me_no m" "me_no m \<le> n"
    using assms(1) by (auto simp: numbers_ok_def)
  then show "\<exists>n. fs_memoSeq t = Some n \<and> 1 \<le> me_no m \<and> me_no m \<le> n"
    using assms(3) unfolding grows_def by (metis order_trans)
qed

lemma numbers_kept:
  assumes "fleet_event s t" "numbers_ok s" "ids_distinct s"
  shows "numbers_ok t"
  using assms(1)
proof cases
  case quiet_event
  then show ?thesis by (intro numbers_frame [OF assms(2)]) (auto simp: quiet_change_def)
next
  case (receipt_edit r r' h)
  then show ?thesis
    by (intro numbers_frame [OF assms(2)]) (simp_all add: cosmetic_fields comp_def)
next
  case (memo_new m n g)
  have "\<exists>k. fs_memoSeq t = Some k \<and> 1 \<le> me_no x \<and> me_no x \<le> k" if "x \<in> set (fs_memos s)" for x
    using that assms(2) memo_new(13) unfolding numbers_ok_def grows_def by (metis order_trans)
  then show ?thesis using assms(2) memo_new(1,5,6,7,8) by (auto simp: numbers_ok_def)
next
  case (memo_edit m m' g)
  have "x = m" if "x \<in> set (fs_memos s)" "live_memo_id (me_id m) x" for x
    using that memo_by_id [OF assms(3) _ memo_edit(1)] by (simp add: live_memo_id_def)
  then have "map me_no (fs_memos t) = map me_no (fs_memos s)"
    unfolding memo_edit(9) using memo_edit(5) by (intro map_key_update) auto
  then show ?thesis using memo_edit(14) by (intro numbers_frame [OF assms(2)])
next
  case (memo_gone m now b g)
  then show ?thesis by (intro numbers_frame [OF assms(2)] map_key_update) (simp_all add: keeps map_key_update)
next
  case (replenished d ms b since)
  then show ?thesis by (intro numbers_frame [OF assms(2)]) (simp_all add: keeps map_key_update)
next
  case (moved_on d b n)
  then show ?thesis
    by (intro numbers_frame [OF assms(2)]) (simp_all add: keeps map_key_update split: leave_held.splits)
next
  case (deleted d g b f)
  then show ?thesis by (intro numbers_frame [OF assms(2)]) (auto simp: keeps map_key_update)
qed (auto intro!: numbers_frame [OF assms(2)])

section \<open>All of it\<close>

theorem fleet_ok_event: "fleet_event s t \<Longrightarrow> fleet_ok s \<Longrightarrow> fleet_ok t"
  unfolding fleet_ok_def
  using ids_kept amounts_kept links_kept takes_kept figures_kept settles_kept numbers_kept kinds_kept by meson

lemma fleet_ok_quiet: "quiet_change s t \<Longrightarrow> fleet_ok s \<Longrightarrow> fleet_ok t"
  using fleet_ok_event quiet_event by blast

lemma fleet_ok_empty: "fleet_ok (empty_fleet_store cards)"
  by (simp add: empty_fleet_store_def fleet_ok_def ids_distinct_def ids_fresh_def amounts_exact_def links_ok_def
      takes_ok_def figures_ok_def settles_ok_def numbers_ok_def)

end
