(* ===== verification/Custody_Handlers.thy ===== *)
theory Custody_Handlers
  imports Custody_Settlements
begin

text \<open>
  Every handler does at most one event of the specification, however its request turns out: the letters
  and the licensing records here, the memos and the receipts in the next theory. A handler is unrolled
  once (\<open>bind_Inr\<close>), and the guards of the event are the checks the code has passed by then.
\<close>

section \<open>Reading a run\<close>

lemma quiet_if: "quiet_run m \<Longrightarrow> quiet_run n \<Longrightarrow> quiet_run (if c then m else n)"
  by simp

lemma quiet_case_option: "quiet_run m \<Longrightarrow> (\<And>x. quiet_run (f x)) \<Longrightarrow> quiet_run (case v of None \<Rightarrow> m | Some x \<Rightarrow> f x)"
  by (cases v) simp_all

lemmas quiet_rules = quiet_bind quiet_each quiet_if quiet_case_option quiet

lemma quiet_sel:
  assumes "quiet_change s t"
  shows "fs_receipts t = fs_receipts s" "fs_memos t = fs_memos s" "fs_operations t = fs_operations s"
    "fs_expenses t = fs_expenses s" "grows s t" "fs_nextOid s \<le> fs_nextOid t"
  using assms by (simp_all add: quiet_change_def grows_def)

lemma lockFund_quiet: "lockFund s = (t, Inr x) \<Longrightarrow> quiet_change s t"
  using quiet_runD [OF quiet_basic(9)] .

lemma freshOid_run: "freshOid s = (t, Inr i) \<longleftrightarrow> t = s\<lparr>fs_nextOid := fs_nextOid s + 1\<rparr> \<and> i = fs_nextOid s"
  by (auto simp: freshOid_def)

text \<open>An id taken after a quiet prefix is fresh for whatever follows.\<close>

lemma fresh_id_taken: "quiet_change s u \<Longrightarrow> freshOid u = (v, Inr i) \<Longrightarrow> fresh_id s v i"
  by (auto simp: freshOid_run fresh_id_def dest: quiet_sel(6))

lemma fresh_id_grows: "fresh_id s v i \<Longrightarrow> grows v t \<Longrightarrow> fresh_id s t i"
  by (auto simp: fresh_id_def grows_def)

lemma insert_operation_run:
  "insert_operation d s = (t, Inr x) \<longleftrightarrow> t = s\<lparr>fs_operations := fs_operations s @ [d]\<rparr> \<and> x = d"
  by (auto simp: insert_operation_def)

lemma grows_update [simp]:
  "grows s (t\<lparr>fs_operations := a\<rparr>) = grows s t" "grows s (t\<lparr>fs_memos := b\<rparr>) = grows s t"
  "grows s (t\<lparr>fs_expenses := c\<rparr>) = grows s t" "grows s (t\<lparr>fs_receipts := d\<rparr>) = grows s t"
  "grows s (t\<lparr>fs_cards := e\<rparr>) = grows s t" "grows s (t\<lparr>fs_movements := f\<rparr>) = grows s t"
  by (simp_all add: grows_def)

lemmas runs = bind_Inr run_Inr insert_operation_run

lemma new_operation_fields [simp]:
  "op_id (new_operation env k st p i d per a r ms ps terms) = i"
  "op_kind (new_operation env k st p i d per a r ms ps terms) = k"
  "op_status (new_operation env k st p i d per a r ms ps terms) = Some st"
  "op_date (new_operation env k st p i d per a r ms ps terms) = d"
  "op_amount (new_operation env k st p i d per a r ms ps terms) = a"
  "op_memos (new_operation env k st p i d per a r ms ps terms) = ms"
  "op_parts (new_operation env k st p i d per a r ms ps terms) = ps"
  "\<not> op_isDeleted (new_operation env k st p i d per a r ms ps terms)"
  by (simp_all add: new_operation_def)

section \<open>A charge\<close>

lemma charge_event: "commits (fleet_event s) (charge env input) s"
  unfolding charge_def
proof (rule commits_bind [OF quiet_basic(8)], rule commits_bind [OF quiet_basic(7)], rule commits_tx)
  fix u v i t x and y :: unit and d
  assume u: "quiet_change s u" and v: "freshOid u = (v, Inr i)" "quiet_change u v"
  assume "st_bind lockFund (\<lambda>_. st_bind (st_gets readCustodyFundTerms) (\<lambda>terms.
       insert_operation (new_operation env ChargeOp DoneStatus ''charge'' i
         (letter_day env (ci_date input)) (None, None) (fromPiastres (toPiastres (ci_amount input)))
         (ce_reason env (ci_reason input)) [] [] terms))) v = (t, Inr d)"
  then obtain w terms where w: "quiet_change v w"
      and d: "d = new_operation env ChargeOp DoneStatus ''charge'' i (letter_day env (ci_date input)) (None, None)
        (fromPiastres (toPiastres (ci_amount input))) (ce_reason env (ci_reason input)) [] [] terms"
      and t: "t = w\<lparr>fs_operations := fs_operations w @ [d]\<rparr>"
    by (auto simp: runs dest!: lockFund_quiet)
  have "kind_ok d" unfolding kind_ok_def d by auto
  note d = d this
  have sw: "quiet_change s w" using quiet_trans u v(2) w by blast
  have "fresh_id s t i"
    using fresh_id_grows [OF fresh_id_taken [OF u v(1)]] quiet_sel(5) [OF w] t by simp
  then show "fleet_event s t"
    using quiet_sel [OF sw] d t by (intro charged [of t s d]) simp_all
qed (intro quiet_rules)

section \<open>Licensing records\<close>

lemma create_expense_event: "commits (fleet_event s) (create_expense env input) s"
  unfolding create_expense_def Let_def
proof (rule commits_bind [OF quiet_basic(7)], rule commits_write)
  fix v i t and x :: unit
  assume v: "freshOid s = (v, Inr i)" "quiet_change s v"
  let ?d = "\<lparr>ex_id = i, ex_date = ein_date input, ex_renewal = ein_renewal input,
         ex_extension = ein_extension input, ex_signatures = ein_signatures input,
         ex_renewalSettlement = None, ex_extensionSettlement = None, ex_createdAt = ce_now env,
         ex_createdBy = Some (ce_user env), ex_updatedBy = Some (ce_user env), ex_deletedAt = None,
         ex_deletedBy = None, ex_version = 0, ex_isDeleted = False\<rparr>"
  assume "st_modify (\<lambda>s. s\<lparr>fs_expenses := fs_expenses s @ [?d]\<rparr>) v = (t, Inr x)"
  then have t: "t = v\<lparr>fs_expenses := fs_expenses v @ [?d]\<rparr>" by (simp add: run_Inr)
  have "fresh_id s t i" using fresh_id_grows [OF fresh_id_taken [OF quiet_refl v(1)]] t by simp
  then show "fleet_event s t"
    using quiet_sel [OF v(2)] t by (intro expense_new [of t s ?d]) (simp_all add: expense_writable_def)
qed (auto simp: st_modify_def intro!: quiet_rules)

lemma write_expense_event:
  assumes "quiet_change s u" "\<And>d. expense_writable d \<Longrightarrow> ex_id (f d) = ex_id d \<and> expense_writable (f d)"
    "write_expense i P f e u = (t, Inr x)"
  shows "fleet_event s t"
proof -
  have t: "t = update_expenses (\<lambda>d. ex_id d = i \<and> \<not> ex_isDeleted d \<and> expense_writable d \<and> P d) f u"
    using assms(3) by (simp add: write_expense_def split: if_splits)
  show ?thesis
    by (rule expense_edit [of s "\<lambda>d. if ex_id d = i \<and> \<not> ex_isDeleted d \<and> expense_writable d \<and> P d then f d else d"])
      (use t assms(2) quiet_sel [OF assms(1)] in \<open>auto simp: update_expenses_def update_where_def\<close>)
qed

lemma write_expense_refused: "write_expense i P f e u = (t, Inl r) \<Longrightarrow> t = u"
  by (simp add: write_expense_def split: if_splits)

lemma update_expense_event: "commits (fleet_event s) (update_expense env i input version) s"
  unfolding update_expense_def
  by (rule commits_bind [OF quiet_basic(4)], rule commits_bind [OF quiet_basic(3)], rule commits_write)
    (auto simp: bump_expense_def expense_writable_def dest: write_expense_refused
      elim!: write_expense_event [rotated 2] intro: quiet_trans intro!: quiet_rules)

lemma remove_expense_event: "commits (fleet_event s) (remove_expense env i) s"
  unfolding remove_expense_def
  by (rule commits_bind [OF quiet_basic(4)], rule commits_bind [OF quiet_basic(3)], rule commits_write)
    (auto simp: bump_expense_def expense_writable_def dest: write_expense_refused
      elim!: write_expense_event [rotated 2] intro: quiet_trans intro!: quiet_rules)

section \<open>A replenishment\<close>

lemma find_operation_Some:
  "find_operation i s = Some d \<Longrightarrow> d \<in> set (fs_operations s) \<and> op_id d = i \<and> \<not> op_isDeleted d"
  by (auto simp: find_operation_def find_Some_iff)

lemma write_memos_run:
  "write_memos P f b s = (t, Inr n) \<longleftrightarrow> t = update_memos P (\<lambda>m. bump_memo (Some b) (f m)) s \<and> n = length (filter P (fs_memos s))"
  by (auto simp: write_memos_def)

lemma memo_snapshot_quiet: "fs_receipts u = fs_receipts s \<Longrightarrow> memo_snapshot u m = memo_snapshot s m"
  by (simp add: memo_snapshot_def memo_totals_same [of u s])

lemma findLiveByIds_props:
  assumes "ids_distinct s"
  shows "distinct (map me_id (findLiveByIds ids s))"
    "m \<in> set (findLiveByIds ids s) \<Longrightarrow> m \<in> set (fs_memos s) \<and> \<not> me_isDeleted m"
proof -
  have "distinct (map me_id (filter (\<lambda>m. me_id m \<in> set ids \<and> \<not> me_isDeleted m) (fs_memos s)))"
    using assms by (simp add: ids_distinct_def distinct_map_filter)
  moreover have "mset (map me_id (sort_key k xs)) = mset (map me_id xs)" for k :: "memo_doc \<Rightarrow> int" and xs
    by simp
  ultimately show "distinct (map me_id (findLiveByIds ids s))"
    unfolding findLiveByIds_def by (metis mset_eq_imp_distinct_iff)
qed (auto simp: findLiveByIds_def)

lemma replenish_event:
  assumes ok: "fleet_ok s"
  shows "commits (fleet_event s) (replenish env input) s"
  unfolding replenish_def
proof (rule commits_bind [OF quiet_basic(7)], rule commits_bind [OF quiet_basic(8)], rule commits_tx)
  fix v i w t d and y :: unit
  assume v: "freshOid s = (v, Inr i)" "quiet_change s v" and w: "quiet_change v w"
    and run: "replenish_tx env input i w = (t, Inr d)"
  let ?day = "letter_day env (ri_date input)"
  define k where "k = fst (lockFund w)"
  let ?ms = "findLiveByIds (ri_memoIds input) k"
  have k: "quiet_change w k" using lockFund_quiet [of w] run
    by (auto simp: replenish_tx_def bind_Inr k_def)
  have sk: "quiet_change s k" using quiet_trans v(2) w k by blast
  have "\<forall>m \<in> set ?ms. me_replenishmentId m = None" "op_memos d = map (memo_snapshot k) ?ms" "op_id d = i"
    "op_kind d = ReplenishOp" "op_status d = Some HeldStatus" "\<not> op_isDeleted d" "op_parts d = []"
    "op_amount d = fromPiastres (sum_list (map (\<lambda>x. toPiastres (om_amount x)) (op_memos d)))"
    "t = update_memos (\<lambda>m. me_id m \<in> set (map me_id ?ms) \<and> \<not> me_isDeleted m \<and> me_replenishmentId m = None)
       (\<lambda>m. bump_memo (Some (ce_user env)) (take_memo (Some i) (Some ?day) True m))
       (k\<lparr>fs_operations := fs_operations k @ [d]\<rparr>)"
    using run by (auto simp: replenish_tx_def runs markReplenished_def write_memos_run k_def)
  note d = this
  have ids: "ids_distinct k" using ok quiet_sel [OF sk] by (simp add: fleet_ok_def ids_distinct_def)
  have "fresh_id s t i"
    using fresh_id_grows [OF fresh_id_taken [OF quiet_refl v(1)], of t] grows_trans quiet_sel(5) [OF w] quiet_sel(5) [OF k] d(9)
    by (simp add: update_memos_def)
  then show "fleet_event s t"
    using d quiet_sel [OF sk] findLiveByIds_props [OF ids, where ids = "ri_memoIds input"]
    by (intro replenished [of t s d ?ms "Some (ce_user env)" "Some ?day"])
      (auto simp: kind_ok_def update_memos_def memo_snapshot_quiet [of k s])
qed (intro quiet_rules)

section \<open>A transfer, a cancellation\<close>

definition next_take :: "oid \<Rightarrow> leave_held \<Rightarrow> memo_doc \<Rightarrow> memo_doc" where
  "next_take i n m = (case n of Transferred x \<Rightarrow> take_memo (Some i) (Some (xf_date x)) False m
     | Withdrawn _ \<Rightarrow> take_memo None None False m)"

lemma next_take_simps:
  "next_take i (Transferred x) = take_memo (Some i) (Some (xf_date x)) False"
  "next_take i (Withdrawn y) = take_memo None None False"
  by (simp_all add: fun_eq_iff next_take_def)

lemma leaveHeld_event:
  assumes "\<And>d n. change d = Inr n \<Longrightarrow> moveMemos (map om_memoId (op_memos d)) d =
     write_memos (heldBy (map om_memoId (op_memos d)) (op_id d)) (next_take (op_id d) n) b"
  shows "commits (fleet_event s) (leaveHeld opId b change moveMemos) s"
  unfolding leaveHeld_def
proof (rule commits_bind [OF quiet_basic(8)], rule commits_tx)
  fix u t d and y :: unit
  assume u: "quiet_change s u" and run: "leaveHeld_tx opId b change moveMemos u = (t, Inr d)"
  define k where "k = fst (lockFund u)"
  have "quiet_change u k" using lockFund_quiet [of u] run by (auto simp: leaveHeld_tx_def bind_Inr k_def)
  then have sk: "quiet_change s k" using u quiet_trans by blast
  obtain n j where n: "find_operation opId k = Some d" "op_kind d = ReplenishOp" "operationStatusOf d = HeldStatus"
      "change d = Inr n" and w: "moveMemos (map om_memoId (op_memos d)) d
        (fst (leaveHeldWrite opId n b k)) = (t, Inr j)"
    using run by (auto simp: leaveHeld_tx_def runs leaveHeldWrite_def update_operations_def k_def)
  have d: "d \<in> set (fs_operations s)" "op_id d = opId" "\<not> op_isDeleted d" "op_status d = Some HeldStatus"
    using find_operation_Some [OF n(1)] n(3) quiet_sel [OF sk]
    by (auto simp: operationStatusOf_def split: option.splits)
  show "fleet_event s t"
    using w d n quiet_sel [OF sk]
    by (intro moved_on [of d s t "Some b" n])
      (auto simp: assms write_memos_run update_memos_def leaveHeldWrite_def update_operations_def next_take_def
        cong: leave_held.case_cong)
qed (auto simp: audit_move_def intro!: quiet_rules)

lemma confirmTransfer_event: "commits (fleet_event s) (confirmTransfer env opId input) s"
  unfolding confirmTransfer_def
  by (rule leaveHeld_event)
    (auto simp: confirm_change_def res_bind_Inr res_ensure_Inr markTransferred_def next_take_simps)

lemma cancelHeld_event: "commits (fleet_event s) (cancelHeld env opId reason) s"
  unfolding cancelHeld_def
  by (rule leaveHeld_event)
    (auto simp: releaseHeld_def next_take_simps)

section \<open>A settlement\<close>

lemma settlementOf_set: "settlementOf (set_settlement p x e) q = (if p = q then x else settlementOf e q)"
  by (cases p; cases q) simp_all

lemma set_settlement_core [simp]: "expense_core (set_settlement p x e) = expense_core e"
  "ex_id (set_settlement p x e) = ex_id e" "ex_isDeleted (set_settlement p x e) = ex_isDeleted e"
  by (cases p; simp add: expense_core_def)+

lemma bump_expense_core [simp]: "expense_core (bump_expense b e) = expense_core e"
  "settlementOf (bump_expense b e) q = settlementOf e q" "ex_id (bump_expense b e) = ex_id e"
  "ex_isDeleted (bump_expense b e) = ex_isDeleted e"
  by (cases q; simp add: expense_core_def bump_expense_def)+

lemma expense_core_part: "expense_core e = expense_core d \<Longrightarrow> expense_part_of e q = expense_part_of d q"
  by (cases q) (simp_all add: expense_core_def)

definition part_key :: "operation_part \<Rightarrow> oid \<times> licence_kind" where
  "part_key p = (pt_expenseId p, pt_part p)"

lemma expenses_id: "s\<lparr>fs_expenses := map id (fs_expenses s)\<rparr> = s"
  by (simp add: id_def)

lemma settle_each_run:
  assumes "settle_each i day b ps s = (t, Inr x)" "distinct (map ex_id (fs_expenses s))"
  shows "\<exists>f. t = s\<lparr>fs_expenses := map f (fs_expenses s)\<rparr> \<and>
    (\<forall>e \<in> set (fs_expenses s). expense_core (f e) = expense_core e \<and>
       (\<forall>part. settlementOf (f e) part =
          (if (ex_id e, part) \<in> part_key ` set ps \<and> \<not> ex_isDeleted e
           then Some \<lparr>es_operationId = i, es_settledAt = day\<rparr> else settlementOf e part))) \<and>
    (\<forall>j part. (j, part) \<in> part_key ` set ps \<longrightarrow>
       (\<exists>e \<in> set (fs_expenses s). ex_id e = j \<and> \<not> ex_isDeleted e \<and> expense_part_of e part \<noteq> None \<and>
          settlementOf e part = None))"
  using assms
proof (induction ps arbitrary: s)
  case Nil
  then show ?case by (intro exI [of _ id]) (simp add: run_Inr expenses_id)
next
  case (Cons p ps)
  let ?x = "\<lparr>es_operationId = i, es_settledAt = day\<rparr>" and ?q = "pt_part p"
  define P where "P = (\<lambda>e. ex_id e = pt_expenseId p \<and> \<not> ex_isDeleted e \<and> expense_part_of e ?q \<noteq> None \<and>
    settlementOf e ?q = None)"
  define g where "g = (\<lambda>e. if P e then bump_expense (Some b) (set_settlement ?q (Some ?x) e) else e)"
  define u where "u = s\<lparr>fs_expenses := map g (fs_expenses s)\<rparr>"
  have run: "\<exists>e \<in> set (fs_expenses s). P e" "settle_each i day b ps u = (t, Inr x)"
    using Cons.prems(1)
    by (auto simp: runs markSettled_def write_where_def update_expenses_def update_where_def P_def g_def u_def)
  then obtain e0 where e0: "e0 \<in> set (fs_expenses s)" "P e0" by blast
  have gcore: "expense_core (g e) = expense_core e" "ex_id (g e) = ex_id e" "ex_isDeleted (g e) = ex_isDeleted e" for e
    by (simp_all add: g_def)
  have P_iff: "P e \<longleftrightarrow> ex_id e = pt_expenseId p \<and> \<not> ex_isDeleted e" if "e \<in> set (fs_expenses s)" for e
    using by_key [OF Cons.prems(2) that e0(1)] e0(2) by (auto simp: P_def)
  have gset: "settlementOf (g e) part = (if (ex_id e, part) = part_key p \<and> \<not> ex_isDeleted e then Some ?x else settlementOf e part)"
    if "e \<in> set (fs_expenses s)" for e part
    using P_iff [OF that] by (auto simp: g_def settlementOf_set part_key_def)
  have "distinct (map ex_id (fs_expenses u))" using Cons.prems(2) by (simp add: u_def gcore comp_def)
  from Cons.IH [OF run(2) this] obtain f where f: "t = u\<lparr>fs_expenses := map f (fs_expenses u)\<rparr>"
    "\<And>e. e \<in> set (fs_expenses u) \<Longrightarrow> expense_core (f e) = expense_core e"
    "\<And>e part. e \<in> set (fs_expenses u) \<Longrightarrow> settlementOf (f e) part =
       (if (ex_id e, part) \<in> part_key ` set ps \<and> \<not> ex_isDeleted e then Some ?x else settlementOf e part)"
    "\<And>j part. (j, part) \<in> part_key ` set ps \<Longrightarrow> \<exists>e \<in> set (fs_expenses u). ex_id e = j \<and> \<not> ex_isDeleted e \<and>
       expense_part_of e part \<noteq> None \<and> settlementOf e part = None"
    by blast
  have gin: "g e \<in> set (fs_expenses u)" if "e \<in> set (fs_expenses s)" for e using that by (simp add: u_def)
  show ?case
  proof (intro exI [of _ "f \<circ> g"] conjI ballI allI impI)
    show "t = s\<lparr>fs_expenses := map (f \<circ> g) (fs_expenses s)\<rparr>" using f(1) by (simp add: u_def)
    fix e assume e: "e \<in> set (fs_expenses s)"
    show "expense_core ((f \<circ> g) e) = expense_core e" using f(2) [OF gin [OF e]] gcore by simp
    fix part
    show "settlementOf ((f \<circ> g) e) part = (if (ex_id e, part) \<in> part_key ` set (p # ps) \<and> \<not> ex_isDeleted e
        then Some ?x else settlementOf e part)"
      using f(3) [OF gin [OF e]] gset [OF e] gcore by simp
  next
    fix j part assume jp: "(j, part) \<in> part_key ` set (p # ps)"
    show "\<exists>e \<in> set (fs_expenses s). ex_id e = j \<and> \<not> ex_isDeleted e \<and> expense_part_of e part \<noteq> None \<and>
        settlementOf e part = None"
    proof (cases "(j, part) = part_key p")
      case True
      then show ?thesis using e0 by (auto simp: P_def part_key_def)
    next
      case False
      then obtain e where e: "e \<in> set (fs_expenses s)" "ex_id (g e) = j" "\<not> ex_isDeleted (g e)"
          "expense_part_of (g e) part \<noteq> None" "settlementOf (g e) part = None"
        using f(4) [of j part] jp by (auto simp: u_def)
      have "settlementOf e part = None" using gset [OF e(1), of part] e(5) by (simp split: if_splits)
      moreover have "expense_part_of (g e) part = expense_part_of e part" using gcore(1) by (rule expense_core_part)
      ultimately show ?thesis using e gcore by auto
    qed
  qed
qed

lemma settle_event:
  assumes ok: "fleet_ok s"
  shows "commits (fleet_event s) (settle env input) s"
  unfolding settle_def
proof (rule commits_bind [OF quiet_basic(7)], rule commits_bind [OF quiet_basic(8)], rule commits_tx)
  fix v i w t d and y :: unit
  assume v: "freshOid s = (v, Inr i)" "quiet_change s v" and w: "quiet_change v w"
    and run: "settle_tx env input i w = (t, Inr d)"
  define k where "k = fst (lockFund w)"
  have k: "quiet_change w k" using lockFund_quiet [of w] run
    by (auto simp: settle_tx_def bind_Inr k_def Let_def)
  have sk: "quiet_change s k" using quiet_trans v(2) w k by blast
  have "\<exists>per p parts terms x. d = new_operation env SettleOp DoneStatus ''settle'' i (letter_day env (si_date input)) per
        (fromPiastres p) '''' [] parts terms \<and>
      settle_each i (letter_day env (si_date input)) (ce_user env) parts
        (k\<lparr>fs_operations := fs_operations k @ [d]\<rparr>) = (t, Inr x)"
    using run by (clarsimp simp only: settle_tx_def runs k_def Let_def fst_conv) (intro exI conjI, rule refl, assumption)
  then obtain per p parts terms x where d: "d = new_operation env SettleOp DoneStatus ''settle'' i
        (letter_day env (si_date input)) per (fromPiastres p) '''' [] parts terms"
    and "settle_each i (letter_day env (si_date input)) (ce_user env) parts
        (k\<lparr>fs_operations := fs_operations k @ [d]\<rparr>) = (t, Inr x)"
    by blast
  then have each: "settle_each i (op_date d) (ce_user env) (op_parts d) (k\<lparr>fs_operations := fs_operations k @ [d]\<rparr>) = (t, Inr x)"
    by simp
  have d: "op_id d = i" "op_kind d = SettleOp" "op_status d = Some DoneStatus" "\<not> op_isDeleted d"
      "op_memos d = []" "\<exists>p. op_amount d = fromPiastres p"
    using d by auto
  have ids: "distinct (map ex_id (fs_expenses k))" using ok quiet_sel [OF sk] by (simp add: fleet_ok_def ids_distinct_def)
  obtain f where f: "t = k\<lparr>fs_operations := fs_operations k @ [d], fs_expenses := map f (fs_expenses k)\<rparr>"
    and s: "settles d s f"
    using settle_each_run [OF each] ids d(1) quiet_sel [OF sk]
    unfolding settles_def listed_part_def part_key_def by (auto simp: image_iff)
  have "fresh_id s t i"
    using fresh_id_grows [OF fresh_id_taken [OF quiet_refl v(1)], of t] grows_trans quiet_sel(5) [OF w] quiet_sel(5) [OF k] f
    by simp
  then show "fleet_event s t"
    using d f s quiet_sel [OF sk] by (intro settled [of t s d f]) (auto simp: kind_ok_def)
qed (intro quiet_rules)

section \<open>Deleting an operation\<close>

lemma release_each_run:
  assumes "release_each i b ps s = (t, Inr xs)"
  shows "\<exists>f. t = s\<lparr>fs_expenses := map f (fs_expenses s)\<rparr> \<and>
    (\<forall>e. expense_core (f e) = expense_core e \<and>
       (\<forall>part. settlementOf (f e) part =
          (if settled_by i part e \<and> \<not> ex_isDeleted e \<and> (\<exists>d. (d, part) \<in> set ps \<and> ex_id d = ex_id e \<and> settled_by i part d)
           then None else settlementOf e part)))"
  using assms
proof (induction ps arbitrary: s xs)
  case Nil
  then show ?case by (intro exI [of _ id]) (simp add: run_Inr expenses_id)
next
  case (Cons p ps)
  define P where "P = (\<lambda>e. ex_id e = ex_id (fst p) \<and> \<not> ex_isDeleted e \<and> settled_by i (snd p) e \<and> settled_by i (snd p) (fst p))"
  define g where "g = (\<lambda>e. if P e then bump_expense (Some b) (set_settlement (snd p) None e) else e)"
  define u where "u = s\<lparr>fs_expenses := map g (fs_expenses s)\<rparr>"
  have "\<exists>ys. release_each i b ps u = (t, Inr ys)"
  proof (cases "settled_by i (snd p) (fst p)")
    case True
    then show ?thesis using Cons.prems
      by (auto simp: runs release_one_def releaseSettlement_def write_where_def update_expenses_def update_where_def
          P_def g_def u_def)
  next
    case False
    then have "u = s" by (simp add: u_def g_def P_def)
    then show ?thesis using Cons.prems False by (auto simp: runs release_one_def)
  qed
  then obtain f where f: "t = u\<lparr>fs_expenses := map f (fs_expenses u)\<rparr>"
    "\<And>e. expense_core (f e) = expense_core e"
    "\<And>e part. settlementOf (f e) part =
          (if settled_by i part e \<and> \<not> ex_isDeleted e \<and> (\<exists>d. (d, part) \<in> set ps \<and> ex_id d = ex_id e \<and> settled_by i part d)
           then None else settlementOf e part)"
    using Cons.IH by blast
  have g: "expense_core (g e) = expense_core e" "ex_id (g e) = ex_id e" "ex_isDeleted (g e) = ex_isDeleted e"
    "settlementOf (g e) part = (if P e \<and> part = snd p then None else settlementOf e part)"
    "settled_by i part (g e) \<longleftrightarrow> settled_by i part e \<and> \<not> (P e \<and> part = snd p)" for e part
    by (auto simp: g_def settlementOf_set settled_by_iff)
  show ?case
  proof (intro exI [of _ "f \<circ> g"] conjI allI)
    show "t = s\<lparr>fs_expenses := map (f \<circ> g) (fs_expenses s)\<rparr>" using f(1) by (simp add: u_def)
    fix e
    show "expense_core ((f \<circ> g) e) = expense_core e" using f(2) g(1) by simp
    fix part
    show "settlementOf ((f \<circ> g) e) part = (if settled_by i part e \<and> \<not> ex_isDeleted e \<and>
        (\<exists>d. (d, part) \<in> set (p # ps) \<and> ex_id d = ex_id e \<and> settled_by i part d) then None else settlementOf e part)"
      by (cases p) (auto simp: f(3) g P_def)
  qed
qed

lemma settled_records_in:
  "e \<in> set (fs_expenses s) \<Longrightarrow> \<not> ex_isDeleted e \<Longrightarrow> settled_by i part e \<Longrightarrow> e \<in> set (settled_records i s)"
  by (cases part) (auto simp: settled_records_def FLEET_LICENSE_EXPENSE_KINDS_def)

lemma releaseParts_run:
  assumes "releaseParts i b s = (t, Inr xs)"
  shows "\<exists>f. t = s\<lparr>fs_expenses := map f (fs_expenses s)\<rparr> \<and> frees i s f"
proof -
  let ?ps = "concat (map (\<lambda>d. map (\<lambda>part. (d, part)) FLEET_LICENSE_EXPENSE_KINDS) (settled_records i s))"
  have "release_each i b ?ps s = (t, Inr xs)" using assms by (simp add: releaseParts_def runs)
  then obtain f where f: "t = s\<lparr>fs_expenses := map f (fs_expenses s)\<rparr>"
    "\<And>e. expense_core (f e) = expense_core e"
    "\<And>e part. settlementOf (f e) part =
          (if settled_by i part e \<and> \<not> ex_isDeleted e \<and> (\<exists>d. (d, part) \<in> set ?ps \<and> ex_id d = ex_id e \<and> settled_by i part d)
           then None else settlementOf e part)"
    using release_each_run by blast
  have "\<exists>d. (d, part) \<in> set ?ps \<and> ex_id d = ex_id e \<and> settled_by i part d"
    if "e \<in> set (fs_expenses s)" "\<not> ex_isDeleted e" "settled_by i part e" for e part
    using settled_records_in [OF that] that(3)
    by (intro exI [of _ e]) (cases part; auto simp: FLEET_LICENSE_EXPENSE_KINDS_def)
  then have "frees i s f" using f(2,3) unfolding frees_def by metis
  then show ?thesis using f(1) by blast
qed

lemma unsettled_frees:
  assumes ok: "fleet_ok s" and d: "d \<in> set (fs_operations s)" "op_kind d \<noteq> SettleOp"
  shows "frees (op_id d) s id"
  unfolding frees_def
proof (intro ballI conjI allI)
  fix e part assume e: "e \<in> set (fs_expenses s)"
  have "\<not> settled_by (op_id d) part e"
  proof
    assume "settled_by (op_id d) part e"
    then obtain x where x: "settlementOf e part = Some x" "es_operationId x = op_id d" by (auto simp: settled_by_iff)
    then obtain k where "k \<in> set (fs_operations s)" "op_id k = op_id d" "settlement k"
      using settles_okD(1) [OF _ e x(1)] ok unfolding fleet_ok_def by auto
    then show False
      using operation_by_id [of s k d] ok d by (auto simp: fleet_ok_def settlement_def)
  qed
  then show "settlementOf (id e) part =
      (if settled_by (op_id d) part e \<and> \<not> ex_isDeleted e then None else settlementOf e part)" by simp
qed simp

lemma remove_operation_event:
  assumes ok: "fleet_ok s"
  shows "commits (fleet_event s) (remove_operation env opId version reason) s"
  unfolding remove_operation_def
proof (rule commits_bind [OF quiet_basic(8)], rule commits_tx)
  fix u t x and y :: unit
  assume u: "quiet_change s u" and run: "remove_tx env opId version reason u = (t, Inr x)"
  define k where "k = fst (lockFund u)"
  have "quiet_change u k" using lockFund_quiet [of u] run by (auto simp: remove_tx_def bind_Inr k_def)
  then have sk: "quiet_change s k" using u quiet_trans by blast
  obtain d ms ps k1 k2 del where d: "find_operation opId k = Some d" "op_version d = version"
    and k1: "(if op_kind d = ReplenishOp then releaseReplenishment (op_id d) (ce_user env) else st_return []) k = (k1, Inr ms)"
    and k2: "(if op_kind d = SettleOp then releaseParts (op_id d) (ce_user env) else st_return []) k1 = (k2, Inr ps)"
    and t0: "markDeleted (op_id d) version del (ce_user env) k2 = (t, Inr True)"
    using run by (clarsimp simp: remove_tx_def runs k_def Let_def)
  have t: "t = fst (markDeleted (op_id d) version del (ce_user env) k2)" using t0 by simp
  have dd: "d \<in> set (fs_operations s)" "op_id d = opId" "\<not> op_isDeleted d"
    using find_operation_Some [OF d(1)] quiet_sel [OF sk] by simp_all
  have one: "x = d" if "x \<in> set (fs_operations s)" "op_id x = op_id d" for x
    using operation_by_id [of s x d] ok dd(1) that by (simp add: fleet_ok_def)
  let ?w = "update_where (\<lambda>m. \<not> me_isDeleted m \<and> me_replenishmentId m = Some (op_id d))
             (\<lambda>m. bump_memo (Some (ce_user env)) (freed_memo m)) (fs_memos k)"
  have k1': "k1 = k\<lparr>fs_memos := (if op_kind d = ReplenishOp then ?w else fs_memos k)\<rparr>"
    using k1 by (auto simp: releaseReplenishment_def Let_def update_memos_def run_Inr split: if_splits)
  have "\<exists>f. k2 = k1\<lparr>fs_expenses := map f (fs_expenses k1)\<rparr> \<and> frees (op_id d) s f"
  proof (cases "op_kind d = SettleOp")
    case True
    then have "releaseParts (op_id d) (ce_user env) k1 = (k2, Inr ps)" using k2 by simp
    then obtain f where f: "k2 = k1\<lparr>fs_expenses := map f (fs_expenses k1)\<rparr>" "frees (op_id d) k1 f"
      using releaseParts_run by blast
    then have "frees (op_id d) s f" using k1' quiet_sel [OF sk] by (simp add: frees_def)
    then show ?thesis using f(1) by blast
  next
    case False
    then have "k2 = k1" using k2 by (simp add: run_Inr)
    then show ?thesis
      using unsettled_frees [OF ok dd(1) False] expenses_id [of k1] by (intro exI [of _ id]) simp
  qed
  then obtain f where f: "k2 = k1\<lparr>fs_expenses := map f (fs_expenses k1)\<rparr>" "frees (op_id d) s f" by blast
  let ?g = "\<lambda>d. (bump_operation (Some (ce_user env)) d)\<lparr>op_isDeleted := True, op_deletedAt := Some (xd_at del),
          op_deletedBy := xd_by del, op_deletion := Some del\<rparr>"
  have ops: "fs_operations t = update_where (\<lambda>x. op_id x = op_id d \<and> \<not> op_isDeleted x) ?g (fs_operations s)"
    using t f(1) k1' quiet_sel [OF sk] one d(2)
    by (auto simp: markDeleted_def update_operations_def update_where_def)
  show "fleet_event s t"
    using dd t f k1' quiet_sel [OF sk] ops
    by (intro deleted [of d s ?g t "Some (ce_user env)" f])
      (simp_all add: markDeleted_def update_operations_def printed_def bump_operation_def)
qed (auto intro!: quiet_rules split: prod.splits)

end
