(* ===== verification/Custody_Screens.thy ===== *)
theory Custody_Screens
  imports Custody_Handlers
begin

text \<open>The memos and the receipts screens: each of their handlers, too, does at most one event.\<close>

section \<open>Claiming receipts for a memo\<close>

lemma update_receipts_sel [simp]:
  "fs_receipts (update_receipts P f s) = update_where P f (fs_receipts s)" "fs_memos (update_receipts P f s) = fs_memos s"
  "fs_operations (update_receipts P f s) = fs_operations s" "fs_expenses (update_receipts P f s) = fs_expenses s"
  "grows u (update_receipts P f s) = grows u s" "fs_memoSeq (update_receipts P f s) = fs_memoSeq s"
  "fs_nextOid (update_receipts P f s) = fs_nextOid s"
  by (simp_all add: update_receipts_def)

lemma update_memos_sel [simp]:
  "fs_memos (update_memos Q h s) = update_where Q h (fs_memos s)" "fs_receipts (update_memos Q h s) = fs_receipts s"
  "fs_operations (update_memos Q h s) = fs_operations s" "fs_expenses (update_memos Q h s) = fs_expenses s"
  "grows u (update_memos Q h s) = grows u s" "fs_memoSeq (update_memos Q h s) = fs_memoSeq s"
  "fs_nextOid (update_memos Q h s) = fs_nextOid s"
  by (simp_all add: update_memos_def)

lemma find_receipt_Some: "find_receipt i s = Some r \<Longrightarrow> r \<in> set (fs_receipts s) \<and> rc_id r = i"
  by (auto simp: find_receipt_def find_Some_iff)

text \<open>As many rows changed as ids were asked for: each id has its row.\<close>

lemma all_claimed:
  assumes "distinct (map rc_id rs)" "distinct ids" "length (filter (claimable kind ids) rs) = length ids" "i \<in> set ids"
  shows "\<exists>r \<in> set rs. rc_id r = i \<and> claimable kind ids r"
proof -
  let ?cs = "map rc_id (filter (claimable kind ids) rs)"
  have "set ?cs \<subseteq> set ids" by (auto simp: claimable_def)
  moreover have "card (set ?cs) = card (set ids)"
    using assms(1-3) by (metis distinct_card distinct_map_filter length_map)
  ultimately have "set ?cs = set ids" by (intro card_subset_eq) simp_all
  then have "i \<in> set ?cs" using assms(4) by simp
  then show ?thesis by auto
qed

lemma claim_row:
  assumes "\<not> claim_invalid kind t i" "\<not> claim_held mid t i"
  shows "\<exists>r. find_receipt i t = Some r \<and> custody_receipt r \<and> rc_kind r = kind \<and>
    (rc_memoId r = None \<or> rc_memoId r = Some mid)"
proof (cases "find_receipt i t")
  case None
  then show ?thesis using assms(1) by (simp add: claim_invalid_def)
next
  case (Some r)
  then show ?thesis using assms by (simp add: claim_invalid_def claim_held_def custody_receipt_def)
qed

lemma claim_run:
  assumes run: "claim mid kind ids s = (t, Inr x)" and ids: "distinct (map rc_id (fs_receipts s))" "distinct ids"
  shows "t = update_receipts (claimable kind ids) (set_memo (Some mid)) s \<and>
    (\<forall>i \<in> set ids. \<exists>r \<in> set (fs_receipts s). rc_id r = i \<and> (claimable kind ids r \<or> rc_memoId r = Some mid))"
proof (cases "ids = []")
  case True
  then have "update_receipts (claimable kind ids) (set_memo (Some mid)) s = s"
    by (simp add: update_receipts_def claimable_def update_where_def)
  then show ?thesis using run True by (simp add: claim_def)
next
  case False
  let ?t = "update_receipts (claimable kind ids) (set_memo (Some mid)) s"
  have t: "t = ?t" using run False by (auto simp: claim_def Let_def split: if_splits)
  have "\<exists>r \<in> set (fs_receipts s). rc_id r = i \<and> (claimable kind ids r \<or> rc_memoId r = Some mid)" if i: "i \<in> set ids" for i
  proof (cases "length (filter (claimable kind ids) (fs_receipts s)) = length ids")
    case True
    then show ?thesis using all_claimed [OF ids True i] by blast
  next
    case shortfall: False
    then have ok: "\<not> claim_invalid kind ?t i" "\<not> claim_held mid ?t i"
      using run False i by (auto simp: claim_def Let_def split: if_splits)
    then obtain r' where f: "find_receipt i ?t = Some r'" and
      r': "custody_receipt r'" "rc_kind r' = kind" "rc_memoId r' = None \<or> rc_memoId r' = Some mid"
      using claim_row by blast
    obtain r where r: "r \<in> set (fs_receipts s)"
        "r' = (if claimable kind ids r then set_memo (Some mid) r else r)" "rc_id r' = i"
      using find_receipt_Some [OF f] by (auto simp: in_update_where)
    show ?thesis
    proof (cases "claimable kind ids r")
      case True
      then show ?thesis using r by (auto simp: keeps)
    next
      case no: False
      then have "r' = r" using r(2) by simp
      then have "rc_memoId r = Some mid" using r' r(3) no i by (auto simp: claimable_def)
      then show ?thesis using r(1,3) \<open>r' = r\<close> by auto
    qed
  qed
  then show ?thesis using t by blast
qed

lemma placed_lines: "ml_receiptId ` set (fst (placeLines lines s)) = ml_receiptId ` set lines"
  by (simp add: placeLines_def orderLines_def)

section \<open>A new memo\<close>

lemma ensureCustodyMemoCounter_run:
  "ensureCustodyMemoCounter s = (t, Inr x) \<Longrightarrow> \<exists>n. fs_memoSeq t = Some n \<and> 0 \<le> n"
  by (auto simp: ensureCustodyMemoCounter_def run_Inr raise_counter_def split: option.splits)

lemma new_memo_fields [simp]:
  "me_id (new_memo env input i no day lines per) = i" "me_no (new_memo env input i no day lines per) = no"
  "me_kind (new_memo env input i no day lines per) = mi_kind input"
  "me_lines (new_memo env input i no day lines per) = lines"
  "me_replenishmentId (new_memo env input i no day lines per) = None"
  "\<not> me_isDeleted (new_memo env input i no day lines per)"
  by (simp_all add: new_memo_def)

lemma fresh_unlinked:
  assumes "fleet_ok s" "fresh_id s t i" "r \<in> set (fs_receipts s)"
  shows "rc_memoId r \<noteq> Some i"
proof
  assume "rc_memoId r = Some i"
  then obtain m where "m \<in> set (fs_memos s)" "me_id m = i"
    using links_okD(1) [OF _ assms(3)] assms(1) unfolding fleet_ok_def receipt_linked_def by blast
  then show False using assms(1,2) by (auto simp: fleet_ok_def ids_fresh_def fresh_id_def)
qed

lemma create_memo_event:
  assumes ok: "fleet_ok s" and valid: "distinct (map ml_receiptId (mi_lines input))"
  shows "commits (fleet_event s) (create_memo env input) s"
  unfolding create_memo_def Let_def
proof (rule commits_bind [OF quiet_basic(10)], rule commits_bind [OF quiet_basic(7)], rule commits_tx)
  fix u v i t m and y :: unit
  let ?ids = "map ml_receiptId (mi_lines input)" and ?kind = "mi_kind input"
  let ?date = "utcDay (case mi_date input of None \<Rightarrow> ce_now env | Some d \<Rightarrow> d)"
  assume u: "ensureCustodyMemoCounter s = (u, Inr y)" "quiet_change s u"
    and v: "freshOid u = (v, Inr i)" "quiet_change u v"
    and run: "st_bind nextCustodyNumber (\<lambda>no.
       st_bind (claim i ?kind ?ids) (\<lambda>_.
       st_bind (st_gets (placeLines (mi_lines input))) (\<lambda>(lines, period).
       insert_memo (new_memo env input i no ?date lines
         (memoPeriodFor (mi_from input) (mi_to input) period ?date))))) v = (t, Inr m)"
  obtain n where n: "fs_memoSeq v = Some n" "0 \<le> n"
    using ensureCustodyMemoCounter_run [OF u(1)] v(1) by (auto simp: freshOid_run)
  let ?w = "v\<lparr>fs_memoSeq := Some (n + 1)\<rparr>"
  have "\<exists>k x. claim i ?kind ?ids ?w = (k, Inr x) \<and>
      insert_memo (new_memo env input i (n + 1) ?date (fst (placeLines (mi_lines input) k))
        (memoPeriodFor (mi_from input) (mi_to input) (snd (placeLines (mi_lines input) k)) ?date)) k = (t, Inr m)"
    using run n(1) by (auto simp: runs nextCustodyNumber_def case_prod_unfold)
  then obtain k x where k: "claim i ?kind ?ids ?w = (k, Inr x)"
    and ins0: "insert_memo (new_memo env input i (n + 1) ?date (fst (placeLines (mi_lines input) k))
        (memoPeriodFor (mi_from input) (mi_to input) (snd (placeLines (mi_lines input) k)) ?date)) k = (t, Inr m)"
    by blast
  have m: "m = new_memo env input i (n + 1) ?date (fst (placeLines (mi_lines input) k))
        (memoPeriodFor (mi_from input) (mi_to input) (snd (placeLines (mi_lines input) k)) ?date)"
    using ins0 by (simp add: insert_memo_def split: if_splits)
  have ins: "insert_memo m k = (t, Inr m)" unfolding m using ins0 m by simp
  have sv: "quiet_change s v" using quiet_trans u(2) v(2) by blast
  note same = quiet_sel [OF sv]
  have rids: "distinct (map rc_id (fs_receipts ?w))" using ok same by (simp add: fleet_ok_def ids_distinct_def)
  note claimed = claim_run [OF k rids valid]
  have t: "t = k\<lparr>fs_memos := fs_memos k @ [m]\<rparr>" "me_no m \<notin> me_no ` set (fs_memos k)"
    using ins by (auto simp: insert_memo_def split: if_splits)
  have fr: "fresh_id s t i" using fresh_id_taken [OF u(2) v(1)] claimed t by (simp add: fresh_id_def)
  let ?g = "\<lambda>r. if claimable ?kind ?ids r then set_memo (Some i) r else r"
  have lines: "line_ids m = set ?ids" using placed_lines by (simp add: line_ids_def m)
  have "relinks i ?kind (line_ids m) s ?g"
    unfolding relinks_def lines
  proof (intro conjI ballI)
    fix r assume r: "r \<in> set (fs_receipts s)"
    show "?g r = r \<or> rc_memoId r = Some i \<and> ?g r = set_memo None r \<or> rc_memoId r = None \<and> ?g r = set_memo (Some i) r"
      by (auto simp: claimable_def)
    show "rc_memoId (?g r) = Some i \<longrightarrow> rc_id r \<in> set ?ids \<and> custody_receipt r \<and> rc_kind r = ?kind"
      using fresh_unlinked [OF ok fr r] by (auto simp: claimable_def)
  next
    fix j assume "j \<in> set ?ids"
    then obtain r where "r \<in> set (fs_receipts s)" "rc_id r = j" "claimable ?kind ?ids r \<or> rc_memoId r = Some i"
      using claimed same by auto
    then show "\<exists>r \<in> set (fs_receipts s). rc_id r = j \<and> rc_memoId (?g r) = Some i"
      using fresh_unlinked [OF ok fr] by (auto simp: keeps)
  qed
  moreover have "grows s t" using same(5) n(1) claimed t(1) by (auto simp: grows_def)
  ultimately show "fleet_event s t"
    using m n t claimed same fr
    by (intro memo_new [of t s m "n + 1" ?g]) (simp_all add: update_where_def)
qed (intro quiet_rules)

section \<open>A memo edited or deleted\<close>

lemma find_memo_Some: "find_memo i s = Some m \<Longrightarrow> m \<in> set (fs_memos s) \<and> me_id m = i \<and> \<not> me_isDeleted m"
  by (auto simp: find_memo_def find_Some_iff)

lemma live_memo_id_fun: "live_memo_id i = (\<lambda>m. me_id m = i \<and> \<not> me_isDeleted m)"
  by (simp add: fun_eq_iff live_memo_id_def)

lemma find_in: "List.find P xs = Some x \<Longrightarrow> x \<in> set xs \<and> P x"
  by (auto simp: find_Some_iff)

lemma updateMemoById_run:
  assumes "updateMemoById i v f b s = (t, Inr m')"
  shows "\<exists>m \<in> set (fs_memos s). me_id m = i \<and> \<not> me_isDeleted m \<and> m' = bump_memo b (f m) \<and>
    t = update_memos (live_memo_id i) (\<lambda>_. m') s"
proof (cases "List.find (\<lambda>m. me_id m = i \<and> \<not> me_isDeleted m \<and> me_version m = v \<and> me_replenishmentId m = None) (fs_memos s)")
  case None
  then show ?thesis using assms by (simp add: updateMemoById_def)
next
  case (Some m)
  then show ?thesis
    using find_in [OF Some] assms
    by (intro bexI [of _ m]) (auto simp: updateMemoById_def live_memo_id_fun split: if_splits)
qed

lemma edited_memo_fields [simp]:
  "me_id (edited_memo input lines per m) = me_id m" "me_no (edited_memo input lines per m) = me_no m"
  "me_kind (edited_memo input lines per m) = me_kind m" "me_lines (edited_memo input lines per m) = lines"
  "me_replenishmentId (edited_memo input lines per m) = me_replenishmentId m"
  "me_isDeleted (edited_memo input lines per m) = me_isDeleted m"
  by (simp_all add: edited_memo_def)

lemma release_step:
  "(if r \<noteq> [] then release_lines r i else st_return ()) s =
     (update_receipts (\<lambda>x. rc_id x \<in> set r \<and> rc_memoId x = Some i) (set_memo None) s, Inr ())"
  by (simp add: release_lines_def st_modify_def st_return_def update_receipts_def update_where_def)

lemma update_memo_event:
  assumes ok: "fleet_ok s" and valid: "distinct (map ml_receiptId (mi_lines input))"
  shows "commits (fleet_event s) (update_memo env i input version) s"
  unfolding update_memo_def
proof (rule commits_tx)
  fix t m'
  let ?ids = "map ml_receiptId (mi_lines input)"
  assume run: "st_bind (st_gets (find_memo i)) (\<lambda>found.
       st_bind (st_lift (option_or (NotFoundError ''Not found'') found)) (\<lambda>current.
       st_bind (st_lift (assertCustodyMemoWritable current)) (\<lambda>_.
       st_bind (st_ensure (mi_kind input = me_kind current) (BusinessRuleError ''a memo keeps its kind'')) (\<lambda>_.
       st_bind (st_ensure (version = me_version current) StaleDocumentError) (\<lambda>_.
       let (release, take) = lineChanges (map ml_receiptId (me_lines current)) (map ml_receiptId (mi_lines input)) in
       st_bind (if release \<noteq> [] then release_lines release i else st_return ()) (\<lambda>_.
       st_bind (claim i (me_kind current) take) (\<lambda>_.
       st_bind (st_gets (placeLines (mi_lines input))) (\<lambda>(lines, period).
       updateMemoById i version
         (edited_memo input lines (memoPeriodFor (mi_from input) (mi_to input) period
           (case mi_date input of None \<Rightarrow> me_date current | Some d \<Rightarrow> d)))
         (Some (ce_user env)))))))))) s = (t, Inr m')"
  obtain m where m: "find_memo i s = Some m" "me_replenishmentId m = None" "mi_kind input = me_kind m"
      "version = me_version m"
    using run by (auto simp: runs assertCustodyMemoWritable_def res_ensure_Inr option_or_Inr)
  let ?had = "map ml_receiptId (me_lines m)" and ?kind = "me_kind m"
  let ?release = "filter (\<lambda>x. x \<notin> set ?ids) ?had" and ?take = "filter (\<lambda>x. x \<notin> set ?had) ?ids"
  let ?rel = "\<lambda>r. rc_id r \<in> set ?release \<and> rc_memoId r = Some i"
  let ?u = "update_receipts ?rel (set_memo None) s"
  have "\<exists>k x. claim i ?kind ?take ?u = (k, Inr x) \<and>
      updateMemoById i version (edited_memo input (fst (placeLines (mi_lines input) k))
        (memoPeriodFor (mi_from input) (mi_to input) (snd (placeLines (mi_lines input) k))
           (case mi_date input of None \<Rightarrow> me_date m | Some d \<Rightarrow> d))) (Some (ce_user env)) k = (t, Inr m')"
    using run m
    by (clarsimp simp: runs lineChanges_def option_or_Inr assertCustodyMemoWritable_def release_step
        res_ensure_Inr case_prod_unfold simp del: set_map set_filter filter_empty_conv cong: if_cong)
  then obtain k x where k: "claim i ?kind ?take ?u = (k, Inr x)"
    and up: "updateMemoById i version (edited_memo input (fst (placeLines (mi_lines input) k))
        (memoPeriodFor (mi_from input) (mi_to input) (snd (placeLines (mi_lines input) k))
           (case mi_date input of None \<Rightarrow> me_date m | Some d \<Rightarrow> d))) (Some (ce_user env)) k = (t, Inr m')"
    by blast
  note mm = find_memo_Some [OF m(1)]
  have rids: "distinct (map rc_id (fs_receipts ?u))"
    using ok by (simp add: fleet_ok_def ids_distinct_def map_key_update keeps)
  have "distinct ?take" using valid by simp
  note claimed = claim_run [OF k rids this]
  have one: "x = m" if "x \<in> set (fs_memos s)" "me_id x = i" for x
    using memo_by_id [of s x m] ok that mm by (simp add: fleet_ok_def)
  obtain n where n: "n \<in> set (fs_memos k)" "me_id n = i" and m'_def: "m' = bump_memo (Some (ce_user env))
      (edited_memo input (fst (placeLines (mi_lines input) k)) (memoPeriodFor (mi_from input) (mi_to input)
        (snd (placeLines (mi_lines input) k)) (case mi_date input of None \<Rightarrow> me_date m | Some d \<Rightarrow> d)) n)"
    and t: "t = update_memos (live_memo_id i) (\<lambda>_. m') k"
    using updateMemoById_run [OF up] by blast
  have "n = m" using one n claimed by simp
  then have m': "me_id m' = i" "me_no m' = me_no m" "me_kind m' = me_kind m"
      "me_replenishmentId m' = None" "\<not> me_isDeleted m'" "line_ids m' = set ?ids"
    using mm m(2) placed_lines [of "mi_lines input" k] by (simp_all add: m'_def keeps) (simp add: line_ids_def)
  let ?c = "\<lambda>r. if claimable ?kind ?take r then set_memo (Some i) r else r"
  let ?r = "\<lambda>r. if ?rel r then set_memo None r else r"
  let ?g = "\<lambda>r. ?c (?r r)"
  have linked: "custody_receipt r \<and> rc_id r \<in> set ?had \<and> rc_kind r = ?kind"
    if "r \<in> set (fs_receipts s)" "rc_memoId r = Some i" for r
    using links_okD(1) [OF _ that(1)] ok that(2) one unfolding fleet_ok_def receipt_linked_def line_ids_def
    by fastforce
  have "relinks i ?kind (set ?ids) s ?g"
    unfolding relinks_def
  proof (intro conjI ballI)
    fix r assume r: "r \<in> set (fs_receipts s)"
    show "?g r = r \<or> rc_memoId r = Some i \<and> ?g r = set_memo None r \<or> rc_memoId r = None \<and> ?g r = set_memo (Some i) r"
      by (auto simp: claimable_def keeps)
    show "rc_memoId (?g r) = Some i \<longrightarrow> rc_id r \<in> set ?ids \<and> custody_receipt r \<and> rc_kind r = ?kind"
      using linked [OF r] by (auto simp: claimable_def keeps)
  next
    fix j assume j: "j \<in> set ?ids"
    show "\<exists>r \<in> set (fs_receipts s). rc_id r = j \<and> rc_memoId (?g r) = Some i"
    proof (cases "j \<in> set ?had")
      case True
      then obtain r where "r \<in> set (fs_receipts s)" "rc_id r = j" "rc_memoId r = Some i"
        using links_okD(2) [of s m] ok mm unfolding fleet_ok_def memo_linked_def line_ids_def by auto
      then show ?thesis using j by (intro bexI [of _ r]) (auto simp: claimable_def keeps)
    next
      case False
      then have "j \<in> set ?take" using j by simp
      then obtain q where q: "q \<in> set (fs_receipts ?u)" "rc_id q = j" "claimable ?kind ?take q \<or> rc_memoId q = Some i"
        using claimed by blast
      then obtain r where "r \<in> set (fs_receipts s)" "q = ?r r" by (auto simp: in_update_where)
      then show ?thesis using q(2,3) by (intro bexI [of _ r]) (auto simp: keeps)
    qed
  qed
  moreover have "fs_receipts t = map ?g (fs_receipts s)" using claimed t by (simp add: update_where_def)
  moreover have "fs_memos t = update_where (live_memo_id (me_id m)) (\<lambda>_. m') (fs_memos s)" using claimed t mm by simp
  ultimately show "fleet_event s t"
    using m' m mm claimed t by (intro memo_edit [of m s m' t ?g]) simp_all
qed (auto intro!: quiet_rules split: prod.splits)

lemma remove_memo_event:
  assumes ok: "fleet_ok s"
  shows "commits (fleet_event s) (remove_memo env i) s"
  unfolding remove_memo_def
proof (rule commits_bind [OF quiet_basic(4)], rule commits_bind [OF quiet_basic(3)], rule commits_tx)
  fix u v found m0 t and y :: unit
  assume q: "quiet_change s u" "quiet_change u v"
    and run: "st_bind (softDeleteMemoById i (ce_now env) (Some (ce_user env))) (\<lambda>_.
       st_modify (update_receipts (\<lambda>r. rc_memoId r = Some i) (set_memo None))) v = (t, Inr y)"
  have sv: "quiet_change s v" using quiet_trans q by blast
  note same = quiet_sel [OF sv]
  obtain m where m: "m \<in> set (fs_memos v)" "me_id m = i" "\<not> me_isDeleted m" "me_replenishmentId m = None"
    and t: "t = update_receipts (\<lambda>r. rc_memoId r = Some i) (set_memo None)
       (update_memos (live_memo_id i) (deleted_memo (ce_now env) (Some (ce_user env))) v)"
    using run
    by (auto simp: runs softDeleteMemoById_def live_memo_id_fun update_memos_def dest!: find_in split: option.splits)
  let ?g = "\<lambda>r. if rc_memoId r = Some i then set_memo None r else r"
  have "relinks i (me_kind m) {} s ?g" by (simp add: relinks_def keeps)
  then show "fleet_event s t"
    using m t same by (intro memo_gone [of m s t "ce_now env" "Some (ce_user env)" ?g]) (simp_all add: update_where_def)
qed (intro quiet_rules)

end
