(* ===== verification/Custody_Receipt_Screen.thy ===== *)
theory Custody_Receipt_Screen
  imports Custody_Screens
begin

text \<open>The receipts screen: each of its handlers, too, does at most one event.\<close>

section \<open>Writes that only lock or move a period\<close>

definition soft_change :: "fleet_store \<Rightarrow> fleet_store \<Rightarrow> bool" where
  "soft_change s t \<longleftrightarrow> fs_receipts t = fs_receipts s \<and> fs_operations t = fs_operations s \<and>
     fs_expenses t = fs_expenses s \<and> grows s t \<and> (\<exists>h. cosmetic h \<and> fs_memos t = map h (fs_memos s))"

lemma cosmetic_id [simp, intro]: "cosmetic (\<lambda>m. m)"
  by (simp add: cosmetic_def)

lemma soft_quiet: "quiet_change s t \<Longrightarrow> soft_change s t"
  by (auto simp: quiet_change_def soft_change_def intro: exI [of _ "\<lambda>m. m"])

lemma soft_trans: "soft_change s t \<Longrightarrow> soft_change t u \<Longrightarrow> soft_change s u"
  unfolding soft_change_def
proof (elim conjE exE, intro conjI)
  fix g h assume "cosmetic g" "cosmetic h" "fs_memos t = map g (fs_memos s)" "fs_memos u = map h (fs_memos t)"
  then show "\<exists>h. cosmetic h \<and> fs_memos u = map h (fs_memos s)"
    by (intro exI [of _ "\<lambda>m. h (g m)"]) (simp add: cosmetic_def)
qed (auto intro: grows_trans)

lemma soft_memos:
  assumes "\<And>m. memo_core (f m) = memo_core m"
  shows "soft_change s (update_memos P f s)"
  using assms by (auto simp: soft_change_def update_memos_def update_where_def cosmetic_def
      intro: exI [of _ "\<lambda>m. if P m then f m else m"])

lemma holdingMemo_run:
  assumes "holdingMemo r s = (t, Inr memo)"
  shows "soft_change s t \<and> memo = (case rc_memoId r of None \<Rightarrow> None | Some i \<Rightarrow> find_memo i t)"
  using assms
  by (auto simp: holdingMemo_def runs lockForReceipt_def memo_core_def line_ids_def soft_quiet
      intro!: soft_memos split: option.splits)

lemma followReceiptDay_soft: "followReceiptDay r d b s = (t, Inr x) \<Longrightarrow> soft_change s t"
  by (auto simp: followReceiptDay_def Let_def memo_core_def bump_memo_def line_ids_def soft_quiet
      intro!: soft_memos split: option.splits if_splits)

lemma quiet_card_writes [quiet]: "quiet_run (set_balance c a b)" "quiet_run (movement c a x i d b)"
  by (auto simp: quiet_run_def set_balance_def movement_def st_modify_def quiet_change_def grows_def)

lemma quiet_debit [quiet]: "quiet_run (debit c a i d b)"
  unfolding debit_def Let_def by (intro quiet_rules quiet_card_writes)

lemma quiet_credit [quiet]: "quiet_run (credit c a i d b)"
  unfolding credit_def Let_def by (intro quiet_rules quiet_card_writes)

lemma quiet_giveBack [quiet]: "quiet_run (giveBack r env)"
  unfolding giveBack_def by (intro quiet_rules quiet_credit)

text \<open>A live memo survives soft writes, taken or not as it was.\<close>

lemma soft_find_memo:
  assumes "soft_change s t" "ids_distinct s" "m \<in> set (fs_memos s)" "\<not> me_isDeleted m"
  shows "map_option memo_replenished (find_memo (me_id m) t) = Some (me_replenishmentId m \<noteq> None)"
proof -
  obtain h where h: "cosmetic h" "fs_memos t = map h (fs_memos s)"
    using assms(1) by (auto simp: soft_change_def)
  note same = cosmetic_fields [OF h(1)]
  have "find_memo (me_id m) t \<noteq> None"
    using assms(3,4) by (auto simp: find_memo_def find_None_iff h(2) same)
  then obtain m' where m': "find_memo (me_id m) t = Some m'" by auto
  then have "m' \<in> set (map h (fs_memos s)) \<and> me_id m' = me_id m" using find_memo_Some h(2) by metis
  then obtain x where x: "x \<in> set (fs_memos s)" "m' = h x" "me_id m' = me_id m" by auto
  have "x = m" using memo_by_id [OF assms(2)] x assms(3) same by metis
  then show ?thesis using m' x(2) same by (simp add: memo_replenished_def)
qed

section \<open>Create\<close>

lemma prepare_run:
  "prepare env f s = (t, Inr g) \<Longrightarrow> t = s \<and> (\<exists>name. g = write_facts env f name)"
  by (auto simp: prepare_def runs split: option.splits)

lemma quiet_prepare [quiet]: "quiet_run (prepare env f)"
  unfolding prepare_def by (intro quiet_rules)

lemma write_facts_fields [simp]:
  "rc_id (write_facts env f name r) = rc_id r" "rc_memoId (write_facts env f name r) = rc_memoId r"
  "rc_isDeleted (write_facts env f name r) = rc_isDeleted r"
  "rc_amount (write_facts env f name r) = rin_amount f" "rc_date (write_facts env f name r) = rin_date f"
  "rc_kind (write_facts env f name r) = rin_kind f" "rc_vehicleId (write_facts env f name r) = rin_vehicleId f"
  "rc_cardId (write_facts env f name r) = rin_cardId f"
  "rc_source (write_facts env f name r) = (if rin_cardId f = None then PaidByCustody else PaidByCard)"
  by (simp_all add: write_facts_def Let_def)

lemma bump_receipt_fields [simp]:
  "rc_id (bump_receipt b r) = rc_id r" "rc_memoId (bump_receipt b r) = rc_memoId r"
  "rc_isDeleted (bump_receipt b r) = rc_isDeleted r" "rc_amount (bump_receipt b r) = rc_amount r"
  "rc_date (bump_receipt b r) = rc_date r" "rc_kind (bump_receipt b r) = rc_kind r"
  "rc_vehicleId (bump_receipt b r) = rc_vehicleId r" "rc_source (bump_receipt b r) = rc_source r"
  by (simp_all add: bump_receipt_def)

lemma create_receipt_event:
  assumes valid: "exact_amount (rin_amount input)"
  shows "commits (fleet_event s) (create_receipt env input) s"
  unfolding create_receipt_def Let_def
proof (rule commits_bind [OF quiet_prepare], rule commits_bind [OF quiet_basic(7)], rule commits_tx)
  fix u facts v i t and y :: unit
  assume u: "prepare env (create_facts input) s = (u, Inr facts)" and v: "freshOid u = (v, Inr i)" "quiet_change u v"
  let ?r = "facts (blank_receipt env i)"
  assume run: "st_bind (st_modify (\<lambda>s. s\<lparr>fs_receipts := fs_receipts s @ [?r]\<rparr>)) (\<lambda>_.
       case rc_cardId ?r of None \<Rightarrow> st_return ()
       | Some c \<Rightarrow> debit c (rc_amount ?r) i (rc_date ?r) (ce_user env)) v = (t, Inr y)"
  let ?w = "v\<lparr>fs_receipts := fs_receipts v @ [?r]\<rparr>"
  have "(case rc_cardId ?r of None \<Rightarrow> st_return ()
       | Some c \<Rightarrow> debit c (rc_amount ?r) i (rc_date ?r) (ce_user env)) ?w = (t, Inr y)"
    using run by (simp add: runs)
  then have q: "quiet_change ?w t"
    by (rule quiet_runD [rotated]) (intro quiet_rules quiet_debit)
  obtain name where u: "u = s" "facts = write_facts env (create_facts input) name"
    using prepare_run [OF u] by blast
  have r: "rc_id ?r = i" "rc_memoId ?r = None" "exact_amount (rc_amount ?r)"
    using valid u by (simp_all add: blank_receipt_def create_facts_def)
  have "fresh_id s t i"
    using fresh_id_grows [OF fresh_id_taken [OF quiet_refl], of s v i t] v(1) u(1) quiet_sel(5) [OF q]
    by (simp add: grows_def)
  then show "fleet_event s t"
    using r quiet_sel [OF q] quiet_sel [OF v(2)] u(1)
    by (intro receipt_new [of t s ?r]) (auto simp: grows_def)
qed (intro quiet_rules)

section \<open>Update\<close>

lemma throw_run [simp]: "st_throw e s \<noteq> (t, Inr x)"
  by (simp add: st_throw_def)

lemma find_live_receipt_Some:
  "find_live_receipt i s = Some r \<Longrightarrow> r \<in> set (fs_receipts s) \<and> rc_id r = i \<and> \<not> rc_isDeleted r"
  by (auto simp: find_live_receipt_def dest: find_in)

lemma live_receipt_id_fun: "(\<lambda>x. rc_id x = rc_id r \<and> \<not> rc_isDeleted x) = live_receipt_id r"
  by (simp add: fun_eq_iff live_receipt_id_def)

lemma updateReceiptById_run:
  assumes "updateReceiptById i v f b s = (t, Inr r')"
  shows "\<exists>r \<in> set (fs_receipts s). rc_id r = i \<and> \<not> rc_isDeleted r \<and> r' = bump_receipt b (f r) \<and>
    t = update_receipts (live_receipt_id r) (\<lambda>_. r') s"
proof (cases "List.find (\<lambda>r. rc_id r = i \<and> \<not> rc_isDeleted r \<and> rc_version r = v) (fs_receipts s)")
  case None
  then show ?thesis using assms by (simp add: updateReceiptById_def)
next
  case (Some r)
  then show ?thesis
    using find_in [OF Some] assms
    by (intro bexI [of _ r]) (auto simp: updateReceiptById_def live_receipt_id_fun [symmetric])
qed

lemma change_allowed:
  assumes "fleet_ok s" "r \<in> set (fs_receipts s)" "assertReceiptChangeAllowed r (facts_of r') s = (t, Inr x)"
    "exact_amount (rc_amount r')"
  shows "soft_change s t \<and> held_unchanged s r r'"
proof -
  obtain memo k where k: "holdingMemo r s = (k, Inr memo)"
    and verdict: "(case receiptChangeVerdict (facts_of r) (facts_of r') (map_option memo_replenished memo) of
        VerdictOk \<Rightarrow> st_return ()
      | VerdictKindOrSource \<Rightarrow> st_throw (BusinessRuleError ''take the receipt off its memo first'')
      | VerdictLocked \<Rightarrow> st_throw (BusinessRuleError ''the memo of this receipt was replenished'')) k = (t, Inr x)"
    using assms(3) by (auto simp: assertReceiptChangeAllowed_def bind_Inr)
  have ok: "receiptChangeVerdict (facts_of r) (facts_of r') (map_option memo_replenished memo) = VerdictOk"
    and memo: "holdingMemo r s = (t, Inr memo)"
    using verdict k by (auto simp: run_Inr split: receipt_verdict.splits)
  note soft = holdingMemo_run [OF memo]
  have eq: "receipt_piastres (rc_amount r) = toPiastres (rc_amount r)"
      "receipt_piastres (rc_amount r') = toPiastres (rc_amount r')"
    using assms by (auto simp: fleet_ok_def amounts_exact_def exact_amount_def)
  have "rc_kind r' = rc_kind r \<and> rc_source r' = rc_source r \<and>
     (me_replenishmentId m \<noteq> None \<longrightarrow> toPiastres (rc_amount r') = toPiastres (rc_amount r) \<and>
        utcDay (rc_date r') = utcDay (rc_date r) \<and> rc_vehicleId r' = rc_vehicleId r)"
    if m: "m \<in> set (fs_memos s)" "\<not> me_isDeleted m" "rc_memoId r = Some (me_id m)" for m
  proof -
    have "map_option memo_replenished memo = Some (me_replenishmentId m \<noteq> None)"
      using soft_find_memo [of s t m] assms(1) m soft by (simp add: fleet_ok_def)
    note ok [unfolded this]
    then show ?thesis by (simp add: receiptChangeVerdict_def facts_of_def Let_def split: if_splits)
  qed
  then show ?thesis using soft eq by (simp add: held_unchanged_def)
qed

lemma merged_amount:
  "valid_fleet_op (DoUpdateReceipt i e) \<Longrightarrow> exact_amount (rc_amount r) \<Longrightarrow> exact_amount (rin_amount (merge_edit r e))"
  by (auto simp: merge_edit_def Let_def edit_or_def split: option.splits)

lemma update_receipt_event:
  assumes ok: "fleet_ok s" and valid: "valid_fleet_op (DoUpdateReceipt i input)"
  shows "commits (fleet_event s) (update_receipt env i input) s"
  unfolding update_receipt_def Let_def
proof (rule commits_bind [OF quiet_basic(4)], rule commits_bind [OF quiet_basic(3)],
    rule commits_bind [OF quiet_prepare], rule commits_tx)
  fix found a r0 u facts v t z
  assume "st_gets (find_live_receipt i) s = (a, Inr found)"
    "st_lift (option_or (NotFoundError ''Not found'') found) a = (u, Inr r0)"
  then have u: "u = s" and r0: "find_live_receipt i s = Some r0" by (auto simp: runs option_or_Inr)
  assume "prepare env (merge_edit r0 input) u = (v, Inr facts)"
  then obtain name where v: "v = s" and facts: "facts = write_facts env (merge_edit r0 input) name"
    using prepare_run u by blast
  let ?moved = "money_moved r0 (facts r0)"
  assume "st_bind (st_gets (find_live_receipt i)) (\<lambda>again.
       st_bind (st_lift (option_or (NotFoundError ''Not found'') again)) (\<lambda>live.
       st_bind (assertReceiptChangeAllowed live (facts_of (facts r0))) (\<lambda>_.
       st_bind (if ?moved then giveBack live env else st_return ()) (\<lambda>_.
       st_bind (updateReceiptById i (red_version input) facts (ce_user env)) (\<lambda>next.
       st_bind (followReceiptDay live (rc_date next) (ce_user env)) (\<lambda>periodMove.
       st_bind (case rc_cardId next of None \<Rightarrow> st_return ()
          | Some c \<Rightarrow> if ?moved then debit c (rc_amount next) i (rc_date next) (ce_user env)
                      else st_return ()) (\<lambda>_.
       st_return (next, periodMove)))))))) v = (t, Inr z)"
  then obtain x1 k1 y1 k2 r' k3 p k4 y2 where
      allowed: "assertReceiptChangeAllowed r0 (facts_of (facts r0)) s = (k1, Inr x1)"
    and giving: "(if ?moved then giveBack r0 env else st_return ()) k1 = (k2, Inr y1)"
    and up: "updateReceiptById i (red_version input) facts (ce_user env) k2 = (k3, Inr r')"
    and follow: "followReceiptDay r0 (rc_date r') (ce_user env) k3 = (k4, Inr p)"
    and pay: "(case rc_cardId r' of None \<Rightarrow> st_return ()
          | Some c \<Rightarrow> if ?moved then debit c (rc_amount r') i (rc_date r') (ce_user env)
                      else st_return ()) k4 = (t, Inr y2)"
    using r0 v by (auto simp: bind_Inr run_Inr option_or_Inr cong: if_cong option.case_cong)
  note live = find_live_receipt_Some [OF r0]
  have exact: "exact_amount (rc_amount r0)" using ok live by (auto simp: fleet_ok_def amounts_exact_def)
  then have exact': "exact_amount (rc_amount (facts r0))" using merged_amount [OF valid] facts by simp
  note changed = change_allowed [OF ok conjunct1 [OF live] allowed exact']
  have q2: "quiet_change k1 k2" using giving by (rule quiet_runD [rotated]) (intro quiet_rules quiet_giveBack)
  then have s2: "soft_change s k2" using changed soft_quiet soft_trans by blast
  have q4: "quiet_change k4 t" using pay by (rule quiet_runD [rotated]) (intro quiet_rules quiet_debit)
  then have s4: "soft_change k3 t" using followReceiptDay_soft [OF follow] soft_quiet soft_trans by blast
  obtain r where r: "r \<in> set (fs_receipts k2)" "rc_id r = i" "r' = bump_receipt (ce_user env) (facts r)"
      "k3 = update_receipts (live_receipt_id r) (\<lambda>_. r') k2"
    using updateReceiptById_run [OF up] by blast
  have "fs_receipts k2 = fs_receipts s" using s2 by (simp add: soft_change_def)
  then have "r = r0" using receipt_by_id [of s r r0] ok r(1,2) live by (simp add: fleet_ok_def)
  note r' = r(3,4) [unfolded this]
  have fields: "rc_id r' = rc_id r0" "rc_memoId r' = rc_memoId r0" "rc_isDeleted r' = rc_isDeleted r0"
    "exact_amount (rc_amount r')" using facts exact' by (simp_all add: r'(1))
  have held: "held_unchanged s r0 r'" using changed by (simp add: held_unchanged_def r'(1))
  obtain h2 h4 where h: "cosmetic h2" "fs_memos k2 = map h2 (fs_memos s)"
      "cosmetic h4" "fs_memos t = map h4 (fs_memos k3)"
    using s2 s4 by (auto simp: soft_change_def)
  have "cosmetic (\<lambda>m. h4 (h2 m))" "fs_memos t = map (\<lambda>m. h4 (h2 m)) (fs_memos s)"
    using h r'(2) by (simp_all add: cosmetic_def)
  moreover have "fs_receipts t = update_where (live_receipt_id r0) (\<lambda>_. r') (fs_receipts s)"
      "fs_operations t = fs_operations s" "fs_expenses t = fs_expenses s" "grows s t"
    using s2 s4 r'(2) grows_trans [of s k2 t] by (simp_all add: soft_change_def) (simp add: grows_def)
  ultimately show "fleet_event s t"
    using live fields held by (intro receipt_edit [of r0 s r' t "\<lambda>m. h4 (h2 m)"]) simp_all
qed (auto intro!: quiet_rules split: prod.splits)

section \<open>Remove\<close>

lemma removable_run:
  assumes ok: "fleet_ok s" and r: "r \<in> set (fs_receipts s)" and run: "assertReceiptRemovable r s = (t, Inr x)"
  shows "rc_memoId r = None \<and> t = s"
proof (cases "rc_memoId r")
  case None
  then show ?thesis using run by (simp add: assertReceiptRemovable_def holdingMemo_def runs)
next
  case (Some i)
  then obtain m where m: "m \<in> set (fs_memos s)" "me_id m = i" "\<not> me_isDeleted m"
    using links_okD(1) [OF _ r] ok unfolding fleet_ok_def receipt_linked_def by blast
  obtain memo k where k: "holdingMemo r s = (k, Inr memo)" "memo = None"
    using run by (auto simp: assertReceiptRemovable_def runs split: option.splits)
  then have "soft_change s k" "find_memo i k = None" using holdingMemo_run [OF k(1)] Some by auto
  then show ?thesis using soft_find_memo [of s k m] m ok by (simp add: fleet_ok_def)
qed

lemma remove_receipt_event:
  assumes ok: "fleet_ok s"
  shows "commits (fleet_event s) (remove_receipt env i) s"
  unfolding remove_receipt_def
proof (rule commits_bind [OF quiet_basic(4)], rule commits_bind [OF quiet_basic(3)], rule commits_tx)
  fix found a r0 u t and y :: unit
  assume "st_gets (find_live_receipt i) s = (a, Inr found)"
    "st_lift (option_or (NotFoundError ''Not found'') found) a = (u, Inr r0)"
  then have u: "u = s" and r0: "find_live_receipt i s = Some r0" by (auto simp: runs option_or_Inr)
  assume "st_bind (st_gets (find_live_receipt i)) (\<lambda>again.
       st_bind (st_lift (option_or (NotFoundError ''Not found'') again)) (\<lambda>live.
       st_bind (assertReceiptRemovable live) (\<lambda>_.
       st_bind (giveBack live env) (\<lambda>_.
       softDeleteReceipt i env)))) u = (t, Inr y)"
  then obtain x1 k1 y1 k2 where allowed: "assertReceiptRemovable r0 s = (k1, Inr x1)"
    and giving: "giveBack r0 env k1 = (k2, Inr y1)" and gone: "softDeleteReceipt i env k2 = (t, Inr y)"
    using r0 u by (auto simp: bind_Inr run_Inr option_or_Inr)
  note live = find_live_receipt_Some [OF r0]
  have r: "rc_memoId r0 = None" "k1 = s" using removable_run [OF ok _ allowed] live by simp_all
  have "quiet_change s k2" using quiet_runD [OF quiet_giveBack giving] r by simp
  note same = quiet_sel [OF this]
  let ?g = "\<lambda>x. (bump_receipt (ce_user env) x)\<lparr>rc_isDeleted := True, rc_deletedAt := Some (ce_now env),
             rc_deletedBy := Some (ce_user env)\<rparr>"
  have "t = update_receipts (live_receipt_id r0) ?g k2"
    using gone live live_receipt_id_fun [of r0] by (auto simp: softDeleteReceipt_def split: option.splits)
  then show "fleet_event s t"
    using live r same by (intro receipt_gone [of r0 s ?g t]) (simp_all add: bump_receipt_def)
qed (intro quiet_rules)

section \<open>Every request is one event\<close>

lemma run_fleet_op_commits:
  assumes "fleet_ok s" "valid_fleet_op req"
  shows "\<exists>v. fleet_event s v \<and> quiet_change v (run_fleet_op env req s)"
proof -
  have one: "\<exists>v. fleet_event s v \<and> quiet_change v (store_after m s)"
    if "commits (fleet_event s) m s" for m :: "(fleet_store, 'b) st"
    using that quiet_event [of s s] unfolding commits_def by blast
  note events = create_receipt_event update_receipt_event remove_receipt_event create_memo_event
    update_memo_event remove_memo_event charge_event replenish_event settle_event confirmTransfer_event
    cancelHeld_event remove_operation_event create_expense_event update_expense_event remove_expense_event
  show ?thesis
    using assms by (cases req) (auto intro!: one events)
qed

end
