(* ===== verification/Custody_Claims.thy ===== *)
theory Custody_Claims
  imports Custody_Receipt_Screen
begin

text \<open>
  What the custody screens guarantee: the properties of every store the requests can reach, from the
  invariants \<open>fleet_ok\<close> of the specification and from the letters' own figures.
\<close>

section \<open>Reachable stores\<close>

lemma fleet_reachable_ok: "fleet_reachable s \<Longrightarrow> fleet_ok s"
proof (induction rule: fleet_reachable.induct)
  case (init cards)
  then show ?case by (rule fleet_ok_empty)
next
  case (step s t)
  from step.hyps(2) obtain req env where "valid_fleet_op req" "t = run_fleet_op env req s"
    by (auto elim: fleet_step.cases)
  then show ?case using run_fleet_op_commits [OF step.IH] fleet_ok_event fleet_ok_quiet step.IH by metis
qed

fun run_fleet_ops :: "custody_env \<Rightarrow> fleet_op list \<Rightarrow> fleet_store \<Rightarrow> fleet_store" where
  "run_fleet_ops env [] s = s"
| "run_fleet_ops env (req # reqs) s = run_fleet_ops env reqs (run_fleet_op env req s)"

lemma run_fleet_ops_reachable:
  "fleet_reachable s \<Longrightarrow> list_all valid_fleet_op reqs \<Longrightarrow> fleet_reachable (run_fleet_ops env reqs s)"
  by (induction reqs arbitrary: s) (auto intro: fleet_reachable.step fleet_step.request)

text \<open>A small history: a receipt of twenty-five pounds, a memo that holds it, a replenishment that takes the
  memo.\<close>

definition demo_env :: custody_env where
  "demo_env = \<lparr>ce_user = 900, ce_userName = Some ''Mona'', ce_now = 0,
     ce_signatures = (\<lambda>_. \<lparr>ps_blocks = [], ps_note = []\<rparr>), ce_reason = (\<lambda>x. x), ce_codes = (\<lambda>_. None),
     ce_vehicle = (\<lambda>_. True), ce_driver = (\<lambda>_. None), ce_price = (\<lambda>_. 0)\<rparr>"

definition demo_requests :: "fleet_op list" where
  "demo_requests =
     [DoCreateReceipt \<lparr>rin_date = 0, rin_vehicleId = 7, rin_driverEmployeeId = None,
        rin_driverName = None, rin_kind = WashSource, rin_cardId = None, rin_fuelType = None,
        rin_amount = fromPiastres 2500, rin_odometer = None, rin_company = None\<rparr>,
      DoCreateMemo \<lparr>mi_kind = WashSource, mi_name = ''wash'', mi_date = None, mi_from = None, mi_to = None,
        mi_lines = [\<lparr>ml_receiptId = 1, ml_mission = '''', ml_statement = '''', ml_note = ''''\<rparr>]\<rparr>,
      DoReplenish \<lparr>ri_date = None, ri_from = None, ri_to = None, ri_memoIds = [2]\<rparr>]"

definition demo_store :: fleet_store where
  "demo_store = run_fleet_ops demo_env demo_requests (empty_fleet_store [])"

lemmas demo_steps = demo_requests_def demo_env_def empty_fleet_store_def store_after_def create_receipt_def
  prepare_def create_facts_def st_defs freshOid_def unitOfWork_def fleet_effect_def write_facts_def
  blank_receipt_def create_memo_def replenish_def ensureCustodyMemoCounter_def raise_counter_def
  nextCustodyNumber_def claim_def update_receipts_def update_where_def claimable_def custody_receipt_def
  insert_memo_def placeLines_def orderLines_def line_taken_def new_memo_def ensureFundLock_def
  replenish_tx_def lockFund_def findLiveByIds_def insert_operation_def markReplenished_def write_memos_def
  update_memos_def set_memo_def bump_memo_def take_memo_def memo_snapshot_def new_operation_def Let_def

lemma exact_piastres: "0 < p \<Longrightarrow> p \<le> piastre_bound \<Longrightarrow> exact_amount (fromPiastres p)"
  using toPiastres_fromPiastres [of p] receipt_piastres_fromPiastres [of p] fromPiastres_nonneg [of p]
  by (cases "fromPiastres p = 0") (auto simp: exact_amount_def)

lemma demo_valid: "list_all valid_fleet_op demo_requests"
  using exact_piastres [of 2500] by (simp add: demo_requests_def piastre_bound_def)

lemma demo_reachable: "fleet_reachable demo_store"
  unfolding demo_store_def by (intro run_fleet_ops_reachable fleet_reachable.init demo_valid)

text \<open>The history, one request at a time.\<close>

definition demo_receipt :: "oid option \<Rightarrow> receipt_doc" where
  "demo_receipt memo = \<lparr>rc_id = 1, rc_date = 0, rc_vehicleId = 7, rc_driverEmployeeId = None, rc_driverName = None,
     rc_kind = WashSource, rc_source = PaidByCustody, rc_cardId = None, rc_fuelType = None,
     rc_pricePerLitre = None, rc_litres = None, rc_amount = fromPiastres 2500, rc_odometer = None,
     rc_company = None, rc_memoId = memo, rc_image = None, rc_createdAt = 0, rc_createdBy = Some 900,
     rc_updatedBy = Some 900, rc_deletedAt = None, rc_deletedBy = None, rc_version = 0, rc_isDeleted = False\<rparr>"

definition demo_with_receipt :: fleet_store where
  "demo_with_receipt = (empty_fleet_store [])
     \<lparr>fs_receipts := [demo_receipt None], fs_nextOid := 2, fs_effects := [FleetAudit ''receipt'' 1 ''create'']\<rparr>"

lemma demo_first: "run_fleet_op demo_env (demo_requests ! 0) (empty_fleet_store []) = demo_with_receipt"
  by (simp add: demo_steps demo_with_receipt_def demo_receipt_def cong del: option.case_cong)

definition demo_memo :: memo_doc where
  "demo_memo = \<lparr>me_id = 2, me_no = 1, me_kind = WashSource, me_name = ''wash'', me_date = 0, me_from = 0, me_to = 0,
     me_lines = [\<lparr>ml_receiptId = 1, ml_mission = [], ml_statement = [], ml_note = []\<rparr>],
     me_signatures = \<lparr>ps_blocks = [], ps_note = []\<rparr>, me_replenishmentId = None, me_replenishedAt = None,
     me_replenishmentHeld = None, me_lockSeq = 0, me_createdAt = 0, me_createdBy = Some 900,
     me_updatedBy = Some 900, me_deletedAt = None, me_deletedBy = None, me_version = 0, me_isDeleted = False\<rparr>"

definition demo_with_memo :: fleet_store where
  "demo_with_memo = demo_with_receipt
     \<lparr>fs_receipts := [demo_receipt (Some 2)], fs_memos := [demo_memo], fs_memoSeq := Some 1, fs_nextOid := 3,
      fs_effects := [FleetAudit ''receipt'' 1 ''create'', FleetAudit ''custodyMemo'' 2 ''create'', ReceiptsSignal 2]\<rparr>"

lemma utcDay_0: "utcDay 0 = 0"
  by code_simp

lemma demo_second: "run_fleet_op demo_env (demo_requests ! 1) demo_with_receipt = demo_with_memo"
  by (simp add: demo_steps demo_with_receipt_def demo_with_memo_def demo_memo_def demo_receipt_def maxNo_def
      utcDay_0 periodOf_def memoPeriodFor_def cong del: option.case_cong)

text \<open>The letter, with the figures of the fund it was printed with left unread.\<close>

definition demo_letter :: "fund_terms \<Rightarrow> operation_doc" where
  "demo_letter terms = new_operation demo_env ReplenishOp HeldStatus ''replenish'' 3 0 (letterPeriodFor None None [0, 0])
     (fromPiastres (toPiastres (om_amount (memo_snapshot demo_with_memo demo_memo)))) ''''
     [memo_snapshot demo_with_memo demo_memo] [] terms"

lemma demo_third:
  "\<exists>terms. fs_operations (run_fleet_op demo_env (demo_requests ! 2) demo_with_memo) = [demo_letter terms] \<and>
    fs_receipts (run_fleet_op demo_env (demo_requests ! 2) demo_with_memo) = [demo_receipt (Some 2)]"
proof -
  have stored: "fs_memos demo_with_memo = [demo_memo]" "fs_nextOid demo_with_memo = 3" "fs_fundSeq demo_with_memo = None"
      "fs_operations demo_with_memo = []" "fs_receipts demo_with_memo = [demo_receipt (Some 2)]"
    by (simp_all add: demo_with_memo_def demo_with_receipt_def empty_fleet_store_def)
  have memo: "me_id demo_memo = 2" "\<not> me_isDeleted demo_memo" "me_replenishmentId demo_memo = None"
      "me_from demo_memo = 0" "me_to demo_memo = 0"
    by (simp_all add: demo_memo_def)
  have same: "memo_snapshot (demo_with_memo\<lparr>fs_nextOid := k, fs_fundSeq := n\<rparr>) m = memo_snapshot demo_with_memo m" for n k m
    by (rule memo_snapshot_quiet) simp
  show ?thesis
    by (simp add: demo_letter_def demo_requests_def store_after_def replenish_def replenish_tx_def st_defs
        freshOid_def ensureFundLock_def unitOfWork_def lockFund_def fleet_effect_def findLiveByIds_def
        insert_operation_def markReplenished_def write_memos_def update_memos_def Let_def same stored memo
        letter_day_def utcDay_0 demo_env_def update_where_def raise_counter_def cong del: option.case_cong) blast
qed

lemma demo_store_eq: "demo_store = run_fleet_op demo_env (demo_requests ! 2) demo_with_memo"
proof -
  have "demo_requests = [demo_requests ! 0, demo_requests ! 1, demo_requests ! 2]"
    by (simp add: demo_requests_def)
  then have "demo_store = run_fleet_ops demo_env [demo_requests ! 0, demo_requests ! 1, demo_requests ! 2] (empty_fleet_store [])"
    unfolding demo_store_def by (rule arg_cong)
  then show ?thesis by (simp only: run_fleet_ops.simps demo_first demo_second)
qed

lemma demo_letter_fields [simp]:
  "op_id (demo_letter terms) = 3" "in_force (demo_letter terms)" "op_status (demo_letter terms) = Some HeldStatus"
  "map om_memoId (op_memos (demo_letter terms)) = [2]" "op_kind (demo_letter terms) = ReplenishOp"
  by (simp_all add: demo_letter_def in_force_def operationStatusOf_def memo_snapshot_def demo_memo_def)

lemma demo_receipt_fields [simp]:
  "rc_id (demo_receipt memo) = 1" "rc_memoId (demo_receipt memo) = memo" "custody_receipt (demo_receipt memo)"
  "rc_amount (demo_receipt memo) = fromPiastres 2500"
  by (simp_all add: demo_receipt_def custody_receipt_def)

lemma demo_store_has:
  obtains terms where "fs_operations demo_store = [demo_letter terms]"
    "fs_receipts demo_store = [demo_receipt (Some 2)]"
  using demo_third unfolding demo_store_eq by blast

section \<open>The specification\<close>



section \<open>What the collections say of each other\<close>



section \<open>Money comes back once\<close>

text \<open>The receipts a letter brings the money of: those on the memos it lists.\<close>

definition operation_receipts :: "fleet_store \<Rightarrow> operation_doc \<Rightarrow> receipt_doc list" where
  "operation_receipts s d = filter (\<lambda>r. custody_receipt r \<and>
     (case rc_memoId r of None \<Rightarrow> False | Some i \<Rightarrow> i \<in> om_memoId ` set (op_memos d))) (fs_receipts s)"

lemma in_operation_receipts:
  "r \<in> set (operation_receipts s d) \<longleftrightarrow>
     r \<in> set (fs_receipts s) \<and> custody_receipt r \<and> (\<exists>x \<in> set (op_memos d). rc_memoId r = Some (om_memoId x))"
  by (auto simp: operation_receipts_def split: option.splits)

text \<open>C19. No receipt's money is brought back twice: of all the replenishments that wait or were transferred, at
  most one lists the memo a receipt is on.\<close>

theorem receipt_replenished_once:
  assumes "fleet_reachable s" "d \<in> set (fs_operations s)" "e \<in> set (fs_operations s)" "in_force d" "in_force e"
    "r \<in> set (operation_receipts s d)" "r \<in> set (operation_receipts s e)"
  shows "d = e"
proof -
  have ok: "ids_distinct s" "takes_ok s" using fleet_reachable_ok [OF assms(1)] by (simp_all add: fleet_ok_def)
  obtain x y where x: "x \<in> set (op_memos d)" "y \<in> set (op_memos e)" "om_memoId x = om_memoId y"
    using assms(6,7) by (auto simp: in_operation_receipts)
  obtain m where m: "m \<in> set (fs_memos s)" "me_id m = om_memoId x"
    using takes_okD(3) [OF ok(2) assms(2,4) x(1)] unfolding snapshot_held_def by blast
  have "me_replenishmentId m = Some (op_id d)" using memo_of_taken(2) [OF ok(2,1) assms(2,4) x(1) m] .
  moreover have "me_replenishmentId m = Some (op_id e)"
    using memo_of_taken(2) [OF ok(2,1) assms(3,5) x(2) m(1)] m(2) x(3) by simp
  ultimately show ?thesis using operation_by_id [OF ok(1) assms(2,3)] by simp
qed

theorem receipt_replenished_once_witness:
  "\<exists>d r. fs_operations demo_store = [d] \<and> r \<in> set (operation_receipts demo_store d) \<and> in_force d \<and>
     (\<forall>e \<in> set (fs_operations demo_store). in_force e \<and> r \<in> set (operation_receipts demo_store e) \<longrightarrow> d = e)"
proof -
  obtain terms where t: "fs_operations demo_store = [demo_letter terms]"
    "fs_receipts demo_store = [demo_receipt (Some 2)]" by (rule demo_store_has)
  have "2 \<in> om_memoId ` set (op_memos (demo_letter terms))"
    using demo_letter_fields(4) [of terms] by (metis list.set_intros(1) list.set_map)
  then have r: "demo_receipt (Some 2) \<in> set (operation_receipts demo_store (demo_letter terms))"
    using t(2) by (simp add: operation_receipts_def)
  then show ?thesis
    using t(1) receipt_replenished_once [OF demo_reachable, of "demo_letter terms" _ "demo_receipt (Some 2)"] by auto
qed

lemma readMemoTotals_amount: "snd (readMemoTotals s i) = fromPiastres (receipts_piastres (memo_receipts s i))"
  by (simp add: readMemoTotals_def fromPiastres_def Let_def)

lemma memo_receipts_of:
  assumes "i \<in> set (map om_memoId (op_memos d))"
  shows "memo_receipts s i = filter (\<lambda>r. rc_memoId r = Some i) (operation_receipts s d)"
  using assms by (auto simp: memo_receipts_def operation_receipts_def intro!: filter_cong)

lemma operation_receipts_sum:
  assumes "distinct (map om_memoId (op_memos d))"
  shows "sum_list (map (\<lambda>x. receipts_piastres (memo_receipts s (om_memoId x))) (op_memos d)) =
    receipts_piastres (operation_receipts s d)"
proof -
  let ?is = "map om_memoId (op_memos d)" and ?rs = "operation_receipts s d"
  let ?f = "\<lambda>r. receipt_piastres (rc_amount r)"
  have "sum_list (map (\<lambda>x. receipts_piastres (memo_receipts s (om_memoId x))) (op_memos d)) =
      sum_list (map (\<lambda>i. sum_list (map ?f (filter (\<lambda>r. rc_memoId r = i) ?rs))) (map Some ?is))"
    using memo_receipts_of [of _ d s] by (simp add: receipts_piastres_def comp_def cong: map_cong)
  also have "\<dots> = (\<Sum>i \<in> set (map Some ?is). sum_list (map ?f (filter (\<lambda>r. rc_memoId r = i) ?rs)))"
    using assms by (subst sum_list_distinct_conv_sum_set) (simp_all add: distinct_map inj_on_def)
  also have "\<dots> = sum_list (map ?f ?rs)"
    by (intro sum_by_key) (auto simp: in_operation_receipts)
  finally show ?thesis by (simp add: receipts_piastres_def)
qed

text \<open>C20. While a replenishment waits and once it is transferred, the amount printed on its letter is what the
  live receipts on its memos add up to today, to the piastre: no edit of a receipt or a memo, no
  deletion and no other letter can make the two differ.\<close>

theorem letter_is_its_receipts:
  assumes "fleet_reachable s" "d \<in> set (fs_operations s)" "in_force d"
    "receipts_piastres (operation_receipts s d) \<le> piastre_bound"
  shows "op_amount d = fromPiastres (receipts_piastres (operation_receipts s d))"
proof -
  have ok: "figures_ok s" "takes_ok s" "amounts_exact s" using fleet_reachable_ok [OF assms(1)] by (simp_all add: fleet_ok_def)
  have figure: "om_amount x = fromPiastres (receipts_piastres (memo_receipts s (om_memoId x)))"
    if "x \<in> set (op_memos d)" for x
    using ok(1) assms(2,3) that readMemoTotals_amount [of s "om_memoId x"] unfolding figures_ok_def
    by (metis snd_conv)
  have nn: "0 \<le> receipt_piastres (rc_amount r)" if "r \<in> set (fs_receipts s)" for r
    using ok(3) that receipt_piastres_nonneg [of "rc_amount r"] by (auto simp: amounts_exact_def exact_amount_def)
  have "toPiastres (om_amount x) = receipts_piastres (memo_receipts s (om_memoId x))" if x: "x \<in> set (op_memos d)" for x
  proof -
    have m: "memo_receipts s (om_memoId x) = filter (\<lambda>r. rc_memoId r = Some (om_memoId x)) (operation_receipts s d)"
      using x by (intro memo_receipts_of) simp
    have "receipts_piastres (memo_receipts s (om_memoId x)) \<le> receipts_piastres (operation_receipts s d)"
      unfolding m receipts_piastres_def using nn by (intro sum_list_filter_le) (simp add: in_operation_receipts)
    moreover have "0 \<le> receipts_piastres (memo_receipts s (om_memoId x))"
      unfolding receipts_piastres_def using nn by (intro sum_list_nonneg) (auto simp: memo_receipts_def)
    ultimately show ?thesis unfolding figure [OF x] using assms(4) by (intro toPiastres_fromPiastres) simp
  qed
  then have "sum_list (map (\<lambda>x. toPiastres (om_amount x)) (op_memos d)) = receipts_piastres (operation_receipts s d)"
    using operation_receipts_sum [OF takes_okD(2) [OF ok(2) assms(2,3)]] by (simp cong: map_cong)
  then show ?thesis using ok(1) assms(2,3) by (simp add: figures_ok_def)
qed

theorem letter_is_its_receipts_witness:
  "\<exists>d. fs_operations demo_store = [d] \<and> op_amount d = fromPiastres 2500"
proof -
  obtain terms where t: "fs_operations demo_store = [demo_letter terms]"
    "fs_receipts demo_store = [demo_receipt (Some 2)]" by (rule demo_store_has)
  have "2 \<in> om_memoId ` set (op_memos (demo_letter terms))"
    using demo_letter_fields(4) [of terms] by (metis list.set_intros(1) list.set_map)
  then have "receipts_piastres (operation_receipts demo_store (demo_letter terms)) = 2500"
    using t(2) by (simp add: operation_receipts_def receipts_piastres_def receipt_piastres_fromPiastres piastre_bound_def)
  then show ?thesis
    using t(1) letter_is_its_receipts [OF demo_reachable, of "demo_letter terms"] by (simp add: piastre_bound_def)
qed

section \<open>A letter is never rewritten\<close>

lemma printed_same [intro]: "d' = d \<Longrightarrow> printed d' = printed d"
  by simp

lemma event_operations:
  assumes "fleet_event s t" "d \<in> set (fs_operations s)"
  shows "\<exists>d' \<in> set (fs_operations t). printed d' = printed d \<and> (op_isDeleted d \<longrightarrow> d' = d) \<and>
    (op_status d' = op_status d \<or> \<not> op_isDeleted d \<and> op_kind d = ReplenishOp \<and> op_status d = Some HeldStatus \<and>
       op_status d' \<in> {Some DoneStatus, Some CancelledStatus})"
  using assms
proof (cases rule: fleet_event.cases)
  case (moved_on x b n)
  let ?P = "\<lambda>y. op_id y = op_id x \<and> \<not> op_isDeleted y \<and> op_kind y = ReplenishOp \<and> op_status y = Some HeldStatus"
  show ?thesis
  proof (cases "?P d")
    case True
    then have "bump_operation b (apply_leave n d) \<in> set (fs_operations t)"
      using assms(2) moved_on(5) by (auto simp: in_update_where)
    then show ?thesis using True
      by (intro bexI [of _ "bump_operation b (apply_leave n d)"]) (simp_all add: keeps split: leave_held.splits)
  next
    case False
    then show ?thesis using assms(2) moved_on(5) update_where_other [of d _ ?P] by auto
  qed
next
  case (deleted x g f)
  let ?P = "\<lambda>y. op_id y = op_id x \<and> \<not> op_isDeleted y"
  show ?thesis
  proof (cases "?P d")
    case True
    then have "g d \<in> set (fs_operations t)" using assms(2) deleted(5) by (auto simp: in_update_where)
    then show ?thesis using True deleted(3,4) by auto
  next
    case False
    then show ?thesis using assms(2) deleted(5) update_where_other [of d _ ?P] by auto
  qed
qed (use assms(2) in \<open>auto simp: quiet_change_def\<close>)

text \<open>What a letter printed is never rewritten, and its status only moves on: whatever request comes, an
  operation keeps its kind, day, period, amount, reason, memos, parts, signatures and the figures of
  the fund it was printed with; only a live replenishment that waits changes status, to transferred or
  cancelled; and a deleted operation stays as it is for good.\<close>

theorem letter_never_rewritten:
  assumes "fleet_reachable s" "valid_fleet_op req" "d \<in> set (fs_operations s)"
  shows "\<exists>d' \<in> set (fs_operations (run_fleet_op env req s)). printed d' = printed d \<and>
    (op_isDeleted d \<longrightarrow> d' = d) \<and>
    (op_status d' = op_status d \<or> \<not> op_isDeleted d \<and> op_kind d = ReplenishOp \<and> op_status d = Some HeldStatus \<and>
       op_status d' \<in> {Some DoneStatus, Some CancelledStatus})"
proof -
  obtain v where v: "fleet_event s v" "quiet_change v (run_fleet_op env req s)"
    using run_fleet_op_commits [OF fleet_reachable_ok [OF assms(1)] assms(2)] by blast
  then show ?thesis using event_operations [OF v(1) assms(3)] quiet_sel(3) [OF v(2)] by simp
qed

theorem letter_never_rewritten_witness:
  "\<exists>d. fs_operations demo_store = [d] \<and>
     (\<exists>d' \<in> set (fs_operations (run_fleet_op demo_env (DoCancel 3 ''lost'') demo_store)). printed d' = printed d)"
proof -
  obtain terms where t: "fs_operations demo_store = [demo_letter terms]" by (rule demo_store_has)
  then show ?thesis
    using letter_never_rewritten [OF demo_reachable, of "DoCancel 3 ''lost''" "demo_letter terms" demo_env] by auto
qed

section \<open>A licensing memo is settled once\<close>

text \<open>A part of a licensing memo is settled by at most one settlement in force, and the record names it; as
  long as it is settled the record cannot be edited or deleted.\<close>

theorem licence_part_settled_once:
  assumes "fleet_reachable s" "d \<in> set (fs_operations s)" "op_kind d = SettleOp" "\<not> op_isDeleted d"
    "listed_part d i part"
  shows "\<exists>e \<in> set (fs_expenses s). ex_id e = i \<and> \<not> ex_isDeleted e \<and> \<not> expense_writable e \<and>
    map_option es_operationId (settlementOf e part) = Some (op_id d) \<and>
    (\<forall>d' \<in> set (fs_operations s). op_kind d' = SettleOp \<and> \<not> op_isDeleted d' \<and> listed_part d' i part \<longrightarrow> d' = d)"
proof -
  have ok: "ids_distinct s" "settles_ok s" using fleet_reachable_ok [OF assms(1)] by (simp_all add: fleet_ok_def)
  have lists: "settlement d' \<longleftrightarrow> op_kind d' = SettleOp \<and> \<not> op_isDeleted d'" for d'
    by (auto simp: settlement_def)
  obtain e where e: "e \<in> set (fs_expenses s)" "ex_id e = i" "settled_by (op_id d) part e"
    using settles_okD(2) [OF ok(2) assms(2)] assms(3-5) lists by blast
  have "d' = d" if d': "d' \<in> set (fs_operations s)" "settlement d'" "listed_part d' i part" for d'
  proof -
    obtain e' where "e' \<in> set (fs_expenses s)" "ex_id e' = i" "settled_by (op_id d') part e'"
      using settles_okD(2) [OF ok(2) d'] by blast
    then have "settled_by (op_id d') part e" using expense_by_id [OF ok(1)] e(1,2) by metis
    then have "op_id d' = op_id d" using e(3) by (auto simp: settled_by_iff)
    then show ?thesis using operation_by_id [OF ok(1) d'(1) assms(2)] by simp
  qed
  moreover obtain x where x: "settlementOf e part = Some x" "es_operationId x = op_id d"
    using e(3) by (auto simp: settled_by_iff)
  moreover have "\<not> ex_isDeleted e" using settles_okD(1) [OF ok(2) e(1) x(1)] by blast
  moreover have "\<not> expense_writable e" using x(1) by (auto simp: writable_settlementOf)
  ultimately show ?thesis using e lists by (intro bexI [of _ e]) auto
qed

text \<open>One licensing memo with a renewal, and its settlement.\<close>

definition demo_part :: expense_part where
  "demo_part = \<lparr>xp_vehicles = [\<lparr>ev_vehicleId = Some 7, ev_plate = ''123''\<rparr>], xp_items = []\<rparr>"

definition demo_licence_requests :: "fleet_op list" where
  "demo_licence_requests =
     [DoCreateExpense \<lparr>ein_date = 0, ein_renewal = Some demo_part, ein_extension = None,
        ein_signatures = \<lparr>xs_agent = [], xs_director = [], xs_generalManager = []\<rparr>\<rparr>,
      DoSettle \<lparr>si_date = None, si_from = None, si_to = None, si_parts = [(1, RenewalPart)]\<rparr>]"

definition demo_settled :: fleet_store where
  "demo_settled = run_fleet_ops demo_env demo_licence_requests (empty_fleet_store [])"

lemma demo_settled_has:
  "\<exists>d. fs_operations demo_settled = [d] \<and> op_kind d = SettleOp \<and> \<not> op_isDeleted d \<and> listed_part d 1 RenewalPart"
  by (simp add: demo_settled_def demo_licence_requests_def demo_env_def empty_fleet_store_def store_after_def
      create_expense_def settle_def settle_tx_def st_defs freshOid_def ensureFundLock_def unitOfWork_def
      lockFund_def fleet_effect_def find_expense_def insert_operation_def raise_counter_def markSettled_def
      write_where_def update_expenses_def update_where_def bump_expense_def part_snapshot_def
      new_operation_def listed_part_def case_prod_unfold demo_part_def Let_def cong del: option.case_cong)

theorem licence_part_settled_once_witness:
  "\<exists>d. fs_operations demo_settled = [d] \<and> (\<exists>e \<in> set (fs_expenses demo_settled).
     map_option es_operationId (settlementOf e RenewalPart) = Some (op_id d))"
proof -
  obtain d where d: "fs_operations demo_settled = [d]" "op_kind d = SettleOp" "\<not> op_isDeleted d"
      "listed_part d 1 RenewalPart"
    using demo_settled_has by blast
  have "fleet_reachable demo_settled"
    unfolding demo_settled_def
    by (intro run_fleet_ops_reachable fleet_reachable.init) (simp add: demo_licence_requests_def)
  then show ?thesis using licence_part_settled_once [of demo_settled d 1 RenewalPart] d by auto
qed

section \<open>What a deletion says it does to the fund\<close>

lemma live_after_mark:
  assumes "ids_distinct s" "d \<in> set (fs_operations s)" "\<And>x. op_isDeleted (g x)"
    "fs_operations t = update_where (\<lambda>x. op_id x = op_id d \<and> \<not> op_isDeleted x \<and> op_version x = op_version d) g (fs_operations s)"
  shows "live_operations t = filter (\<lambda>x. x \<noteq> d) (live_operations s)"
proof -
  have "filter (\<lambda>x. \<not> op_isDeleted x) (map (\<lambda>x. if op_id x = op_id d \<and> \<not> op_isDeleted x \<and> op_version x = op_version d
        then g x else x) xs) = filter (\<lambda>x. x \<noteq> d) (filter (\<lambda>x. \<not> op_isDeleted x) xs)"
    if "set xs \<subseteq> set (fs_operations s)" for xs
    using that operation_by_id [OF assms(1) _ assms(2)] assms(3) by (induction xs) auto
  then show ?thesis by (simp add: live_operations_def assms(4) update_where_def)
qed

lemma sum_list_without:
  fixes f :: "'a \<Rightarrow> int"
  assumes "distinct xs"
  shows "sum_list (map f (filter (\<lambda>x. x \<noteq> d) xs)) = sum_list (map f xs) - (if d \<in> set xs then f d else 0)"
proof -
  have "filter (\<lambda>x. x \<noteq> d) ys = ys" if "d \<notin> set ys" for ys using that by (induction ys) auto
  then show ?thesis using assms by (induction xs) auto
qed

lemma fund_terms_same:
  "fs_operations t = fs_operations s \<Longrightarrow> fs_receipts t = fs_receipts s \<Longrightarrow> readCustodyFundTerms t = readCustodyFundTerms s"
  by (simp add: readCustodyFundTerms_def op_count_of_def operation_sums_of_def operation_group_def live_operations_def
      readReceiptSums_def Let_def)

lemma remove_tx_ledger:
  assumes "remove_tx env i v reason u = (t, Inr (d, del, ms, ps))"
  shows "find_operation i u = Some d \<and> del = deletion_of env reason (ft_fundTotal (readCustodyFundTerms u)) d \<and>
    fs_receipts t = fs_receipts u \<and> (\<exists>g. (\<forall>x. op_isDeleted (g x)) \<and>
      fs_operations t = update_where (\<lambda>x. op_id x = op_id d \<and> \<not> op_isDeleted x \<and> op_version x = op_version d) g
        (fs_operations u))"
proof -
  define k where "k = fst (lockFund u)"
  obtain k1 k2 where d: "find_operation i k = Some d" "op_version d = v"
    and del: "del = deletion_of env reason (ft_fundTotal (readCustodyFundTerms k)) d"
    and k1: "(if op_kind d = ReplenishOp then releaseReplenishment (op_id d) (ce_user env) else st_return []) k = (k1, Inr ms)"
    and k2: "(if op_kind d = SettleOp then releaseParts (op_id d) (ce_user env) else st_return []) k1 = (k2, Inr ps)"
    and t: "markDeleted (op_id d) v del (ce_user env) k2 = (t, Inr True)"
    using assms by (clarsimp simp: remove_tx_def runs k_def Let_def)
  have k: "fs_operations k = fs_operations u" "fs_receipts k = fs_receipts u"
    by (simp_all add: k_def lockFund_def split: option.splits)
  have "fs_operations k1 = fs_operations k" "fs_receipts k1 = fs_receipts k"
    using k1 by (auto simp: releaseReplenishment_def Let_def update_memos_def run_Inr split: if_splits)
  moreover have "fs_operations k2 = fs_operations k1 \<and> fs_receipts k2 = fs_receipts k1"
    using k2 releaseParts_run [of "op_id d" "ce_user env" k1 k2 ps]
    by (cases "op_kind d = SettleOp") (auto simp: run_Inr)
  ultimately have "fs_operations k2 = fs_operations u" "fs_receipts k2 = fs_receipts u" using k by simp_all
  moreover have "find_operation i u = Some d" using d k by (simp add: find_operation_def)
  moreover have "readCustodyFundTerms k = readCustodyFundTerms u" using k by (intro fund_terms_same)
  ultimately show ?thesis using t d(2) del
    by (auto simp: markDeleted_def update_operations_def
        intro!: exI [of _ "\<lambda>d. (bump_operation (Some (ce_user env)) d)\<lparr>op_isDeleted := True, op_deletedAt := Some (xd_at del),
          op_deletedBy := xd_by del, op_deletion := Some del\<rparr>"])
qed

lemma group_without:
  assumes "live_operations t = filter (\<lambda>x. x \<noteq> d) (live_operations s)" "distinct (live_operations s)"
    "d \<in> set (live_operations s)"
  shows "group_piastres k st t = group_piastres k st s -
    (if op_kind d = k \<and> operationStatusOf d = st then toPiastres (op_amount d) else 0)"
proof -
  let ?P = "\<lambda>x. op_kind x = k \<and> operationStatusOf x = st"
  have "operation_group k st t = filter (\<lambda>x. x \<noteq> d) (operation_group k st s)"
    by (auto simp: operation_group_def assms(1) conj_commute intro: filter_cong)
  moreover have "distinct (operation_group k st s)" "d \<in> set (operation_group k st s) \<longleftrightarrow> op_kind d = k \<and> operationStatusOf d = st"
    using assms(2,3) by (auto simp: operation_group_def)
  ultimately show ?thesis
    using sum_list_without [of "operation_group k st s" "\<lambda>d. toPiastres (op_amount d)" d]
    by (simp add: group_piastres_def)
qed

lemma range_without:
  assumes "fund_in_range s" "live_operations t = filter P (live_operations s)" "fs_receipts t = fs_receipts s"
  shows "fund_in_range t"
  using assms sum_list_filter_le [of "live_operations s" "\<lambda>d. toPiastres (op_amount d)" P]
  by (force simp: fund_in_range_def piastre_amount_def)

text \<open>The sheet of deleted operations tells the truth: the fund it prints before a deletion is the fund the
  figures showed, and the fund it prints after, worked out from the one operation, is the fund the
  figures show once it is gone.\<close>

theorem deletion_figures:
  assumes "fleet_reachable s" "fund_in_range s"
    "remove_operation env opId version reason s = (t, Inr (d, deletion, memos, parts))"
  shows "xd_fundBefore deletion = ft_fundTotal (readCustodyFundTerms s) \<and>
    xd_fundAfter deletion = ft_fundTotal (readCustodyFundTerms t)"
proof -
  have ok: "ids_distinct s" "\<forall>d \<in> set (fs_operations s). kind_ok d"
    using fleet_reachable_ok [OF assms(1)] by (simp_all add: fleet_ok_def)
  obtain u y w where u: "ensureFundLock s = (u, Inr y)"
    and w: "remove_tx env opId version reason u = (w, Inr (d, deletion, memos, parts))" "quiet_change w t"
  proof -
    obtain u y w z where run: "ensureFundLock s = (u, Inr y)"
        "unitOfWork (remove_tx env opId version reason) u = (w, Inr z)"
        "(case z of (d, deletion, memos, parts) \<Rightarrow>
           st_bind (fleet_effect (FleetAudit ''custodyOperation'' (op_id d) ''delete'')) (\<lambda>_.
           st_bind (st_each (\<lambda>m. fleet_effect (FleetAudit ''custodyMemo'' (me_id m) ''statusChange'')) memos) (\<lambda>_.
           st_bind (st_each (\<lambda>i. fleet_effect (FleetAudit ''licenseExpense'' i ''statusChange''))
             (remdups (map fst parts))) (\<lambda>_.
           st_bind (if memos = [] then st_return () else fleet_effect (ReceiptsSignal (op_id d))) (\<lambda>_.
           st_return (d, deletion, memos, parts)))))) w = (t, Inr (d, deletion, memos, parts))"
      using assms(3) unfolding remove_operation_def bind_Inr by blast
    have "z = (d, deletion, memos, parts)" using run(3) by (auto simp: runs split: prod.splits)
    moreover have "quiet_change w t"
      using run(3) by (rule quiet_runD [rotated]) (auto intro!: quiet_rules split: prod.splits)
    ultimately show thesis using that run(1,2) by (simp add: unitOfWork_Inr)
  qed
  have su: "quiet_change s u" using quiet_runD [OF quiet_basic(8) u] .
  note same = quiet_sel [OF su] quiet_sel [OF w(2)]
  have terms: "readCustodyFundTerms u = readCustodyFundTerms s" using same by (intro fund_terms_same)
  obtain g where found: "find_operation opId s = Some d"
    and del: "deletion = deletion_of env reason (ft_fundTotal (readCustodyFundTerms s)) d"
    and receipts: "fs_receipts t = fs_receipts s" and g: "\<And>x. op_isDeleted (g x)"
    and ops: "fs_operations t = update_where (\<lambda>x. op_id x = op_id d \<and> \<not> op_isDeleted x \<and> op_version x = op_version d) g
        (fs_operations s)"
    using remove_tx_ledger [OF w(1)] same terms by (auto simp: find_operation_def)
  have d: "d \<in> set (fs_operations s)" "\<not> op_isDeleted d" using find_operation_Some [OF found] by simp_all
  have live: "live_operations t = filter (\<lambda>x. x \<noteq> d) (live_operations s)"
    by (rule live_after_mark [OF ok(1) d(1) g ops])
  have "distinct (fs_operations s)" using ok(1) by (auto simp: ids_distinct_def distinct_map)
  then have "distinct (live_operations s)" "d \<in> set (live_operations s)"
    using d by (simp_all add: live_operations_def)
  note without = group_without [OF live this]
  have range: "fund_in_range t" by (rule range_without [OF assms(2) live receipts])
  let ?total = "group_piastres ChargeOp DoneStatus s + group_piastres ReplenishOp DoneStatus s -
      group_piastres SettleOp DoneStatus s - receipts_piastres (filter custody_receipt (fs_receipts s))"
  have "0 \<le> receipts_piastres (filter custody_receipt (fs_receipts s))"
    unfolding receipts_piastres_def using assms(2)
    by (intro sum_list_nonneg) (auto simp: fund_in_range_def intro: receipt_piastres_nonneg)
  then have "\<bar>?total\<bar> \<le> piastre_bound"
    using op_count_amount(2,3) [OF assms(2), of ChargeOp DoneStatus] op_count_amount(2,3) [OF assms(2), of ReplenishOp DoneStatus]
      op_count_amount(2,3) [OF assms(2), of SettleOp DoneStatus] assms(2)
    by (intro abs_leI) (simp_all add: fund_in_range_def piastre_bound_def)
  then have exact: "toPiastres (fromPiastres ?total) = ?total" by (rule toPiastres_fromPiastres)
  have settled: "op_kind d \<noteq> ReplenishOp \<Longrightarrow> operationStatusOf d = DoneStatus"
    using ok(2) d(1) by (auto simp: kind_ok_def operationStatusOf_def)
  have "group_piastres ChargeOp DoneStatus t + group_piastres ReplenishOp DoneStatus t -
      group_piastres SettleOp DoneStatus t - receipts_piastres (filter custody_receipt (fs_receipts t)) =
      ?total + deletionEffectPiastres d"
    using settled by (cases "op_kind d") (simp_all add: without receipts deletionEffectPiastres_def Let_def)
  then show ?thesis
    unfolding fundTotal_piastres [OF range] del deletion_of_def fundAfterDeleteOf_def
    by (simp only: fundTotal_piastres [OF assms(2)] exact operation_deletion.simps simp_thms)
qed

definition demo_charge :: "fleet_op" where
  "demo_charge = DoCharge \<lparr>ci_date = None, ci_amount = fromPiastres 10000, ci_reason = ''fuel''\<rparr>"

definition demo_charged :: fleet_store where
  "demo_charged = run_fleet_op demo_env demo_charge (empty_fleet_store [])"

lemma demo_charged_eq:
  "\<exists>d n effects. demo_charged = (empty_fleet_store [])\<lparr>fs_operations := [d], fs_fundSeq := Some n, fs_nextOid := 2,
      fs_effects := effects\<rparr> \<and>
    op_id d = 1 \<and> op_kind d = ChargeOp \<and> op_version d = 0 \<and> \<not> op_isDeleted d \<and> op_amount d = fromPiastres 10000"
  by (simp add: demo_charged_def demo_charge_def store_after_def charge_def st_defs ensureFundLock_def freshOid_def
      unitOfWork_def lockFund_def insert_operation_def fleet_effect_def raise_counter_def empty_fleet_store_def
      new_operation_def demo_env_def toPiastres_fromPiastres piastre_bound_def)

lemma demo_charged_in_range: "fund_in_range demo_charged"
proof -
  obtain d n effects where "demo_charged = (empty_fleet_store [])\<lparr>fs_operations := [d], fs_fundSeq := Some n,
      fs_nextOid := 2, fs_effects := effects\<rparr>" "op_amount d = fromPiastres 10000"
    using demo_charged_eq by blast
  note c = this
  show ?thesis
    unfolding c(1) using c(2)
    by (simp add: fund_in_range_def empty_fleet_store_def live_operations_def piastre_amountI toPiastres_fromPiastres
        receipts_piastres_def piastre_bound_def)
qed

theorem deletion_figures_witness:
  "\<exists>t d deletion memos parts.
     remove_operation demo_env 1 0 ''mistake'' demo_charged = (t, Inr (d, deletion, memos, parts)) \<and>
     xd_fundAfter deletion = ft_fundTotal (readCustodyFundTerms t)"
proof -
  have "fleet_reachable demo_charged"
    using run_fleet_ops_reachable [OF fleet_reachable.init, of "[demo_charge]" demo_env "[]"] exact_piastres [of 10000]
    by (simp add: demo_charge_def demo_charged_def piastre_bound_def exact_amount_def)
  moreover have "\<exists>t d deletion memos parts.
      remove_operation demo_env 1 0 ''mistake'' demo_charged = (t, Inr (d, deletion, memos, parts))"
  proof -
    obtain d n effects where "demo_charged = (empty_fleet_store [])\<lparr>fs_operations := [d], fs_fundSeq := Some n,
        fs_nextOid := 2, fs_effects := effects\<rparr>" "op_id d = 1" "op_kind d = ChargeOp" "op_version d = 0" "\<not> op_isDeleted d"
      using demo_charged_eq by blast
    note c = this
    show ?thesis
      unfolding c(1) using c(2-)
      by (simp add: remove_operation_def remove_tx_def st_defs ensureFundLock_def unitOfWork_def lockFund_def
          find_operation_def empty_fleet_store_def fleet_effect_def raise_counter_def markDeleted_def
          update_operations_def Let_def)
  qed
  ultimately show ?thesis using deletion_figures [OF _ demo_charged_in_range] by blast
qed

end
