(* ===== verification/Custody_Refusals.thy ===== *)
theory Custody_Refusals
  imports Custody_Claims
begin

text \<open>
  A refused request leaves no trace. The proof walks down each handler: what runs before the transaction
  only reads and counts, the transaction takes back what it wrote, and what follows it cannot fail.
\<close>

definition refusal_of :: "(fleet_store, 'a) st \<Rightarrow> fleet_store \<Rightarrow> app_error option" where
  "refusal_of m s = (case snd (m s) of Inl e \<Rightarrow> Some e | Inr _ \<Rightarrow> None)"

fun fleet_refusal :: "custody_env \<Rightarrow> fleet_op \<Rightarrow> fleet_store \<Rightarrow> app_error option" where
  "fleet_refusal env (DoCreateReceipt i) = refusal_of (create_receipt env i)"
| "fleet_refusal env (DoUpdateReceipt d e) = refusal_of (update_receipt env d e)"
| "fleet_refusal env (DoRemoveReceipt d) = refusal_of (remove_receipt env d)"
| "fleet_refusal env (DoCreateMemo i) = refusal_of (create_memo env i)"
| "fleet_refusal env (DoUpdateMemo d i v) = refusal_of (update_memo env d i v)"
| "fleet_refusal env (DoRemoveMemo d) = refusal_of (remove_memo env d)"
| "fleet_refusal env (DoCharge i) = refusal_of (charge env i)"
| "fleet_refusal env (DoReplenish i) = refusal_of (replenish env i)"
| "fleet_refusal env (DoSettle i) = refusal_of (settle env i)"
| "fleet_refusal env (DoConfirm d i) = refusal_of (confirmTransfer env d i)"
| "fleet_refusal env (DoCancel d r) = refusal_of (cancelHeld env d r)"
| "fleet_refusal env (DoDelete d v r) = refusal_of (remove_operation env d v r)"
| "fleet_refusal env (DoCreateExpense i) = refusal_of (create_expense env i)"
| "fleet_refusal env (DoUpdateExpense d i v) = refusal_of (update_expense env d i v)"
| "fleet_refusal env (DoRemoveExpense d) = refusal_of (remove_expense env d)"

text \<open>Everything but the three counters as it was.\<close>

definition untouched :: "fleet_store \<Rightarrow> fleet_store \<Rightarrow> bool" where
  "untouched s t \<longleftrightarrow>
     t\<lparr>fs_memoSeq := None, fs_fundSeq := None, fs_nextOid := 0\<rparr> = s\<lparr>fs_memoSeq := None, fs_fundSeq := None, fs_nextOid := 0\<rparr>"

lemma untouched_refl [simp]: "untouched s s"
  by (simp add: untouched_def)

lemma untouched_trans: "untouched s t \<Longrightarrow> untouched t u \<Longrightarrow> untouched s u"
  by (simp add: untouched_def)

definition only_counts :: "(fleet_store, 'a) st \<Rightarrow> bool" where
  "only_counts m \<longleftrightarrow> (\<forall>s. untouched s (fst (m s)))"

definition never_fails :: "(fleet_store, 'a) st \<Rightarrow> bool" where
  "never_fails m \<longleftrightarrow> (\<forall>s. \<exists>t x. m s = (t, Inr x))"

definition refuses_cleanly :: "(fleet_store, 'a) st \<Rightarrow> bool" where
  "refuses_cleanly m \<longleftrightarrow> (\<forall>s t e. m s = (t, Inl e) \<longrightarrow> untouched s t)"

lemma only_countsD: "only_counts m \<Longrightarrow> m s = (t, r) \<Longrightarrow> untouched s t"
  unfolding only_counts_def by (metis fst_conv)

lemma bind_cases:
  "st_bind m f s = (t, r) \<longleftrightarrow>
     (\<exists>u x. m s = (u, Inr x) \<and> f x u = (t, r)) \<or> (\<exists>e. m s = (t, Inl e) \<and> r = Inl e)"
  by (cases "m s"; cases "snd (m s)") (auto simp: st_bind_def)

lemma only_counts_bind:
  assumes "only_counts m" "\<And>x. only_counts (f x)"
  shows "only_counts (st_bind m f)"
  unfolding only_counts_def
proof
  fix s
  obtain t r where t: "st_bind m f s = (t, r)" by (cases "st_bind m f s")
  then have "untouched s t"
    using only_countsD [OF assms(1)] only_countsD [OF assms(2)] untouched_trans
    unfolding bind_cases by metis
  then show "untouched s (fst (st_bind m f s))" using t by simp
qed

lemma only_counts_basic:
  "only_counts (st_return x)" "only_counts (st_throw e)" "only_counts (st_lift r)" "only_counts (st_gets g)"
  "only_counts (st_ensure c e)" "only_counts freshOid" "only_counts ensureFundLock" "only_counts ensureCustodyMemoCounter"
  by (auto simp: only_counts_def st_defs freshOid_def ensureFundLock_def ensureCustodyMemoCounter_def untouched_def)

lemma only_counts_option: "only_counts m \<Longrightarrow> (\<And>x. only_counts (f x)) \<Longrightarrow> only_counts (case v of None \<Rightarrow> m | Some x \<Rightarrow> f x)"
  by (cases v) simp_all

lemma never_fails_bind: "never_fails m \<Longrightarrow> (\<And>x. never_fails (f x)) \<Longrightarrow> never_fails (st_bind m f)"
  unfolding never_fails_def bind_cases by metis

lemma never_fails_each: "(\<And>x. never_fails (f x)) \<Longrightarrow> never_fails (st_each f xs)"
  by (induction xs) (simp_all add: never_fails_bind, simp add: never_fails_def st_return_def)

lemma never_fails_basic:
  "never_fails (st_return x)" "never_fails (fleet_effect ef)" "never_fails (st_modify h)"
  by (simp_all add: never_fails_def st_return_def st_modify_def fleet_effect_def)

lemma never_fails_if: "never_fails m \<Longrightarrow> never_fails n \<Longrightarrow> never_fails (if c then m else n)"
  by simp

lemma never_fails_option: "never_fails m \<Longrightarrow> (\<And>x. never_fails (f x)) \<Longrightarrow> never_fails (case v of None \<Rightarrow> m | Some x \<Rightarrow> f x)"
  by (cases v) simp_all

lemma refuses_bind: "only_counts m \<Longrightarrow> (\<And>x. refuses_cleanly (f x)) \<Longrightarrow> refuses_cleanly (st_bind m f)"
  unfolding refuses_cleanly_def bind_cases using only_countsD untouched_trans by metis

lemma refuses_last: "refuses_cleanly m \<Longrightarrow> (\<And>x. never_fails (f x)) \<Longrightarrow> refuses_cleanly (st_bind m f)"
  unfolding refuses_cleanly_def never_fails_def bind_cases by (metis Inl_Inr_False prod.inject)

text \<open>The last step that may fail: a transaction, a conditional write, a plain write.\<close>

lemma refuses_unitOfWork: "refuses_cleanly (unitOfWork m)"
  unfolding refuses_cleanly_def by (metis unitOfWork_Inl untouched_refl)

lemma refuses_write_expense: "refuses_cleanly (write_expense i P f e)"
  by (simp add: refuses_cleanly_def write_expense_def)

lemma refuses_modify: "refuses_cleanly (st_modify h)"
  by (simp add: refuses_cleanly_def st_modify_def)

lemma only_counts_prepare: "only_counts (prepare env f)"
  unfolding prepare_def by (intro only_counts_bind only_counts_basic only_counts_option)

lemma never_fails_audit: "never_fails (audit_move d)"
  unfolding audit_move_def by (intro never_fails_bind never_fails_each never_fails_basic never_fails_if)

lemmas refusal_rules = only_counts_basic [THEN refuses_bind] only_counts_prepare [THEN refuses_bind]
  refuses_unitOfWork [THEN refuses_last] refuses_write_expense [THEN refuses_last] refuses_modify [THEN refuses_last]
  never_fails_bind never_fails_each never_fails_basic never_fails_if never_fails_option never_fails_audit

lemma handlers_refuse_cleanly:
  "refuses_cleanly (create_receipt env ri)" "refuses_cleanly (update_receipt env i re)"
  "refuses_cleanly (remove_receipt env i)" "refuses_cleanly (create_memo env mi)"
  "refuses_cleanly (update_memo env i mi v)" "refuses_cleanly (remove_memo env i)"
  "refuses_cleanly (charge env ci)" "refuses_cleanly (replenish env rep)" "refuses_cleanly (settle env si)"
  "refuses_cleanly (confirmTransfer env i ti)" "refuses_cleanly (cancelHeld env i reason)"
  "refuses_cleanly (remove_operation env i v reason)" "refuses_cleanly (create_expense env ei)"
  "refuses_cleanly (update_expense env i ei v)" "refuses_cleanly (remove_expense env i)"
  unfolding create_receipt_def update_receipt_def remove_receipt_def create_memo_def update_memo_def remove_memo_def
    charge_def replenish_def settle_def confirmTransfer_def cancelHeld_def leaveHeld_def remove_operation_def
    create_expense_def update_expense_def remove_expense_def Let_def case_prod_unfold
  by (intro refusal_rules)+

lemma refused_untouched:
  "refuses_cleanly m \<Longrightarrow> refusal_of m s = Some e \<Longrightarrow> untouched s (store_after m s)"
  by (cases "m s") (auto simp: refuses_cleanly_def refusal_of_def store_after_def split: sum.splits)

text \<open>C27. A refused request leaves no trace: whatever the error, and however far the handler had come, the
  receipts, memos, operations, licensing records, fuel cards and their movements are as they were, and
  no audit record and no signal was sent; at most a counter moved on.\<close>

theorem refused_request_leaves_no_trace:
  assumes "fleet_refusal env req s = Some e"
  shows "untouched s (run_fleet_op env req s)"
  using assms
  by (cases req) (simp_all add: handlers_refuse_cleanly [THEN refused_untouched])

text \<open>A receipt on a memo cannot be removed; the lock the guard took on the memo is taken back.\<close>

lemma demo_refused:
  "fleet_refusal demo_env (DoRemoveReceipt 1) demo_with_memo =
     Some (BusinessRuleError ''take the receipt off its memo first'')"
  by (simp add: refusal_of_def remove_receipt_def st_defs find_live_receipt_def unitOfWork_def
      assertReceiptRemovable_def holdingMemo_def lockForReceipt_def update_memos_def update_where_def
      find_memo_def memo_replenished_def demo_with_memo_def demo_with_receipt_def demo_receipt_def demo_memo_def
      empty_fleet_store_def)

lemma untouched_memos: "untouched s t \<Longrightarrow> fs_memos t = fs_memos s"
  by (cases s; cases t) (simp add: untouched_def)

theorem refused_request_leaves_no_trace_witness:
  "fs_memos (run_fleet_op demo_env (DoRemoveReceipt 1) demo_with_memo) = fs_memos demo_with_memo"
  using untouched_memos [OF refused_request_leaves_no_trace [OF demo_refused]] .

end
