(* ===== verification/Attendance_Quantities.thy ===== *)
theory Attendance_Quantities
  imports Business_Date
begin

text \<open>
  Frozen attendance as quantities: \<open>payroll/compensation/attendance-quantities.ts\<close>, with the feed row
  and the day statuses of \<open>packages/contracts/src/modules/hr-attendance.ts\<close> and the quantity sources of
  \<open>hr-payroll.ts\<close>. A row keeps the fields the counting reads. Its minute fields are integers; their
  sums stay far below \<open>2^53\<close>, so the sum of doubles is the sum of integers.
\<close>

datatype attendance_day_status =
    DayPresent
  | DayLate
  | DayEarlyLeave
  | DayLateAndEarly
  | DayAbsent
  | DayOnLeave
  | DayWeekend
  | DayHoliday
  | DayIncomplete
  | DayDayOff

datatype quantity_source =
    AttendedDays
  | AbsentDays
  | LeaveDays
  | WorkedMinutes
  | LateMinutes
  | EarlyLeaveMinutes
  | ApprovedOvertimeMinutes

datatype quantity_unit = UnitDays | UnitMinutes

record feed_row =
  fr_workDate :: string
  fr_status :: attendance_day_status
  fr_workedMinutes :: int
  fr_lateMinutes :: int
  fr_earlyLeaveMinutes :: int
  fr_approvedOvertimeMinutes :: int
  fr_frozenAt :: string

text \<open>One period's frozen rows of one employee.\<close>

record frozen_attendance =
  fa_rows :: "feed_row list"
  fa_frozenAt :: "string option"

definition ATTENDED_STATUSES :: "attendance_day_status list" where
  "ATTENDED_STATUSES = [DayPresent, DayLate, DayEarlyLeave, DayLateAndEarly]"

fun contribution :: "quantity_source \<Rightarrow> feed_row \<Rightarrow> int" where
  "contribution AttendedDays r = (if fr_status r \<in> set ATTENDED_STATUSES then 1 else 0)"
| "contribution AbsentDays r = (if fr_status r = DayAbsent then 1 else 0)"
| "contribution LeaveDays r = (if fr_status r = DayOnLeave then 1 else 0)"
| "contribution WorkedMinutes r = fr_workedMinutes r"
| "contribution LateMinutes r = fr_lateMinutes r"
| "contribution EarlyLeaveMinutes r = fr_earlyLeaveMinutes r"
| "contribution ApprovedOvertimeMinutes r = fr_approvedOvertimeMinutes r"

fun unitOf :: "quantity_source \<Rightarrow> quantity_unit" where
  "unitOf AttendedDays = UnitDays"
| "unitOf AbsentDays = UnitDays"
| "unitOf LeaveDays = UnitDays"
| "unitOf WorkedMinutes = UnitMinutes"
| "unitOf LateMinutes = UnitMinutes"
| "unitOf EarlyLeaveMinutes = UnitMinutes"
| "unitOf ApprovedOvertimeMinutes = UnitMinutes"

text \<open>Both ends included; \<open>None\<close> as the end is no upper bound.\<close>

definition window_covers :: "date_span \<Rightarrow> instant \<Rightarrow> bool" where
  "window_covers w day \<longleftrightarrow> span_from w \<le> day \<and> (case span_to w of None \<Rightarrow> True | Some t \<Rightarrow> t \<ge> day)"

definition employed :: "date_span list \<Rightarrow> instant \<Rightarrow> bool" where
  "employed spans day \<longleftrightarrow> (\<exists>sp \<in> set spans. window_covers sp day)"

definition row_day :: "feed_row \<Rightarrow> instant" where
  "row_day r = toDateOnly (date_of_iso (fr_workDate r))"

fun quantity_from ::
  "int \<Rightarrow> feed_row list \<Rightarrow> quantity_source \<Rightarrow> date_span \<Rightarrow> date_span list \<Rightarrow> app_error + int" where
  "quantity_from acc [] source inForce spans = Inr acc"
| "quantity_from acc (r # rows) source inForce spans =
     (if \<not> window_covers inForce (row_day r) then quantity_from acc rows source inForce spans
      else if \<not> employed spans (row_day r) then quantity_from acc rows source inForce spans
      else if contribution source r < 0 then Inl (RangeError ''attendance quantity is negative'')
      else quantity_from (acc + contribution source r) rows source inForce spans)"

definition quantityFor ::
  "feed_row list \<Rightarrow> quantity_source \<Rightarrow> date_span \<Rightarrow> date_span list \<Rightarrow> app_error + int" where
  "quantityFor rows source inForce spans = quantity_from 0 rows source inForce spans"

section \<open>Facts\<close>

lemma window_covers_span [simp]: "window_covers = span_covers"
  by (intro ext) (simp add: window_covers_def span_covers_def)

text \<open>The rows that count.\<close>

definition counted_rows :: "date_span \<Rightarrow> date_span list \<Rightarrow> feed_row list \<Rightarrow> feed_row list" where
  "counted_rows inForce spans rows =
     filter (\<lambda>r. span_covers inForce (row_day r) \<and> employed spans (row_day r)) rows"

lemma quantity_from_eq:
  "quantity_from t rows source inForce spans =
     (if \<forall>r \<in> set (counted_rows inForce spans rows). 0 \<le> contribution source r
      then Inr (t + sum_list (map (contribution source) (counted_rows inForce spans rows)))
      else Inl (RangeError ''attendance quantity is negative''))"
  by (induction rows arbitrary: t) (auto simp: counted_rows_def)

text \<open>The minute fields of a feed row are non-negative by contract.\<close>

definition feed_row_ok :: "feed_row \<Rightarrow> bool" where
  "feed_row_ok r \<longleftrightarrow> 0 \<le> fr_workedMinutes r \<and> 0 \<le> fr_lateMinutes r \<and>
     0 \<le> fr_earlyLeaveMinutes r \<and> 0 \<le> fr_approvedOvertimeMinutes r"

lemma contribution_nonneg: "feed_row_ok r \<Longrightarrow> 0 \<le> contribution source r"
  by (cases source) (simp_all add: feed_row_ok_def)

lemma quantityFor_ok:
  assumes "\<forall>r \<in> set rows. feed_row_ok r"
  shows "quantityFor rows source inForce spans =
    Inr (sum_list (map (contribution source) (counted_rows inForce spans rows)))"
  using assms contribution_nonneg
  by (simp add: quantityFor_def quantity_from_eq) (auto simp: counted_rows_def)

lemma quantityFor_nonneg:
  "quantityFor rows source inForce spans = Inr q \<Longrightarrow> 0 \<le> q"
  by (auto simp: quantityFor_def quantity_from_eq intro!: sum_list_nonneg split: if_splits)

end
