(* ===== verification/Payroll_Money.thy ===== *)
theory Payroll_Money
  imports Js_Number
begin

text \<open>
  Money as payroll counts it: \<open>packages/contracts/src/modules/hr-payroll-money.ts\<close>. An amount is
  converted once to an integer number of minor units (hundredths) and every sum is a sum of
  integers. \<open>toMinorUnits\<close> reads the digits \<open>String(Math.abs(amount))\<close> prints, so a number is
  modelled here as those digits: a sign, the whole part and the decimal digits after the point.
  \<open>fromMinorUnits\<close> divides by 100; the shortest decimal of that quotient has at most two decimal
  places for every safe integer (two such decimals are further apart than two doubles of that
  size), so the model writes them down.
\<close>

datatype jsnum =
    NotANumber
  | Infinite bool
  | Finite bool nat "nat list"

fun fraction_value :: "nat list \<Rightarrow> rat" where
  "fraction_value [] = 0"
| "fraction_value (d # ds) = (of_nat d + fraction_value ds) / 10"

definition abs_value :: "nat \<Rightarrow> nat list \<Rightarrow> rat" where
  "abs_value w ds = of_nat w + fraction_value ds"

text \<open>The decimal value, and the double it denotes.\<close>

fun num_value :: "jsnum \<Rightarrow> rat" where
  "num_value (Finite neg w ds) = (if neg then - abs_value w ds else abs_value w ds)"
| "num_value _ = 0"

definition num_double :: "jsnum \<Rightarrow> rat" where
  "num_double x = fl (num_value x)"

fun is_finite :: "jsnum \<Rightarrow> bool" where
  "is_finite (Finite _ _ _) = True"
| "is_finite _ = False"

text \<open>The digits of a number are decimal digits.\<close>

fun num_wf :: "jsnum \<Rightarrow> bool" where
  "num_wf (Finite neg w ds) = (\<forall>d \<in> set ds. d < 10)"
| "num_wf _ = True"

definition MONEY_MINOR_UNITS_PER_UNIT :: int where
  "MONEY_MINOR_UNITS_PER_UNIT = 100"

definition MONEY_MAX_AMOUNT :: rat where
  "MONEY_MAX_AMOUNT = 1000000000000"

definition NEGLIGIBLE :: rat where
  "NEGLIGIBLE = 1 / 1000000"

fun toMinorUnits :: "jsnum \<Rightarrow> app_error + int" where
  "toMinorUnits NotANumber = Inl (RangeError ''an amount must be a finite number'')"
| "toMinorUnits (Infinite _) = Inl (RangeError ''an amount must be a finite number'')"
| "toMinorUnits (Finite neg whole fraction) =
     (if MONEY_MAX_AMOUNT < abs_value whole fraction then Inl (RangeError ''amount out of range'')
      else if abs_value whole fraction < NEGLIGIBLE then Inr 0
      else let sgn = (if neg then - 1 else 1);
               digits = fraction @ [0, 0, 0];
               kept = 10 * digits ! 0 + digits ! 1;
               roundUp = (if 5 \<le> digits ! 2 then 1 else 0)
           in Inr (sgn * (int whole * MONEY_MINOR_UNITS_PER_UNIT + int kept + roundUp)))"

definition fraction_of_cents :: "nat \<Rightarrow> nat list" where
  "fraction_of_cents c = (if c = 0 then [] else if c mod 10 = 0 then [c div 10] else [c div 10, c mod 10])"

definition fromMinorUnits :: "int \<Rightarrow> app_error + jsnum" where
  "fromMinorUnits n =
     (if \<not> safe_integer n then Inl (RangeError ''minor units must be a safe integer'')
      else Inr (Finite (n < 0) (nat \<bar>n\<bar> div 100) (fraction_of_cents (nat \<bar>n\<bar> mod 100))))"

definition roundAmount :: "jsnum \<Rightarrow> app_error + jsnum" where
  "roundAmount x = (case toMinorUnits x of Inl e \<Rightarrow> Inl e | Inr n \<Rightarrow> fromMinorUnits n)"

text \<open>\<open>roundAmount(value) === value\<close> compares values: the two zeros are equal.\<close>

definition isMoneyAmount :: "jsnum \<Rightarrow> bool" where
  "isMoneyAmount x \<longleftrightarrow>
     is_finite x \<and> \<bar>num_value x\<bar> \<le> MONEY_MAX_AMOUNT \<and>
     (case roundAmount x of Inl _ \<Rightarrow> False | Inr y \<Rightarrow> num_value y = num_value x)"

fun sum_minor_from :: "int \<Rightarrow> int list \<Rightarrow> app_error + int" where
  "sum_minor_from acc [] = Inr acc"
| "sum_minor_from acc (v # vs) =
     (if \<not> safe_integer v then Inl (RangeError ''minor units must be a safe integer'')
      else if \<not> safe_integer (acc + v) then Inl (RangeError ''minor-unit sum out of range'')
      else sum_minor_from (acc + v) vs)"

definition sumMinorUnits :: "int list \<Rightarrow> app_error + int" where
  "sumMinorUnits vs = sum_minor_from 0 vs"

text \<open>One rounding step. The factor is a finite double; the product is rounded to a double before
  \<open>Math.round\<close> sees it.\<close>

definition round_scaled :: "rat \<Rightarrow> int" where
  "round_scaled scaled = (if scaled < 0 then - math_round (- scaled) else math_round scaled)"

definition checked_product :: "int \<Rightarrow> app_error + int" where
  "checked_product rounded =
     (if \<not> safe_integer rounded then Inl (RangeError ''minor-unit product out of range'')
      else Inr rounded)"

definition scaleMinorUnits :: "int \<Rightarrow> rat \<Rightarrow> app_error + int" where
  "scaleMinorUnits n factor =
     (if \<not> safe_integer n then Inl (RangeError ''minor units must be a safe integer'')
      else checked_product (round_scaled (fl (of_int n * factor))))"

lemmas scale_defs = scaleMinorUnits_def checked_product_def round_scaled_def

section \<open>Facts\<close>

lemma fraction_value_bounds:
  "\<forall>d \<in> set ds. d < 10 \<Longrightarrow> 0 \<le> fraction_value ds \<and> fraction_value ds < 1"
proof (induction ds)
  case (Cons d ds)
  then have "of_nat d \<le> (9::rat)" using of_nat_le_iff [of d 9] by simp
  with Cons show ?case by (auto simp: divide_simps)
qed simp

lemma fraction_value_append_zeros: "fraction_value (ds @ replicate n 0) = fraction_value ds"
proof (induction ds)
  case Nil
  show ?case by (induction n) auto
qed auto

lemma fraction_value_3: "fraction_value (ds @ [0, 0, 0]) = fraction_value ds"
  using fraction_value_append_zeros [of ds 3] by (simp add: numeral_3_eq_3)

text \<open>The digits the code keeps, and the ones it looks at to round.\<close>

lemma fraction_head:
  assumes "\<forall>d \<in> set ds. d < 10"
  obtains a b c r where "ds @ [0, 0, 0] = a # b # c # r" "a < 10" "b < 10" "c < 10"
    "fraction_value ds = of_nat a / 10 + of_nat b / 100 + of_nat c / 1000 + fraction_value r / 1000"
    "0 \<le> fraction_value r" "fraction_value r < 1"
proof -
  obtain a b c r where e: "ds @ [0, 0, 0] = a # b # c # r"
    by (cases ds; cases "tl ds"; cases "tl (tl ds)"; simp)
  have all: "\<forall>d \<in> set (ds @ [0, 0, 0]). d < 10" using assms by auto
  then have "\<forall>d \<in> set r. d < 10" "a < 10" "b < 10" "c < 10" unfolding e by auto
  moreover have "fraction_value ds = fraction_value (a # b # c # r)"
    using fraction_value_3 [of ds] by (simp only: e)
  ultimately show ?thesis
    using that [OF e] fraction_value_bounds [of r] by (simp add: add_divide_distrib)
qed

text \<open>Half a unit away from zero, of the hundredfold decimal.\<close>

definition round_half_away :: "rat \<Rightarrow> int" where
  "round_half_away x = (if x < 0 then - floor (- x + 1 / 2) else floor (x + 1 / 2))"

lemma floor_cents:
  assumes "a < 10" "b < 10" "c < (10::nat)" "0 \<le> f" "f < (1::rat)"
  shows "floor (100 * (of_nat w + (of_nat a / 10 + of_nat b / 100 + of_nat c / 1000 + f / 1000)) + 1 / 2) =
    int w * 100 + int (10 * a + b) + (if 5 \<le> c then 1 else 0)"
proof (rule floor_unique)
  have c: "of_nat c \<le> (9::rat)" "0 \<le> (of_nat c :: rat)" using assms(3) of_nat_le_iff [of c 9] by simp_all
  have "5 \<le> c \<Longrightarrow> (5::rat) \<le> of_nat c" "\<not> 5 \<le> c \<Longrightarrow> of_nat c \<le> (4::rat)"
    using of_nat_le_iff [of 5 c] of_nat_le_iff [of c 4] by simp_all
  then show "of_int (int w * 100 + int (10 * a + b) + (if 5 \<le> c then 1 else 0))
      \<le> 100 * (of_nat w + (of_nat a / 10 + of_nat b / 100 + of_nat c / 1000 + f / 1000)) + (1 / 2 :: rat)"
    using assms c by (simp add: field_simps)
  show "100 * (of_nat w + (of_nat a / 10 + of_nat b / 100 + of_nat c / 1000 + f / 1000)) + (1 / 2 :: rat)
      < of_int (int w * 100 + int (10 * a + b) + (if 5 \<le> c then 1 else 0)) + 1"
    using assms c \<open>5 \<le> c \<Longrightarrow> 5 \<le> of_nat c\<close> \<open>\<not> 5 \<le> c \<Longrightarrow> of_nat c \<le> 4\<close> by (simp add: field_simps)
qed

lemma abs_value_nonneg: "\<forall>d \<in> set ds. d < 10 \<Longrightarrow> 0 \<le> abs_value w ds"
  using fraction_value_bounds [of ds] by (simp add: abs_value_def)

lemma toMinorUnits_round:
  assumes "num_wf x" "toMinorUnits x = Inr n"
  shows "n = round_half_away (100 * num_value x)"
proof (cases x)
  case (Finite neg w ds)
  then have ds: "\<forall>d \<in> set ds. d < 10" using assms(1) by simp
  then obtain a b c r where e: "ds @ [0, 0, 0] = a # b # c # r" and lt: "a < 10" "b < 10" "c < 10"
    and f: "fraction_value ds = of_nat a / 10 + of_nat b / 100 + of_nat c / 1000 + fraction_value r / 1000"
    and r: "0 \<le> fraction_value r" "fraction_value r < 1" by (rule fraction_head)
  have nn: "0 \<le> abs_value w ds" by (rule abs_value_nonneg [OF ds])
  have fc: "floor (100 * abs_value w ds + 1 / 2) = int w * 100 + int (10 * a + b) + (if 5 \<le> c then 1 else 0)"
    using floor_cents [OF lt r, of w] by (simp only: abs_value_def f)
  show ?thesis
  proof (cases "abs_value w ds < NEGLIGIBLE")
    case True
    then have z: "floor (100 * abs_value w ds + 1 / 2) = 0"
      using nn by (intro floor_unique) (simp_all add: NEGLIGIBLE_def)
    have "n = 0" using assms(2) True Finite by (auto split: if_splits)
    then show ?thesis using z nn Finite by (auto simp: round_half_away_def add.commute)
  next
    case False
    then have "0 < abs_value w ds" by (simp add: NEGLIGIBLE_def)
    then show ?thesis
      using assms(2) False Finite fc e
      by (auto simp: round_half_away_def MONEY_MINOR_UNITS_PER_UNIT_def Let_def add.commute split: if_splits)
  qed
qed (use assms in auto)

lemma toMinorUnits_defined:
  assumes "is_finite x" "\<bar>num_value x\<bar> \<le> MONEY_MAX_AMOUNT" "num_wf x"
  shows "\<exists>n. toMinorUnits x = Inr n"
proof (cases x)
  case (Finite neg w ds)
  then have "abs_value w ds \<le> MONEY_MAX_AMOUNT"
    using assms abs_value_nonneg [of ds w] by (auto split: if_splits)
  then show ?thesis using Finite by (auto simp: Let_def)
qed (use assms in auto)

lemma fraction_of_cents_wf: "c < 100 \<Longrightarrow> \<forall>d \<in> set (fraction_of_cents c). d < 10"
  by (auto simp: fraction_of_cents_def)

lemma fraction_of_cents_value: "fraction_value (fraction_of_cents c) = of_nat c / 100"
proof -
  have "(of_nat c :: rat) = 10 * of_nat (c div 10) + of_nat (c mod 10)"
    by (metis mult_div_mod_eq of_nat_add of_nat_mult of_nat_numeral)
  then show ?thesis by (simp add: fraction_of_cents_def field_simps)
qed

lemma fromMinorUnits_value:
  assumes "fromMinorUnits n = Inr x"
  shows "num_value x = of_int n / 100" "num_wf x" "is_finite x"
proof -
  have x: "x = Finite (n < 0) (nat \<bar>n\<bar> div 100) (fraction_of_cents (nat \<bar>n\<bar> mod 100))"
    using assms by (auto simp: fromMinorUnits_def split: if_splits)
  have "(of_nat (nat \<bar>n\<bar>) :: rat) = 100 * of_nat (nat \<bar>n\<bar> div 100) + of_nat (nat \<bar>n\<bar> mod 100)"
    by (metis mult_div_mod_eq of_nat_add of_nat_mult of_nat_numeral)
  moreover have "(of_nat (nat \<bar>n\<bar>) :: rat) = \<bar>of_int n\<bar>" by simp
  ultimately show "num_value x = of_int n / 100"
    by (auto simp: x abs_value_def fraction_of_cents_value field_simps abs_if split: if_splits)
  show "num_wf x" "is_finite x" 
    using fraction_of_cents_wf [of "nat \<bar>n\<bar> mod 100"] by (simp_all add: x)
qed

lemma round_half_away_of_int [simp]: "round_half_away (of_int n) = n"
proof -
  have "floor (of_int m + 1 / 2 :: rat) = m" for m :: int by (rule floor_unique) simp_all
  from this [of n] this [of "- n"] show ?thesis by (simp add: round_half_away_def)
qed

lemma from_to_minor:
  assumes "\<bar>n\<bar> \<le> 100000000000000"
  shows "\<exists>x. fromMinorUnits n = Inr x \<and> toMinorUnits x = Inr n"
proof -
  have "safe_integer n" using assms by (simp add: safe_integer_def)
  then obtain x where x: "fromMinorUnits n = Inr x" by (simp add: fromMinorUnits_def)
  note v = fromMinorUnits_value [OF x]
  have "(of_int \<bar>n\<bar> :: rat) \<le> of_int 100000000000000" using assms by (simp only: of_int_le_iff)
  then have "\<bar>num_value x\<bar> \<le> MONEY_MAX_AMOUNT" by (simp add: v(1) MONEY_MAX_AMOUNT_def)
  then obtain m where m: "toMinorUnits x = Inr m" using toMinorUnits_defined v by blast
  have "m = round_half_away (of_int n)" using toMinorUnits_round [OF v(2) m] by (simp add: v(1))
  then show ?thesis using x m by simp
qed

lemma sum_minor_from_eq:
  "sum_minor_from t vs = Inr s \<Longrightarrow> s = t + sum_list vs"
  by (induction vs arbitrary: t) (fastforce split: if_splits)+

lemma sumMinorUnits_eq: "sumMinorUnits vs = Inr s \<Longrightarrow> s = sum_list vs"
  unfolding sumMinorUnits_def by (drule sum_minor_from_eq) simp

lemma sum_minor_from_ok:
  assumes "\<forall>v \<in> set vs. 0 \<le> v" "0 \<le> t" "t + sum_list vs \<le> 9007199254740991"
  shows "sum_minor_from t vs = Inr (t + sum_list vs)"
  using assms
proof (induction vs arbitrary: t)
  case (Cons v vs)
  moreover have "0 \<le> sum_list vs" using Cons.prems by (intro sum_list_nonneg) auto
  ultimately show ?case by (auto simp: safe_integer_def)
qed simp

text \<open>Scaling by the factor one changes nothing.\<close>

lemma scaleMinorUnits_1: "safe_integer n \<Longrightarrow> scaleMinorUnits n 1 = Inr n"
proof -
  assume n: "safe_integer n"
  then have "fl (of_int n) = of_int n" by (intro fl_of_int) (simp add: safe_integer_def)
  then show ?thesis using n math_round_of_int [of "- n"] by (simp add: scale_defs)
qed

lemma scaleMinorUnits_0: "safe_integer n \<Longrightarrow> scaleMinorUnits n 0 = Inr 0"
  using math_round_of_int [of 0] by (simp add: scale_defs safe_integer_def)

text \<open>A share between nothing and the whole stays between nothing and the whole.\<close>

lemma scaleMinorUnits_between:
  assumes n: "safe_integer n" "0 \<le> n" and f: "0 \<le> f" "f \<le> 1"
  shows "\<exists>m. scaleMinorUnits n f = Inr m \<and> 0 \<le> m \<and> m \<le> n"
proof -
  let ?s = "fl (of_int n * f)"
  have p: "0 \<le> of_int n * f" "of_int n * f \<le> (of_int n :: rat)"
    using n f by (auto intro: mult_left_le mult_nonneg_nonneg)
  have s: "0 \<le> ?s" "?s \<le> of_int n"
    using fl_nonneg [OF p(1)] fl_mono [OF p(2)] fl_of_int [of n] n by (simp_all add: safe_integer_def)
  have "0 \<le> math_round ?s" "math_round ?s \<le> n"
    using math_round_mono [OF s(1)] math_round_mono [OF s(2)] math_round_of_int [of 0] by simp_all
  then show ?thesis using s n by (auto simp: scale_defs safe_integer_def)
qed

lemma scaleMinorUnits_Inr:
  "scaleMinorUnits n f = Inr m \<Longrightarrow>
     m = round_scaled (fl (of_int n * f)) \<and> safe_integer n \<and> safe_integer m"
  by (auto simp: scale_defs split: if_splits)

declare toMinorUnits.simps [simp del]

section \<open>Properties\<close>

text \<open>Every finite amount within the range converts, and to the nearest minor unit of its decimal
  value, halves away from zero.\<close>

theorem toMinorUnits_nearest:
  assumes "is_finite x" "\<bar>num_value x\<bar> \<le> MONEY_MAX_AMOUNT" "num_wf x"
  shows "toMinorUnits x = Inr (round_half_away (100 * num_value x))"
  using toMinorUnits_defined [OF assms] toMinorUnits_round [OF assms(3)] by auto

theorem toMinorUnits_nearest_witness:
  "toMinorUnits (Finite True 1 [0, 0, 5]) = Inr (round_half_away (100 * num_value (Finite True 1 [0, 0, 5])))"
  by (rule toMinorUnits_nearest) (simp_all add: MONEY_MAX_AMOUNT_def abs_value_def)



text \<open>A share of an amount between nothing and the whole, computed in double arithmetic and rounded,
  stays between nothing and the whole.\<close>

theorem scaleMinorUnits_share:
  assumes "safe_integer n" "0 \<le> n" "0 \<le> f" "f \<le> 1"
  shows "\<exists>m. scaleMinorUnits n f = Inr m \<and> 0 \<le> m \<and> m \<le> n"
  by (rule scaleMinorUnits_between [OF assms])

theorem scaleMinorUnits_share_witness:
  "\<exists>m. scaleMinorUnits 1000 (1 / 3) = Inr m \<and> 0 \<le> m \<and> m \<le> 1000"
  by (rule scaleMinorUnits_share) (simp_all add: safe_integer_def)

end
