(* ===== verification/Leave_Pay.thy ===== *)
theory Leave_Pay
  imports Business_Date Payroll_Money "HOL-Library.List_Lexorder" "HOL-Library.Product_Lexorder"
begin

text \<open>
  The shortfall of a run's pinned leave: \<open>payroll/compensation/leave-pay.ts\<close>. Days and rates are
  doubles, written as the rationals they denote, and every sum, product and quotient is rounded as
  the language rounds it. \<open>localeCompare\<close> compares the collation sort keys of two strings; the
  sort key is the parameter \<open>coll\<close>.
\<close>

type_synonym collation = "string \<Rightarrow> nat list"

text \<open>\<open>LeavePaidBreakdown\<close>: so many days at such a rate.\<close>

record leave_tier =
  lt_days :: rat
  lt_payRate :: rat

record leave_slice_facts =
  sf_typeCode :: string
  sf_days :: rat
  sf_breakdown :: "leave_tier list"

record frozen_leave =
  fz_runId :: oid
  fz_snapshotAt :: instant
  fz_slices :: "leave_slice_facts list"

record leave_shortfall =
  sh_typeCode :: string
  sh_payRate :: rat
  sh_days :: rat

record leave_pay_facts =
  lf_runId :: oid
  lf_snapshotAt :: instant
  lf_totalDays :: rat
  lf_paidDays :: rat
  lf_unpaidDays :: rat
  lf_byRate :: "(rat \<times> rat) list"

definition round2 :: "rat \<Rightarrow> rat" where
  "round2 v = fl (of_int (math_round (fl (v * 100))) / 100)"

definition FULL_RATE :: rat where
  "FULL_RATE = 100"

text \<open>The map from \<open>typeCode rate\<close> to its days, in the order the keys first appear.\<close>

definition same_group :: "string \<Rightarrow> leave_tier \<Rightarrow> leave_shortfall \<Rightarrow> bool" where
  "same_group code t row \<longleftrightarrow> sh_typeCode row = code \<and> sh_payRate row = lt_payRate t"

definition add_shortfall :: "string \<Rightarrow> leave_tier \<Rightarrow> leave_shortfall list \<Rightarrow> leave_shortfall list" where
  "add_shortfall code t rows =
     (if \<exists>row \<in> set rows. same_group code t row
      then update_where (same_group code t) (\<lambda>row. row\<lparr>sh_days := fl (sh_days row + lt_days t)\<rparr>) rows
      else rows @ [\<lparr>sh_typeCode = code, sh_payRate = lt_payRate t, sh_days = lt_days t\<rparr>])"

definition leave_tiers :: "frozen_leave \<Rightarrow> (string \<times> leave_tier) list" where
  "leave_tiers leave = concat (map (\<lambda>sl. map (\<lambda>t. (sf_typeCode sl, t)) (sf_breakdown sl)) (fz_slices leave))"

definition shortfallsOf :: "collation \<Rightarrow> frozen_leave \<Rightarrow> leave_shortfall list" where
  "shortfallsOf coll leave =
     sort_key (\<lambda>row. (- sh_payRate row, coll (sh_typeCode row)))
       (map (\<lambda>row. row\<lparr>sh_days := round2 (sh_days row)\<rparr>)
         (fold (\<lambda>(code, t). add_shortfall code t) (leave_tiers leave) []))"

definition shortfall_factor :: "leave_shortfall \<Rightarrow> int \<Rightarrow> rat" where
  "shortfall_factor sh daysInPeriod =
     fl (fl (fl (FULL_RATE - sh_payRate sh) / FULL_RATE) * fl (sh_days sh / of_int daysInPeriod))"

definition shortfallMinor :: "leave_shortfall \<Rightarrow> int \<Rightarrow> int \<Rightarrow> app_error + int" where
  "shortfallMinor sh basicMinor daysInPeriod =
     scaleMinorUnits basicMinor (shortfall_factor sh daysInPeriod)"

definition isChargeable :: "leave_shortfall \<Rightarrow> bool" where
  "isChargeable sh \<longleftrightarrow> sh_payRate sh < FULL_RATE \<and> 0 < sh_days sh"

text \<open>The facts: three running sums and the days by rate.\<close>

definition add_rate :: "leave_tier \<Rightarrow> (rat \<times> rat) list \<Rightarrow> (rat \<times> rat) list" where
  "add_rate t rows =
     (if lt_payRate t \<in> set (map fst rows)
      then update_where (\<lambda>r. fst r = lt_payRate t) (\<lambda>r. (fst r, fl (snd r + lt_days t))) rows
      else rows @ [(lt_payRate t, lt_days t)])"

definition paid_part :: "leave_tier \<Rightarrow> rat" where
  "paid_part t = fl (lt_days t * fl (lt_payRate t / FULL_RATE))"

definition leaveFactsOf :: "frozen_leave \<Rightarrow> leave_pay_facts" where
  "leaveFactsOf leave =
     (let tiers = map snd (leave_tiers leave);
          totalDays = fold (\<lambda>t acc. fl (acc + lt_days t)) tiers 0;
          paidDays = fold (\<lambda>t acc. fl (acc + paid_part t)) tiers 0;
          byRate = fold add_rate tiers [];
          allDays = round2 totalDays; paid = round2 paidDays
      in \<lparr>lf_runId = fz_runId leave, lf_snapshotAt = fz_snapshotAt leave,
          lf_totalDays = allDays, lf_paidDays = paid, lf_unpaidDays = round2 (fl (allDays - paid)),
          lf_byRate = sort_key (\<lambda>r. - fst r) (map (\<lambda>r. (fst r, round2 (snd r))) byRate)\<rparr>)"

section \<open>Facts\<close>

text \<open>The rows hold one entry per type and rate, and lose no day of the group.\<close>

lemma shortfalls_distinct:
  "distinct (map (\<lambda>r. (sh_typeCode r, sh_payRate r)) rows) \<Longrightarrow>
     distinct (map (\<lambda>r. (sh_typeCode r, sh_payRate r)) (add_shortfall code t rows))"
  unfolding add_shortfall_def by (auto simp: map_update_where same_group_def)

lemma shortfall_in_range:
  assumes "0 \<le> sh_payRate sh" "sh_payRate sh \<le> FULL_RATE" "0 \<le> sh_days sh" "sh_days sh \<le> of_int n" "0 < n"
  shows "0 \<le> shortfall_factor sh n" "shortfall_factor sh n \<le> 1"
proof -
  have "0 \<le> fl (FULL_RATE - sh_payRate sh)" using assms by (simp add: fl_nonneg)
  moreover have "fl (FULL_RATE - sh_payRate sh) \<le> FULL_RATE"
    using fl_mono [of "FULL_RATE - sh_payRate sh" "of_int 100"] fl_of_int [of 100] assms
    by (simp add: FULL_RATE_def)
  ultimately have u: "0 \<le> fl (fl (FULL_RATE - sh_payRate sh) / FULL_RATE)"
    "fl (fl (FULL_RATE - sh_payRate sh) / FULL_RATE) \<le> 1"
    using fl_unit [of "fl (FULL_RATE - sh_payRate sh) / FULL_RATE"] by (simp_all add: FULL_RATE_def)
  have "0 \<le> sh_days sh / of_int n" "sh_days sh / of_int n \<le> 1" using assms by simp_all
  then have v: "0 \<le> fl (sh_days sh / of_int n)" "fl (sh_days sh / of_int n) \<le> 1"
    using fl_unit by blast+
  have "0 \<le> fl (fl (FULL_RATE - sh_payRate sh) / FULL_RATE) * fl (sh_days sh / of_int n)"
    using u v by simp
  moreover have "fl (fl (FULL_RATE - sh_payRate sh) / FULL_RATE) * fl (sh_days sh / of_int n) \<le> 1"
    using u v mult_mono [OF u(2) v(2)] by simp
  ultimately show "0 \<le> shortfall_factor sh n" "shortfall_factor sh n \<le> 1"
    using fl_unit unfolding shortfall_factor_def by blast+
qed

lemma round2_cents: "round2 v = fl (of_int (math_round (fl (v * 100))) / 100)"
  by (simp add: round2_def)

text \<open>A number of hundredths of a day, as the double it is stored as.\<close>

definition hundredths :: "rat \<Rightarrow> int" where
  "hundredths v = math_round (fl (v * 100))"

lemma hundredths_round2: "\<bar>hundredths v\<bar> \<le> 1000000000000000 \<Longrightarrow> hundredths (round2 v) = hundredths v"
  by (simp add: round2_def hundredths_def round_cents)

lemma hundredths_difference:
  assumes a: "\<bar>hundredths v\<bar> \<le> 1000000000000" and b: "\<bar>hundredths w\<bar> \<le> 1000000000000"
  shows "hundredths (fl (round2 v - round2 w)) = hundredths v - hundredths w"
proof -
  define m n where "m = hundredths v" and "n = hundredths w"
  have bound: "\<bar>fl (of_int k / 100) - of_int k / 100\<bar> \<le> 1 / 800000 \<and> \<bar>of_int k / 100 :: rat\<bar> \<le> 10000000000"
    if "\<bar>k\<bar> \<le> 1000000000000" for k :: int
  proof -
    have "(of_int \<bar>k\<bar> :: rat) \<le> of_int 1000000000000" using that by (simp only: of_int_le_iff)
    then have k: "\<bar>of_int k / 100 :: rat\<bar> \<le> 10000000000" by simp
    then have "\<bar>of_int k / 100 :: rat\<bar> / 2 ^ 53 \<le> 1 / 800000" by simp
    then show ?thesis using fl_error_abs [of "of_int k / 100"] k by linarith
  qed
  let ?d = "fl (of_int m / 100) - fl (of_int n / 100)"
  note M = bound [OF a, folded m_def] and N = bound [OF b, folded n_def]
  have d: "\<bar>?d - of_int (m - n) / 100\<bar> \<le> 1 / 400000"
    unfolding of_int_diff diff_divide_distrib using M N by linarith
  have db: "\<bar>?d\<bar> \<le> 30000000000" using M N by linarith
  then have "\<bar>?d\<bar> / 2 ^ 53 \<le> 1 / 10000" by simp
  then have "\<bar>fl ?d - of_int (m - n) / 100\<bar> \<le> 1 / 800" using d fl_error_abs [of ?d] by linarith
  moreover have "\<bar>m - n\<bar> \<le> 1000000000000000" using a b unfolding m_def n_def by linarith
  ultimately have "math_round (fl (fl ?d * 100)) = m - n" by (intro round_near_cents(3))
  then show ?thesis by (simp add: round2_def hundredths_def m_def n_def)
qed

lemma hundredths_bound:
  assumes "\<bar>round2 v\<bar> \<le> 1000000000"
  shows "\<bar>hundredths v\<bar> \<le> 1000000000000"
proof -
  let ?x = "of_int (hundredths v) / 100 :: rat"
  have "\<bar>fl ?x\<bar> \<le> 1000000000" using assms by (simp add: round2_def hundredths_def)
  moreover have "\<bar>?x\<bar> / 2 ^ 53 \<le> \<bar>?x\<bar> / 2" by (simp add: field_simps)
  ultimately have "\<bar>?x\<bar> \<le> 2000000000" using fl_error_abs [of ?x] by linarith
  then have "(of_int \<bar>hundredths v\<bar> :: rat) \<le> of_int 1000000000000" by simp
  then show ?thesis by (simp only: of_int_le_iff)
qed

section \<open>Properties\<close>

text \<open>The days of a run's leave split without remainder: in hundredths of a day, the paid and the
  unpaid days of \<open>leaveFactsOf\<close> add up to its total, whatever the tiers and however the sums rounded on
  the way (for totals up to a thousand million days).\<close>

lemma leave_days_split:
  assumes "\<bar>lf_totalDays (leaveFactsOf leave)\<bar> \<le> 1000000000" "\<bar>lf_paidDays (leaveFactsOf leave)\<bar> \<le> 1000000000"
  shows "hundredths (lf_paidDays (leaveFactsOf leave)) + hundredths (lf_unpaidDays (leaveFactsOf leave)) =
    hundredths (lf_totalDays (leaveFactsOf leave))"
proof -
  obtain v w where e: "lf_totalDays (leaveFactsOf leave) = round2 v" "lf_paidDays (leaveFactsOf leave) = round2 w"
    "lf_unpaidDays (leaveFactsOf leave) = round2 (fl (round2 v - round2 w))"
    by (simp add: leaveFactsOf_def Let_def)
  have b: "\<bar>hundredths v\<bar> \<le> 1000000000000" "\<bar>hundredths w\<bar> \<le> 1000000000000"
    using assms hundredths_bound unfolding e by blast+
  then have "hundredths (fl (round2 v - round2 w)) = hundredths v - hundredths w" by (rule hundredths_difference)
  moreover from this have "\<bar>hundredths (fl (round2 v - round2 w))\<bar> \<le> 1000000000000000" using b by linarith
  ultimately show ?thesis using b by (simp add: e hundredths_round2)
qed

text \<open>Six days of leave paid at one half.\<close>

definition sick_leave :: frozen_leave where
  "sick_leave = \<lparr>fz_runId = 1, fz_snapshotAt = 0, fz_slices =
      [\<lparr>sf_typeCode = ''SICK'', sf_days = 6, sf_breakdown = [\<lparr>lt_days = 6, lt_payRate = 50\<rparr>]\<rparr>]\<rparr>"

lemma sick_leave_facts: "lf_totalDays (leaveFactsOf sick_leave) = 6" "lf_paidDays (leaveFactsOf sick_leave) = 3"
  by (simp_all add: leaveFactsOf_def leave_tiers_def sick_leave_def Let_def
      paid_part_def FULL_RATE_def round2_def fl_half)

lemma leave_days_split_witness:
  "hundredths (lf_paidDays (leaveFactsOf sick_leave)) + hundredths (lf_unpaidDays (leaveFactsOf sick_leave)) =
   hundredths (lf_totalDays (leaveFactsOf sick_leave))"
  by (rule leave_days_split) (simp_all add: sick_leave_facts)

end
