(* ===== verification/Payroll_Period.thy ===== *)
theory Payroll_Period
  imports Business_Date
begin

text \<open>
  Payroll periods: the label \<open>YYYY-MM\<close> that payroll, attendance and loans share, read and compared as
  a string, and \<open>periodRange\<close> of \<open>payroll/compensation/compensation-rules.ts\<close>. \<open>mk_period\<close> numbers the
  months of the years 0 to 9999; the string order of periods is the order of these numbers.
\<close>

section \<open>Periods\<close>

text \<open>The pattern \<open>/^\d{4}-(0[1-9]|1[0-2])$/\<close>.\<close>

fun is_period :: "string \<Rightarrow> bool" where
  "is_period [a, b, c, d, h, e, f] =
     (is_digit a \<and> is_digit b \<and> is_digit c \<and> is_digit d \<and> h = CHR ''-'' \<and>
      (e = CHR ''0'' \<and> is_digit f \<and> f \<noteq> CHR ''0'' \<or>
       e = CHR ''1'' \<and> f \<in> {CHR ''0'', CHR ''1'', CHR ''2''}))"
| "is_period _ = False"

text \<open>\<open>period.split('-').map(Number)\<close> of a period.\<close>

definition period_year :: "string \<Rightarrow> nat" where
  "period_year p = parse_nat (take 4 p)"

definition period_month :: "string \<Rightarrow> nat" where
  "period_month p = parse_nat (drop 5 p)"

text \<open>The first and the last calendar day. Day 0 of the next month is the last day of this one.\<close>

definition periodRange :: "string \<Rightarrow> app_error + (instant \<times> instant)" where
  "periodRange period =
     (if \<not> is_period period then Inl (BusinessRuleError ''not a period'')
      else let year = int (period_year period); month = int (period_month period)
           in Inr (date_utc year (month - 1) 1, date_utc year month 0))"

section \<open>Periods as month numbers\<close>

text \<open>The month a period names, counted from January of year 0, and the period of a month.\<close>

definition period_index :: "string \<Rightarrow> nat" where
  "period_index p = 12 * period_year p + (period_month p - 1)"

definition mk_period :: "nat \<Rightarrow> string" where
  "mk_period i =
     [digit_char (i div 12 div 1000), digit_char (i div 12 div 100 mod 10),
      digit_char (i div 12 div 10 mod 10), digit_char (i div 12 mod 10), CHR ''-'',
      digit_char ((i mod 12 + 1) div 10), digit_char ((i mod 12 + 1) mod 10)]"

lemma digit_0: "digit_char 0 = CHR ''0''" and digit_1: "digit_char 1 = CHR ''1''"
  and digit_2: "digit_char 2 = CHR ''2''"
  by (simp_all add: digit_char_def char_of_def bit_iff_odd)

lemma digit_char_eq_iff: "a < 10 \<Longrightarrow> b < 10 \<Longrightarrow> digit_char a = digit_char b \<longleftrightarrow> a = b"
  using digit_val_digit [of a] digit_val_digit [of b] by metis

lemma parse_digits:
  "parse_nat [a, b] = 10 * digit_val a + digit_val b"
  "parse_nat [a, b, c, d] = 1000 * digit_val a + 100 * digit_val b + 10 * digit_val c + digit_val d"
  by (simp_all add: parse_nat_def)

lemma four_digits: "(1000 * (y div 1000) + 100 * (y div 100 mod 10) + 10 * (y div 10 mod 10) + y mod 10) = (y::nat)"
proof -
  have "y = 10 * (y div 10) + y mod 10" by simp
  moreover have "y div 10 = 10 * (y div 100) + y div 10 mod 10"
    using mult_div_mod_eq [of 10 "y div 10"] by (simp add: div_mult2_eq [symmetric])
  moreover have "y div 100 = 10 * (y div 1000) + y div 100 mod 10"
    using mult_div_mod_eq [of 10 "y div 100"] by (simp add: div_mult2_eq [symmetric])
  ultimately show ?thesis by linarith
qed

lemma quot_rem: "r < k \<Longrightarrow> (k * x + r) div k = x" "r < k \<Longrightarrow> (k * x + r) mod k = r" for k x r :: nat
  by simp_all

lemma digits_split:
  assumes "a < 10" "b < 10" "c < 10" "d < (10::nat)" and n: "n = 1000 * a + 100 * b + 10 * c + d"
  shows "n div 1000 = a" "n div 100 mod 10 = b" "n div 10 mod 10 = c" "n mod 10 = d"
proof -
  have n1: "n = 1000 * a + (100 * b + 10 * c + d)" and n2: "n = 100 * (10 * a + b) + (10 * c + d)"
    and n3: "n = 10 * (100 * a + 10 * b + c) + d"
    by (simp_all add: n)
  show "n div 1000 = a" unfolding n1 by (rule quot_rem) (use assms in linarith)
  have "n div 100 = 10 * a + b" unfolding n2 by (rule quot_rem) (use assms in linarith)
  then show "n div 100 mod 10 = b" using quot_rem(2) [OF assms(2), of a] by simp
  have "n div 10 = 10 * (10 * a + b) + c" unfolding n3 using quot_rem(1) [OF assms(4)] by simp
  then show "n div 10 mod 10 = c" using quot_rem(2) [OF assms(3), of "10 * a + b"] by simp
  show "n mod 10 = d" unfolding n3 by (rule quot_rem) (use assms in linarith)
qed

lemma mk_period_year: "i < 120000 \<Longrightarrow> period_year (mk_period i) = i div 12"
  using four_digits [of "i div 12"]
  by (simp add: period_year_def mk_period_def parse_digits less_mult_imp_div_less)

lemma mk_period_month: "period_month (mk_period i) = i mod 12 + 1"
proof -
  have "i mod 12 + 1 < 13" using mod_less_divisor [of 12 i] by linarith
  then have "(i mod 12 + 1) div 10 < 10" by (simp add: less_mult_imp_div_less)
  moreover have "10 * ((i mod 12 + 1) div 10) + (i mod 12 + 1) mod 10 = i mod 12 + 1" by simp
  ultimately show ?thesis by (simp add: period_month_def mk_period_def parse_digits)
qed

lemma mk_period_index [simp]: "i < 120000 \<Longrightarrow> period_index (mk_period i) = i"
  by (simp add: period_index_def mk_period_year mk_period_month)

lemma month_digits:
  assumes "1 \<le> m" "m \<le> (12::nat)"
  shows "digit_char (m div 10) = CHR ''0'' \<and> is_digit (digit_char (m mod 10)) \<and> digit_char (m mod 10) \<noteq> CHR ''0'' \<or>
    digit_char (m div 10) = CHR ''1'' \<and> digit_char (m mod 10) \<in> {CHR ''0'', CHR ''1'', CHR ''2''}"
proof -
  consider "m < 10" | "m = 10" | "m = 11" | "m = 12" using assms by linarith
  then show ?thesis
  proof cases
    case 1
    then have "m mod 10 = m" "m div 10 = 0" by simp_all
    moreover have "digit_char m \<noteq> digit_char 0" using 1 assms by (simp add: digit_char_eq_iff)
    ultimately show ?thesis using 1 by (simp add: digit_0)
  qed (simp_all add: digit_0 digit_1 digit_2 flip: One_nat_def)
qed

lemma is_period_mk [simp]: "i < 120000 \<Longrightarrow> is_period (mk_period i)"
  using month_digits [of "i mod 12 + 1"] mod_less_divisor [of 12 i]
  by (simp add: mk_period_def less_mult_imp_div_less)

lemma is_period_form:
  assumes "is_period p"
  shows "\<exists>a b c d e f. p = [a, b, c, d, CHR ''-'', e, f] \<and> is_digit a \<and> is_digit b \<and> is_digit c \<and>
    is_digit d \<and> is_digit e \<and> is_digit f \<and> 1 \<le> 10 * digit_val e + digit_val f \<and>
    10 * digit_val e + digit_val f \<le> 12"
proof -
  have z: "digit_val (CHR ''0'') = 0" "digit_val (CHR ''1'') = 1" "digit_val (CHR ''2'') = 2"
    "is_digit (CHR ''0'')" "is_digit (CHR ''1'')" "is_digit (CHR ''2'')"
    by (simp_all add: digit_val_def char_code_def is_digit_def)
  have nz: "is_digit f \<Longrightarrow> f \<noteq> CHR ''0'' \<Longrightarrow> 1 \<le> digit_val f" for f
    using digit_char_val [of f] digit_0 by (cases "digit_val f") auto
  show ?thesis
    using assms
    by (induction p rule: is_period.induct) (auto simp: z nz [unfolded One_nat_def] dest: digit_val_less)
qed

lemma period_index_less: "is_period p \<Longrightarrow> period_index p < 120000"
  and period_mk_index: "is_period p \<Longrightarrow> mk_period (period_index p) = p"
  and period_month_range: "is_period p \<Longrightarrow> 1 \<le> period_month p \<and> period_month p \<le> 12"
proof -
  assume "is_period p"
  then obtain a b c d e f where p: "p = [a, b, c, d, CHR ''-'', e, f]"
    and dg: "is_digit a" "is_digit b" "is_digit c" "is_digit d" "is_digit e" "is_digit f"
    and m: "1 \<le> 10 * digit_val e + digit_val f" "10 * digit_val e + digit_val f \<le> 12"
    using is_period_form by blast
  have lt: "digit_val a < 10" "digit_val b < 10" "digit_val c < 10" "digit_val d < 10"
      "digit_val e < 10" "digit_val f < 10"
    using dg by (auto intro: digit_val_less)
  define Y M where "Y = 1000 * digit_val a + 100 * digit_val b + 10 * digit_val c + digit_val d"
    and "M = 10 * digit_val e + digit_val f"
  have ym: "period_year p = Y" "period_month p = M"
    by (simp_all add: period_year_def period_month_def p parse_digits Y_def M_def)
  have Y: "Y < 10000" using lt by (simp add: Y_def)
  show "1 \<le> period_month p \<and> period_month p \<le> 12" using m by (simp add: ym M_def)
  show "period_index p < 120000" using Y m by (simp add: period_index_def ym M_def)
  obtain k where k: "M = Suc k" "k < 12" using m unfolding M_def [symmetric] by (cases M) auto
  have i: "period_index p div 12 = Y" "period_index p mod 12 + 1 = M"
    using k by (simp_all add: period_index_def ym)
  note ys = digits_split [OF lt(1-4) Y_def]
  have ms: "M div 10 = digit_val e" "M mod 10 = digit_val f"
    unfolding M_def using quot_rem [OF lt(6), of "digit_val e"] by simp_all
  have "mk_period (period_index p) = [digit_char (Y div 1000), digit_char (Y div 100 mod 10),
      digit_char (Y div 10 mod 10), digit_char (Y mod 10), CHR ''-'', digit_char (M div 10), digit_char (M mod 10)]"
    by (simp only: mk_period_def i)
  then show "mk_period (period_index p) = p"
    using dg by (simp only: ys ms p digit_char_val)
qed

subsection \<open>The string order is the calendar order\<close>

fun digits_value :: "nat list \<Rightarrow> nat" where
  "digits_value [] = 0"
| "digits_value (d # ds) = d * 10 ^ length ds + digits_value ds"

lemma digits_value_bound: "\<forall>d \<in> set ds. d < 10 \<Longrightarrow> digits_value ds < 10 ^ length ds"
proof (induction ds)
  case (Cons d ds)
  then have "d * 10 ^ length ds + digits_value ds < (d + 1) * 10 ^ length ds" by simp
  also have "\<dots> \<le> 10 * 10 ^ length ds" using Cons.prems by (intro mult_right_mono) auto
  finally show ?case by simp
qed simp

lemma str_less_digits:
  assumes "length ds = length es" "\<forall>d \<in> set ds. d < 10" "\<forall>d \<in> set es. d < 10"
  shows "str_less (map digit_char ds @ s) (map digit_char es @ t) \<longleftrightarrow>
    digits_value ds < digits_value es \<or> digits_value ds = digits_value es \<and> str_less s t"
  using assms
proof (induction ds es rule: list_induct2)
  case (Cons d ds e es)
  have v: "digits_value ds < 10 ^ length ds" "digits_value es < 10 ^ length ds"
    using digits_value_bound [of ds] digits_value_bound [of es] Cons by auto
  have de: "d < 10" "e < 10" using Cons.prems by auto
  have step: "x < y \<Longrightarrow> a < B \<Longrightarrow> x * B + a < y * B + b" for x y a b B :: nat
  proof -
    assume "x < y" "a < B"
    then have "x * B + a < (x + 1) * B" by simp
    also have "\<dots> \<le> y * B" using \<open>x < y\<close> by (intro mult_right_mono) auto
    finally show "x * B + a < y * B + b" by simp
  qed
  consider "d < e" | "d = e" | "e < d" by linarith
  then show ?case
  proof cases
    case 1
    then show ?thesis using step [OF 1 v(1), of "digits_value es"] de Cons.hyps
      by (simp add: char_code_digit)
  next
    case 2
    then show ?thesis using Cons by simp
  next
    case 3
    then show ?thesis using step [OF 3 v(2), of "digits_value ds"] de Cons.hyps
      by (simp add: char_code_digit digit_char_eq_iff)
  qed
qed simp

lemma str_less_mk_period:
  assumes "i < 120000" "j < 120000"
  shows "str_less (mk_period i) (mk_period j) \<longleftrightarrow> i < j"
proof -
  define ds where "ds k = [k div 12 div 1000, k div 12 div 100 mod 10, k div 12 div 10 mod 10, k div 12 mod 10]" for k :: nat
  define ms where "ms k = [(k mod 12 + 1) div 10, (k mod 12 + 1) mod 10]" for k :: nat
  have mk: "mk_period k = map digit_char (ds k) @ CHR ''-'' # (map digit_char (ms k) @ [])" for k
    by (simp add: mk_period_def ds_def ms_def)
  have dv: "digits_value (ds k) = k div 12" for k
    using four_digits [of "k div 12"] by (simp add: ds_def)
  have mv: "digits_value (ms k) = k mod 12 + 1" for k by (simp add: ms_def)
  have dl: "\<forall>d \<in> set (ds k). d < 10" if "k < 120000" for k
    using that by (simp add: ds_def less_mult_imp_div_less)
  have ml: "\<forall>d \<in> set (ms k). d < 10" for k
    using mod_less_divisor [of 12 k] by (simp add: ms_def less_mult_imp_div_less)
  have lens: "length (ds i) = length (ds j)" "length (ms i) = length (ms j)" by (simp_all add: ds_def ms_def)
  have "str_less (mk_period i) (mk_period j) \<longleftrightarrow>
      i div 12 < j div 12 \<or> i div 12 = j div 12 \<and> i mod 12 < j mod 12"
    unfolding mk
    using str_less_digits [OF lens(1) dl [OF assms(1)] dl [OF assms(2)]]
      str_less_digits [OF lens(2) ml ml, of "[]" "[]"] by (simp add: dv mv)
  also have "\<dots> \<longleftrightarrow> i < j"
  proof -
    define a b c d where "a = i div 12" and "b = i mod 12" and "c = j div 12" and "d = j mod 12"
    have "i = 12 * a + b" "j = 12 * c + d" "b < 12" "d < 12" by (simp_all add: a_def b_def c_def d_def)
    then show ?thesis unfolding a_def [symmetric] b_def [symmetric] c_def [symmetric] d_def [symmetric]
      by linarith
  qed
  finally show ?thesis .
qed

lemma show_year: "1000 \<le> y \<Longrightarrow> y < 10000 \<Longrightarrow> 12 * y + m div 12 < 130000 \<Longrightarrow> m < 12 \<Longrightarrow>
   show_nat y @ ''-'' @ pad_start 2 (CHR ''0'') (show_nat (m + 1)) = mk_period (12 * y + m)"
proof -
  assume y: "1000 \<le> y" "y < 10000" and m: "m < 12"
  have q: "(12 * y + m) div 12 = y" "(12 * y + m) mod 12 = m" using m by simp_all
  have "pad_start 2 (CHR ''0'') (show_nat (m + 1)) = [digit_char ((m + 1) div 10), digit_char ((m + 1) mod 10)]"
  proof (cases "m + 1 < 10")
    case True
    then show ?thesis by (simp add: show_nat_one pad_start_def digit_0 numeral_2_eq_2)
  next
    case False
    then have "show_nat (m + 1) = [digit_char ((m + 1) div 10), digit_char ((m + 1) mod 10)]"
      using m by (intro show_nat_two) auto
    then show ?thesis by (simp add: pad_start_def)
  qed
  then show ?thesis by (simp only: mk_period_def q show_nat_four [OF y]) simp
qed

section \<open>What a period is\<close>

lemmas period_eval = period_index_def period_year_def period_month_def parse_nat_def digit_val_def
  char_code_def is_digit_def

lemma digits_eval:
  "digit_char 0 = CHR ''0''" "digit_char (Suc 0) = CHR ''1''" "digit_char 1 = CHR ''1''"
  "digit_char 2 = CHR ''2''" "digit_char (Suc (Suc 0)) = CHR ''2''" "digit_char 3 = CHR ''3''"
  "digit_char 4 = CHR ''4''" "digit_char 5 = CHR ''5''" "digit_char 6 = CHR ''6''"
  "digit_char 7 = CHR ''7''" "digit_char 8 = CHR ''8''" "digit_char 9 = CHR ''9''"
  by code_simp+

lemma date_utc_carry: "100 \<le> y \<Longrightarrow> date_utc (y + 1) 0 d = date_utc y 12 d"
  by (simp add: date_utc_def Let_def)

text \<open>Comparing two periods as strings, which is how every query and sort of the code does it,
  compares the months they name.\<close>

theorem period_order:
  assumes "is_period p" "is_period q"
  shows "str_less p q \<longleftrightarrow> period_index p < period_index q"
  using str_less_mk_period [of "period_index p" "period_index q"] assms
  by (simp add: period_index_less period_mk_index)

theorem period_order_witness:
  "str_less ''2023-12'' ''2024-01'' \<longleftrightarrow> period_index ''2023-12'' < period_index ''2024-01''"
  by (rule period_order) (simp_all add: period_eval)

end
