(* ===== verification/Compensation_Rules.thy ===== *)
theory Compensation_Rules
  imports Attendance_Quantities Leave_Pay Payroll_Period
begin

text \<open>
  The compensation rules engine: \<open>payroll/compensation/compensation-rules.ts\<close>, over the shapes of
  \<open>packages/contracts/src/modules/hr-payroll.ts\<close>. A refusal is an \<open>Inl\<close>, in the order the code comes
  to it. A line keeps its display name as the catalog has it; of the fixed names the English one. An
  amount is a number as it prints (\<open>jsnum\<close>); percentages, factors and quantities are doubles. The
  amounts of assignments and adjustments are finite, as their request schemas demand; \<open>baseAmount\<close>,
  which only repeats them, is their value.
\<close>

section \<open>Inputs and lines\<close>

datatype pay_item_kind = Earning | Deduction

datatype calc_basis = FixedBasis | PerDay | PerMinute | PercentOfBase

datatype line_origin = FromPayItem | FromLeaveSnapshot | FromAdjustment | FromLoanInstallment

datatype line_state = LineComputed | PendingQuantity | PendingLeaveSnapshot

datatype compensation_warning =
    LegacyAllowancesIgnored
  | NetBelowZero
  | LeaveDaysAlsoPriced
  | IncompleteDay

datatype adjustment_kind = Bonus | Penalty

record localized =
  name_ar :: string
  name_en :: string

record pay_item_ref =
  pi_code :: string
  pi_name :: localized
  pi_kind :: pay_item_kind
  pi_calcBasis :: calc_basis
  pi_quantitySource :: "quantity_source option"
  pi_sortOrder :: int

record assignment_input =
  as_id :: oid
  as_payItemId :: oid
  as_amount :: jsnum
  as_currency :: string
  as_effectiveFrom :: instant
  as_effectiveTo :: "instant option"
  as_item :: pay_item_ref

record adjustment_input =
  ad_id :: oid
  ad_kind :: adjustment_kind
  ad_amount :: jsnum
  ad_currency :: string
  ad_reason :: string
  ad_payItemId :: "oid option"
  ad_payItem :: "(string \<times> localized) option"

record loan_installment_line =
  li_id :: oid
  li_amountMinor :: int
  li_currency :: string
  li_reference :: string

record compensation_input =
  ci_employeeId :: oid
  ci_period :: string
  ci_basicSalary :: "(jsnum \<times> string) option"
  ci_employmentSpans :: "date_span list"
  ci_assignments :: "assignment_input list"
  ci_hasLegacyAllowances :: bool
  ci_adjustments :: "adjustment_input list"
  ci_loanInstallments :: "loan_installment_line list"
  ci_attendance :: "frozen_attendance option"
  ci_leave :: "frozen_leave option"

record compensation_line =
  ln_origin :: line_origin
  ln_sourceAssignmentId :: "oid option"
  ln_payItemId :: "oid option"
  ln_code :: string
  ln_name :: localized
  ln_kind :: pay_item_kind
  ln_calcBasis :: calc_basis
  ln_currency :: string
  ln_baseAmount :: rat
  ln_prorationFactor :: "rat option"
  ln_daysInForce :: rat
  ln_daysInPeriod :: int
  ln_quantity :: "rat option"
  ln_quantitySource :: "quantity_source option"
  ln_quantityUnit :: "quantity_unit option"
  ln_feedFrozenAt :: "string option"
  ln_leavePayRate :: "rat option"
  ln_leaveTypeCode :: "string option"
  ln_amountMinor :: "int option"
  ln_amount :: "jsnum option"
  ln_state :: line_state

record compensation_effects =
  ef_employeeId :: oid
  ef_period :: string
  ef_from :: string
  ef_to :: string
  ef_currency :: string
  ef_basicSalary :: jsnum
  ef_employmentDaysInPeriod :: int
  ef_daysInPeriod :: int
  ef_earnings :: "compensation_line list"
  ef_deductions :: "compensation_line list"
  ef_deferred :: "compensation_line list"
  ef_leave :: "leave_pay_facts option"
  ef_totalEarningsMinor :: int
  ef_totalEarnings :: jsnum
  ef_totalDeductionsMinor :: int
  ef_totalDeductions :: jsnum
  ef_netMinor :: int
  ef_net :: jsnum
  ef_warnings :: "compensation_warning list"

section \<open>Spans and days\<close>

type_synonym bounded = "instant \<times> instant"

definition intersect :: "date_span \<Rightarrow> bounded \<Rightarrow> bounded option" where
  "intersect sp window =
     (let from = (if span_from sp > fst window then span_from sp else fst window);
          to = (case span_to sp of None \<Rightarrow> snd window
                | Some t \<Rightarrow> if t > snd window then snd window else t)
      in if from > to then None else Some (from, to))"

definition daysWithin :: "bounded \<Rightarrow> date_span list \<Rightarrow> int" where
  "daysWithin window spans =
     fold (\<lambda>sp days. case intersect sp window of None \<Rightarrow> days
           | Some overlap \<Rightarrow> days + calendarDaysInclusive (fst overlap) (snd overlap)) spans 0"

definition own_span :: "assignment_input \<Rightarrow> date_span" where
  "own_span a = \<lparr>span_from = toDateOnly (as_effectiveFrom a),
     span_to = map_option toDateOnly (as_effectiveTo a)\<rparr>"

definition daysInForce :: "assignment_input \<Rightarrow> bounded \<Rightarrow> date_span list \<Rightarrow> int" where
  "daysInForce a window spans =
     (case intersect (own_span a) window of None \<Rightarrow> 0 | Some inPeriod \<Rightarrow> daysWithin inPeriod spans)"

definition employedOn :: "instant \<Rightarrow> bounded \<Rightarrow> date_span list \<Rightarrow> bool" where
  "employedOn day window spans =
     (case intersect \<lparr>span_from = day, span_to = Some day\<rparr> window of None \<Rightarrow> False
      | Some inPeriod \<Rightarrow> daysWithin inPeriod spans = 1)"

text \<open>\<open>byPresentation\<close> as the key it compares: kind, catalog order, code. The sort is stable.\<close>

fun KIND_RANK :: "pay_item_kind \<Rightarrow> int" where
  "KIND_RANK Earning = 0"
| "KIND_RANK Deduction = 1"

definition presentation_key :: "collation \<Rightarrow> assignment_input \<Rightarrow> int \<times> int \<times> nat list" where
  "presentation_key coll a =
     (KIND_RANK (pi_kind (as_item a)), pi_sortOrder (as_item a), coll (pi_code (as_item a)))"

section \<open>Pricing a line\<close>

definition MAX_PERCENT :: rat where
  "MAX_PERCENT = 100"

text \<open>\<open>amount <= 0 || amount > MAX_PERCENT\<close>: false for a number that is not one.\<close>

fun percent_out_of_range :: "jsnum \<Rightarrow> bool" where
  "percent_out_of_range NotANumber = False"
| "percent_out_of_range (Infinite _) = True"
| "percent_out_of_range x = (num_double x \<le> 0 \<or> MAX_PERCENT < num_double x)"

definition priceLine :: "assignment_input \<Rightarrow> rat \<Rightarrow> int option \<Rightarrow> app_error + int" where
  "priceLine a factor basicMinor =
     (if pi_calcBasis (as_item a) = FixedBasis
      then res_bind (toMinorUnits (as_amount a)) (\<lambda>minor. scaleMinorUnits minor factor)
      else case basicMinor of
        None \<Rightarrow> Inl (BusinessRuleError ''a percentage of the basic salary, and none recorded'')
      | Some basic \<Rightarrow>
          if percent_out_of_range (as_amount a)
          then Inl (BusinessRuleError ''a percentage must be greater than 0 and at most 100'')
          else if \<not> is_finite (as_amount a) then Inl (RangeError ''a factor must be a finite number'')
          else scaleMinorUnits basic (fl (fl (num_double (as_amount a) / MAX_PERCENT) * factor)))"

definition flat_line ::
  "assignment_input \<Rightarrow> int \<Rightarrow> int \<Rightarrow> rat option \<Rightarrow> int option \<Rightarrow> jsnum option \<Rightarrow> line_state \<Rightarrow> compensation_line" where
  "flat_line a forceDays periodDays factor minor amount st =
     \<lparr>ln_origin = FromPayItem, ln_sourceAssignmentId = Some (as_id a), ln_payItemId = Some (as_payItemId a),
      ln_code = pi_code (as_item a), ln_name = pi_name (as_item a), ln_kind = pi_kind (as_item a),
      ln_calcBasis = pi_calcBasis (as_item a), ln_currency = as_currency a,
      ln_baseAmount = num_double (as_amount a), ln_prorationFactor = factor,
      ln_daysInForce = of_int forceDays, ln_daysInPeriod = periodDays,
      ln_quantity = None, ln_quantitySource = None, ln_quantityUnit = None, ln_feedFrozenAt = None,
      ln_leavePayRate = None, ln_leaveTypeCode = None,
      ln_amountMinor = minor, ln_amount = amount, ln_state = st\<rparr>"

definition toLine ::
  "assignment_input \<Rightarrow> bounded \<Rightarrow> int \<Rightarrow> int \<Rightarrow> int option \<Rightarrow> date_span list \<Rightarrow> frozen_attendance option \<Rightarrow>
     app_error + compensation_line" where
  "toLine a slice forceDays periodDays basicMinor spans attendance =
     (if pi_calcBasis (as_item a) \<in> {PerDay, PerMinute}
      then case (pi_quantitySource (as_item a), attendance) of
        (Some source, Some att) \<Rightarrow>
          res_bind (quantityFor (fa_rows att) source \<lparr>span_from = fst slice, span_to = Some (snd slice)\<rparr> spans) (\<lambda>quantity.
          res_bind (toMinorUnits (as_amount a)) (\<lambda>unit.
          res_bind (scaleMinorUnits unit (of_int quantity)) (\<lambda>minor.
          res_bind (fromMinorUnits minor) (\<lambda>amount.
          Inr ((flat_line a forceDays periodDays None (Some minor) (Some amount) LineComputed)
            \<lparr>ln_quantity := Some (of_int quantity), ln_quantitySource := Some source,
             ln_quantityUnit := Some (unitOf source), ln_feedFrozenAt := fa_frozenAt att\<rparr>)))))
      | _ \<Rightarrow> Inr (flat_line a forceDays periodDays None None None PendingQuantity)
      else let factor = fl (of_int forceDays / of_int periodDays) in
        res_bind (priceLine a factor basicMinor) (\<lambda>minor.
        res_bind (fromMinorUnits minor) (\<lambda>amount.
        Inr (flat_line a forceDays periodDays (Some factor) (Some minor) (Some amount) LineComputed))))"

text \<open>An Arabic name is given by the bytes of its UTF-8 form.\<close>

definition utf8 :: "nat list \<Rightarrow> string" where
  "utf8 bytes = map char_of bytes"

definition LEAVE_LINE_CODE :: string where
  "LEAVE_LINE_CODE = ''LEAVE_SHORTFALL''"

definition LEAVE_LINE_NAME :: localized where
  "LEAVE_LINE_NAME = \<lparr>name_ar = utf8 [216, 174, 216, 181, 217, 133, 32, 216, 165, 216, 172, 216, 167, 216, 178, 216, 169,
       32, 216, 186, 217, 138, 216, 177, 32, 217, 133, 216, 175, 217, 129, 217, 136, 216, 185,
       216, 169],
       name_en = ''Unpaid leave shortfall''\<rparr>"

definition leave_line ::
  "int \<Rightarrow> string \<Rightarrow> rat \<Rightarrow> rat option \<Rightarrow> rat \<Rightarrow> rat option \<Rightarrow> rat option \<Rightarrow> string option \<Rightarrow>
     int option \<Rightarrow> jsnum option \<Rightarrow> line_state \<Rightarrow> compensation_line" where
  "leave_line periodDays currency base factor force quantity rate code minor amount st =
     \<lparr>ln_origin = FromLeaveSnapshot, ln_sourceAssignmentId = None, ln_payItemId = None,
      ln_code = LEAVE_LINE_CODE, ln_name = LEAVE_LINE_NAME, ln_kind = Deduction,
      ln_calcBasis = PercentOfBase, ln_currency = currency, ln_baseAmount = base,
      ln_prorationFactor = factor, ln_daysInForce = force, ln_daysInPeriod = periodDays,
      ln_quantity = quantity, ln_quantitySource = None, ln_quantityUnit = Some UnitDays,
      ln_feedFrozenAt = None, ln_leavePayRate = rate, ln_leaveTypeCode = code,
      ln_amountMinor = minor, ln_amount = amount, ln_state = st\<rparr>"

definition toLeaveLine :: "leave_shortfall \<Rightarrow> int \<Rightarrow> int \<Rightarrow> string \<Rightarrow> app_error + compensation_line" where
  "toLeaveLine sh basicMinor periodDays currency =
     res_bind (shortfallMinor sh basicMinor periodDays) (\<lambda>minor.
     res_bind (fromMinorUnits minor) (\<lambda>amount.
     Inr (leave_line periodDays currency (fl (MAX_PERCENT - sh_payRate sh))
       (Some (fl (sh_days sh / of_int periodDays))) (sh_days sh) (Some (sh_days sh))
       (Some (sh_payRate sh)) (Some (sh_typeCode sh)) (Some minor) (Some amount) LineComputed)))"

definition pendingLeaveLine :: "int \<Rightarrow> string \<Rightarrow> compensation_line" where
  "pendingLeaveLine periodDays currency =
     leave_line periodDays currency 0 None 0 None None None None None PendingLeaveSnapshot"

fun ADJUSTMENT_CODE :: "adjustment_kind \<Rightarrow> string" where
  "ADJUSTMENT_CODE Bonus = ''BONUS''"
| "ADJUSTMENT_CODE Penalty = ''PENALTY''"

fun ADJUSTMENT_NAME :: "adjustment_kind \<Rightarrow> localized" where
  "ADJUSTMENT_NAME Bonus = \<lparr>name_ar = utf8 [217, 133, 217, 134, 216, 173, 216, 169],
       name_en = ''Bonus''\<rparr>"
| "ADJUSTMENT_NAME Penalty = \<lparr>name_ar = utf8 [216, 172, 216, 178, 216, 167, 216, 161],
       name_en = ''Penalty''\<rparr>"

definition toAdjustmentLine :: "adjustment_input \<Rightarrow> int \<Rightarrow> app_error + compensation_line" where
  "toAdjustmentLine ad periodDays =
     res_bind (toMinorUnits (ad_amount ad)) (\<lambda>minor.
     res_bind (fromMinorUnits minor) (\<lambda>amount.
     Inr \<lparr>ln_origin = FromAdjustment, ln_sourceAssignmentId = Some (ad_id ad),
          ln_payItemId = ad_payItemId ad,
          ln_code = (case ad_payItem ad of None \<Rightarrow> ADJUSTMENT_CODE (ad_kind ad) | Some p \<Rightarrow> fst p),
          ln_name = (case ad_payItem ad of None \<Rightarrow> ADJUSTMENT_NAME (ad_kind ad) | Some p \<Rightarrow> snd p),
          ln_kind = (if ad_kind ad = Bonus then Earning else Deduction),
          ln_calcBasis = FixedBasis, ln_currency = ad_currency ad,
          ln_baseAmount = num_double (ad_amount ad), ln_prorationFactor = None,
          ln_daysInForce = of_int periodDays, ln_daysInPeriod = periodDays,
          ln_quantity = None, ln_quantitySource = None, ln_quantityUnit = None,
          ln_feedFrozenAt = None, ln_leavePayRate = None, ln_leaveTypeCode = None,
          ln_amountMinor = Some minor, ln_amount = Some amount, ln_state = LineComputed\<rparr>))"

definition LOAN_LINE_CODE :: string where
  "LOAN_LINE_CODE = ''LOAN_INSTALLMENT''"

definition LOAN_LINE_NAME :: localized where
  "LOAN_LINE_NAME = \<lparr>name_ar = utf8 [217, 130, 216, 179, 216, 183, 32, 217, 130, 216, 177, 216, 182],
       name_en = ''Loan instalment''\<rparr>"

definition toLoanLine :: "loan_installment_line \<Rightarrow> int \<Rightarrow> app_error + compensation_line" where
  "toLoanLine inst periodDays =
     res_bind (fromMinorUnits (li_amountMinor inst)) (\<lambda>amount.
     Inr \<lparr>ln_origin = FromLoanInstallment, ln_sourceAssignmentId = Some (li_id inst), ln_payItemId = None,
          ln_code = LOAN_LINE_CODE, ln_name = LOAN_LINE_NAME, ln_kind = Deduction,
          ln_calcBasis = FixedBasis, ln_currency = li_currency inst,
          ln_baseAmount = num_double amount, ln_prorationFactor = None,
          ln_daysInForce = of_int periodDays, ln_daysInPeriod = periodDays,
          ln_quantity = None, ln_quantitySource = None, ln_quantityUnit = None,
          ln_feedFrozenAt = None, ln_leavePayRate = None, ln_leaveTypeCode = None,
          ln_amountMinor = Some (li_amountMinor inst), ln_amount = Some amount, ln_state = LineComputed\<rparr>)"

end
