(* ===== verification/Loan_Schedule.thy ===== *)
theory Loan_Schedule
  imports Payroll_Period "HOL-Library.Sublist"
begin

text \<open>
  The repayment schedule of an employee loan: \<open>apps/api/src/modules/hr/employee-loans/loan-schedule.ts\<close>,
  every function of it. A period is the string \<open>YYYY-MM\<close>, as in the code; amounts are integer minor
  units. \<open>Number.isInteger\<close> guards are absorbed by the type \<open>int\<close>.
\<close>

section \<open>Periods\<close>

definition nextPeriod :: "string \<Rightarrow> app_error + string" where
  "nextPeriod p =
     (if \<not> is_period p then Inl (BusinessRuleError ''not a period'')
      else if period_month p = 12 then Inr (show_nat (period_year p + 1) @ ''-01'')
      else Inr (show_nat (period_year p) @ ''-'' @
                pad_start 2 (CHR ''0'') (show_nat (period_month p + 1))))"

definition periodOfDate :: "instant \<Rightarrow> string" where
  "periodOfDate t = show_nat (nat (utc_full_year t)) @ ''-'' @
     pad_start 2 (CHR ''0'') (show_nat (utc_month t + 1))"

fun periodsFrom :: "string \<Rightarrow> nat \<Rightarrow> app_error + string list" where
  "periodsFrom p 0 = Inr []"
| "periodsFrom p (Suc n) =
     (case nextPeriod p of Inl e \<Rightarrow> Inl e
      | Inr q \<Rightarrow> (case periodsFrom q n of Inl e \<Rightarrow> Inl e | Inr ps \<Rightarrow> Inr (p # ps)))"

section \<open>Schedules\<close>

record scheduled_installment =
  si_seq :: int
  si_period :: string
  si_amountMinor :: int

definition generateSchedule :: "int \<Rightarrow> int \<Rightarrow> string \<Rightarrow> app_error + scheduled_installment list" where
  "generateSchedule principalMinor installmentCount firstPeriod =
     (if principalMinor \<le> 0 then Inl (BusinessRuleError ''a principal must be a positive amount'')
      else if installmentCount < 1
        then Inl (BusinessRuleError ''a schedule needs at least one installment'')
      else if principalMinor < installmentCount
        then Inl (BusinessRuleError ''each installment would be worth nothing'')
      else let base = principalMinor div installmentCount;
               remainder = principalMinor - base * installmentCount
           in case periodsFrom firstPeriod (nat installmentCount) of Inl e \<Rightarrow> Inl e
              | Inr periods \<Rightarrow>
                  Inr (map (\<lambda>(index, period).
                         \<lparr>si_seq = int index + 1, si_period = period,
                          si_amountMinor =
                            (if int index = installmentCount - 1 then base + remainder else base)\<rparr>)
                       (enumerate 0 periods)))"

definition totalMinor :: "int list \<Rightarrow> int" where
  "totalMinor rows = foldl (\<lambda>sum row. sum + row) 0 rows"

text \<open>The loop of \<open>accelerateTail\<close>: from the furthest month backwards, what is left to absorb and the
  tail built so far.\<close>

fun absorb_tail :: "int \<Rightarrow> (string \<times> int) list \<Rightarrow> (string \<times> int) list \<Rightarrow> (string \<times> int) list" where
  "absorb_tail toAbsorb [] tail = tail"
| "absorb_tail toAbsorb ((period, amount) # rows) tail =
     (if amount \<le> toAbsorb then absorb_tail (toAbsorb - amount) rows tail
      else absorb_tail 0 rows ((period, amount - toAbsorb) # tail))"

definition accelerateTail ::
  "string \<times> int \<Rightarrow> (string \<times> int) list \<Rightarrow> int \<Rightarrow> app_error + (string \<times> int) list" where
  "accelerateTail target later extraMinor =
     (if extraMinor \<le> 0 then Inl (BusinessRuleError ''an acceleration must be a positive amount'')
      else if totalMinor (map snd later) < extraMinor
        then Inl (BusinessRuleError ''paying this much extra would repay more than is owed'')
      else Inr ((fst target, snd target + extraMinor) # absorb_tail extraMinor (rev later) []))"

definition assertScheduleTotals :: "int \<Rightarrow> int list \<Rightarrow> app_error + unit" where
  "assertScheduleTotals expectedMinor rows =
     (if totalMinor rows \<noteq> expectedMinor
      then Inl (BusinessRuleError ''a schedule must total the amount it is repaying'') else Inr ())"

section \<open>Consecutive periods\<close>

text \<open>Facts that evaluate schedules by simplification.\<close>

lemma periodsFrom_numeral: "periodsFrom p (numeral v) =
     (case nextPeriod p of Inl e \<Rightarrow> Inl e
      | Inr q \<Rightarrow> (case periodsFrom q (pred_numeral v) of Inl e \<Rightarrow> Inl e | Inr ps \<Rightarrow> Inr (p # ps)))"
  by (simp add: numeral_eq_Suc)

lemmas period_run = period_eval nextPeriod_def show_nat_four show_nat_one show_nat_two pad_start_def
  digits_eval periodsFrom_numeral

lemmas date_run = periodRange_def Let_def date_utc_def day_from_year_def days_before_month_def
  leap_year_def ms_per_day_def

lemma nextPeriod_mk:
  assumes "12000 \<le> i" "i + 1 < 120000"
  shows "nextPeriod (mk_period i) = Inr (mk_period (i + 1))"
proof -
  define y m where "y = i div 12" and "m = i mod 12"
  have i: "i = 12 * y + m" "m < 12" by (simp_all add: y_def m_def)
  have y: "1000 \<le> y" "y < 10000" using assms i by linarith+
  have p: "is_period (mk_period i)" "period_year (mk_period i) = y" "period_month (mk_period i) = m + 1"
    using assms by (simp_all add: mk_period_year mk_period_month y_def m_def)
  show ?thesis
  proof (cases "m + 1 = 12")
    case True
    then have "y + 1 < 10000" using assms i by linarith
    then have "show_nat (y + 1) @ ''-'' @ pad_start 2 (CHR ''0'') (show_nat (0 + 1)) = mk_period (12 * (y + 1) + 0)"
      using y by (intro show_year) auto
    moreover have "pad_start 2 (CHR ''0'') (show_nat 1) = ''01''"
      by (simp add: show_nat_one pad_start_def digit_1 [unfolded One_nat_def] numeral_2_eq_2)
    moreover have e: "12 * (y + 1) + 0 = i + 1" using True i by simp
    ultimately have "show_nat (y + 1) @ ''-01'' = mk_period (i + 1)" unfolding e by simp
    then show ?thesis using True p by (simp add: nextPeriod_def)
  next
    case False
    then have "show_nat y @ ''-'' @ pad_start 2 (CHR ''0'') (show_nat ((m + 1) + 1)) = mk_period (12 * y + (m + 1))"
      using y i by (intro show_year) auto
    then show ?thesis using False p i by (simp add: nextPeriod_def)
  qed
qed

lemma periodsFrom_mk:
  assumes "12000 \<le> i" "i + n \<le> 120000"
  shows "periodsFrom (mk_period i) n = Inr (map mk_period [i..<i + n])"
  using assms
proof (induction n arbitrary: i)
  case (Suc n)
  show ?case
  proof (cases n)
    case 0
    have "is_period (mk_period i)" using Suc.prems by simp
    then have "\<exists>q. nextPeriod (mk_period i) = Inr q" by (simp add: nextPeriod_def)
    then show ?thesis using 0 by auto
  next
    case (Suc k)
    then have "nextPeriod (mk_period i) = Inr (mk_period (i + 1))"
      using Suc.prems by (intro nextPeriod_mk) auto
    moreover have "periodsFrom (mk_period (i + 1)) n = Inr (map mk_period [i + 1..<i + 1 + n])"
      using Suc.prems by (intro Suc.IH) auto
    moreover have "[i..<i + Suc n] = i # [i + 1..<i + 1 + n]" by (simp add: upt_conv_Cons del: upt_Suc)
    ultimately show ?thesis by (simp del: upt_Suc)
  qed
qed simp

lemma periodsFrom_length: "periodsFrom p n = Inr ps \<Longrightarrow> length ps = n"
  by (induction p n arbitrary: ps rule: periodsFrom.induct) (auto split: sum.splits)

section \<open>Schedules add up\<close>

lemma foldl_add: "foldl (\<lambda>a r. a + r) x rows = x + sum_list (rows :: int list)"
  by (induction rows arbitrary: x) auto

lemma totalMinor_eq [simp]: "totalMinor rows = sum_list rows"
  by (simp add: totalMinor_def foldl_add)

lemma enumerate_snoc: "enumerate k (xs @ [x]) = enumerate k xs @ [(k + length xs, x)]"
  by (simp add: enumerate_append_eq)

lemma schedule_sum:
  assumes "length ps = nat c" "1 \<le> c"
  shows "sum_list (map (\<lambda>(index, period). if int index = c - 1 then b + r else b) (enumerate 0 ps)) = b * c + r"
proof -
  have ne: "ps \<noteq> []" using assms by auto
  then obtain qs q where ps: "ps = qs @ [q]" by (metis rev_exhaust)
  have init: "map (\<lambda>(index, period). if int index = c - 1 then b + r else b) (enumerate 0 qs) = map (\<lambda>_. b) (enumerate 0 qs)"
    using assms by (intro map_cong) (auto simp: ps in_set_enumerate_eq)
  have "sum_list (map (\<lambda>_. b) (enumerate 0 qs)) = b * int (length qs)"
    by (simp add: sum_list_triv)
  moreover have "int (length qs) = c - 1" using assms by (simp add: ps)
  ultimately have "sum_list (map (\<lambda>(index, period). if int index = c - 1 then b + r else b) (enumerate 0 qs)) = b * (c - 1)"
    unfolding init by simp
  then show ?thesis using \<open>int (length qs) = c - 1\<close> by (simp add: ps enumerate_snoc algebra_simps)
qed

lemma generateSchedule_Inr:
  assumes "generateSchedule p c first = Inr rows"
  shows "0 < p" "1 \<le> c" "c \<le> p" "int (length rows) = c" "sum_list (map si_amountMinor rows) = p"
    "periodsFrom first (nat c) = Inr (map si_period rows)"
    "map si_seq rows = map (\<lambda>i. int i + 1) [0..<length rows]"
    "\<forall>r \<in> set rows. p div c \<le> si_amountMinor r \<and> si_amountMinor r < p div c + c"
proof -
  show g: "0 < p" "1 \<le> c" "c \<le> p"
    using assms by (auto simp: generateSchedule_def split: if_splits)
  define f where "f = (\<lambda>(index, period). \<lparr>si_seq = int index + 1, si_period = period,
      si_amountMinor = (if int index = c - 1 then p div c + (p - p div c * c) else p div c)\<rparr>)"
  obtain ps where ps: "periodsFrom first (nat c) = Inr ps" and rows: "rows = map f (enumerate 0 ps)"
    using assms g by (auto simp: generateSchedule_def Let_def f_def split: sum.splits)
  have len: "length ps = nat c" by (rule periodsFrom_length [OF ps])
  show "int (length rows) = c" using g by (simp add: rows len)
  have am: "map si_amountMinor rows =
      map (\<lambda>(index, period). if int index = c - 1 then p div c + (p - p div c * c) else p div c) (enumerate 0 ps)"
    by (auto simp: rows f_def)
  show "sum_list (map si_amountMinor rows) = p"
    using schedule_sum [OF len g(2), of "p div c" "p - p div c * c"] by (simp add: am)
  have "si_period \<circ> f = snd" "si_seq \<circ> f = (\<lambda>x. int (fst x) + 1)" by (auto simp: f_def)
  then have sp: "map si_period rows = map snd (enumerate 0 ps)"
    and sq: "map si_seq rows = map (\<lambda>x. int (fst x) + 1) (enumerate 0 ps)" by (simp_all add: rows)
  have fs: "map (\<lambda>x. int (fst x) + 1) (enumerate 0 ps) = map (\<lambda>i. int i + 1) (map fst (enumerate 0 ps))"
    by (simp del: map_fst_enumerate)
  show "periodsFrom first (nat c) = Inr (map si_period rows)" unfolding sp by (simp add: ps)
  show "map si_seq rows = map (\<lambda>i. int i + 1) [0..<length rows]" unfolding sq fs map_fst_enumerate by (simp add: rows)
  have "p - p div c * c = p mod c" by (simp add: minus_div_mult_eq_mod)
  then show "\<forall>r \<in> set rows. p div c \<le> si_amountMinor r \<and> si_amountMinor r < p div c + c"
    using g by (auto simp: rows f_def)
qed

section \<open>Acceleration keeps the debt\<close>

lemma absorb_tail_sum:
  assumes "0 \<le> k" "k \<le> sum_list (map snd later)" "\<forall>r \<in> set later. 0 < snd r"
  shows "sum_list (map snd (absorb_tail k later tail)) = sum_list (map snd later) - k + sum_list (map snd tail)"
  using assms
proof (induction k later tail rule: absorb_tail.induct)
  case (2 k p a rows tail)
  have "0 \<le> sum_list (map snd rows)" using "2.prems" by (intro sum_list_nonneg) auto
  then show ?case using 2 by auto
qed auto

lemma absorb_tail_positive:
  assumes "0 \<le> k" "\<forall>r \<in> set tail. 0 < snd r"
  shows "\<forall>r \<in> set (absorb_tail k later tail). 0 < snd r"
  using assms by (induction k later tail rule: absorb_tail.induct) auto

text \<open>Once the extra is absorbed the months that are left are untouched.\<close>

lemma absorb_tail_0: "\<forall>r \<in> set later. 0 < snd r \<Longrightarrow> absorb_tail 0 later tail = rev later @ tail"
  by (induction later arbitrary: tail) (auto simp: split_beta)

lemma absorb_tail_prefix:
  assumes "0 \<le> k" "\<forall>r \<in> set later. 0 < snd r"
  shows "prefix (map fst (absorb_tail k later tail)) (rev (map fst later) @ map fst tail) \<or> tail \<noteq> []"
  using assms
proof (induction k later tail rule: absorb_tail.induct)
  case (2 k p a rows tail)
  show ?case
  proof (cases "a \<le> k")
    case True
    then have "prefix (map fst (absorb_tail (k - a) rows tail)) (rev (map fst rows) @ map fst tail) \<or> tail \<noteq> []"
      using "2.IH"(1) "2.prems" by auto
    then show ?thesis using True by (auto simp: prefix_def)
  next
    case False
    then show ?thesis using absorb_tail_0 [of rows "(p, a - k) # tail"] "2.prems" by (auto simp: rev_map)
  qed
qed auto

lemma accelerateTail_Inr:
  assumes "accelerateTail target later extra = Inr rows" "\<forall>r \<in> set later. 0 < snd r"
  shows "sum_list (map snd rows) = snd target + sum_list (map snd later)"
    "hd rows = (fst target, snd target + extra)"
    "\<forall>r \<in> set (tl rows). 0 < snd r"
    "prefix (map fst rows) (fst target # map fst later)"
    "0 < extra" "extra \<le> sum_list (map snd later)"
proof -
  show e: "0 < extra" "extra \<le> sum_list (map snd later)"
    using assms(1) by (auto simp: accelerateTail_def split: if_splits)
  have rows: "rows = (fst target, snd target + extra) # absorb_tail extra (rev later) []"
    using assms(1) by (auto simp: accelerateTail_def split: if_splits)
  show "sum_list (map snd rows) = snd target + sum_list (map snd later)"
    using absorb_tail_sum [of extra "rev later" "[]"] e assms(2) by (simp add: rows rev_map [symmetric])
  show "hd rows = (fst target, snd target + extra)" by (simp add: rows)
  show "\<forall>r \<in> set (tl rows). 0 < snd r"
    using absorb_tail_positive [of extra "[]" "rev later"] e by (simp add: rows)
  show "prefix (map fst rows) (fst target # map fst later)"
    using absorb_tail_prefix [of extra "rev later" "[]"] e assms(2) by (simp add: rows rev_map)
qed

section \<open>Properties\<close>

lemma succ_month:
  "(i + 1) div 12 = (if i mod 12 = 11 then i div 12 + 1 else i div 12)"
  "(i + 1) mod 12 = (if i mod 12 = 11 then 0 else i mod 12 + 1)" for i :: nat
  by (simp_all add: div_Suc mod_Suc)

lemma date_utc_step: "100 \<le> y \<Longrightarrow> date_utc y m 1 = addDays (date_utc y m 0) 1"
  by (simp add: date_utc_def addDays_def Let_def algebra_simps)

lemma periodRange_index:
  assumes "is_period p"
  shows "periodRange p = Inr (date_utc (int (period_index p div 12)) (int (period_index p mod 12)) 1,
    date_utc (int (period_index p div 12)) (int (period_index p mod 12) + 1) 0)"
proof -
  have "period_month p - 1 < 12" using period_month_range [OF assms] by linarith
  then have "period_index p div 12 = period_year p" "period_index p mod 12 = period_month p - 1"
    unfolding period_index_def by (rule quot_rem)+
  then show ?thesis using assms period_month_range [OF assms]
    by (simp add: periodRange_def of_nat_diff Let_def)
qed

text \<open>The successor of a month is the next month of the calendar: its label is a month again, it
  sorts after the old one, and its first day is the day after the old one's last day.\<close>

theorem nextPeriod_calendar:
  assumes "is_period p" "12000 \<le> period_index p" "period_index p + 1 < 120000"
  shows "\<exists>q f t f' t'. nextPeriod p = Inr q \<and> is_period q \<and> period_index q = period_index p + 1 \<and>
    str_less p q \<and> periodRange p = Inr (f, t) \<and> periodRange q = Inr (f', t') \<and> f' = addDays t 1"
proof -
  let ?i = "period_index p"
  define q where "q = mk_period (?i + 1)"
  have n: "nextPeriod p = Inr q" using nextPeriod_mk [OF assms(2,3)] assms(1) by (simp add: period_mk_index q_def)
  have q: "is_period q" "period_index q = ?i + 1" using assms(3) by (simp_all add: q_def)
  have lt: "str_less p q"
    using str_less_mk_period [of ?i "?i + 1"] assms by (simp add: period_mk_index q_def)
  define y m where "y = int (?i div 12)" and "m = int (?i mod 12)"
  have y: "100 \<le> y" using assms(2) by (simp add: y_def)
  have step: "date_utc (int ((?i + 1) div 12)) (int ((?i + 1) mod 12)) 1 = addDays (date_utc y (m + 1) 0) 1"
    using date_utc_step [OF y, of "m + 1"] succ_month [of ?i] date_utc_carry [OF y, of 1]
    by (cases "?i mod 12 = 11") (simp_all add: y_def m_def add.commute)
  show ?thesis
    using n q lt periodRange_index [OF assms(1)] periodRange_index [OF q(1)] step
    by (simp add: y_def m_def)
qed

theorem nextPeriod_calendar_witness:
  "\<exists>q f t f' t'. nextPeriod ''2024-12'' = Inr q \<and> is_period q \<and>
    period_index q = period_index ''2024-12'' + 1 \<and> str_less ''2024-12'' q \<and>
    periodRange ''2024-12'' = Inr (f, t) \<and> periodRange q = Inr (f', t') \<and> f' = addDays t 1"
  by (rule nextPeriod_calendar) (simp_all add: period_eval)

text \<open>C33. A schedule repays exactly the principal, in the promised number of consecutive months,
  numbered from 1, no instalment worth nothing and none more than a remainder above the others.\<close>

theorem generateSchedule_correct:
  assumes "1 \<le> c" "c \<le> p" "is_period first" "12000 \<le> period_index first"
    "period_index first + nat c \<le> 120000"
  shows "\<exists>rows. generateSchedule p c first = Inr rows \<and> sum_list (map si_amountMinor rows) = p \<and>
    map si_seq rows = [1..c] \<and>
    map si_period rows = map mk_period [period_index first..<period_index first + nat c] \<and>
    (\<forall>r \<in> set rows. 0 < si_amountMinor r \<and> p div c \<le> si_amountMinor r \<and> si_amountMinor r < p div c + c)"
proof -
  have ps: "periodsFrom first (nat c) = Inr (map mk_period [period_index first..<period_index first + nat c])"
    using periodsFrom_mk [OF assms(4,5)] assms(3) by (simp add: period_mk_index)
  then obtain rows where g: "generateSchedule p c first = Inr rows"
    using assms by (simp add: generateSchedule_def Let_def)
  note facts = generateSchedule_Inr [OF g]
  have "map si_seq rows = [1..c]"
    using facts(4,7) assms(1) by (intro nth_equalityI) auto
  moreover have "0 < p div c" using assms by (simp add: pos_imp_zdiv_pos_iff)
  ultimately show ?thesis using g facts ps by fastforce
qed

theorem generateSchedule_correct_witness:
  "\<exists>rows. generateSchedule 100000 7 ''2024-11'' = Inr rows \<and> sum_list (map si_amountMinor rows) = 100000 \<and>
    map si_seq rows = [1..7] \<and>
    map si_period rows = map mk_period [period_index ''2024-11''..<period_index ''2024-11'' + nat 7] \<and>
    (\<forall>r \<in> set rows. 0 < si_amountMinor r \<and> 100000 div 7 \<le> si_amountMinor r \<and>
       si_amountMinor r < 100000 div 7 + 7)"
  by (rule generateSchedule_correct) (simp_all add: period_eval)

text \<open>Paying extra one month moves money between months and neither creates nor forgives any: the
  total is unchanged, the month paid grows by exactly the extra, every later instalment that survives
  is positive, the surviving months are the nearest ones, and no more than the rest can be paid.\<close>

theorem accelerateTail_conserves:
  assumes "accelerateTail target later extra = Inr rows" "\<forall>r \<in> set later. 0 < snd r"
  shows "sum_list (map snd rows) = snd target + sum_list (map snd later) \<and>
    hd rows = (fst target, snd target + extra) \<and> (\<forall>r \<in> set (tl rows). 0 < snd r) \<and>
    prefix (map fst rows) (fst target # map fst later) \<and>
    0 < extra \<and> extra \<le> sum_list (map snd later)"
  using accelerateTail_Inr [OF assms] by simp

theorem accelerateTail_conserves_witness:
  "\<exists>rows. accelerateTail (''2024-01'', 100) [(''2024-02'', 100), (''2024-03'', 100)] 150 = Inr rows \<and>
    sum_list (map snd rows) = 300 \<and> hd rows = (''2024-01'', 250) \<and> map fst (tl rows) = [''2024-02'']"
proof -
  have e: "accelerateTail (''2024-01'', 100) [(''2024-02'', 100), (''2024-03'', 100)] 150 =
      Inr [(''2024-01'', 250), (''2024-02'', 50)]" by code_simp
  show ?thesis using accelerateTail_conserves [OF e] e by simp
qed

end
