(* ===== verification/Employee_Loans.thy ===== *)
theory Employee_Loans
  imports Loan_Schedule Payroll_Money
begin

text \<open>
  Employee loans: \<open>apps/api/src/modules/hr/employee-loans/employee-loan.service.ts\<close> with its three
  collections (\<open>employee-loan.model.ts\<close>, \<open>loan-installment.model.ts\<close>, \<open>loan-repayment.model.ts\<close>), the
  reads of \<open>employee-loan.repository.ts\<close> and the optimistic update of \<open>BaseRepository.updateById\<close>.

  \<^item> An object id is a natural number, drawn from a counter of the store. A collection is the list of
    its documents in insertion order, which is also the order \<open>findOne\<close> answers in.
  \<^item> The unique indexes of the collections are part of the writes: \<open>(loanId, seq)\<close> and, over planned
    rows only, \<open>(loanId, period)\<close> for instalments; \<open>(loanId, period)\<close> for repayments.
  \<^item> \<open>loan_env\<close> is what a request brings along: the caller, the clock, the scoped employee lookup, the
    frozen payroll periods and the file lookup. These belong to other modules and are parameters.
  \<^item> Audit records, events and notices are appended to \<open>loan_effects\<close>; the payloads that only repeat
    fields of the loan are left out. A notice never fails the operation that sent it.
  \<^item> A handler runs to its end before the next one starts. A refusal keeps the writes made before it.
\<close>

section \<open>Documents\<close>

datatype loan_type = AdvanceLoan | PlainLoan

datatype loan_status =
    LoanDraft
  | LoanPendingApproval
  | LoanApproved
  | LoanActive
  | LoanSettled
  | LoanCancelled
  | LoanOutstandingAtExit

datatype installment_status = InstPlanned | InstDeducted | InstCancelled

fun loan_type_name :: "loan_type \<Rightarrow> string" where
  "loan_type_name AdvanceLoan = ''advance''"
| "loan_type_name PlainLoan = ''loan''"

fun loan_status_name :: "loan_status \<Rightarrow> string" where
  "loan_status_name LoanDraft = ''draft''"
| "loan_status_name LoanPendingApproval = ''pendingApproval''"
| "loan_status_name LoanApproved = ''approved''"
| "loan_status_name LoanActive = ''active''"
| "loan_status_name LoanSettled = ''settled''"
| "loan_status_name LoanCancelled = ''cancelled''"
| "loan_status_name LoanOutstandingAtExit = ''outstandingAtExit''"

definition live_status :: "loan_status \<Rightarrow> bool" where
  "live_status st \<longleftrightarrow> st \<in> {LoanPendingApproval, LoanApproved, LoanActive}"

record external_settlement =
  x_amountMinor :: int
  x_reason :: string
  x_at :: instant
  x_by :: "oid option"

record loan_doc =
  l_id :: oid
  l_employeeId :: oid
  l_type :: loan_type
  l_principal :: jsnum
  l_currency :: string
  l_installmentCount :: int
  l_firstPeriod :: string
  l_reason :: string
  l_note :: "string option"
  l_attachmentFileId :: "oid option"
  l_status :: loan_status
  l_submittedBy :: "oid option"
  l_submittedAt :: "instant option"
  l_decidedBy :: "oid option"
  l_decidedAt :: "instant option"
  l_decisionNote :: "string option"
  l_disbursedAt :: "instant option"
  l_disbursedBy :: "oid option"
  l_disbursementNote :: "string option"
  l_externalSettlement :: "external_settlement option"
  l_cancelledBy :: "oid option"
  l_cancelledAt :: "instant option"
  l_cancelReason :: "string option"
  l_branchId :: "oid option"
  l_departmentId :: "oid option"
  l_createdBy :: oid
  l_updatedBy :: "oid option"
  l_version :: nat
  l_isDeleted :: bool

record installment_doc =
  i_id :: oid
  i_loanId :: oid
  i_employeeId :: oid
  i_seq :: int
  i_period :: string
  i_amountMinor :: int
  i_status :: installment_status
  i_branchId :: "oid option"
  i_createdBy :: oid
  i_updatedBy :: "oid option"
  i_version :: nat
  i_isDeleted :: bool

record repayment_doc =
  r_id :: oid
  r_loanId :: oid
  r_installmentId :: oid
  r_employeeId :: oid
  r_period :: string
  r_runId :: oid
  r_payslipId :: oid
  r_amountMinor :: int
  r_branchId :: "oid option"
  r_recordedAt :: instant

record loan_employee =
  e_code :: string
  e_userId :: "oid option"
  e_branchId :: "oid option"
  e_departmentId :: "oid option"
  e_salaryCurrency :: "string option"
  e_dates :: employment_dates

datatype change_value = CNull | CStr string | CNum jsnum | CInt int

datatype loan_effect =
    AuditRecorded oid string "(string \<times> change_value \<times> change_value) list"
  | EventEmitted string oid oid
  | Notified string "oid option" oid

record loan_store =
  loans :: "loan_doc list"
  installments :: "installment_doc list"
  repayments :: "repayment_doc list"
  next_oid :: oid
  loan_effects :: "loan_effect list"

text \<open>A file reference: the module, the kind and the id of the record it was uploaded for.\<close>

record loan_env =
  env_user :: oid
  env_now :: instant
  env_employee :: "oid \<Rightarrow> loan_employee option"
  env_frozen :: "string list"
  env_file :: "oid \<Rightarrow> app_error + (string \<times> string \<times> oid)"

section \<open>Reads\<close>

definition num_nonpositive :: "jsnum \<Rightarrow> bool" where
  "num_nonpositive x =
     (case x of NotANumber \<Rightarrow> False | Infinite neg \<Rightarrow> neg | Finite _ _ _ \<Rightarrow> num_value x \<le> 0)"

definition remainingMinorOf :: "loan_doc \<Rightarrow> int \<Rightarrow> app_error + int" where
  "remainingMinorOf loan repaidMinor =
     (case toMinorUnits (l_principal loan) of Inl e \<Rightarrow> Inl e
      | Inr p \<Rightarrow> Inr (p - repaidMinor -
          (case l_externalSettlement loan of None \<Rightarrow> 0 | Some x \<Rightarrow> x_amountMinor x)))"

definition getEmployee :: "loan_env \<Rightarrow> oid \<Rightarrow> (loan_store, loan_employee) st" where
  "getEmployee env employeeId =
     st_lift (option_or (NotFoundError ''employee'') (env_employee env employeeId))"

definition findLoan :: "(loan_doc \<Rightarrow> bool) \<Rightarrow> loan_store \<Rightarrow> loan_doc option" where
  "findLoan P s = List.find (\<lambda>l. \<not> l_isDeleted l \<and> P l) (loans s)"

definition getForEmployee :: "oid \<Rightarrow> oid \<Rightarrow> (loan_store, loan_doc) st" where
  "getForEmployee employeeId docId s =
     (s, option_or (NotFoundError ''loan not found'')
           (findLoan (\<lambda>l. l_id l = docId \<and> l_employeeId l = employeeId) s))"

definition findLive :: "oid \<Rightarrow> oid option \<Rightarrow> loan_store \<Rightarrow> loan_doc option" where
  "findLive employeeId excludeId =
     findLoan (\<lambda>l. l_employeeId l = employeeId \<and> live_status (l_status l) \<and> Some (l_id l) \<noteq> excludeId)"

definition findLoanById :: "oid \<Rightarrow> loan_store \<Rightarrow> loan_doc option" where
  "findLoanById docId = findLoan (\<lambda>l. l_id l = docId)"

definition plannedForLoan :: "oid \<Rightarrow> loan_store \<Rightarrow> installment_doc list" where
  "plannedForLoan loanId s =
     sort_key i_seq (filter (\<lambda>r. i_loanId r = loanId \<and> i_status r = InstPlanned \<and> \<not> i_isDeleted r)
       (installments s))"

definition chargeableForEmployeePeriod :: "oid \<Rightarrow> string \<Rightarrow> loan_store \<Rightarrow> installment_doc list" where
  "chargeableForEmployeePeriod employeeId period s =
     sort_key i_seq (filter (\<lambda>r. i_employeeId r = employeeId \<and> i_period r = period \<and>
       i_status r \<in> {InstPlanned, InstDeducted} \<and> \<not> i_isDeleted r) (installments s))"

definition plannedForEmployeeAfter :: "oid \<Rightarrow> string \<Rightarrow> loan_store \<Rightarrow> installment_doc list" where
  "plannedForEmployeeAfter employeeId period s =
     filter (\<lambda>r. i_employeeId r = employeeId \<and> str_less period (i_period r) \<and>
       i_status r = InstPlanned \<and> \<not> i_isDeleted r) (installments s)"

definition repaidMinor :: "oid \<Rightarrow> loan_store \<Rightarrow> int" where
  "repaidMinor loanId s =
     sum_list (map r_amountMinor (filter (\<lambda>r. r_loanId r = loanId) (repayments s)))"

section \<open>Writes\<close>

definition log_effect :: "loan_effect \<Rightarrow> (loan_store, unit) st" where
  "log_effect e = st_modify (\<lambda>s. s\<lparr>loan_effects := loan_effects s @ [e]\<rparr>)"

definition insertLoan :: "(oid \<Rightarrow> loan_doc) \<Rightarrow> (loan_store, loan_doc) st" where
  "insertLoan mk s =
     (s\<lparr>loans := loans s @ [mk (next_oid s)], next_oid := next_oid s + 1\<rparr>, Inr (mk (next_oid s)))"

text \<open>\<open>updateById\<close>: the row with this id and this version, not deleted, is changed and its version
  bumped; otherwise the caller learns whether the row is gone or has moved on.\<close>

definition bump_loan :: "(loan_doc \<Rightarrow> loan_doc) \<Rightarrow> oid option \<Rightarrow> loan_doc \<Rightarrow> loan_doc" where
  "bump_loan f by l = (f l)\<lparr>l_updatedBy := by, l_version := l_version l + 1\<rparr>"

definition put_loan :: "loan_doc \<Rightarrow> loan_store \<Rightarrow> loan_store" where
  "put_loan d s = s\<lparr>loans := map (\<lambda>l. if l_id l = l_id d then d else l) (loans s)\<rparr>"

definition updateLoanById ::
  "oid \<Rightarrow> nat \<Rightarrow> (loan_doc \<Rightarrow> loan_doc) \<Rightarrow> oid option \<Rightarrow> (loan_store, loan_doc) st" where
  "updateLoanById docId version f by s =
     (case findLoan (\<lambda>l. l_id l = docId \<and> l_version l = version) s of
        Some l \<Rightarrow> (put_loan (bump_loan f by l) s, Inr (bump_loan f by l))
      | None \<Rightarrow> (s, Inl (case findLoanById docId s of
            None \<Rightarrow> NotFoundError ''Not found'' | Some _ \<Rightarrow> StaleDocumentError)))"

text \<open>\<open>updateMany\<close> of instalments to \<open>cancelled\<close>; \<open>None\<close> leaves \<open>updatedBy\<close> as it is.\<close>

definition cancel_row :: "oid option \<Rightarrow> installment_doc \<Rightarrow> installment_doc" where
  "cancel_row by r = r\<lparr>i_status := InstCancelled, i_version := i_version r + 1,
     i_updatedBy := (case by of None \<Rightarrow> i_updatedBy r | Some u \<Rightarrow> Some u)\<rparr>"

definition cancelInstallments :: "(installment_doc \<Rightarrow> bool) \<Rightarrow> oid option \<Rightarrow> (loan_store, unit) st" where
  "cancelInstallments P by = st_modify (\<lambda>s.
     s\<lparr>installments := map (\<lambda>r. if P r then cancel_row by r else r) (installments s)\<rparr>)"

text \<open>One \<open>$setOnInsert\<close> upsert of \<open>writeSchedule\<close>: a row with this key stays as it is; a new planned
  row must not collide with a planned row of the same month.\<close>

definition planned_row :: "loan_doc \<Rightarrow> scheduled_installment \<Rightarrow> oid \<Rightarrow> oid \<Rightarrow> installment_doc" where
  "planned_row loan row by docId =
     \<lparr>i_id = docId, i_loanId = l_id loan, i_employeeId = l_employeeId loan, i_seq = si_seq row,
      i_period = si_period row, i_amountMinor = si_amountMinor row, i_status = InstPlanned,
      i_branchId = l_branchId loan, i_createdBy = by, i_updatedBy = None, i_version = 0,
      i_isDeleted = False\<rparr>"

definition upsertInstallment :: "loan_doc \<Rightarrow> oid \<Rightarrow> scheduled_installment \<Rightarrow> (loan_store, unit) st" where
  "upsertInstallment loan by row s =
     (if \<exists>r \<in> set (installments s). i_loanId r = l_id loan \<and> i_seq r = si_seq row then (s, Inr ())
      else if \<exists>r \<in> set (installments s). i_loanId r = l_id loan \<and> i_period r = si_period row \<and>
          i_status r = InstPlanned then (s, Inl (DuplicateKeyError ''ux_loan_period''))
      else (s\<lparr>installments := installments s @ [planned_row loan row by (next_oid s)],
              next_oid := next_oid s + 1\<rparr>, Inr ()))"

definition writeSchedule :: "loan_doc \<Rightarrow> scheduled_installment list \<Rightarrow> oid \<Rightarrow> (loan_store, unit) st" where
  "writeSchedule loan schedule by = st_each (upsertInstallment loan by) schedule"

definition recordStatus ::
  "oid \<Rightarrow> loan_status \<Rightarrow> loan_status \<Rightarrow> string option \<Rightarrow> (loan_store, unit) st" where
  "recordStatus docId from to note =
     log_effect (AuditRecorded docId ''statusChange''
       ((''status'', CStr (loan_status_name from), CStr (loan_status_name to)) #
        (case note of None \<Rightarrow> [] | Some n \<Rightarrow> [(''note'', CNull, CStr n)])))"

section \<open>Rules\<close>

definition assertWithinEmployment :: "loan_employee \<Rightarrow> string list \<Rightarrow> app_error + unit" where
  "assertWithinEmployment employee periods =
     (if periods = [] then Inr ()
      else res_bind (periodRange (hd periods)) (\<lambda>first.
           res_bind (periodRange (last periods)) (\<lambda>last.
           res_ensure (spanContaining (employmentSpansOf (e_dates employee)) (fst first) (Some (snd last)) \<noteq> None)
             (BusinessRuleError ''not inside a single employment period''))))"

definition assertPeriodsOpen :: "loan_env \<Rightarrow> string list \<Rightarrow> app_error + unit" where
  "assertPeriodsOpen env periods =
     res_ensure (filter (\<lambda>p. p \<in> set (env_frozen env)) periods = [])
       (BusinessRuleError ''a month that has already been priced'')"

definition assertSchedulable ::
  "loan_env \<Rightarrow> loan_employee \<Rightarrow> jsnum \<Rightarrow> string \<Rightarrow> int \<Rightarrow> string \<Rightarrow> app_error + unit" where
  "assertSchedulable env employee amount currency installmentCount firstPeriod =
     res_bind (res_ensure (\<not> num_nonpositive amount)
       (BusinessRuleError ''a principal must be positive'')) (\<lambda>_.
     res_bind (res_ensure (e_salaryCurrency employee \<in> {None, Some currency})
       (BusinessRuleError ''paid in another currency'')) (\<lambda>_.
     res_bind (toMinorUnits amount) (\<lambda>minor.
     res_bind (res_ensure (\<not> minor < installmentCount)
       (BusinessRuleError ''each installment would be worth nothing'')) (\<lambda>_.
     res_bind (periodsFrom firstPeriod (nat installmentCount)) (\<lambda>periods.
     res_bind (assertWithinEmployment employee periods) (\<lambda>_.
     assertPeriodsOpen env periods))))))"

definition assertFresh :: "loan_doc \<Rightarrow> nat \<Rightarrow> app_error + unit" where
  "assertFresh doc version =
     res_ensure (version = l_version doc) (ConflictError ''this loan was modified'')"

definition resolveAttachment :: "loan_env \<Rightarrow> oid \<Rightarrow> oid \<Rightarrow> app_error + oid" where
  "resolveAttachment env employeeId fileId =
     res_bind (env_file env fileId) (\<lambda>ref.
     res_bind (res_ensure (ref = (''hr'', ''employeeLoanAttachment'', employeeId))
       (BusinessRuleError ''the attachment must be uploaded for this employee'')) (\<lambda>_.
     Inr fileId))"

definition notifyEmployee :: "string \<Rightarrow> loan_employee \<Rightarrow> oid \<Rightarrow> (loan_store, unit) st" where
  "notifyEmployee template employee loanId =
     (case e_userId employee of None \<Rightarrow> st_return ()
      | Some u \<Rightarrow> log_effect (Notified template (Some u) loanId))"

section \<open>Handlers\<close>

record create_loan =
  c_type :: loan_type
  c_principal :: jsnum
  c_currency :: string
  c_installmentCount :: int
  c_firstPeriod :: string
  c_reason :: string
  c_note :: "string option"
  c_attachmentFileId :: "oid option"

definition resolve_optional :: "loan_env \<Rightarrow> oid \<Rightarrow> oid option \<Rightarrow> oid option \<Rightarrow> app_error + oid option" where
  "resolve_optional env employeeId fileId otherwise =
     (case fileId of None \<Rightarrow> Inr otherwise
      | Some f \<Rightarrow> res_bind (resolveAttachment env employeeId f) (\<lambda>g. Inr (Some g)))"

definition draft_loan :: "loan_env \<Rightarrow> oid \<Rightarrow> loan_employee \<Rightarrow> create_loan \<Rightarrow> oid option \<Rightarrow> oid \<Rightarrow> loan_doc" where
  "draft_loan env employeeId employee input attachment docId =
     \<lparr>l_id = docId, l_employeeId = employeeId, l_type = c_type input, l_principal = c_principal input,
      l_currency = c_currency input, l_installmentCount = c_installmentCount input,
      l_firstPeriod = c_firstPeriod input, l_reason = c_reason input, l_note = c_note input,
      l_attachmentFileId = attachment, l_status = LoanDraft, l_submittedBy = None,
      l_submittedAt = None, l_decidedBy = None, l_decidedAt = None, l_decisionNote = None,
      l_disbursedAt = None, l_disbursedBy = None, l_disbursementNote = None,
      l_externalSettlement = None, l_cancelledBy = None, l_cancelledAt = None,
      l_cancelReason = None, l_branchId = e_branchId employee,
      l_departmentId = e_departmentId employee, l_createdBy = env_user env, l_updatedBy = None,
      l_version = 0, l_isDeleted = False\<rparr>"

definition create_loan_op :: "loan_env \<Rightarrow> oid \<Rightarrow> create_loan \<Rightarrow> (loan_store, loan_doc) st" where
  "create_loan_op env employeeId input =
     st_bind (getEmployee env employeeId) (\<lambda>employee.
     st_bind (st_gets (findLive employeeId None)) (\<lambda>live.
     st_bind (st_ensure (live = None) (ConflictError ''one loan at a time'')) (\<lambda>_.
     st_bind (st_lift (assertSchedulable env employee (c_principal input) (c_currency input)
       (c_installmentCount input) (c_firstPeriod input))) (\<lambda>_.
     st_bind (st_lift (resolve_optional env employeeId (c_attachmentFileId input) None)) (\<lambda>attachment.
     st_bind (insertLoan (draft_loan env employeeId employee input attachment)) (\<lambda>doc.
     st_bind (log_effect (AuditRecorded (l_id doc) ''create''
       [(''type'', CNull, CStr (loan_type_name (c_type input))),
        (''principal'', CNull, CNum (c_principal input)),
        (''installmentCount'', CNull, CInt (c_installmentCount input)),
        (''firstPeriod'', CNull, CStr (c_firstPeriod input))])) (\<lambda>_.
     st_return doc)))))))"

record update_loan =
  u_type :: "loan_type option"
  u_principal :: "jsnum option"
  u_currency :: "string option"
  u_installmentCount :: "int option"
  u_firstPeriod :: "string option"
  u_reason :: "string option"
  u_note :: "string option"
  u_attachmentFileId :: "oid option"

definition given :: "'a option \<Rightarrow> 'a \<Rightarrow> 'a" where
  "given x y = (case x of None \<Rightarrow> y | Some z \<Rightarrow> z)"

definition edit_loan :: "update_loan \<Rightarrow> oid option \<Rightarrow> loan_doc \<Rightarrow> loan_doc" where
  "edit_loan input attachment l = l\<lparr>
     l_type := given (u_type input) (l_type l),
     l_principal := given (u_principal input) (l_principal l),
     l_currency := given (u_currency input) (l_currency l),
     l_installmentCount := given (u_installmentCount input) (l_installmentCount l),
     l_firstPeriod := given (u_firstPeriod input) (l_firstPeriod l),
     l_reason := given (u_reason input) (l_reason l),
     l_note := (case u_note input of None \<Rightarrow> l_note l | Some n \<Rightarrow> Some n),
     l_attachmentFileId := attachment\<rparr>"

definition update_loan_op :: "loan_env \<Rightarrow> oid \<Rightarrow> oid \<Rightarrow> update_loan \<Rightarrow> nat \<Rightarrow> (loan_store, loan_doc) st" where
  "update_loan_op env employeeId docId input version =
     st_bind (getEmployee env employeeId) (\<lambda>employee.
     st_bind (getForEmployee employeeId docId) (\<lambda>doc.
     st_bind (st_ensure (l_status doc = LoanDraft) (BusinessRuleError ''cannot be edited'')) (\<lambda>_.
     st_bind (st_lift (assertFresh doc version)) (\<lambda>_.
     st_bind (st_lift (assertSchedulable env employee (given (u_principal input) (l_principal doc))
       (given (u_currency input) (l_currency doc)) (given (u_installmentCount input) (l_installmentCount doc))
       (given (u_firstPeriod input) (l_firstPeriod doc)))) (\<lambda>_.
     st_bind (st_lift (resolve_optional env employeeId (u_attachmentFileId input)
       (l_attachmentFileId doc))) (\<lambda>attachment.
     st_bind (updateLoanById docId version (edit_loan input attachment) (Some (env_user env))) (\<lambda>after.
     st_bind (log_effect (AuditRecorded docId ''update''
       [(''principal'', CNum (l_principal doc), CNum (l_principal after)),
        (''installmentCount'', CInt (l_installmentCount doc), CInt (l_installmentCount after)),
        (''firstPeriod'', CStr (l_firstPeriod doc), CStr (l_firstPeriod after))])) (\<lambda>_.
     st_return after))))))))"

definition submit_loan_op :: "loan_env \<Rightarrow> oid \<Rightarrow> oid \<Rightarrow> nat \<Rightarrow> (loan_store, loan_doc) st" where
  "submit_loan_op env employeeId docId version =
     st_bind (getEmployee env employeeId) (\<lambda>employee.
     st_bind (getForEmployee employeeId docId) (\<lambda>doc.
     st_bind (st_ensure (l_status doc = LoanDraft)
       (BusinessRuleError ''only a draft loan can be submitted'')) (\<lambda>_.
     st_bind (st_gets (findLive employeeId (Some docId))) (\<lambda>live.
     st_bind (st_ensure (live = None) (ConflictError ''one loan at a time'')) (\<lambda>_.
     st_bind (st_lift (assertSchedulable env employee (l_principal doc) (l_currency doc)
       (l_installmentCount doc) (l_firstPeriod doc))) (\<lambda>_.
     st_bind (updateLoanById docId version
       (\<lambda>l. l\<lparr>l_status := LoanPendingApproval, l_submittedBy := Some (env_user env),
              l_submittedAt := Some (env_now env)\<rparr>) (Some (env_user env))) (\<lambda>after.
     st_bind (recordStatus docId (l_status doc) LoanPendingApproval None) (\<lambda>_.
     st_bind (log_effect (EventEmitted ''hr.employeeLoan.submitted'' docId employeeId)) (\<lambda>_.
     st_bind (log_effect (Notified ''hr.employeeLoan.submitted'' None docId)) (\<lambda>_.
     st_return after))))))))))"

definition decide_loan_op ::
  "loan_env \<Rightarrow> oid \<Rightarrow> oid \<Rightarrow> bool \<Rightarrow> string option \<Rightarrow> nat \<Rightarrow> (loan_store, loan_doc) st" where
  "decide_loan_op env employeeId docId approved note version =
     st_bind (getEmployee env employeeId) (\<lambda>employee.
     st_bind (getForEmployee employeeId docId) (\<lambda>doc.
     st_bind (st_ensure (l_status doc = LoanPendingApproval)
       (BusinessRuleError ''this loan is not awaiting approval'')) (\<lambda>_.
     st_bind (st_ensure (l_submittedBy doc \<noteq> Some (env_user env))
       (ForbiddenError ''the person who submitted it'')) (\<lambda>_.
     st_bind (st_lift (if approved
         then assertSchedulable env employee (l_principal doc) (l_currency doc)
           (l_installmentCount doc) (l_firstPeriod doc)
         else Inr ())) (\<lambda>_.
     st_bind (updateLoanById docId version
       (\<lambda>l. l\<lparr>l_status := (if approved then LoanApproved else LoanDraft),
              l_decidedBy := Some (env_user env), l_decidedAt := Some (env_now env),
              l_decisionNote := note\<rparr>) (Some (env_user env))) (\<lambda>after.
     st_bind (recordStatus docId LoanPendingApproval (if approved then LoanApproved else LoanDraft) note) (\<lambda>_.
     st_bind (log_effect (EventEmitted ''hr.employeeLoan.decided'' docId employeeId)) (\<lambda>_.
     st_bind (notifyEmployee ''hr.employeeLoan.decided'' employee docId) (\<lambda>_.
     st_return after)))))))))"

definition disburse_loan_op ::
  "loan_env \<Rightarrow> oid \<Rightarrow> oid \<Rightarrow> string \<Rightarrow> string option \<Rightarrow> nat \<Rightarrow> (loan_store, loan_doc) st" where
  "disburse_loan_op env employeeId docId disbursedAt note version =
     st_bind (getEmployee env employeeId) (\<lambda>employee.
     st_bind (getForEmployee employeeId docId) (\<lambda>doc.
     st_bind (st_ensure (l_status doc = LoanApproved) (BusinessRuleError ''cannot be disbursed'')) (\<lambda>_.
     st_bind (st_lift (assertFresh doc version)) (\<lambda>_.
     st_bind (st_lift (assertSchedulable env employee (l_principal doc) (l_currency doc)
       (l_installmentCount doc) (l_firstPeriod doc))) (\<lambda>_.
     st_bind (st_lift (res_bind (toMinorUnits (l_principal doc)) (\<lambda>minor.
       generateSchedule minor (l_installmentCount doc) (l_firstPeriod doc)))) (\<lambda>schedule.
     st_bind (writeSchedule doc schedule (env_user env)) (\<lambda>_.
     st_bind (updateLoanById docId version
       (\<lambda>l. l\<lparr>l_status := LoanActive, l_disbursedAt := Some (toDateOnly (date_of_iso disbursedAt)),
              l_disbursedBy := Some (env_user env), l_disbursementNote := note\<rparr>)
       (Some (env_user env))) (\<lambda>after.
     st_bind (log_effect (AuditRecorded docId ''statusChange''
       [(''status'', CStr ''approved'', CStr ''active''),
        (''disbursedAt'', CNull, CStr disbursedAt),
        (''installments'', CNull, CInt (int (length schedule)))])) (\<lambda>_.
     st_bind (log_effect (EventEmitted ''hr.employeeLoan.disbursed'' docId employeeId)) (\<lambda>_.
     st_bind (notifyEmployee ''hr.employeeLoan.disbursed'' employee docId) (\<lambda>_.
     st_return after)))))))))))"

definition cancel_loan_op :: "loan_env \<Rightarrow> oid \<Rightarrow> oid \<Rightarrow> string \<Rightarrow> nat \<Rightarrow> (loan_store, loan_doc) st" where
  "cancel_loan_op env employeeId docId reason version =
     st_bind (getEmployee env employeeId) (\<lambda>_.
     st_bind (getForEmployee employeeId docId) (\<lambda>doc.
     st_bind (st_ensure (l_status doc \<noteq> LoanCancelled) (BusinessRuleError ''already cancelled'')) (\<lambda>_.
     st_bind (st_ensure (l_status doc \<in> {LoanDraft, LoanPendingApproval, LoanApproved})
       (BusinessRuleError ''money already changed hands'')) (\<lambda>_.
     st_bind (updateLoanById docId version
       (\<lambda>l. l\<lparr>l_status := LoanCancelled, l_cancelledBy := Some (env_user env),
              l_cancelledAt := Some (env_now env), l_cancelReason := Some reason\<rparr>)
       (Some (env_user env))) (\<lambda>after.
     st_bind (recordStatus docId (l_status doc) LoanCancelled (Some reason)) (\<lambda>_.
     st_return after))))))"

text \<open>The next free number: one above the largest planned one.\<close>

definition next_seq :: "installment_doc list \<Rightarrow> int" where
  "next_seq planned = foldr max (map i_seq planned) 0 + 1"

fun renumber :: "int \<Rightarrow> (string \<times> int) list \<Rightarrow> scheduled_installment list" where
  "renumber n [] = []"
| "renumber n ((p, a) # rows) = \<lparr>si_seq = n, si_period = p, si_amountMinor = a\<rparr> # renumber (n + 1) rows"

definition rewriteSchedule ::
  "loan_doc \<Rightarrow> installment_doc list \<Rightarrow> installment_doc list \<Rightarrow> (string \<times> int) list \<Rightarrow> oid \<Rightarrow>
     (loan_store, unit) st" where
  "rewriteSchedule doc planned replaced rows by =
     st_bind (cancelInstallments (\<lambda>r. i_id r \<in> set (map i_id replaced)) (Some by)) (\<lambda>_.
     writeSchedule doc (renumber (next_seq planned) rows) by)"

definition reschedule_loan_op ::
  "loan_env \<Rightarrow> oid \<Rightarrow> oid \<Rightarrow> int \<Rightarrow> string \<Rightarrow> string \<Rightarrow> nat \<Rightarrow> (loan_store, loan_doc) st" where
  "reschedule_loan_op env employeeId docId installmentCount firstPeriod reason version =
     st_bind (getEmployee env employeeId) (\<lambda>employee.
     st_bind (getForEmployee employeeId docId) (\<lambda>doc.
     st_bind (st_ensure (l_status doc = LoanActive) (BusinessRuleError ''no schedule to reschedule'')) (\<lambda>_.
     st_bind (st_lift (assertFresh doc version)) (\<lambda>_.
     st_bind (st_gets (plannedForLoan docId)) (\<lambda>planned.
     st_bind (st_gets (\<lambda>_. filter (\<lambda>r. i_period r \<notin> set (env_frozen env)) planned)) (\<lambda>replaceable.
     st_bind (st_ensure (replaceable \<noteq> []) (BusinessRuleError ''nothing left to reschedule'')) (\<lambda>_.
     st_bind (st_lift (generateSchedule (totalMinor (map i_amountMinor replaceable))
       installmentCount firstPeriod)) (\<lambda>proposed.
     st_bind (st_lift (assertScheduleTotals (totalMinor (map i_amountMinor replaceable))
       (map si_amountMinor proposed))) (\<lambda>_.
     st_bind (st_ensure (\<forall>p \<in> set (map si_period proposed). p \<notin> set (env_frozen env) \<and>
         p \<notin> set (map i_period (filter (\<lambda>r. i_period r \<in> set (env_frozen env)) planned)))
       (BusinessRuleError ''has a frozen payroll run'')) (\<lambda>_.
     st_bind (st_lift (assertWithinEmployment employee (map si_period proposed))) (\<lambda>_.
     st_bind (rewriteSchedule doc planned replaceable
       (map (\<lambda>r. (si_period r, si_amountMinor r)) proposed) (env_user env)) (\<lambda>_.
     st_bind (log_effect (AuditRecorded docId ''update''
       [(''schedule.installments'', CInt (int (length replaceable)), CInt (int (length proposed))),
        (''schedule.amount'', CInt (totalMinor (map i_amountMinor replaceable)),
          CInt (totalMinor (map si_amountMinor proposed))),
        (''reason'', CNull, CStr reason)])) (\<lambda>_.
     updateLoanById docId version (\<lambda>l. l) (Some (env_user env)))))))))))))))"

definition settle_externally_op ::
  "loan_env \<Rightarrow> oid \<Rightarrow> oid \<Rightarrow> jsnum \<Rightarrow> string \<Rightarrow> oid option \<Rightarrow> nat \<Rightarrow> (loan_store, loan_doc) st" where
  "settle_externally_op env employeeId docId amount reason attachment version =
     st_bind (getEmployee env employeeId) (\<lambda>_.
     st_bind (getForEmployee employeeId docId) (\<lambda>doc.
     st_bind (st_ensure (l_status doc = LoanActive) (BusinessRuleError ''no balance to settle'')) (\<lambda>_.
     st_bind (st_lift (assertFresh doc version)) (\<lambda>_.
     st_bind (st_gets (repaidMinor docId)) (\<lambda>repaid.
     st_bind (st_lift (remainingMinorOf doc repaid)) (\<lambda>remaining.
     st_bind (st_lift (toMinorUnits amount)) (\<lambda>paid.
     st_bind (st_ensure (paid = remaining) (BusinessRuleError ''must equal what is still owed'')) (\<lambda>_.
     st_bind (st_lift (resolve_optional env employeeId attachment (l_attachmentFileId doc))) (\<lambda>file.
     st_bind (cancelInstallments (\<lambda>r. i_loanId r = docId \<and> i_status r = InstPlanned \<and> \<not> i_isDeleted r)
       (Some (env_user env))) (\<lambda>_.
     st_bind (updateLoanById docId version
       (\<lambda>l. l\<lparr>l_status := LoanSettled,
              l_externalSettlement := Some \<lparr>x_amountMinor = paid, x_reason = reason,
                x_at = env_now env, x_by = Some (env_user env)\<rparr>,
              l_attachmentFileId := (case attachment of None \<Rightarrow> l_attachmentFileId l | Some f \<Rightarrow> Some f)\<rparr>)
       (Some (env_user env))) (\<lambda>after.
     st_bind (recordStatus docId LoanActive LoanSettled (Some reason)) (\<lambda>_.
     st_return after))))))))))))"

definition accelerate_loan_op ::
  "loan_env \<Rightarrow> oid \<Rightarrow> oid \<Rightarrow> string \<Rightarrow> jsnum \<Rightarrow> string \<Rightarrow> nat \<Rightarrow> (loan_store, loan_doc) st" where
  "accelerate_loan_op env employeeId docId period extraAmount reason version =
     st_bind (getEmployee env employeeId) (\<lambda>employee.
     st_bind (getForEmployee employeeId docId) (\<lambda>doc.
     st_bind (st_ensure (l_status doc = LoanActive) (BusinessRuleError ''no instalments to bring forward'')) (\<lambda>_.
     st_bind (st_lift (assertFresh doc version)) (\<lambda>_.
     st_bind (st_ensure (period \<notin> set (env_frozen env)) (BusinessRuleError ''already been priced'')) (\<lambda>_.
     st_bind (st_gets (plannedForLoan docId)) (\<lambda>planned.
     st_bind (st_lift (option_or (BusinessRuleError ''no planned instalment to add to'')
       (List.find (\<lambda>r. i_period r = period) planned))) (\<lambda>target.
     st_bind (st_gets (\<lambda>_. filter (\<lambda>r. str_less period (i_period r) \<and> i_period r \<notin> set (env_frozen env)) planned)) (\<lambda>later.
     st_bind (st_lift (toMinorUnits extraAmount)) (\<lambda>extra.
     st_bind (st_lift (accelerateTail (i_period target, i_amountMinor target)
       (map (\<lambda>r. (i_period r, i_amountMinor r)) later) extra)) (\<lambda>replacement.
     st_bind (st_lift (assertScheduleTotals (i_amountMinor target + totalMinor (map i_amountMinor later))
       (map snd replacement))) (\<lambda>_.
     st_bind (st_lift (assertWithinEmployment employee (map fst replacement))) (\<lambda>_.
     st_bind (rewriteSchedule doc planned (target # later) replacement (env_user env)) (\<lambda>_.
     st_bind (log_effect (AuditRecorded docId ''update''
       [(''schedule.acceleratedPeriod'', CNull, CStr period),
        (''schedule.installment'', CInt (i_amountMinor target), CInt (i_amountMinor target + extra)),
        (''reason'', CNull, CStr reason)])) (\<lambda>_.
     updateLoanById docId version (\<lambda>l. l) (Some (env_user env))))))))))))))))"

section \<open>The payroll seam\<close>

record loan_due =
  d_installmentId :: oid
  d_loanId :: oid
  d_amountMinor :: int
  d_currency :: string
  d_reference :: string

definition due_of_row :: "loan_store \<Rightarrow> installment_doc \<Rightarrow> loan_due list" where
  "due_of_row s row =
     (case findLoanById (i_loanId row) s of None \<Rightarrow> []
      | Some loan \<Rightarrow>
          if l_status loan \<noteq> LoanActive \<and> i_status row \<noteq> InstDeducted then []
          else [\<lparr>d_installmentId = i_id row, d_loanId = l_id loan, d_amountMinor = i_amountMinor row,
                 d_currency = l_currency loan, d_reference = l_reason loan\<rparr>])"

definition deductionsDueFor :: "oid \<Rightarrow> string \<Rightarrow> loan_store \<Rightarrow> loan_due list" where
  "deductionsDueFor employeeId period s =
     concat (map (due_of_row s) (chargeableForEmployeePeriod employeeId period s))"

record deduction_receipt =
  p_installmentId :: oid
  p_employeeId :: oid
  p_period :: string
  p_runId :: oid
  p_payslipId :: oid
  p_amountMinor :: int

definition settleIfCleared :: "oid \<Rightarrow> (loan_store, unit) st" where
  "settleIfCleared loanId =
     st_bind (st_gets (findLoanById loanId)) (\<lambda>found.
     case found of None \<Rightarrow> st_return ()
     | Some loan \<Rightarrow>
       if l_status loan \<noteq> LoanActive then st_return ()
       else st_bind (st_gets (repaidMinor loanId)) (\<lambda>repaid.
            st_bind (st_lift (remainingMinorOf loan repaid)) (\<lambda>remaining.
            if 0 < remaining then st_return ()
            else st_bind (updateLoanById loanId (l_version loan) (\<lambda>l. l\<lparr>l_status := LoanSettled\<rparr>) None) (\<lambda>_.
                 recordStatus loanId LoanActive LoanSettled (Some ''repaid in full through payroll'')))))"

text \<open>The upsert of a repayment under \<open>(loanId, period)\<close>; the result says whether it inserted.\<close>

definition insertRepayment :: "repayment_doc \<Rightarrow> (loan_store, bool) st" where
  "insertRepayment row s =
     (if \<exists>r \<in> set (repayments s). r_loanId r = r_loanId row \<and> r_period r = r_period row
      then (s, Inr False)
      else (s\<lparr>repayments := repayments s @ [row\<lparr>r_id := next_oid s\<rparr>], next_oid := next_oid s + 1\<rparr>, Inr True))"

definition markDeducted :: "oid \<Rightarrow> (loan_store, unit) st" where
  "markDeducted docId = st_modify (\<lambda>s. s\<lparr>installments := map (\<lambda>r.
     if i_id r = docId \<and> i_status r = InstPlanned
     then r\<lparr>i_status := InstDeducted, i_version := i_version r + 1\<rparr> else r) (installments s)\<rparr>)"

definition recordDeducted :: "loan_env \<Rightarrow> deduction_receipt \<Rightarrow> (loan_store, bool) st" where
  "recordDeducted env input =
     st_bind (st_gets (\<lambda>s. List.find (\<lambda>r. i_id r = p_installmentId input) (installments s))) (\<lambda>found.
     case found of None \<Rightarrow> st_return False
     | Some inst \<Rightarrow>
       st_bind (st_gets (findLoanById (i_loanId inst))) (\<lambda>foundLoan.
       case foundLoan of None \<Rightarrow> st_return False
       | Some loan \<Rightarrow>
         st_bind (insertRepayment
           \<lparr>r_id = 0, r_loanId = i_loanId inst, r_installmentId = p_installmentId input,
            r_employeeId = p_employeeId input, r_period = p_period input, r_runId = p_runId input,
            r_payslipId = p_payslipId input, r_amountMinor = p_amountMinor input,
            r_branchId = l_branchId loan, r_recordedAt = env_now env\<rparr>) (\<lambda>written.
         if \<not> written then st_return False
         else st_bind (markDeducted (p_installmentId input)) (\<lambda>_.
              st_bind (log_effect (AuditRecorded (i_loanId inst) ''update''
                [(''repayment.period'', CNull, CStr (p_period input)),
                 (''repayment.amount'', CNull, CInt (p_amountMinor input)),
                 (''repayment.payslipId'', CNull, CInt (int (p_payslipId input)))])) (\<lambda>_.
              st_bind (settleIfCleared (i_loanId inst)) (\<lambda>_.
              st_return True))))))"

definition onEmployeeExited :: "loan_env \<Rightarrow> oid \<Rightarrow> string \<Rightarrow> (loan_store, unit) st" where
  "onEmployeeExited env employeeId effectiveDate =
     st_bind (st_gets (findLive employeeId None)) (\<lambda>found.
     case found of None \<Rightarrow> st_return ()
     | Some live \<Rightarrow>
       st_bind (st_gets (plannedForEmployeeAfter employeeId
         (periodOfDate (toDateOnly (date_of_iso effectiveDate))))) (\<lambda>doomed.
       st_bind (if doomed = [] then st_return ()
         else cancelInstallments (\<lambda>r. i_id r \<in> set (map i_id doomed)) None) (\<lambda>_.
       if l_status live \<noteq> LoanActive
       then st_bind (updateLoanById (l_id live) (l_version live)
              (\<lambda>l. l\<lparr>l_status := LoanCancelled, l_cancelledAt := Some (env_now env),
                     l_cancelReason := Some ''the employee left before the loan was paid out''\<rparr>) None) (\<lambda>_.
            recordStatus (l_id live) (l_status live) LoanCancelled (Some ''employee exited''))
       else st_bind (st_gets (repaidMinor (l_id live))) (\<lambda>repaid.
            st_bind (st_lift (remainingMinorOf live repaid)) (\<lambda>remaining.
            if remaining \<le> 0 then st_return ()
            else st_bind (updateLoanById (l_id live) (l_version live)
                   (\<lambda>l. l\<lparr>l_status := LoanOutstandingAtExit\<rparr>) None) (\<lambda>_.
                 recordStatus (l_id live) LoanActive LoanOutstandingAtExit (Some ''employee exited'')))))))"

section \<open>Requests\<close>

datatype loan_op =
    OpCreate oid create_loan
  | OpUpdate oid oid update_loan nat
  | OpSubmit oid oid nat
  | OpDecide oid oid bool "string option" nat
  | OpDisburse oid oid string "string option" nat
  | OpCancel oid oid string nat
  | OpReschedule oid oid int string string nat
  | OpSettle oid oid jsnum string "oid option" nat
  | OpAccelerate oid oid string jsnum string nat
  | OpDeducted deduction_receipt
  | OpExited oid string

text \<open>The store after a request, and whether it was refused.\<close>

definition outcome :: "('s, 'a) st \<Rightarrow> ('s, unit) st" where
  "outcome m = st_bind m (\<lambda>_. st_return ())"

fun run_loan_op :: "loan_env \<Rightarrow> loan_op \<Rightarrow> (loan_store, unit) st" where
  "run_loan_op env (OpCreate e i) = outcome (create_loan_op env e i)"
| "run_loan_op env (OpUpdate e d i v) = outcome (update_loan_op env e d i v)"
| "run_loan_op env (OpSubmit e d v) = outcome (submit_loan_op env e d v)"
| "run_loan_op env (OpDecide e d a n v) = outcome (decide_loan_op env e d a n v)"
| "run_loan_op env (OpDisburse e d t n v) = outcome (disburse_loan_op env e d t n v)"
| "run_loan_op env (OpCancel e d r v) = outcome (cancel_loan_op env e d r v)"
| "run_loan_op env (OpReschedule e d c f r v) = outcome (reschedule_loan_op env e d c f r v)"
| "run_loan_op env (OpSettle e d a r f v) = outcome (settle_externally_op env e d a r f v)"
| "run_loan_op env (OpAccelerate e d p x r v) = outcome (accelerate_loan_op env e d p x r v)"
| "run_loan_op env (OpDeducted i) = outcome (recordDeducted env i)"
| "run_loan_op env (OpExited e t) = outcome (onEmployeeExited env e t)"

text \<open>What the request schemas (\<open>packages/contracts/src/modules/hr-employee-loans.ts\<close>) and the payroll
  port guarantee of the input that the proofs use: a deduction is a positive amount.\<close>

fun valid_loan_op :: "loan_op \<Rightarrow> bool" where
  "valid_loan_op (OpDeducted i) \<longleftrightarrow> 0 < p_amountMinor i"
| "valid_loan_op _ \<longleftrightarrow> True"

definition empty_loan_store :: loan_store where
  "empty_loan_store = \<lparr>loans = [], installments = [], repayments = [], next_oid = 100, loan_effects = []\<rparr>"

inductive loan_step :: "loan_store \<Rightarrow> loan_store \<Rightarrow> bool" where
  request: "run_loan_op env op s = (t, r) \<Longrightarrow> valid_loan_op op \<Longrightarrow> loan_step s t"

inductive loan_reachable :: "loan_store \<Rightarrow> bool" where
  init: "loan_reachable empty_loan_store"
| step: "loan_reachable s \<Longrightarrow> loan_step s t \<Longrightarrow> loan_reachable t"

end
