(* ===== verification/Attendance_Derivation.thy ===== *)
theory Attendance_Derivation
  imports Attendance_Quantities "HOL-Library.Multiset"
begin

text \<open>
  How an attendance day is derived: \<open>attendance/day-records/derive-day.ts\<close> and the choice of the shift
  of a date in \<open>attendance/assignments/shift-assignment.service.ts\<close>. The clock of Cairo is a parameter:
  \<open>offset t\<close> is the number of minutes it is ahead of UTC at the instant \<open>t\<close>, which the time-zone
  database answers.
\<close>

type_synonym cairo_clock = "instant \<Rightarrow> int"

datatype punch_source = PunchDevice | PunchManual | PunchRegularization | PunchWeb

datatype punch_direction = PunchIn | PunchOut | PunchUnknown

datatype day_flag = CrossBranchPunch | ManualPunch | RegularizedPunch

record engine_shift =
  es_startTime :: string
  es_endTime :: string
  es_crossesMidnight :: bool
  es_breakMinutes :: int
  es_graceInMinutes :: int
  es_graceOutMinutes :: int

record engine_punch =
  ep_at :: instant
  ep_direction :: punch_direction
  ep_source :: punch_source
  ep_branchIdAtPunch :: "oid option"

record day_leave =
  dl_leaveId :: oid
  dl_halfDay :: bool

record derive_day_input =
  di_workDate :: instant
  di_employed :: bool
  di_leave :: "day_leave option"
  di_holiday :: bool
  di_weekend :: bool
  di_shift :: "engine_shift option"
  di_punches :: "engine_punch list"
  di_employeeBranchId :: oid

record derived_day =
  dd_status :: attendance_day_status
  dd_firstInAt :: "instant option"
  dd_lastOutAt :: "instant option"
  dd_workedMinutes :: int
  dd_lateMinutes :: int
  dd_earlyLeaveMinutes :: int
  dd_overtimeMinutes :: int
  dd_leaveId :: "oid option"
  dd_flags :: "day_flag list"

section \<open>The wall clock\<close>

definition ms_per_minute :: int where
  "ms_per_minute = 60000"

text \<open>\<open>HH:mm\<close>, as the request schema demands, in minutes of the day.\<close>

definition wall_minutes :: "string \<Rightarrow> int" where
  "wall_minutes hhmm = int (parse_nat (take 2 hhmm)) * 60 + int (parse_nat (drop 3 hhmm))"

definition cairoInstant :: "cairo_clock \<Rightarrow> instant \<Rightarrow> string \<Rightarrow> instant" where
  "cairoInstant offset dateOnly time =
     (let wall = wall_minutes time;
          correct = (\<lambda>guess. dateOnly + (wall - offset guess) * ms_per_minute)
      in correct (correct (dateOnly + (wall - 120) * ms_per_minute)))"

definition shiftWindow :: "cairo_clock \<Rightarrow> instant \<Rightarrow> engine_shift \<Rightarrow> instant \<times> instant" where
  "shiftWindow offset workDate shift =
     (cairoInstant offset workDate (es_startTime shift),
      cairoInstant offset (if es_crossesMidnight shift then workDate + 86400000 else workDate) (es_endTime shift))"

definition PUNCH_WINDOW_BEFORE_MS :: int where
  "PUNCH_WINDOW_BEFORE_MS = 6 * 60 * 60 * 1000"

definition PUNCH_WINDOW_AFTER_MS :: int where
  "PUNCH_WINDOW_AFTER_MS = 12 * 60 * 60 * 1000"

definition minutesBetween :: "instant \<Rightarrow> instant \<Rightarrow> int" where
  "minutesBetween from to = (to - from) div ms_per_minute"

section \<open>The derivation\<close>

definition flagsOf :: "engine_punch list \<Rightarrow> oid \<Rightarrow> day_flag list" where
  "flagsOf punches branch =
     (if \<exists>p \<in> set punches. ep_branchIdAtPunch p \<noteq> None \<and> ep_branchIdAtPunch p \<noteq> Some branch
      then [CrossBranchPunch] else []) @
     (if \<exists>p \<in> set punches. ep_source p = PunchManual then [ManualPunch] else []) @
     (if \<exists>p \<in> set punches. ep_source p = PunchRegularization then [RegularizedPunch] else [])"

definition byTime :: "engine_punch list \<Rightarrow> engine_punch list" where
  "byTime punches = sort_key ep_at punches"

definition empty_day :: "attendance_day_status \<Rightarrow> day_flag list \<Rightarrow> derived_day" where
  "empty_day st flags = \<lparr>dd_status = st, dd_firstInAt = None, dd_lastOutAt = None, dd_workedMinutes = 0,
     dd_lateMinutes = 0, dd_earlyLeaveMinutes = 0, dd_overtimeMinutes = 0, dd_leaveId = None, dd_flags = flags\<rparr>"

definition leave_day :: "day_leave \<Rightarrow> engine_shift option \<Rightarrow> engine_punch list \<Rightarrow> day_flag list \<Rightarrow> derived_day" where
  "leave_day leave shift punches flags =
     (let first = (if punches = [] then None else Some (ep_at (hd punches)));
          final = (if 2 \<le> length punches then Some (ep_at (last punches)) else None);
          brk = (case shift of None \<Rightarrow> 0 | Some s \<Rightarrow> es_breakMinutes s)
      in (empty_day DayOnLeave flags)\<lparr>
           dd_leaveId := Some (dl_leaveId leave),
           dd_firstInAt := (if dl_halfDay leave then first else None),
           dd_lastOutAt := (if dl_halfDay leave then final else None),
           dd_workedMinutes := (case (dl_halfDay leave, first, final) of
               (True, Some f, Some l) \<Rightarrow> max 0 (minutesBetween f l - brk) | _ \<Rightarrow> 0)\<rparr>)"

definition day_status_of :: "int \<Rightarrow> int \<Rightarrow> attendance_day_status" where
  "day_status_of late early =
     (if 0 < late \<and> 0 < early then DayLateAndEarly else if 0 < late then DayLate
      else if 0 < early then DayEarlyLeave else DayPresent)"

definition worked_day ::
  "cairo_clock \<Rightarrow> instant \<Rightarrow> engine_shift \<Rightarrow> engine_punch list \<Rightarrow> day_flag list \<Rightarrow> derived_day" where
  "worked_day offset workDate shift punches flags =
     (let firstIn = ep_at (hd punches); lastOut = ep_at (last punches);
          start = fst (shiftWindow offset workDate shift); finish = snd (shiftWindow offset workDate shift);
          worked = max 0 (minutesBetween firstIn lastOut - es_breakMinutes shift);
          graceInEnd = start + es_graceInMinutes shift * ms_per_minute;
          late = (if firstIn > graceInEnd then minutesBetween start firstIn else 0);
          graceOutStart = finish - es_graceOutMinutes shift * ms_per_minute;
          early = (if lastOut < graceOutStart then minutesBetween lastOut finish else 0);
          overtime = (if lastOut > finish then minutesBetween finish lastOut else 0)
      in \<lparr>dd_status = day_status_of late early, dd_firstInAt = Some firstIn, dd_lastOutAt = Some lastOut,
          dd_workedMinutes = worked, dd_lateMinutes = late, dd_earlyLeaveMinutes = early,
          dd_overtimeMinutes = overtime, dd_leaveId = None, dd_flags = flags\<rparr>)"

definition deriveDay :: "cairo_clock \<Rightarrow> derive_day_input \<Rightarrow> derived_day option" where
  "deriveDay offset input =
     (if \<not> di_employed input then None
      else let punches = byTime (di_punches input); flags = flagsOf punches (di_employeeBranchId input)
      in Some (case di_leave input of
           Some leave \<Rightarrow> leave_day leave (di_shift input) punches flags
         | None \<Rightarrow>
             if di_holiday input then empty_day DayHoliday flags
             else if di_weekend input then empty_day DayWeekend flags
             else case di_shift input of
               None \<Rightarrow> empty_day DayDayOff flags
             | Some shift \<Rightarrow>
                 if punches = [] then empty_day DayAbsent flags
                 else if length punches = 1
                 then (empty_day DayIncomplete flags)\<lparr>dd_firstInAt := Some (ep_at (hd punches))\<rparr>
                 else worked_day offset (di_workDate input) shift punches flags))"

section \<open>The shift of a date\<close>

record shift_assignment =
  sa_id :: oid
  sa_employeeId :: oid
  sa_shiftId :: oid
  sa_fromDate :: instant
  sa_toDate :: "instant option"
  sa_isDeleted :: bool

definition assignment_covers :: "shift_assignment \<Rightarrow> instant \<Rightarrow> bool" where
  "assignment_covers a day \<longleftrightarrow> sa_fromDate a \<le> day \<and> (case sa_toDate a of None \<Rightarrow> True | Some t \<Rightarrow> day \<le> t)"

definition later_anchor :: "shift_assignment \<Rightarrow> shift_assignment \<Rightarrow> shift_assignment" where
  "later_anchor best a = (if sa_fromDate a > sa_fromDate best then a else best)"

definition pickAssignmentForDate :: "shift_assignment list \<Rightarrow> instant \<Rightarrow> shift_assignment option" where
  "pickAssignmentForDate assignments day =
     (let covering = filter (\<lambda>a. assignment_covers a day) assignments;
          bounded = filter (\<lambda>a. sa_toDate a \<noteq> None) covering;
          pool = (if bounded \<noteq> [] then bounded else covering)
      in if covering = [] then None else Some (foldl later_anchor (hd pool) (tl pool)))"

definition resolveShiftIdForDate :: "shift_assignment list \<Rightarrow> oid \<Rightarrow> instant \<Rightarrow> oid option" where
  "resolveShiftIdForDate rows employeeId day =
     map_option sa_shiftId (pickAssignmentForDate
       (filter (\<lambda>a. sa_employeeId a = employeeId \<and> \<not> sa_isDeleted a \<and> sa_fromDate a \<le> day) rows) day)"

section \<open>Facts\<close>

lemma hd_sort_key_at: "xs \<noteq> [] \<Longrightarrow> ep_at (hd (byTime xs)) = Min (ep_at ` set xs)"
proof -
  assume "xs \<noteq> []"
  then obtain y ys where e: "byTime xs = y # ys" "set xs = set (y # ys)"
    by (metis byTime_def list.exhaust set_sort sort_key_simps(1) length_0_conv length_sort)
  have "sorted (map ep_at (byTime xs))" by (simp add: byTime_def)
  then have "\<forall>z \<in> set (y # ys). ep_at y \<le> ep_at z" by (simp add: e)
  then show ?thesis by (simp add: e) (intro Min_eqI [symmetric], auto)
qed

lemma last_sort_key_at: "xs \<noteq> [] \<Longrightarrow> ep_at (last (byTime xs)) = Max (ep_at ` set xs)"
proof -
  assume "xs \<noteq> []"
  then have ne: "byTime xs \<noteq> []" by (metis byTime_def length_0_conv length_sort)
  have "sorted (map ep_at (byTime xs))" by (simp add: byTime_def)
  moreover have "byTime xs = butlast (byTime xs) @ [last (byTime xs)]" using ne by simp
  ultimately have "sorted (map ep_at (butlast (byTime xs)) @ [ep_at (last (byTime xs))])"
    by (metis list.map(1) list.map(2) map_append)
  then have "\<forall>z \<in> set (butlast (byTime xs)). ep_at z \<le> ep_at (last (byTime xs))"
    by (simp add: sorted_append)
  moreover have "set xs = insert (last (byTime xs)) (set (butlast (byTime xs)))"
    using \<open>byTime xs = butlast (byTime xs) @ [last (byTime xs)]\<close>
    by (metis Un_insert_right boolean_algebra.disj_zero_right byTime_def list.simps(15) set_append set_empty2 set_sort empty_set)
  ultimately show ?thesis by (intro Max_eqI [symmetric]) auto
qed

text \<open>Only the set of punches and their number are looked at.\<close>

lemma flagsOf_set: "set xs = set ys \<Longrightarrow> flagsOf xs b = flagsOf ys b"
  by (simp add: flagsOf_def)

lemma minutesBetween_nonneg: "a \<le> b \<Longrightarrow> 0 \<le> minutesBetween a b"
  by (simp add: minutesBetween_def ms_per_minute_def pos_imp_zdiv_nonneg_iff)

lemma foldl_later_anchor:
  "foldl later_anchor x xs \<in> set (x # xs) \<and> (\<forall>b \<in> set (x # xs). sa_fromDate b \<le> sa_fromDate (foldl later_anchor x xs))"
proof (induction xs arbitrary: x)
  case (Cons y ys)
  then show ?case using Cons.IH [of "later_anchor x y"] by (fastforce simp: later_anchor_def split: if_splits)
qed simp

text \<open>The three kinds of derived day.\<close>

definition quiet_day :: "derived_day \<Rightarrow> bool" where
  "quiet_day d \<longleftrightarrow> dd_status d \<in> {DayHoliday, DayWeekend, DayDayOff, DayAbsent, DayIncomplete} \<and>
     dd_workedMinutes d = 0 \<and> dd_lateMinutes d = 0 \<and> dd_earlyLeaveMinutes d = 0 \<and> dd_overtimeMinutes d = 0"

lemma quiet_empty_day:
  "st \<in> {DayHoliday, DayWeekend, DayDayOff, DayAbsent, DayIncomplete} \<Longrightarrow> quiet_day ((empty_day st flags)\<lparr>dd_firstInAt := t\<rparr>)"
  "st \<in> {DayHoliday, DayWeekend, DayDayOff, DayAbsent, DayIncomplete} \<Longrightarrow> quiet_day (empty_day st flags)"
  by (simp_all add: quiet_day_def empty_day_def)

lemma deriveDay_cases:
  assumes "deriveDay offset input = Some d"
  obtains (leave) leave where "di_leave input = Some leave"
      "d = leave_day leave (di_shift input) (byTime (di_punches input)) (flagsOf (byTime (di_punches input)) (di_employeeBranchId input))"
    | (quiet) "quiet_day d"
    | (worked) shift where "di_shift input = Some shift" "di_leave input = None"
      "d = worked_day offset (di_workDate input) shift (byTime (di_punches input)) (flagsOf (byTime (di_punches input)) (di_employeeBranchId input))"
proof (cases "di_leave input")
  case (Some l)
  then show thesis using assms leave by (simp add: deriveDay_def Let_def split: if_splits)
next
  case None
  note none = None
  show thesis
  proof (cases "di_shift input")
    case None
    then show thesis using assms none quiet by (auto simp: deriveDay_def Let_def quiet_empty_day split: if_splits)
  next
    case (Some shift)
    consider "quiet_day d" | "d = worked_day offset (di_workDate input) shift (byTime (di_punches input))
        (flagsOf (byTime (di_punches input)) (di_employeeBranchId input))"
      using assms none Some by (simp add: deriveDay_def Let_def split: if_splits) (auto simp: quiet_empty_day)
    then show thesis by cases (fact quiet, rule worked [OF Some none])
  qed
qed

section \<open>A late day\<close>

definition late_and_over :: derive_day_input where
  "late_and_over = \<lparr>di_workDate = 0, di_employed = True, di_leave = None, di_holiday = False, di_weekend = False,
     di_shift = Some \<lparr>es_startTime = ''09:00'', es_endTime = ''17:00'', es_crossesMidnight = False,
       es_breakMinutes = 60, es_graceInMinutes = 15, es_graceOutMinutes = 0\<rparr>,
     di_punches = [\<lparr>ep_at = 26400000, ep_direction = PunchIn, ep_source = PunchDevice, ep_branchIdAtPunch = None\<rparr>,
       \<lparr>ep_at = 60000000, ep_direction = PunchOut, ep_source = PunchDevice, ep_branchIdAtPunch = None\<rparr>],
     di_employeeBranchId = 1\<rparr>"

text \<open>Nine in the morning at two hours past UTC, arrival at 9:20 with a grace of 15 minutes, departure at 18:40.\<close>

definition late_and_over_day :: derived_day where
  "late_and_over_day = \<lparr>dd_status = DayLate, dd_firstInAt = Some 26400000, dd_lastOutAt = Some 60000000,
     dd_workedMinutes = 500, dd_lateMinutes = 20, dd_earlyLeaveMinutes = 0, dd_overtimeMinutes = 100,
     dd_leaveId = None, dd_flags = []\<rparr>"

lemma deriveDay_late_and_over: "deriveDay (\<lambda>_. 120) late_and_over = Some late_and_over_day"
  by code_simp

section \<open>Properties\<close>

text \<open>The derivation is order-independent: the punches of a day may arrive in any order, and the day is
  the same.\<close>

lemma derivation_order_independent:
  assumes "mset ps = mset qs"
  shows "deriveDay offset (input\<lparr>di_punches := ps\<rparr>) = deriveDay offset (input\<lparr>di_punches := qs\<rparr>)"
proof (cases "ps = []")
  case True
  then show ?thesis using assms by simp
next
  case False
  then have q: "qs \<noteq> []" using assms by auto
  have s: "set ps = set qs" using assms by (rule mset_eq_setD)
  have len: "length (byTime ps) = length (byTime qs)"
    using mset_eq_length [OF assms] by (simp add: byTime_def)
  have ne: "byTime ps \<noteq> []" "byTime qs \<noteq> []"
    using False q by (metis byTime_def length_0_conv length_sort)+
  have sets: "set (byTime ps) = set (byTime qs)" using s by (simp add: byTime_def)
  have ends: "ep_at (hd (byTime ps)) = ep_at (hd (byTime qs))" "ep_at (last (byTime ps)) = ep_at (last (byTime qs))"
    by (simp_all add: hd_sort_key_at last_sort_key_at False q s)
  have "flagsOf (byTime ps) b = flagsOf (byTime qs) b" for b using sets by (rule flagsOf_set)
  then show ?thesis using ne len ends
    by (simp add: deriveDay_def Let_def leave_day_def worked_day_def split: option.splits)
qed

lemma derivation_order_independent_witness:
  "deriveDay (\<lambda>_. 180) (late_and_over\<lparr>di_punches := [\<lparr>ep_at = 5, ep_direction = PunchIn, ep_source = PunchDevice, ep_branchIdAtPunch = None\<rparr>,
      \<lparr>ep_at = 3, ep_direction = PunchOut, ep_source = PunchManual, ep_branchIdAtPunch = None\<rparr>]\<rparr>) =
   deriveDay (\<lambda>_. 180) (late_and_over\<lparr>di_punches := [\<lparr>ep_at = 3, ep_direction = PunchOut, ep_source = PunchManual, ep_branchIdAtPunch = None\<rparr>,
      \<lparr>ep_at = 5, ep_direction = PunchIn, ep_source = PunchDevice, ep_branchIdAtPunch = None\<rparr>]\<rparr>)"
  by (rule derivation_order_independent) simp



text \<open>Lateness is counted from the start of the shift, grace included: once the grace has passed, the
  minutes recorded are the grace and the minutes past it together.\<close>

lemma lateness_includes_grace:
  assumes "deriveDay offset input = Some d" "di_shift input = Some shift" "0 \<le> es_graceInMinutes shift" "0 < dd_lateMinutes d"
  shows "\<exists>firstIn. dd_firstInAt d = Some firstIn \<and>
    dd_lateMinutes d = es_graceInMinutes shift +
      minutesBetween (fst (shiftWindow offset (di_workDate input) shift) + es_graceInMinutes shift * ms_per_minute) firstIn"
proof -
  have d: "d = worked_day offset (di_workDate input) shift (byTime (di_punches input))
      (flagsOf (byTime (di_punches input)) (di_employeeBranchId input))"
    using assms(1)
  proof (cases rule: deriveDay_cases)
    case (leave l)
    then show ?thesis using assms(4) by (simp add: leave_day_def Let_def empty_day_def)
  next
    case quiet
    then show ?thesis using assms(4) by (simp add: quiet_day_def)
  next
    case (worked shift')
    then show ?thesis using assms(2) by simp
  qed
  have "minutesBetween s t = g + minutesBetween (s + g * ms_per_minute) t" for s t g
  proof -
    have "t - s = (t - (s + g * ms_per_minute)) + g * ms_per_minute" by simp
    then show ?thesis unfolding minutesBetween_def by (simp add: ms_per_minute_def)
  qed
  then show ?thesis using assms(4) by (simp add: d worked_day_def Let_def split: if_splits)
qed

lemma lateness_includes_grace_witness:
  "\<exists>firstIn. dd_firstInAt late_and_over_day = Some firstIn \<and> dd_lateMinutes late_and_over_day = 15 + minutesBetween 26100000 firstIn"
proof -
  have "fst (shiftWindow (\<lambda>_. 120) 0 \<lparr>es_startTime = ''09:00'', es_endTime = ''17:00'', es_crossesMidnight = False,
       es_breakMinutes = 60, es_graceInMinutes = 15, es_graceOutMinutes = 0\<rparr>) = 25200000" by code_simp
  then show ?thesis
    using lateness_includes_grace [OF deriveDay_late_and_over, unfolded late_and_over_def late_and_over_day_def]
    by (simp add: late_and_over_day_def ms_per_minute_def)
qed

text \<open>The shift of a date: \<open>pickAssignmentForDate\<close> answers an assignment that covers the date; it is a
  bounded one when any bounded one covers it, and of those in question it is one with the latest start;
  and it answers nothing only when none covers the date.\<close>

lemma assignment_winner:
  "case pickAssignmentForDate rows day of
     None \<Rightarrow> (\<forall>b \<in> set rows. \<not> assignment_covers b day)
   | Some a \<Rightarrow> a \<in> set rows \<and> assignment_covers a day \<and>
       (sa_toDate a = None \<longrightarrow> (\<forall>b \<in> set rows. assignment_covers b day \<longrightarrow> sa_toDate b = None)) \<and>
       (\<forall>b \<in> set rows. assignment_covers b day \<and> (sa_toDate b = None \<longleftrightarrow> sa_toDate a = None) \<longrightarrow>
          sa_fromDate b \<le> sa_fromDate a)"
proof -
  define covering where "covering = filter (\<lambda>a. assignment_covers a day) rows"
  define bounded where "bounded = filter (\<lambda>a. sa_toDate a \<noteq> None) covering"
  define pool where "pool = (if bounded \<noteq> [] then bounded else covering)"
  show ?thesis
  proof (cases "covering = []")
    case True
    then show ?thesis by (auto simp: pickAssignmentForDate_def Let_def covering_def filter_empty_conv)
  next
    case False
    then have pool: "pool \<noteq> []" by (auto simp: pool_def)
    define a where "a = foldl later_anchor (hd pool) (tl pool)"
    have a: "a \<in> set pool" "\<forall>b \<in> set pool. sa_fromDate b \<le> sa_fromDate a"
      using foldl_later_anchor [of "hd pool" "tl pool"] pool by (simp_all add: a_def)
    have r: "pickAssignmentForDate rows day = Some a"
      using False by (simp add: pickAssignmentForDate_def Let_def a_def pool_def bounded_def covering_def)
    show ?thesis
    proof (cases "bounded = []")
      case True
      then have "pool = covering" "\<forall>b \<in> set covering. sa_toDate b = None"
        by (auto simp: pool_def bounded_def filter_empty_conv)
      then show ?thesis using a by (auto simp: r covering_def)
    next
      case False2: False
      then have "pool = bounded" by (simp add: pool_def)
      then show ?thesis using a by (auto simp: r bounded_def covering_def)
    qed
  qed
qed

lemma assignment_winner_witness:
  "pickAssignmentForDate
     [\<lparr>sa_id = 1, sa_employeeId = 1, sa_shiftId = 10, sa_fromDate = 0, sa_toDate = None, sa_isDeleted = False\<rparr>,
      \<lparr>sa_id = 2, sa_employeeId = 1, sa_shiftId = 20, sa_fromDate = 0, sa_toDate = Some 9, sa_isDeleted = False\<rparr>] 5 =
   Some \<lparr>sa_id = 2, sa_employeeId = 1, sa_shiftId = 20, sa_fromDate = 0, sa_toDate = Some 9, sa_isDeleted = False\<rparr>"
  using assignment_winner [of "[\<lparr>sa_id = 1, sa_employeeId = 1, sa_shiftId = 10, sa_fromDate = 0, sa_toDate = None, sa_isDeleted = False\<rparr>,
      \<lparr>sa_id = 2, sa_employeeId = 1, sa_shiftId = 20, sa_fromDate = 0, sa_toDate = Some 9, sa_isDeleted = False\<rparr>]" 5]
  by (auto simp: assignment_covers_def split: option.splits)

end
