(* ===== verification/Attendance_Days.thy ===== *)
theory Attendance_Days
  imports Attendance_Derivation Payroll_Period "HOL-Library.Product_Lexorder"
begin

text \<open>
  The attendance engine and its store: \<open>attendance/day-records/day-record.service.ts\<close>,
  \<open>day-record.model.ts\<close>, \<open>attendance-feed.ts\<close> and \<open>attendance/overtime/overtime.service.ts\<close>. The store
  holds the day rows and the events the service emits. What the engine gathers and never writes (employees,
  leave, holidays, shifts, punches, settings, the clock) is its environment.
\<close>

section \<open>Data\<close>

record attendance_day =
  dy_id :: oid
  dy_employeeId :: oid
  dy_workDate :: instant
  dy_status :: attendance_day_status
  dy_shiftId :: "oid option"
  dy_firstInAt :: "instant option"
  dy_lastOutAt :: "instant option"
  dy_workedMinutes :: int
  dy_lateMinutes :: int
  dy_earlyLeaveMinutes :: int
  dy_overtimeMinutes :: int
  dy_approvedOvertimeMinutes :: int
  dy_leaveId :: "oid option"
  dy_flags :: "day_flag list"
  dy_branchId :: oid
  dy_computedAt :: instant
  dy_frozenAt :: "instant option"
  dy_isDeleted :: bool
  dy_version :: int

datatype attendance_event =
    DayComputed oid instant attendance_day_status oid
  | DayAbsentEvent oid instant attendance_day_status oid
  | PeriodFrozen string instant instant nat
  | OvertimeApproved oid instant int oid

record att_store =
  as_days :: "attendance_day list"
  as_events :: "attendance_event list"
  as_nextId :: oid

record att_employee =
  ae_id :: oid
  ae_isDeleted :: bool
  ae_periods :: "(instant \<times> instant option) list"
  ae_startDate :: instant
  ae_branchId :: oid

datatype leave_status =
    LeavePendingManager
  | LeavePendingHr
  | LeavePendingApproval
  | LeaveApproved
  | LeaveActive
  | LeaveCompleted
  | LeaveRejected
  | LeaveCancelled

record att_leave =
  al_id :: oid
  al_employeeId :: oid
  al_status :: leave_status
  al_startDate :: instant
  al_endDate :: instant
  al_halfDayStart :: bool
  al_halfDayEnd :: bool
  al_isDeleted :: bool

record att_punch =
  ap_employeeId :: oid
  ap_punch :: engine_punch
  ap_supersededBy :: "oid option"

record att_env =
  ev_employees :: "att_employee list"
  ev_leaves :: "att_leave list"
  ev_holidays :: "instant list"
  ev_weekendDays :: "int list"
  ev_assignments :: "shift_assignment list"
  ev_shifts :: "oid \<Rightarrow> engine_shift option"
  ev_punches :: "att_punch list"
  ev_requiresApproval :: bool
  ev_clock :: cairo_clock
  ev_now :: instant
  ev_today :: instant
  ev_cairoHour :: int
  ev_autoComputeHour :: int

section \<open>What the engine gathers\<close>

text \<open>Monday is 1 and Sunday is 7; day 0 of the epoch was a Thursday.\<close>

definition isoWeekday :: "instant \<Rightarrow> int" where
  "isoWeekday t = (let wd = (t div ms_per_day + 4) mod 7 in if wd = 0 then 7 else wd)"

definition findEmployee :: "att_env \<Rightarrow> oid \<Rightarrow> att_employee option" where
  "findEmployee env i = List.find (\<lambda>e. ae_id e = i \<and> \<not> ae_isDeleted e) (ev_employees env)"

definition listIdsForAttendance :: "att_env \<Rightarrow> oid list" where
  "listIdsForAttendance env = map ae_id (filter (\<lambda>e. \<not> ae_isDeleted e) (ev_employees env))"

definition employedOnDay :: "att_employee \<Rightarrow> instant \<Rightarrow> bool" where
  "employedOnDay e day =
     (if ae_periods e \<noteq> []
      then \<exists>p \<in> set (ae_periods e). toDateOnly (fst p) \<le> day \<and> (case snd p of None \<Rightarrow> True | Some x \<Rightarrow> day \<le> toDateOnly x)
      else toDateOnly (ae_startDate e) \<le> day)"

definition COVERING_LEAVE_STATUSES :: "leave_status list" where
  "COVERING_LEAVE_STATUSES = [LeaveApproved, LeaveActive, LeaveCompleted]"

definition covering_leave :: "att_env \<Rightarrow> oid \<Rightarrow> instant \<Rightarrow> day_leave option" where
  "covering_leave env emp day =
     map_option (\<lambda>l. \<lparr>dl_leaveId = al_id l,
         dl_halfDay = (al_halfDayStart l \<and> toDateOnly (al_startDate l) = day \<or>
                       al_halfDayEnd l \<and> toDateOnly (al_endDate l) = day)\<rparr>)
       (List.find (\<lambda>l. al_employeeId l = emp \<and> al_status l \<in> set COVERING_LEAVE_STATUSES \<and>
          al_startDate l \<le> day \<and> day \<le> al_endDate l \<and> \<not> al_isDeleted l) (ev_leaves env))"

text \<open>\<open>listHolidays\<close> of a single date: the holidays (those not deleted) on it.\<close>

definition listHolidays :: "att_env \<Rightarrow> instant \<Rightarrow> instant \<Rightarrow> instant list" where
  "listHolidays env from to = filter (\<lambda>h. toDateOnly from \<le> h \<and> h \<le> toDateOnly to) (ev_holidays env)"

definition listForWindow :: "att_env \<Rightarrow> oid \<Rightarrow> instant \<Rightarrow> instant \<Rightarrow> engine_punch list" where
  "listForWindow env emp from to =
     sort_key ep_at (map ap_punch (filter (\<lambda>p. ap_employeeId p = emp \<and> from \<le> ep_at (ap_punch p) \<and>
       ep_at (ap_punch p) \<le> to \<and> ap_supersededBy p = None) (ev_punches env)))"

definition day_input :: "att_env \<Rightarrow> att_employee \<Rightarrow> instant \<Rightarrow> (oid option) \<times> derive_day_input" where
  "day_input env e day =
     (let shiftId = resolveShiftIdForDate (ev_assignments env) (ae_id e) day;
          shift = Option.bind shiftId (ev_shifts env);
          punches = (case shift of None \<Rightarrow> []
            | Some s \<Rightarrow> (case shiftWindow (ev_clock env) day s of (start, finish) \<Rightarrow>
                listForWindow env (ae_id e) (start - PUNCH_WINDOW_BEFORE_MS) (finish + PUNCH_WINDOW_AFTER_MS)))
      in (if shift = None then None else shiftId,
          \<lparr>di_workDate = day, di_employed = True, di_leave = covering_leave env (ae_id e) day,
           di_holiday = (listHolidays env day day \<noteq> []), di_weekend = (isoWeekday day \<in> set (ev_weekendDays env)),
           di_shift = shift, di_punches = punches, di_employeeBranchId = ae_branchId e\<rparr>))"

section \<open>computeDay\<close>

datatype day_outcome = FrozenDay | NoDay | ComputedDay attendance_day

fun update_first :: "('a \<Rightarrow> bool) \<Rightarrow> ('a \<Rightarrow> 'a) \<Rightarrow> 'a list \<Rightarrow> 'a list" where
  "update_first P f [] = []"
| "update_first P f (x # xs) = (if P x then f x # xs else x # update_first P f xs)"

definition is_day_of :: "oid \<Rightarrow> instant \<Rightarrow> attendance_day \<Rightarrow> bool" where
  "is_day_of emp day d \<longleftrightarrow> dy_employeeId d = emp \<and> dy_workDate d = day"

text \<open>The fields every computation sets; the rest of the row is set when it is inserted.\<close>

definition set_derived ::
  "derived_day \<Rightarrow> oid option \<Rightarrow> oid \<Rightarrow> instant \<Rightarrow> attendance_day \<Rightarrow> attendance_day" where
  "set_derived dd shiftId branch now d = d\<lparr>dy_status := dd_status dd, dy_shiftId := shiftId,
     dy_firstInAt := dd_firstInAt dd, dy_lastOutAt := dd_lastOutAt dd,
     dy_workedMinutes := dd_workedMinutes dd, dy_lateMinutes := dd_lateMinutes dd,
     dy_earlyLeaveMinutes := dd_earlyLeaveMinutes dd, dy_overtimeMinutes := dd_overtimeMinutes dd,
     dy_leaveId := dd_leaveId dd, dy_flags := dd_flags dd, dy_branchId := branch,
     dy_computedAt := now, dy_isDeleted := False\<rparr>"

definition new_day :: "oid \<Rightarrow> oid \<Rightarrow> instant \<Rightarrow> attendance_day" where
  "new_day i emp day = \<lparr>dy_id = i, dy_employeeId = emp, dy_workDate = day, dy_status = DayDayOff,
     dy_shiftId = None, dy_firstInAt = None, dy_lastOutAt = None, dy_workedMinutes = 0, dy_lateMinutes = 0,
     dy_earlyLeaveMinutes = 0, dy_overtimeMinutes = 0, dy_approvedOvertimeMinutes = 0, dy_leaveId = None,
     dy_flags = [], dy_branchId = 0, dy_computedAt = 0, dy_frozenAt = None, dy_isDeleted = False, dy_version = 0\<rparr>"

text \<open>The upsert: the first row of the key that is not frozen is changed; when there is none a row is
  inserted, which the unique index refuses while any row holds the key.\<close>

definition upsertDay ::
  "oid \<Rightarrow> instant \<Rightarrow> (attendance_day \<Rightarrow> attendance_day) \<Rightarrow> (att_store, attendance_day) st" where
  "upsertDay emp day f s =
     (case List.find (\<lambda>d. is_day_of emp day d \<and> dy_frozenAt d = None) (as_days s) of
        Some d \<Rightarrow> (s\<lparr>as_days := update_first (\<lambda>d. is_day_of emp day d \<and> dy_frozenAt d = None) f (as_days s)\<rparr>, Inr (f d))
      | None \<Rightarrow>
          if \<exists>d \<in> set (as_days s). is_day_of emp day d then (s, Inl (DuplicateKeyError ''ux_employee_workDate''))
          else let d = f (new_day (as_nextId s) emp day)
               in (s\<lparr>as_days := as_days s @ [d], as_nextId := as_nextId s + 1\<rparr>, Inr d))"

definition releasable :: "bool \<Rightarrow> attendance_day \<Rightarrow> int" where
  "releasable requiresApproval d =
     (if requiresApproval then min (dy_approvedOvertimeMinutes d) (dy_overtimeMinutes d) else dy_overtimeMinutes d)"

text \<open>\<open>updateOne({ _id, frozenAt: null }, \<dots>)\<close>, done only when the released quantity moves.\<close>

definition releaseOvertime :: "bool \<Rightarrow> attendance_day \<Rightarrow> (att_store, attendance_day) st" where
  "releaseOvertime requiresApproval d =
     (let r = releasable requiresApproval d
      in if r \<noteq> dy_approvedOvertimeMinutes d
         then st_bind (st_modify (\<lambda>s. s\<lparr>as_days := update_where (\<lambda>x. dy_id x = dy_id d \<and> dy_frozenAt x = None)
                (\<lambda>x. x\<lparr>dy_approvedOvertimeMinutes := r\<rparr>) (as_days s)\<rparr>))
              (\<lambda>_. st_return (d\<lparr>dy_approvedOvertimeMinutes := r\<rparr>))
         else st_return d)"

definition emit :: "attendance_event \<Rightarrow> (att_store, unit) st" where
  "emit e = st_modify (\<lambda>s. s\<lparr>as_events := as_events s @ [e]\<rparr>)"

definition storeDay :: "att_env \<Rightarrow> att_employee \<Rightarrow> instant \<Rightarrow> oid option \<Rightarrow> derived_day \<Rightarrow> (att_store, day_outcome) st" where
  "storeDay env e day shiftId derived =
     st_bind (upsertDay (ae_id e) day (set_derived derived shiftId (ae_branchId e) (ev_now env))) (\<lambda>updated.
     st_bind (releaseOvertime (ev_requiresApproval env) updated) (\<lambda>updated.
     st_bind (emit (DayComputed (ae_id e) day (dy_status updated) (dy_branchId updated))) (\<lambda>_.
     st_bind (if dy_status updated = DayAbsent
              then emit (DayAbsentEvent (ae_id e) day (dy_status updated) (dy_branchId updated))
              else st_return ()) (\<lambda>_.
     st_return (ComputedDay updated)))))"

definition removeDay :: "attendance_day \<Rightarrow> (att_store, unit) st" where
  "removeDay d = st_modify (\<lambda>s. s\<lparr>as_days := filter (\<lambda>x. dy_id x \<noteq> dy_id d) (as_days s)\<rparr>)"

definition computeDay :: "att_env \<Rightarrow> oid \<Rightarrow> instant \<Rightarrow> (att_store, day_outcome) st" where
  "computeDay env employeeId workDateInput =
     (let day = toDateOnly workDateInput
      in case findEmployee env employeeId of
           None \<Rightarrow> st_return NoDay
         | Some e \<Rightarrow>
             st_bind (st_gets (\<lambda>s. List.find (\<lambda>d. is_day_of (ae_id e) day d \<and> \<not> dy_isDeleted d) (as_days s))) (\<lambda>existing.
             if Option.bind existing dy_frozenAt \<noteq> None then st_return FrozenDay
             else if \<not> employedOnDay e day
             then st_bind (case existing of None \<Rightarrow> st_return () | Some d \<Rightarrow> removeDay d) (\<lambda>_. st_return NoDay)
             else case day_input env e day of (shiftId, input) \<Rightarrow>
               (case deriveDay (ev_clock env) input of
                  None \<Rightarrow> st_return NoDay
                | Some derived \<Rightarrow> storeDay env e day shiftId derived)))"

section \<open>The loops of the service\<close>

text \<open>\<open>for (let d = from; d <= to; d = addDays(d, 1))\<close>.\<close>

definition days_from_to :: "instant \<Rightarrow> instant \<Rightarrow> instant list" where
  "days_from_to from to = map (\<lambda>i. addDays from (int i)) [0..<nat ((to - from) div ms_per_day + 1)]"

text \<open>Computed days and frozen days, counted.\<close>

fun computeDays :: "att_env \<Rightarrow> (oid \<times> instant) list \<Rightarrow> nat \<times> nat \<Rightarrow> (att_store, nat \<times> nat) st" where
  "computeDays env [] n = st_return n"
| "computeDays env ((e, d) # xs) n =
     st_bind (computeDay env e d) (\<lambda>outcome.
       computeDays env xs (case outcome of
           FrozenDay \<Rightarrow> (fst n, snd n + 1) | NoDay \<Rightarrow> n | ComputedDay _ \<Rightarrow> (fst n + 1, snd n)))"

definition pairs_of :: "oid list \<Rightarrow> instant list \<Rightarrow> (oid \<times> instant) list" where
  "pairs_of es ds = concat (map (\<lambda>e. map (Pair e) ds) es)"

definition recompute :: "att_env \<Rightarrow> oid option \<Rightarrow> instant \<Rightarrow> instant \<Rightarrow> (att_store, nat \<times> nat) st" where
  "recompute env employeeId from to =
     computeDays env (pairs_of (case employeeId of Some e \<Rightarrow> [e] | None \<Rightarrow> listIdsForAttendance env)
       (days_from_to (toDateOnly from) (toDateOnly to))) (0, 0)"

text \<open>A failure is logged and goes no further: \<open>try { \<dots> } catch\<close>.\<close>

definition st_attempt :: "('s, 'a) st \<Rightarrow> ('s, unit) st" where
  "st_attempt m s = (fst (m s), Inr ())"

definition computePreviousDayIfDue :: "att_env \<Rightarrow> (att_store, unit) st" where
  "computePreviousDayIfDue env =
     (if ev_cairoHour env \<noteq> ev_autoComputeHour env then st_return ()
      else st_each (\<lambda>e. st_attempt (computeDay env e (addDays (ev_today env) (- 1)))) (listIdsForAttendance env))"

definition recomputeSpanForEmployee :: "att_env \<Rightarrow> oid \<Rightarrow> instant \<Rightarrow> instant \<Rightarrow> (att_store, unit) st" where
  "recomputeSpanForEmployee env e from to =
     st_attempt (computeDays env (pairs_of [e] (take 366 (days_from_to (toDateOnly from) (toDateOnly to)))) (0, 0))"

section \<open>The freeze and the feed\<close>

definition monthRange :: "string \<Rightarrow> app_error + (instant \<times> instant)" where
  "monthRange period =
     (if \<not> is_period period then Inl (BusinessRuleError ''not a period'')
      else let y = int (period_year period); m = int (period_month period)
           in Inr (date_utc y (m - 1) 1, date_utc y m 0))"

definition unfrozen_in :: "instant \<Rightarrow> instant \<Rightarrow> attendance_day \<Rightarrow> bool" where
  "unfrozen_in from to d \<longleftrightarrow> from \<le> dy_workDate d \<and> dy_workDate d \<le> to \<and> dy_frozenAt d = None \<and> \<not> dy_isDeleted d"

record freeze_result =
  fz_period :: string
  fz_computed :: nat
  fz_frozen :: nat
  fz_alreadyFrozen :: bool

definition freezePeriod :: "att_env \<Rightarrow> string \<Rightarrow> (att_store, freeze_result) st" where
  "freezePeriod env period =
     st_bind (st_lift (monthRange period)) (\<lambda>range.
     st_bind (st_ensure (snd range < ev_today env)
       (BusinessRuleError ''a period may only be frozen after its last day has passed'')) (\<lambda>_.
     st_bind (computeDays env (pairs_of (listIdsForAttendance env) (days_from_to (fst range) (snd range))) (0, 0)) (\<lambda>counts.
     st_bind (st_gets (\<lambda>s. length (filter (unfrozen_in (fst range) (snd range)) (as_days s)))) (\<lambda>frozen.
     st_bind (st_modify (\<lambda>s. s\<lparr>as_days := update_where (unfrozen_in (fst range) (snd range))
       (\<lambda>d. d\<lparr>dy_frozenAt := Some (ev_now env)\<rparr>) (as_days s)\<rparr>)) (\<lambda>_.
     st_bind (if 0 < frozen then emit (PeriodFrozen period (fst range) (snd range) frozen) else st_return ()) (\<lambda>_.
     st_return \<lparr>fz_period = period, fz_computed = fst counts, fz_frozen = frozen, fz_alreadyFrozen = (frozen = 0)\<rparr>))))))"

text \<open>The feed row: what the counting of quantities reads, and the rest of the twelve fields.\<close>

record attendance_feed_row = feed_row +
  fr_employeeId :: oid
  fr_shiftId :: "oid option"
  fr_leaveId :: "oid option"
  fr_branchId :: oid
  fr_flags :: "day_flag list"

text \<open>\<open>toISOString\<close> of an instant.\<close>

definition instantIso :: "instant \<Rightarrow> string" where
  "instantIso t =
     (let ms = nat (t mod ms_per_day); two = (\<lambda>n. pad_start 2 (CHR ''0'') (show_nat n))
      in dateOnlyIso t @ ''T'' @ two (ms div 3600000) @ '':'' @ two (ms div 60000 mod 60) @ '':'' @
         two (ms div 1000 mod 60) @ ''.'' @ pad_start 3 (CHR ''0'') (show_nat (ms mod 1000)) @ ''Z'')"

definition toFeedRow :: "attendance_day \<Rightarrow> app_error + attendance_feed_row" where
  "toFeedRow d =
     (case dy_frozenAt d of
        None \<Rightarrow> Inl (BusinessRuleError ''an unfrozen row never leaves the module'')
      | Some at \<Rightarrow> Inr \<lparr>fr_workDate = dateOnlyIso (dy_workDate d), fr_status = dy_status d,
          fr_workedMinutes = dy_workedMinutes d, fr_lateMinutes = dy_lateMinutes d,
          fr_earlyLeaveMinutes = dy_earlyLeaveMinutes d,
          fr_approvedOvertimeMinutes = dy_approvedOvertimeMinutes d, fr_frozenAt = instantIso at,
          fr_employeeId = dy_employeeId d, fr_shiftId = dy_shiftId d, fr_leaveId = dy_leaveId d,
          fr_branchId = dy_branchId d, fr_flags = dy_flags d\<rparr>)"

definition feed_days :: "instant \<Rightarrow> instant \<Rightarrow> oid option \<Rightarrow> att_store \<Rightarrow> attendance_day list" where
  "feed_days from to employeeId s =
     sort_key (\<lambda>d. (dy_employeeId d, dy_workDate d))
       (filter (\<lambda>d. from \<le> dy_workDate d \<and> dy_workDate d \<le> to \<and> \<not> dy_isDeleted d \<and>
          (case employeeId of None \<Rightarrow> True | Some e \<Rightarrow> dy_employeeId d = e)) (as_days s))"

definition readFrozenFeed :: "string \<Rightarrow> oid option \<Rightarrow> att_store \<Rightarrow> app_error + attendance_feed_row list" where
  "readFrozenFeed period employeeId s =
     res_bind (monthRange period) (\<lambda>range.
     res_bind (res_ensure (filter (unfrozen_in (fst range) (snd range)) (as_days s) = [])
       (BusinessRuleError ''period is not frozen'')) (\<lambda>_.
     res_map toFeedRow (feed_days (fst range) (snd range) employeeId s)))"

section \<open>Overtime\<close>

text \<open>\<open>updateById\<close> of the day repository, whose writes carry \<open>frozenAt: null\<close>.\<close>

definition findDayById :: "oid \<Rightarrow> att_store \<Rightarrow> attendance_day option" where
  "findDayById i s = List.find (\<lambda>d. dy_id d = i \<and> \<not> dy_isDeleted d) (as_days s)"

definition updateDayById ::
  "oid \<Rightarrow> int \<Rightarrow> (attendance_day \<Rightarrow> attendance_day) \<Rightarrow> (att_store, attendance_day) st" where
  "updateDayById i version f s =
     (let P = (\<lambda>d. dy_id d = i \<and> dy_version d = version \<and> dy_frozenAt d = None \<and> \<not> dy_isDeleted d);
          g = (\<lambda>d. (f d)\<lparr>dy_version := dy_version d + 1\<rparr>)
      in case List.find P (as_days s) of
           Some d \<Rightarrow> (s\<lparr>as_days := update_first P g (as_days s)\<rparr>, Inr (g d))
         | None \<Rightarrow> (s, Inl (case findDayById i s of
               None \<Rightarrow> NotFoundError ''Not found''
             | Some d \<Rightarrow> if dy_frozenAt d \<noteq> None then BusinessRuleError ''this day is frozen'' else StaleDocumentError)))"

definition approveOvertime :: "oid \<Rightarrow> int \<Rightarrow> int \<Rightarrow> (att_store, attendance_day) st" where
  "approveOvertime dayId approvedMinutes version =
     st_bind (st_gets (findDayById dayId)) (\<lambda>found.
     st_bind (st_lift (option_or (NotFoundError ''attendance day not found'') found)) (\<lambda>d.
     st_bind (st_ensure (dy_frozenAt d = None) (BusinessRuleError ''this day is frozen'')) (\<lambda>_.
     st_bind (st_ensure (approvedMinutes \<le> dy_overtimeMinutes d)
       (BusinessRuleError ''approved overtime may not exceed the derived minutes'')) (\<lambda>_.
     st_bind (updateDayById dayId version (\<lambda>d. d\<lparr>dy_approvedOvertimeMinutes := approvedMinutes\<rparr>)) (\<lambda>updated.
     st_bind (emit (OvertimeApproved (dy_employeeId updated) (dy_workDate updated)
       (dy_approvedOvertimeMinutes updated) (dy_branchId updated))) (\<lambda>_.
     st_return updated))))))"

section \<open>The service as a whole\<close>

text \<open>Every way the day rows are written. \<open>approvedMinutes\<close> comes through a schema that refuses a
  negative number.\<close>

datatype att_op =
    ComputeDay oid instant
  | Recompute "oid option" instant instant
  | NightlyCompute
  | RecomputeSpan oid instant instant
  | FreezePeriod string
  | ApproveOvertime oid int int

fun run_att_op :: "att_env \<Rightarrow> att_op \<Rightarrow> (att_store, unit) st" where
  "run_att_op env (ComputeDay e d) = st_bind (computeDay env e d) (\<lambda>_. st_return ())"
| "run_att_op env (Recompute e from to) = st_bind (recompute env e from to) (\<lambda>_. st_return ())"
| "run_att_op env NightlyCompute = computePreviousDayIfDue env"
| "run_att_op env (RecomputeSpan e from to) = recomputeSpanForEmployee env e from to"
| "run_att_op env (FreezePeriod period) = st_bind (freezePeriod env period) (\<lambda>_. st_return ())"
| "run_att_op env (ApproveOvertime i minutes version) =
     st_bind (st_ensure (0 \<le> minutes) (ValidationError ''approvedMinutes'')) (\<lambda>_.
     st_bind (approveOvertime i minutes version) (\<lambda>_. st_return ()))"

text \<open>A history: each operation meets the environment of its moment.\<close>

fun run_att :: "(att_env \<times> att_op) list \<Rightarrow> att_store \<Rightarrow> att_store" where
  "run_att [] s = s"
| "run_att ((env, opn) # xs) s = run_att xs (fst (run_att_op env opn s))"

end
