(* ===== verification/Attendance_Claims.thy ===== *)
theory Attendance_Claims
  imports Attendance_Days
begin

text \<open>
  What the attendance store guarantees: one row per employee and date, released overtime within the derived
  overtime, and frozen rows that no operation touches; what a freeze leaves behind and what the feed then
  answers.
\<close>

section \<open>The invariant\<close>

definition row_ok :: "attendance_day \<Rightarrow> bool" where
  "row_ok d \<longleftrightarrow> 0 \<le> dy_approvedOvertimeMinutes d \<and> dy_approvedOvertimeMinutes d \<le> dy_overtimeMinutes d \<and>
     \<not> dy_isDeleted d"

definition day_key :: "attendance_day \<Rightarrow> oid \<times> instant" where
  "day_key d = (dy_employeeId d, dy_workDate d)"

definition keys_ok :: "att_store \<Rightarrow> bool" where
  "keys_ok s \<longleftrightarrow> distinct (map day_key (as_days s)) \<and> distinct (map dy_id (as_days s)) \<and>
     (\<forall>d \<in> set (as_days s). dy_id d < as_nextId s)"

definition days_ok :: "att_store \<Rightarrow> bool" where
  "days_ok s \<longleftrightarrow> keys_ok s \<and> (\<forall>d \<in> set (as_days s). row_ok d)"

definition frozen_kept :: "att_store \<Rightarrow> att_store \<Rightarrow> bool" where
  "frozen_kept s t \<longleftrightarrow> (\<forall>d \<in> set (as_days s). dy_frozenAt d \<noteq> None \<longrightarrow> d \<in> set (as_days t))"

definition good_step :: "att_store \<Rightarrow> att_store \<Rightarrow> bool" where
  "good_step s t \<longleftrightarrow> days_ok t \<and> frozen_kept s t"

lemma frozen_kept_refl: "frozen_kept s s"
  and frozen_kept_trans: "frozen_kept s t \<Longrightarrow> frozen_kept t u \<Longrightarrow> frozen_kept s u"
  by (auto simp: frozen_kept_def)

subsection \<open>Writes of the day collection\<close>

lemma update_first_in:
  "y \<in> set (update_first P f xs) \<Longrightarrow> y \<in> set xs \<or> (\<exists>x. List.find P xs = Some x \<and> y = f x)"
  by (induction xs) (auto split: if_splits)

lemma update_first_keeps: "x \<in> set xs \<Longrightarrow> \<not> P x \<Longrightarrow> x \<in> set (update_first P f xs)"
  by (induction xs) auto

lemma update_first_has: "List.find P xs = Some x \<Longrightarrow> f x \<in> set (update_first P f xs)"
  by (induction xs) (auto split: if_splits)

lemma map_update_first: "(\<And>x. P x \<Longrightarrow> g (f x) = g x) \<Longrightarrow> map g (update_first P f xs) = map g xs"
  by (induction xs) auto

lemma same_id: "keys_ok s \<Longrightarrow> x \<in> set (as_days s) \<Longrightarrow> y \<in> set (as_days s) \<Longrightarrow> dy_id x = dy_id y \<Longrightarrow> x = y"
  by (auto simp: keys_ok_def distinct_map inj_on_def)

lemma same_key: "keys_ok s \<Longrightarrow> x \<in> set (as_days s) \<Longrightarrow> y \<in> set (as_days s) \<Longrightarrow> day_key x = day_key y \<Longrightarrow> x = y"
  by (auto simp: keys_ok_def distinct_map inj_on_def)

lemma set_derived_fields [simp]:
  "dy_id (set_derived dd sh b n d) = dy_id d" "dy_employeeId (set_derived dd sh b n d) = dy_employeeId d"
  "dy_workDate (set_derived dd sh b n d) = dy_workDate d" "dy_frozenAt (set_derived dd sh b n d) = dy_frozenAt d"
  "dy_isDeleted (set_derived dd sh b n d) = False" "dy_overtimeMinutes (set_derived dd sh b n d) = dd_overtimeMinutes dd"
  "dy_approvedOvertimeMinutes (set_derived dd sh b n d) = dy_approvedOvertimeMinutes d"
  by (simp_all add: set_derived_def)

lemma new_day_fields [simp]:
  "dy_id (new_day i e d) = i" "dy_employeeId (new_day i e d) = e" "dy_workDate (new_day i e d) = d"
  "dy_frozenAt (new_day i e d) = None" "dy_approvedOvertimeMinutes (new_day i e d) = 0"
  by (simp_all add: new_day_def)

lemma deriveDay_overtime:
  assumes "deriveDay offset input = Some d"
  shows "0 \<le> dd_overtimeMinutes d"
  using assms
proof (cases rule: deriveDay_cases)
  case (leave l)
  then show ?thesis by (simp add: leave_day_def empty_day_def Let_def)
next
  case quiet
  then show ?thesis by (simp add: quiet_day_def)
next
  case (worked sh)
  then show ?thesis by (simp add: worked_day_def Let_def minutesBetween_nonneg)
qed

text \<open>After the upsert only its own row may have more overtime released than derived.\<close>

definition upserted :: "att_store \<Rightarrow> oid \<Rightarrow> instant \<Rightarrow> attendance_day \<Rightarrow> att_store \<Rightarrow> bool" where
  "upserted s emp day d t \<longleftrightarrow> keys_ok t \<and> frozen_kept s t \<and> d \<in> set (as_days t) \<and> is_day_of emp day d \<and>
     dy_frozenAt d = None \<and> \<not> dy_isDeleted d \<and> 0 \<le> dy_approvedOvertimeMinutes d \<and> 0 \<le> dy_overtimeMinutes d \<and>
     (\<forall>x \<in> set (as_days t). x \<noteq> d \<longrightarrow> row_ok x \<and> x \<in> set (as_days s)) \<and>
     (\<forall>x \<in> set (as_days s). \<not> is_day_of emp day x \<longrightarrow> x \<in> set (as_days t))"

lemma upsertDay_ok:
  assumes "days_ok s" "0 \<le> dd_overtimeMinutes dd"
    and "upsertDay emp day (set_derived dd sh b n) s = (t, r)"
  shows "(\<forall>e. r = Inl e \<longrightarrow> t = s) \<and> (\<forall>d. r = Inr d \<longrightarrow> upserted s emp day d t)"
proof (cases "List.find (\<lambda>d. is_day_of emp day d \<and> dy_frozenAt d = None) (as_days s)")
  case None
  show ?thesis
  proof (cases "\<exists>d \<in> set (as_days s). is_day_of emp day d")
    case True
    then show ?thesis using assms(3) None by (auto simp: upsertDay_def)
  next
    case False
    define d where "d = set_derived dd sh b n (new_day (as_nextId s) emp day)"
    have t: "t = s\<lparr>as_days := as_days s @ [d], as_nextId := as_nextId s + 1\<rparr>" "r = Inr d"
      using assms(3) None False by (auto simp: upsertDay_def d_def Let_def)
    have "day_key d \<notin> day_key ` set (as_days s)" "dy_id d \<notin> dy_id ` set (as_days s)"
      using False assms(1) by (auto simp: d_def day_key_def is_day_of_def days_ok_def keys_ok_def)
    then show ?thesis using assms(1,2)
      by (auto simp: t upserted_def days_ok_def keys_ok_def frozen_kept_def is_day_of_def d_def)
  qed
next
  case (Some x)
  define d where "d = set_derived dd sh b n x"
  define P where "P = (\<lambda>d::attendance_day. is_day_of emp day d \<and> dy_frozenAt d = None)"
  have t: "t = s\<lparr>as_days := update_first P (set_derived dd sh b n) (as_days s)\<rparr>" "r = Inr d"
    using assms(3) Some by (auto simp: upsertDay_def d_def P_def)
  have x: "x \<in> set (as_days s)" "is_day_of emp day x" "dy_frozenAt x = None"
    using find_Some_iff_hd [OF Some] by auto
  have maps: "map day_key (as_days t) = map day_key (as_days s)" "map dy_id (as_days t) = map dy_id (as_days s)"
    by (auto simp: t day_key_def intro!: map_update_first)
  have sets: "dy_id ` set (as_days t) = dy_id ` set (as_days s)" using maps(2) by (metis set_map)
  have "keys_ok t" using assms(1) maps sets
    by (simp add: days_ok_def keys_ok_def) (metis (no_types, lifting) t(1) att_store.select_convs(3) att_store.surjective att_store.update_convs(1) imageE imageI)
  moreover have "frozen_kept s t" by (auto simp: frozen_kept_def t P_def intro!: update_first_keeps)
  moreover have "d \<in> set (as_days t)" using Some update_first_has [of P "as_days s" x] by (simp add: t d_def P_def)
  moreover have "\<forall>y \<in> set (as_days t). y \<noteq> d \<longrightarrow> row_ok y \<and> y \<in> set (as_days s)"
    using Some update_first_in [of _ P "set_derived dd sh b n" "as_days s"] assms(1) by (auto simp: t P_def d_def days_ok_def)
  moreover have "\<forall>y \<in> set (as_days s). \<not> is_day_of emp day y \<longrightarrow> y \<in> set (as_days t)"
    by (auto simp: t P_def intro!: update_first_keeps)
  moreover have "0 \<le> dy_approvedOvertimeMinutes x" using assms(1) x by (auto simp: days_ok_def row_ok_def)
  ultimately show ?thesis using x assms(2) by (simp add: t upserted_def d_def is_day_of_def)
qed

lemma releaseOvertime_ok:
  assumes "upserted s emp day d t" "releaseOvertime ra d t = (u, r)"
  shows "\<exists>d'. r = Inr d' \<and> good_step s u \<and> upserted s emp day d' u \<and> as_events u = as_events t"
proof (cases "releasable ra d = dy_approvedOvertimeMinutes d")
  case True
  then have u: "u = t" "r = Inr d" using assms(2) by (auto simp: releaseOvertime_def Let_def st_return_def)
  have "row_ok d" using True assms(1) by (auto simp: releasable_def row_ok_def upserted_def split: if_splits)
  then show ?thesis using assms(1) by (auto simp: u good_step_def days_ok_def upserted_def)
next
  case False
  define f where "f = (\<lambda>x::attendance_day. x\<lparr>dy_approvedOvertimeMinutes := releasable ra d\<rparr>)"
  define P where "P = (\<lambda>x::attendance_day. dy_id x = dy_id d \<and> dy_frozenAt x = None)"
  have u: "u = t\<lparr>as_days := update_where P f (as_days t)\<rparr>" "r = Inr (f d)"
    using False assms(2) by (auto simp: releaseOvertime_def Let_def f_def P_def st_defs)
  note a = assms(1) [unfolded upserted_def]
  have P: "P x \<longleftrightarrow> x = d" if "x \<in> set (as_days t)" for x
    using that a same_id [of t x d] by (auto simp: P_def)
  have in_u: "y \<in> set (as_days u) \<longleftrightarrow> y = f d \<or> y \<in> set (as_days t) \<and> y \<noteq> d" for y
    using P a by (auto simp: u in_update_where)
  have ok: "row_ok (f d)" using a by (auto simp: row_ok_def f_def releasable_def)
  have maps: "map day_key (as_days u) = map day_key (as_days t)" "map dy_id (as_days u) = map dy_id (as_days t)"
    by (auto simp: u f_def day_key_def intro!: map_update_where)
  have kt: "keys_ok t" using a by blast
  have n: "as_nextId u = as_nextId t" "as_events u = as_events t" by (simp_all add: u(1))
  have ids: "dy_id ` set (as_days u) = dy_id ` set (as_days t)" using maps(2) by (metis list.set_map)
  have "dy_id ` set (as_days t) \<subseteq> {..<as_nextId t}" using kt by (auto simp: keys_ok_def)
  then have "\<forall>y \<in> set (as_days u). dy_id y < as_nextId u" unfolding n ids [symmetric] by blast
  then have k: "keys_ok u" using kt maps by (simp only: keys_ok_def)
  have ft: "frozen_kept s t" and fd: "dy_frozenAt d = None" using a by blast+
  have fk: "frozen_kept s u" using ft fd unfolding frozen_kept_def in_u by blast
  have own: "is_day_of emp day (f d)" "dy_frozenAt (f d) = None" "\<not> dy_isDeleted (f d)"
    using a by (simp_all add: f_def is_day_of_def)
  have rest_t: "\<forall>x \<in> set (as_days t). x \<noteq> d \<longrightarrow> row_ok x \<and> x \<in> set (as_days s)"
    and stay_t: "\<forall>x \<in> set (as_days s). \<not> is_day_of emp day x \<longrightarrow> x \<in> set (as_days t)"
    and day: "is_day_of emp day d" using a by blast+
  have rest: "\<forall>x \<in> set (as_days u). x \<noteq> f d \<longrightarrow> row_ok x \<and> x \<in> set (as_days s)"
    using rest_t unfolding Ball_def in_u by blast
  have stay: "\<forall>x \<in> set (as_days s). \<not> is_day_of emp day x \<longrightarrow> x \<in> set (as_days u)"
    using stay_t day unfolding Ball_def in_u by blast
  have up: "upserted s emp day (f d) u"
    using k fk ok own rest stay by (simp add: upserted_def in_u row_ok_def)
  have "\<forall>x \<in> set (as_days u). row_ok x" using rest ok by metis
  then have "good_step s u" using k fk by (simp add: good_step_def days_ok_def)
  then show ?thesis using up u(2) n(2) by blast
qed

subsection \<open>One computation\<close>

lemma findEmployee_id: "findEmployee env i = Some e \<Longrightarrow> ae_id e = i \<and> \<not> ae_isDeleted e \<and> e \<in> set (ev_employees env)"
  unfolding findEmployee_def by (auto dest: find_Some_iff_hd)

text \<open>The one answer a date has been given: a row when the employee was employed, none (or a frozen one)
  when not.\<close>

definition settled :: "att_env \<Rightarrow> oid \<Rightarrow> instant \<Rightarrow> att_store \<Rightarrow> bool" where
  "settled env i day s \<longleftrightarrow>
     (case findEmployee env i of None \<Rightarrow> True
      | Some e \<Rightarrow> (if employedOnDay e day then \<exists>d \<in> set (as_days s). is_day_of i day d \<and> \<not> dy_isDeleted d
                  else \<forall>d \<in> set (as_days s). is_day_of i day d \<longrightarrow> dy_isDeleted d \<or> dy_frozenAt d \<noteq> None))"

text \<open>What one computation may change: only the row of its own key, and never a frozen one.\<close>

definition one_day_step :: "oid \<Rightarrow> instant \<Rightarrow> att_store \<Rightarrow> att_store \<Rightarrow> bool" where
  "one_day_step i day s t \<longleftrightarrow> good_step s t \<and>
     (\<forall>x. \<not> is_day_of i day x \<longrightarrow> (x \<in> set (as_days t) \<longleftrightarrow> x \<in> set (as_days s)))"

lemma one_day_step_refl: "days_ok s \<Longrightarrow> one_day_step i day s s"
  by (simp add: one_day_step_def good_step_def frozen_kept_refl)

lemma day_key_is_day_of: "is_day_of i day d \<longleftrightarrow> day_key d = (i, day)"
  by (auto simp: is_day_of_def day_key_def)

lemma delete_day_step:
  assumes "days_ok s" "d \<in> set (as_days s)" "dy_frozenAt d = None" "is_day_of i day d"
  shows "one_day_step i day s (s\<lparr>as_days := filter (\<lambda>x. dy_id x \<noteq> dy_id d) (as_days s)\<rparr>)"
proof -
  have k: "keys_ok s" using assms(1) by (simp add: days_ok_def)
  have in_t: "x \<in> set (filter (\<lambda>x. dy_id x \<noteq> dy_id d) (as_days s)) \<longleftrightarrow> x \<in> set (as_days s) \<and> x \<noteq> d" for x
    using same_id [OF k _ assms(2)] by auto
  have "keys_ok (s\<lparr>as_days := filter (\<lambda>x. dy_id x \<noteq> dy_id d) (as_days s)\<rparr>)"
    using k by (simp add: keys_ok_def distinct_map_filter)
  then show ?thesis using assms in_t
    by (auto simp: one_day_step_def good_step_def days_ok_def frozen_kept_def)
qed

lemma emit_run: "emit e s = (s\<lparr>as_events := as_events s @ [e]\<rparr>, Inr ())"
  by (simp add: emit_def st_modify_def)

lemma step_events: "one_day_step i day s u \<Longrightarrow> as_days t = as_days u \<Longrightarrow> as_nextId t = as_nextId u \<Longrightarrow> one_day_step i day s t"
  by (simp add: one_day_step_def good_step_def days_ok_def keys_ok_def frozen_kept_def)

lemma upserted_step: "good_step s u \<Longrightarrow> upserted s i day d u \<Longrightarrow> one_day_step i day s u"
  unfolding one_day_step_def upserted_def by metis

lemma deriveDay_employed: "di_employed input \<Longrightarrow> \<exists>d. deriveDay offset input = Some d"
  by (simp add: deriveDay_def Let_def)

lemma storeDay_step:
  assumes ok: "days_ok s" and dd: "0 \<le> dd_overtimeMinutes dd" and run: "storeDay env e day shiftId dd s = (t, r)"
  shows "one_day_step (ae_id e) day s t \<and>
    (\<forall>outcome. r = Inr outcome \<longrightarrow> (\<exists>d \<in> set (as_days t). is_day_of (ae_id e) day d \<and> \<not> dy_isDeleted d \<and> dy_frozenAt d = None))"
proof -
  obtain u r1 where up: "upsertDay (ae_id e) day (set_derived dd shiftId (ae_branchId e) (ev_now env)) s = (u, r1)"
    by fastforce
  note uok = upsertDay_ok [OF ok dd up]
  show ?thesis
  proof (cases r1)
    case (Inl err)
    then show ?thesis using run up uok ok by (auto simp: storeDay_def st_bind_def one_day_step_refl)
  next
    case (Inr d1)
    obtain v r2 where rel: "releaseOvertime (ev_requiresApproval env) d1 u = (v, r2)" by fastforce
    obtain d2 where d2: "r2 = Inr d2" "good_step s v" "upserted s (ae_id e) day d2 v"
      using releaseOvertime_ok [OF _ rel] uok Inr by blast
    have t: "as_days t = as_days v" "as_nextId t = as_nextId v" using run up Inr rel d2(1)
      by (auto simp: storeDay_def st_bind_def emit_run st_return_def split: if_splits)
    have "\<exists>d \<in> set (as_days v). is_day_of (ae_id e) day d \<and> \<not> dy_isDeleted d \<and> dy_frozenAt d = None"
      using d2(3) unfolding upserted_def by blast
    then show ?thesis using step_events [OF upserted_step [OF d2(2,3)] t] by (simp add: t)
  qed
qed

lemma storeDay_succeeds:
  assumes "\<forall>x \<in> set (as_days s). is_day_of (ae_id e) day x \<longrightarrow> dy_frozenAt x = None"
  shows "\<exists>t outcome. storeDay env e day shiftId dd s = (t, Inr outcome)"
proof -
  define f where "f = set_derived dd shiftId (ae_branchId e) (ev_now env)"
  obtain u x where u: "upsertDay (ae_id e) day f s = (u, Inr x)"
  proof (cases "List.find (\<lambda>d. is_day_of (ae_id e) day d \<and> dy_frozenAt d = None) (as_days s)")
    case None
    then have "\<not> (\<exists>d \<in> set (as_days s). is_day_of (ae_id e) day d)" using assms by (auto simp: find_None_iff_all)
    then show thesis using that None by (simp add: upsertDay_def Let_def)
  next
    case (Some d)
    then show thesis using that by (simp add: upsertDay_def)
  qed
  have "\<exists>v y. releaseOvertime (ev_requiresApproval env) x u = (v, Inr y)"
    by (simp add: releaseOvertime_def Let_def st_defs)
  then show ?thesis using u by (auto simp: storeDay_def st_bind_def emit_run st_return_def f_def)
qed

lemma find_day_eq:
  "keys_ok s \<Longrightarrow> x \<in> set (as_days s) \<Longrightarrow> is_day_of i day x \<Longrightarrow> P x \<Longrightarrow>
     List.find (\<lambda>d. is_day_of i day d \<and> P d) (as_days s) = Some x"
  using find_None_iff_all [of "\<lambda>d. is_day_of i day d \<and> P d" "as_days s"]
    find_Some_iff_hd [of "\<lambda>d. is_day_of i day d \<and> P d" "as_days s"] same_key [of s x] day_key_is_day_of
  by (cases "List.find (\<lambda>d. is_day_of i day d \<and> P d) (as_days s)") (blast, metis)

lemma computeDay_frozen:
  assumes "keys_ok s" "findEmployee env i = Some e" "x \<in> set (as_days s)" "is_day_of i (toDateOnly d) x"
    "\<not> dy_isDeleted x" "dy_frozenAt x \<noteq> None"
  shows "computeDay env i d s = (s, Inr FrozenDay)"
  using find_day_eq [OF assms(1,3,4), of "\<lambda>d. \<not> dy_isDeleted d"] assms(2,5,6) findEmployee_id [OF assms(2)]
  by (simp add: computeDay_def Let_def st_defs)

lemma computeDay_step:
  assumes ok: "days_ok s" and run: "computeDay env i d s = (t, r)"
  shows "one_day_step i (toDateOnly d) s t \<and> (\<forall>outcome. r = Inr outcome \<longrightarrow> settled env i (toDateOnly d) t)"
proof (cases "findEmployee env i")
  case None
  then show ?thesis using run ok by (simp add: computeDay_def Let_def st_return_def settled_def one_day_step_refl)
next
  case (Some e)
  define day where "day = toDateOnly d"
  have e: "ae_id e = i" using findEmployee_id [OF Some] by simp
  define existing where "existing = List.find (\<lambda>d. is_day_of i day d \<and> \<not> dy_isDeleted d) (as_days s)"
  have k: "keys_ok s" using ok by (simp add: days_ok_def)
  note run' = run [unfolded computeDay_def Let_def Some, simplified, unfolded e day_def [symmetric]]
  consider (frozen) x where "existing = Some x" "dy_frozenAt x \<noteq> None"
    | (unemployed) "\<forall>x. existing = Some x \<longrightarrow> dy_frozenAt x = None" "\<not> employedOnDay e day"
    | (employed) "\<forall>x. existing = Some x \<longrightarrow> dy_frozenAt x = None" "employedOnDay e day" by blast
  then have "one_day_step i day s t \<and> (\<forall>outcome. r = Inr outcome \<longrightarrow> settled env i day t)"
  proof cases
    case frozen
    then have x: "x \<in> set (as_days s)" "is_day_of i day x" "\<not> dy_isDeleted x"
      unfolding existing_def by (auto dest: find_Some_iff_hd)
    then have t: "t = s" using computeDay_frozen [OF k Some x(1) _ x(3) frozen(2)] run by (simp add: day_def)
    have only: "dy_frozenAt y \<noteq> None" if "y \<in> set (as_days s)" "is_day_of i day y" for y
      using same_key [of s y x] k x frozen(2) that unfolding day_key_is_day_of by metis
    have "settled env i day s"
    proof (cases "employedOnDay e day")
      case True
      then show ?thesis using x unfolding settled_def Some by auto
    next
      case False
      then show ?thesis using only unfolding settled_def Some by simp
    qed
    then show ?thesis using ok t by (simp add: one_day_step_refl)
  next
    case unemployed
    show ?thesis
    proof (cases existing)
      case None
      then have t: "t = s" using run' unemployed by (auto simp: existing_def [symmetric] st_defs)
      have "settled env i day s" using None unemployed(2)
        by (auto simp: settled_def Some existing_def find_None_iff_all)
      then show ?thesis using ok t by (simp add: one_day_step_refl)
    next
      case (Some x)
      then have x: "x \<in> set (as_days s)" "is_day_of i day x" "dy_frozenAt x = None"
        using unemployed(1) unfolding existing_def by (auto dest: find_Some_iff_hd)
      have t: "t = s\<lparr>as_days := filter (\<lambda>y. dy_id y \<noteq> dy_id x) (as_days s)\<rparr>"
        using run' unemployed Some by (auto simp: existing_def [symmetric] removeDay_def st_defs)
      have "\<not> is_day_of i day y" if "y \<in> set (as_days t)" for y
        using that x same_key [OF k, of y x] by (auto simp: t day_key_is_day_of)
      then have "settled env i day t" using unemployed(2) \<open>findEmployee env i = Some e\<close> by (simp add: settled_def)
      then show ?thesis using delete_day_step [OF ok x(1,3,2)] t by simp
    qed
  next
    case employed
    obtain shiftId input where input: "day_input env e day = (shiftId, input)" by fastforce
    then have "di_employed input" by (auto simp: day_input_def Let_def)
    then obtain dd where dd: "deriveDay (ev_clock env) input = Some dd" using deriveDay_employed by blast
    have "storeDay env e day shiftId dd s = (t, r)" using run' employed input dd
      by (cases existing) (auto simp: existing_def [symmetric] st_bind_def st_gets_def)
    then have "one_day_step i day s t \<and> (\<forall>outcome. r = Inr outcome \<longrightarrow> (\<exists>d \<in> set (as_days t). is_day_of i day d \<and> \<not> dy_isDeleted d))"
      using storeDay_step [OF ok deriveDay_overtime [OF dd]] e by blast
    then show ?thesis using employed(2) Some by (simp add: settled_def)
  qed
  then show ?thesis by (simp add: day_def)
qed

lemma computeDay_succeeds:
  assumes "days_ok s"
  shows "\<exists>t outcome. computeDay env i d s = (t, Inr outcome)"
proof (cases "findEmployee env i")
  case None
  then show ?thesis by (simp add: computeDay_def Let_def st_return_def)
next
  case (Some e)
  define day where "day = toDateOnly d"
  have e: "ae_id e = i" using findEmployee_id [OF Some] by simp
  define existing where "existing = List.find (\<lambda>d. is_day_of i day d \<and> \<not> dy_isDeleted d) (as_days s)"
  obtain shiftId input where input: "day_input env e day = (shiftId, input)" by fastforce
  then have "di_employed input" by (auto simp: day_input_def Let_def)
  then obtain dd where dd: "deriveDay (ev_clock env) input = Some dd" using deriveDay_employed by blast
  have unfrozen: "dy_frozenAt x = None" if "Option.bind existing dy_frozenAt = None" "x \<in> set (as_days s)" "is_day_of i day x" for x
    using that find_day_eq [of s x i day "\<lambda>d. \<not> dy_isDeleted d"] assms by (auto simp: existing_def days_ok_def row_ok_def)
  show ?thesis
  proof (cases "Option.bind existing dy_frozenAt = None \<and> employedOnDay e day")
    case True
    then have "\<exists>t outcome. storeDay env e day shiftId dd s = (t, Inr outcome)"
      using unfrozen e by (intro storeDay_succeeds) auto
    then show ?thesis using True input dd
      by (simp add: computeDay_def Let_def Some e day_def [symmetric] existing_def [symmetric] st_bind_def st_gets_def)
  next
    case False
    then show ?thesis
      by (cases existing) (auto simp: computeDay_def Let_def Some e day_def [symmetric] existing_def [symmetric] removeDay_def st_defs)
  qed
qed

lemma settled_other:
  "one_day_step i day s t \<Longrightarrow> (j, d) \<noteq> (i, day) \<Longrightarrow> settled env j d t = settled env j d s"
  unfolding settled_def one_day_step_def is_day_of_def by (cases "findEmployee env j") (simp, fastforce)

lemma good_step_refl: "days_ok s \<Longrightarrow> good_step s s"
  and good_step_trans: "good_step s t \<Longrightarrow> good_step t u \<Longrightarrow> good_step s u"
  by (auto simp: good_step_def frozen_kept_refl intro: frozen_kept_trans)

lemma computeDay_good: "days_ok s \<Longrightarrow> computeDay env i d s = (t, r) \<Longrightarrow> good_step s t"
  using computeDay_step by (auto simp: one_day_step_def)

lemma computeDays_good:
  "days_ok s \<Longrightarrow> computeDays env ps n s = (t, r) \<Longrightarrow> good_step s t"
proof (induction env ps n arbitrary: s rule: computeDays.induct)
  case (2 env e d xs n)
  obtain u r1 where u: "computeDay env e d s = (u, r1)" by fastforce
  have g: "good_step s u" using computeDay_good [OF 2(2) u] .
  show ?case
  proof (cases r1)
    case (Inr outcome)
    have "good_step u t" using 2(1) [of u] 2(3) g u Inr by (simp add: st_bind_def good_step_def)
    then show ?thesis using g good_step_trans by blast
  qed (use 2 u g in \<open>auto simp: st_bind_def\<close>)
qed (simp add: st_return_def good_step_refl)

lemma computeDays_succeeds:
  "days_ok s \<Longrightarrow> \<exists>t m. computeDays env ps n s = (t, Inr m)"
proof (induction env ps n arbitrary: s rule: computeDays.induct)
  case (2 env e d xs n)
  obtain u outcome where u: "computeDay env e d s = (u, Inr outcome)" using computeDay_succeeds [OF 2(2)] by blast
  then have "days_ok u" using computeDay_good [OF 2(2) u] by (simp add: good_step_def)
  then show ?case using 2(1) u by (simp add: st_bind_def)
qed (simp add: st_return_def)

lemma computeDays_settled:
  "days_ok s \<Longrightarrow> computeDays env ps n s = (t, Inr m) \<Longrightarrow>
     settled env j d s \<or> (j, d) \<in> (\<lambda>p. (fst p, toDateOnly (snd p))) ` set ps \<Longrightarrow> settled env j d t"
proof (induction env ps n arbitrary: s rule: computeDays.induct)
  case (2 env e x xs n)
  obtain u outcome where u: "computeDay env e x s = (u, Inr outcome)"
    using 2(3) by (auto simp: bind_Inr)
  have step: "one_day_step e (toDateOnly x) s u" "settled env e (toDateOnly x) u"
    using computeDay_step [OF 2(2) u] by auto
  have ok: "days_ok u" using step(1) by (simp add: one_day_step_def good_step_def)
  have "settled env j d u \<or> (j, d) \<in> (\<lambda>p. (fst p, toDateOnly (snd p))) ` set xs"
    using 2(4) step(2) settled_other [OF step(1), of j d env] by (cases "(j, d) = (e, toDateOnly x)") auto
  then show ?case using 2(1) [OF ok] 2(3) u by (simp add: st_bind_def)
qed (simp add: st_return_def)

subsection \<open>The days of a month\<close>

lemma toDateOnly_id:
  assumes "ms_per_day dvd t" "ms_per_day * day_from_year 1000 \<le> t"
  shows "toDateOnly t = t"
proof -
  obtain D where t: "t = ms_per_day * D" using assms(1) by (auto simp: dvd_def)
  then have D: "day_from_year 1000 \<le> D" "t div ms_per_day = D" using assms(2) by (simp_all add: ms_per_day_def)
  have "1000 \<le> year_of_day D"
  proof (rule ccontr)
    assume "\<not> 1000 \<le> year_of_day D"
    then have "day_from_year (year_of_day D + 1) \<le> day_from_year 1000"
      using day_from_year_less [of "year_of_day D + 1" 1000] by (cases "year_of_day D + 1 = 1000") auto
    then show False using year_of_day_bounds [of D] D(1) by linarith
  qed
  then show ?thesis using toDateOnly_midnight [of t] D(2) t by (simp add: utc_full_year_def)
qed

lemma monthRange_eq: "monthRange = periodRange"
  by (intro ext) (simp add: monthRange_def periodRange_def Let_def)

lemma month_days:
  assumes "monthRange period = Inr (from, to)" "1000 \<le> period_year period" "day \<in> set (days_from_to from to)"
  shows "toDateOnly day = day \<and> from \<le> day \<and> day \<le> to"
proof -
  have p: "is_period period" using assms(1) by (simp add: monthRange_def split: if_splits)
  obtain n where n: "day = addDays from (int n)" "int n < (to - from) div ms_per_day + 1"
    using assms(3) by (auto simp: days_from_to_def)
  have m': "1 \<le> period_month period \<and> period_month period \<le> 12" using period_month_range [OF p] by auto
  then have m: "period_month period - 1 < 12" "int (period_month period) - 1 = int (period_month period - 1)"
    by (linarith, simp add: of_nat_diff)
  have "from = date_utc (int (period_year period)) (int (period_month period - 1)) 1"
    using assms(1) p unfolding monthRange_def m(2) [symmetric] by (simp add: Let_def)
  moreover have "int (period_month period - 1) div 12 = 0" "int (period_month period - 1) mod 12 = int (period_month period - 1)"
    using m(1) by simp_all
  ultimately have fr: "from = ms_per_day * (day_from_year (int (period_year period)) +
      days_before_month (leap_year (int (period_year period))) (period_month period - 1))"
    using assms(2) by (simp only: date_utc_def Let_def) simp
  have "day_from_year 1000 \<le> day_from_year (int (period_year period))"
    using day_from_year_less [of 1000 "int (period_year period)"] assms(2) by (cases "period_year period = 1000") auto
  then have base: "ms_per_day * day_from_year 1000 \<le> from" "ms_per_day dvd from"
    using days_before_month_bounds(1) [OF m(1), of "leap_year (int (period_year period))"]
    by (simp_all add: fr ms_per_day_def)
  have "ms_per_day * int n \<le> to - from" using n(2) div_bounds [of ms_per_day "to - from"]
    by (simp add: ms_per_day_def)
  moreover have "0 \<le> ms_per_day * int n" by (simp add: ms_per_day_def)
  ultimately have "from \<le> day" "day \<le> to" by (simp_all add: n(1) addDays_def mult.commute)
  moreover have "ms_per_day dvd day" using base(2) by (simp add: n(1) addDays_def)
  ultimately show ?thesis using toDateOnly_id [of day] base(1) by simp
qed

lemma listed_employee: "findEmployee env i = Some e \<Longrightarrow> i \<in> set (listIdsForAttendance env)"
  using findEmployee_id by (fastforce simp: listIdsForAttendance_def)

lemma pairs_of_set [simp]: "set (pairs_of es ds) = set es \<times> set ds"
  by (auto simp: pairs_of_def)

subsection \<open>The freeze\<close>

definition stamp :: "instant \<Rightarrow> instant \<Rightarrow> instant \<Rightarrow> att_store \<Rightarrow> att_store" where
  "stamp from to now s = s\<lparr>as_days := update_where (unfrozen_in from to) (\<lambda>d. d\<lparr>dy_frozenAt := Some now\<rparr>) (as_days s)\<rparr>"

lemma stamp_good:
  assumes "days_ok s"
  shows "good_step s (stamp from to now s)"
proof -
  let ?f = "\<lambda>d::attendance_day. d\<lparr>dy_frozenAt := Some now\<rparr>"
  have maps: "map day_key (as_days (stamp from to now s)) = map day_key (as_days s)"
    "map dy_id (as_days (stamp from to now s)) = map dy_id (as_days s)"
    by (auto simp: stamp_def day_key_def intro!: map_update_where)
  have each: "\<forall>y \<in> set (as_days (stamp from to now s)). \<exists>x \<in> set (as_days s). dy_id y = dy_id x \<and> (row_ok x \<longrightarrow> row_ok y)"
    by (fastforce simp: stamp_def in_update_where row_ok_def)
  have "as_nextId (stamp from to now s) = as_nextId s" by (simp add: stamp_def)
  then have "days_ok (stamp from to now s)" using assms each maps unfolding days_ok_def keys_ok_def by metis
  moreover have "frozen_kept s (stamp from to now s)"
    by (auto simp: frozen_kept_def stamp_def in_update_where unfrozen_in_def intro!: bexI)
  ultimately show ?thesis by (simp add: good_step_def)
qed

text \<open>What a freeze leaves: every row of the month that is there is frozen, and every employee-day that is
  owed a row has one.\<close>

definition frozen_month :: "att_env \<Rightarrow> instant \<Rightarrow> instant \<Rightarrow> att_store \<Rightarrow> bool" where
  "frozen_month env from to s \<longleftrightarrow> days_ok s \<and> filter (unfrozen_in from to) (as_days s) = [] \<and>
     (\<forall>i day. day \<in> set (days_from_to from to) \<longrightarrow> settled env i day s)"

lemma settled_stamp:
  assumes "settled env i day s"
  shows "settled env i day (stamp from to now s)"
proof -
  define g where "g = (\<lambda>d::attendance_day. if unfrozen_in from to d then d\<lparr>dy_frozenAt := Some now\<rparr> else d)"
  have g: "is_day_of i day (g d) = is_day_of i day d" "dy_isDeleted (g d) = dy_isDeleted d"
    "dy_frozenAt d \<noteq> None \<Longrightarrow> dy_frozenAt (g d) \<noteq> None" for d
    by (auto simp: g_def is_day_of_def)
  have "set (as_days (stamp from to now s)) = g ` set (as_days s)"
    by (simp add: stamp_def update_where_def g_def)
  then show ?thesis using assms g unfolding settled_def by (auto split: option.splits if_splits)
qed

lemma no_unfrozen_stamp: "filter (unfrozen_in from to) (as_days (stamp from to now s)) = []"
  by (auto simp: filter_empty_conv stamp_def in_update_where unfrozen_in_def)

lemma freezePeriod_frozen:
  assumes "days_ok s" "1000 \<le> period_year period" "monthRange period = Inr (from, to)"
    and "freezePeriod env period s = (t, Inr r)"
  shows "frozen_month env from to t \<and> to < ev_today env"
proof -
  obtain u n where u: "computeDays env (pairs_of (listIdsForAttendance env) (days_from_to from to)) (0, 0) s = (u, Inr n)"
    and t: "as_days t = as_days (stamp from to (ev_now env) u)" "as_nextId t = as_nextId u" and day: "to < ev_today env"
    using assms(3,4)
    by (auto simp: freezePeriod_def bind_Inr run_Inr stamp_def emit_run split: if_splits)
  have ok: "days_ok u" using computeDays_good [OF assms(1) u] by (simp add: good_step_def)
  have "settled env i d u" if d: "d \<in> set (days_from_to from to)" for i d
  proof (cases "findEmployee env i")
    case (Some e)
    have "(i, d) \<in> (\<lambda>p. (fst p, toDateOnly (snd p))) ` set (pairs_of (listIdsForAttendance env) (days_from_to from to))"
      using listed_employee [OF Some] month_days [OF assms(3,2) d] d by (force simp: image_iff)
    then show ?thesis using computeDays_settled [OF assms(1) u] by blast
  qed (simp add: settled_def)
  then have "\<forall>i d. d \<in> set (days_from_to from to) \<longrightarrow> settled env i d (stamp from to (ev_now env) u)"
    using settled_stamp by blast
  then have "\<forall>i d. d \<in> set (days_from_to from to) \<longrightarrow> settled env i d t" by (simp only: settled_def t(1))
  moreover have "days_ok t" using stamp_good [OF ok, of "from" "to" "ev_now env"] t
    by (simp add: good_step_def days_ok_def keys_ok_def) (simp add: stamp_def)
  ultimately show ?thesis using no_unfrozen_stamp day by (simp add: frozen_month_def t)
qed

subsection \<open>A frozen month does not move\<close>

lemma findEmployee_env: "ev_employees env' = ev_employees env \<Longrightarrow> findEmployee env' i = findEmployee env i"
  by (simp add: findEmployee_def)

lemma computeDay_idle:
  assumes "frozen_month env from to s" "ev_employees env' = ev_employees env"
    "day \<in> set (days_from_to from to)" "toDateOnly day = day" "from \<le> day" "day \<le> to"
  shows "\<exists>r. computeDay env' i day s = (s, Inr r) \<and> (r = FrozenDay \<or> r = NoDay)"
proof (cases "findEmployee env i")
  case None
  then show ?thesis by (simp add: computeDay_def Let_def findEmployee_env [OF assms(2)] st_return_def)
next
  case (Some e)
  have k: "keys_ok s" and settled: "settled env i day s"
    and frozen: "\<And>d. d \<in> set (as_days s) \<Longrightarrow> is_day_of i day d \<Longrightarrow> \<not> dy_isDeleted d \<Longrightarrow> dy_frozenAt d \<noteq> None"
    using assms by (auto simp: frozen_month_def days_ok_def filter_empty_conv unfrozen_in_def is_day_of_def)
  have e': "findEmployee env' i = Some e" using Some findEmployee_env [OF assms(2)] by simp
  show ?thesis
  proof (cases "\<exists>d \<in> set (as_days s). is_day_of i day d \<and> \<not> dy_isDeleted d")
    case True
    then obtain d where "d \<in> set (as_days s)" "is_day_of i day d" "\<not> dy_isDeleted d" by blast
    then show ?thesis using computeDay_frozen [OF k e', of d day] frozen assms(4) by simp
  next
    case False
    then have "\<not> employedOnDay e day" using settled by (auto simp: settled_def Some)
    moreover have "List.find (\<lambda>d. is_day_of i day d \<and> \<not> dy_isDeleted d) (as_days s) = None"
      using False by (auto simp: find_None_iff_all)
    ultimately show ?thesis using findEmployee_id [OF e'] by (simp add: computeDay_def Let_def e' assms(4) st_defs)
  qed
qed

lemma computeDays_idle:
  assumes "\<forall>p \<in> set ps. \<exists>r. computeDay env (fst p) (snd p) s = (s, Inr r) \<and> (r = FrozenDay \<or> r = NoDay)"
  shows "\<exists>k. computeDays env ps n s = (s, Inr (fst n, k))"
  using assms
proof (induction ps arbitrary: n)
  case (Cons p ps)
  obtain i d where p: "p = (i, d)" by fastforce
  then obtain r where "computeDay env i d s = (s, Inr r)" "r = FrozenDay \<or> r = NoDay" using Cons.prems by auto
  then show ?case using Cons.IH [of "(fst n, snd n + 1)"] Cons.IH [of n] Cons.prems
    by (auto simp: p st_bind_def)
next
  case Nil
  then show ?case by (cases n) (simp add: st_return_def)
qed

lemma frozen_month_refreeze:
  assumes fm: "frozen_month env from to s" and emp: "ev_employees env' = ev_employees env"
    and range: "monthRange period = Inr (from, to)" "1000 \<le> period_year period" and due: "to < ev_today env'"
  shows "freezePeriod env' period s =
    (s, Inr \<lparr>fz_period = period, fz_computed = 0, fz_frozen = 0, fz_alreadyFrozen = True\<rparr>)"
proof -
  obtain k where "computeDays env' (pairs_of (listIdsForAttendance env') (days_from_to from to)) (0, 0) s = (s, Inr (0, k))"
    using computeDays_idle [of "pairs_of (listIdsForAttendance env') (days_from_to from to)" env' s "(0, 0)"]
      computeDay_idle [OF fm emp] month_days [OF range] by auto
  moreover have "filter (unfrozen_in from to) (as_days s) = []" using fm by (simp add: frozen_month_def)
  moreover from this have "update_where (unfrozen_in from to) f (as_days s) = as_days s" for f
    by (intro update_where_id) (auto simp: filter_empty_conv)
  ultimately show ?thesis using range(1) due
    by (simp add: freezePeriod_def st_defs)
qed

text \<open>What the feed of a frozen month answers.\<close>

lemma list_all2_in: "list_all2 P xs ys \<Longrightarrow> x \<in> set xs \<Longrightarrow> \<exists>y \<in> set ys. P x y"
  by (induction rule: list_all2_induct) auto

lemma feed_of_frozen_month:
  assumes "frozen_month env from to s" "monthRange period = Inr (from, to)"
  shows "\<exists>rows. readFrozenFeed period employee s = Inr rows \<and>
    list_all2 (\<lambda>d row. toFeedRow d = Inr row) (feed_days from to employee s) rows"
proof -
  have "\<exists>row. toFeedRow d = Inr row" if "d \<in> set (feed_days from to employee s)" for d
    using that assms(1) by (auto simp: feed_days_def frozen_month_def filter_empty_conv unfrozen_in_def toFeedRow_def
        split: option.splits)
  then obtain rows where "res_map toFeedRow (feed_days from to employee s) = Inr rows" using res_map_total by metis
  then show ?thesis using assms
    by (intro exI [of _ rows]) (simp add: readFrozenFeed_def frozen_month_def res_map_Inr res_ensure_def)
qed

subsection \<open>Histories\<close>

lemma approveOvertime_good:
  assumes "days_ok s" "0 \<le> minutes" "approveOvertime i minutes version s = (t, r)"
  shows "good_step s t"
proof (cases "findDayById i s")
  case None
  then show ?thesis using assms by (simp add: approveOvertime_def st_defs good_step_refl)
next
  case (Some d)
  have d: "d \<in> set (as_days s)" "dy_id d = i" using Some unfolding findDayById_def by (auto dest: find_Some_iff_hd)
  define P where "P = (\<lambda>d::attendance_day. dy_id d = i \<and> dy_version d = version \<and> dy_frozenAt d = None \<and> \<not> dy_isDeleted d)"
  define f where "f = (\<lambda>d::attendance_day. d\<lparr>dy_approvedOvertimeMinutes := minutes, dy_version := dy_version d + 1\<rparr>)"
  show ?thesis
  proof (cases "dy_frozenAt d = None \<and> minutes \<le> dy_overtimeMinutes d \<and> List.find P (as_days s) \<noteq> None")
    case False
    then have "t = s" using assms(3) Some
      by (auto simp: approveOvertime_def st_defs updateDayById_def P_def [symmetric] split: if_splits option.splits)
    then show ?thesis using assms(1) by (simp add: good_step_refl)
  next
    case True
    then obtain x where x: "List.find P (as_days s) = Some x" by blast
    then have "x \<in> set (as_days s)" "dy_id x = i" by (auto dest: find_Some_iff_hd simp: P_def)
    then have "x = d" using same_id [of s x d] d assms(1) by (simp add: days_ok_def)
    have t: "as_days t = update_first P f (as_days s)" "as_nextId t = as_nextId s" using assms(3) Some True x
      by (auto simp: approveOvertime_def st_defs updateDayById_def P_def [symmetric] f_def emit_def)
    have maps: "map day_key (as_days t) = map day_key (as_days s)" "map dy_id (as_days t) = map dy_id (as_days s)"
      by (auto simp: t f_def day_key_def intro!: map_update_first)
    have ot: "\<forall>y \<in> set (as_days t). row_ok y"
    proof
      fix y
      assume "y \<in> set (as_days t)"
      then consider "y \<in> set (as_days s)" | "y = f d"
        using update_first_in [of y P f "as_days s"] x \<open>x = d\<close> unfolding t by auto
      then show "row_ok y"
        using assms(1,2) True d(1) by cases (auto simp: days_ok_def f_def row_ok_def)
    qed
    have ids: "dy_id ` set (as_days t) = dy_id ` set (as_days s)" using maps(2) by (metis list.set_map)
    have "dy_id ` set (as_days s) \<subseteq> {..<as_nextId s}" using assms(1) by (auto simp: days_ok_def keys_ok_def)
    then have "\<forall>y \<in> set (as_days t). dy_id y < as_nextId t" unfolding t(2) ids [symmetric] by blast
    then have "days_ok t" using assms(1) maps ot by (simp add: days_ok_def keys_ok_def)
    moreover have "frozen_kept s t" by (auto simp: frozen_kept_def t P_def intro!: update_first_keeps)
    ultimately show ?thesis by (simp add: good_step_def)
  qed
qed

lemma freezePeriod_good:
  assumes "days_ok s" "freezePeriod env period s = (t, r)"
  shows "good_step s t"
proof (cases "\<exists>from to. monthRange period = Inr (from, to) \<and> to < ev_today env")
  case False
  then have "t = s" using assms(2) by (cases "monthRange period") (auto simp: freezePeriod_def st_defs split: if_splits)
  then show ?thesis using assms(1) by (simp add: good_step_refl)
next
  case True
  then obtain "from" "to" where r: "monthRange period = Inr (from, to)" "to < ev_today env" by blast
  obtain u r1 where u: "computeDays env (pairs_of (listIdsForAttendance env) (days_from_to from to)) (0, 0) s = (u, r1)"
    by fastforce
  have g: "good_step s u" by (rule computeDays_good [OF assms(1) u])
  show ?thesis
  proof (cases r1)
    case (Inl e)
    then show ?thesis using assms(2) g u r by (simp add: freezePeriod_def st_defs)
  next
    case (Inr n)
    have "as_days t = as_days (stamp from to (ev_now env) u)" "as_nextId t = as_nextId u"
      using assms(2) u r Inr by (auto simp: freezePeriod_def st_defs emit_def stamp_def split: if_splits)
    moreover have "good_step u (stamp from to (ev_now env) u)" using g by (intro stamp_good) (simp add: good_step_def)
    moreover have "as_nextId (stamp from to (ev_now env) u) = as_nextId u" by (simp add: stamp_def)
    ultimately have "good_step u t" by (simp add: good_step_def days_ok_def keys_ok_def frozen_kept_def)
    then show ?thesis using g good_step_trans by blast
  qed
qed

lemma freezePeriod_succeeds:
  assumes "days_ok s" "monthRange period = Inr (from, to)" "to < ev_today env"
  shows "\<exists>t r. freezePeriod env period s = (t, Inr r)"
proof -
  obtain u n where "computeDays env (pairs_of (listIdsForAttendance env) (days_from_to from to)) (0, 0) s = (u, Inr n)"
    using computeDays_succeeds [OF assms(1)] by blast
  then show ?thesis using assms(2,3) by (simp add: freezePeriod_def st_defs emit_def)
qed

lemma each_attempt_good:
  "days_ok s \<Longrightarrow> (\<And>x s. days_ok s \<Longrightarrow> good_step s (fst (f x s))) \<Longrightarrow>
     good_step s (fst (st_each (\<lambda>x. st_attempt (f x)) xs s))"
proof (induction xs arbitrary: s)
  case (Cons x xs)
  have "good_step s (fst (f x s))" using Cons.prems by blast
  then show ?case using Cons.IH [of "fst (f x s)"] Cons.prems(2)
    by (auto simp: st_bind_def st_attempt_def good_step_def intro: frozen_kept_trans)
qed (simp add: st_return_def good_step_refl)

lemma run_att_op_good:
  assumes "days_ok s"
  shows "good_step s (fst (run_att_op env opn s))"
proof -
  have fst_bind: "fst (st_bind m (\<lambda>_. st_return ()) s) = fst (m s)" for m :: "(att_store, 'a) st"
    by (simp add: st_bind_def st_return_def split: prod.splits sum.splits)
  show ?thesis
  proof (cases opn)
    case (ComputeDay e d)
    then show ?thesis using computeDay_good [OF assms] by (simp add: fst_bind) (metis prod.collapse)
  next
    case (Recompute e a b)
    then show ?thesis using computeDays_good [OF assms] by (simp add: fst_bind recompute_def) (metis prod.collapse)
  next
    case NightlyCompute
    have "days_ok s \<Longrightarrow> good_step s (fst (computeDay env e d s))" for s e d
      using computeDay_good by (metis prod.collapse)
    then have "good_step s (fst (st_each (\<lambda>e. st_attempt (computeDay env e (addDays (ev_today env) (- 1))))
        (listIdsForAttendance env) s))"
      by (intro each_attempt_good [OF assms])
    then show ?thesis by (simp add: NightlyCompute computePreviousDayIfDue_def st_return_def good_step_refl assms)
  next
    case (RecomputeSpan e a b)
    then show ?thesis using computeDays_good [OF assms]
      by (simp add: recomputeSpanForEmployee_def st_attempt_def) (metis prod.collapse)
  next
    case (FreezePeriod p)
    then show ?thesis using freezePeriod_good [OF assms] by (simp add: fst_bind) (metis prod.collapse)
  next
    case (ApproveOvertime i m v)
    show ?thesis
    proof (cases "0 \<le> m")
      case True
      obtain t r where "approveOvertime i m v s = (t, r)" by fastforce
      moreover have "fst (run_att_op env opn s) = fst (approveOvertime i m v s)"
        using True by (simp add: ApproveOvertime st_bind_def st_ensure_def st_return_def split: prod.splits sum.splits)
      ultimately show ?thesis using approveOvertime_good [OF assms True] by simp
    qed (simp add: ApproveOvertime st_bind_def st_ensure_def good_step_refl assms)
  qed
qed

lemma run_att_good: "days_ok s \<Longrightarrow> good_step s (run_att ops s)"
proof (induction ops s rule: run_att.induct)
  case (2 env opn xs s)
  then show ?case using run_att_op_good [OF 2(2), of env opn] good_step_trans by (auto simp: good_step_def intro: frozen_kept_trans)
qed (simp add: good_step_refl)

text \<open>Rows are written for listed employees only.\<close>

lemma computeDays_rows:
  "days_ok s \<Longrightarrow> computeDays env ps n s = (t, r) \<Longrightarrow> x \<in> set (as_days t) \<Longrightarrow>
     x \<in> set (as_days s) \<or> dy_employeeId x \<in> fst ` set ps"
proof (induction env ps n arbitrary: s rule: computeDays.induct)
  case (2 env e d xs n)
  obtain u r1 where u: "computeDay env e d s = (u, r1)" by fastforce
  have step: "one_day_step e (toDateOnly d) s u" using computeDay_step [OF 2(2) u] by simp
  then have ok: "days_ok u" by (simp add: one_day_step_def good_step_def)
  have "x \<in> set (as_days u) \<or> dy_employeeId x \<in> fst ` set xs"
    using 2(1) [OF ok] 2(3,4) u by (cases r1) (auto simp: st_bind_def)
  then show ?case using step unfolding one_day_step_def is_day_of_def by auto
qed (simp add: st_return_def)

section \<open>A sample month\<close>

definition empty_att :: att_store where
  "empty_att = \<lparr>as_days = [], as_events = [], as_nextId = 0\<rparr>"

lemma days_ok_empty: "days_ok empty_att"
  by (simp add: days_ok_def keys_ok_def empty_att_def)

text \<open>One employee hired on 20 February 2026; the month is over.\<close>

definition feb_employee :: att_employee where
  "feb_employee = \<lparr>ae_id = 7, ae_isDeleted = False, ae_periods = [], ae_startDate = date_of_iso ''2026-02-20'', ae_branchId = 3\<rparr>"

definition feb_env :: "att_employee list \<Rightarrow> att_env" where
  "feb_env es = \<lparr>ev_employees = es, ev_leaves = [], ev_holidays = [], ev_weekendDays = [5, 6], ev_assignments = [],
     ev_shifts = (\<lambda>_. None), ev_punches = [], ev_requiresApproval = True, ev_clock = (\<lambda>_. 120),
     ev_now = date_of_iso ''2026-03-02'', ev_today = date_of_iso ''2026-03-02'', ev_cairoHour = 3, ev_autoComputeHour = 3\<rparr>"

definition feb_frozen :: att_store where
  "feb_frozen = fst (freezePeriod (feb_env [feb_employee]) ''2026-02'' empty_att)"

definition feb_range :: "instant \<times> instant" where
  "feb_range = (date_of_iso ''2026-02-01'', date_of_iso ''2026-02-28'')"

lemma feb_month: "monthRange ''2026-02'' = Inr (fst feb_range, snd feb_range)"
  by code_simp

lemma feb_due: "snd feb_range < ev_today (feb_env es)"
  by code_simp

lemma feb_freeze: "\<exists>r. freezePeriod (feb_env [feb_employee]) ''2026-02'' empty_att = (feb_frozen, Inr r)"
  using freezePeriod_succeeds [OF days_ok_empty feb_month feb_due [of "[feb_employee]"]]
  by (auto simp: feb_frozen_def)

section \<open>Properties\<close>

text \<open>C4. A frozen attendance day never changes again: whatever is computed, recomputed, swept, frozen or
  approved after it, in whatever environment, the row stays in the store as it is.\<close>

theorem frozen_days_never_change:
  assumes "days_ok s" "d \<in> set (as_days s)" "dy_frozenAt d \<noteq> None"
  shows "d \<in> set (as_days (run_att ops s))"
  using run_att_good [OF assms(1), of ops] assms(2,3) unfolding good_step_def frozen_kept_def by blast

text \<open>C12. From an empty store, after any history: an employee has at most one row for a date, and on every
  row the overtime released to payroll is between zero and the overtime derived.\<close>

theorem attendance_store_invariant:
  "distinct (map (\<lambda>d. (dy_employeeId d, dy_workDate d)) (as_days (run_att ops empty_att))) \<and>
   list_all (\<lambda>d. 0 \<le> dy_approvedOvertimeMinutes d \<and> dy_approvedOvertimeMinutes d \<le> dy_overtimeMinutes d)
     (as_days (run_att ops empty_att))"
  using run_att_good [OF days_ok_empty, of ops]
  by (simp add: good_step_def days_ok_def keys_ok_def day_key_def [abs_def] row_ok_def list_all_iff)

text \<open>C18. A month that is over can always be frozen, and then feeds payroll completely: the feed answers, for
  everyone or for one employee, and it has a row for every day of the month the employee was employed.\<close>

theorem freeze_covers_the_month:
  assumes "days_ok s" "1000 \<le> period_year period" "monthRange period = Inr (from, to)"
    "to < ev_today env" "findEmployee env i = Some e"
    "day \<in> set (days_from_to from to)" "employedOnDay e day" "who \<in> {None, Some i}"
  shows "\<exists>t r rows. freezePeriod env period s = (t, Inr r) \<and> readFrozenFeed period who t = Inr rows \<and>
    (\<exists>row \<in> set rows. fr_employeeId row = i \<and> fr_workDate row = dateOnlyIso day)"
proof -
  obtain t r where run: "freezePeriod env period s = (t, Inr r)"
    using freezePeriod_succeeds [OF assms(1,3,4)] by blast
  then have fm: "frozen_month env from to t" using freezePeriod_frozen [OF assms(1-3)] by blast
  have "settled env i day t" using fm assms(6) by (simp add: frozen_month_def)
  then obtain d where d: "d \<in> set (as_days t)" "is_day_of i day d" "\<not> dy_isDeleted d"
    using assms(5,7) by (auto simp: settled_def)
  then have fed: "d \<in> set (feed_days from to who t)"
    using month_days [OF assms(3,2,6)] assms(8) by (auto simp: feed_days_def is_day_of_def)
  obtain rows where rows: "readFrozenFeed period who t = Inr rows"
      "list_all2 (\<lambda>d row. toFeedRow d = Inr row) (feed_days from to who t) rows"
    using feed_of_frozen_month [OF fm assms(3)] by blast
  obtain row where row: "row \<in> set rows" "toFeedRow d = Inr row"
    using list_all2_in [OF rows(2) fed] by blast
  then have "fr_employeeId row = i" "fr_workDate row = dateOnlyIso day" using d(2)
    by (auto simp: toFeedRow_def is_day_of_def split: option.splits)
  then show ?thesis using rows(1) row(1) run by blast
qed

text \<open>A freeze is final: whatever punches, leave, holidays, shifts or settings have arrived since, as long
  as the register of employees is the same, freezing the month again computes nothing, freezes nothing,
  tells nobody and leaves the store as it is.\<close>

theorem freeze_is_final:
  assumes "days_ok s" "1000 \<le> period_year period" "freezePeriod env period s = (t, Inr r)"
    "ev_employees env' = ev_employees env" "ev_today env \<le> ev_today env'"
  shows "freezePeriod env' period t =
    (t, Inr \<lparr>fz_period = period, fz_computed = 0, fz_frozen = 0, fz_alreadyFrozen = True\<rparr>)"
proof -
  obtain a b where range: "monthRange period = Inr (a, b)"
    using assms(3) by (auto simp: freezePeriod_def bind_Inr run_Inr)
  have "frozen_month env a b t" "b < ev_today env" using freezePeriod_frozen [OF assms(1,2) range assms(3)] by simp_all
  then show ?thesis using assms(5) by (intro frozen_month_refreeze [OF _ assms(4) range assms(2)]) simp_all
qed

text \<open>One employee-day that turns up late closes the feed of the whole month: when a day of a frozen
  month has no row (an employee entered afterwards with a hire date in it), computing it puts an unfrozen
  row there, and the feed then refuses everyone.\<close>

theorem late_row_closes_the_feed:
  assumes "days_ok t" "monthRange period = Inr (from, to)" "from \<le> toDateOnly d" "toDateOnly d \<le> to"
    "findEmployee env i = Some e" "employedOnDay e (toDateOnly d)"
    "\<not> (\<exists>x \<in> set (as_days t). dy_employeeId x = i \<and> dy_workDate x = toDateOnly d)"
    "computeDay env i d t = (u, r)"
  shows "readFrozenFeed period who u = Inl (BusinessRuleError ''period is not frozen'')"
proof -
  define day where "day = toDateOnly d"
  have e: "ae_id e = i" using findEmployee_id [OF assms(5)] by simp
  have none: "List.find (\<lambda>x. is_day_of i day x \<and> P x) (as_days t) = None" for P
    using assms(7) by (auto simp: find_None_iff_all is_day_of_def day_def)
  obtain shiftId input where input: "day_input env e day = (shiftId, input)" by fastforce
  then have "di_employed input" by (auto simp: day_input_def Let_def)
  then obtain dd where dd: "deriveDay (ev_clock env) input = Some dd" using deriveDay_employed by blast
  have run: "storeDay env e day shiftId dd t = (u, r)"
    using assms(6,8) input dd e none
    by (simp add: computeDay_def Let_def assms(5) day_def [symmetric] st_bind_def st_gets_def)
  have "\<exists>outcome. r = Inr outcome" using run storeDay_succeeds [of t e day env shiftId dd] assms(7) e
    by (auto simp: is_day_of_def day_def)
  then obtain x where "x \<in> set (as_days u)" "is_day_of i day x" "\<not> dy_isDeleted x" "dy_frozenAt x = None"
    using storeDay_step [OF assms(1) deriveDay_overtime [OF dd] run] e by auto
  then have "unfrozen_in from to x" "x \<in> set (as_days u)" using assms(3,4)
    by (simp_all add: unfrozen_in_def is_day_of_def day_def)
  then have "filter (unfrozen_in from to) (as_days u) \<noteq> []" by (auto simp: filter_empty_conv)
  then show ?thesis by (simp add: readFrozenFeed_def assms(2) res_ensure_def)
qed

section \<open>Witnesses\<close>

lemma feb_ok: "days_ok feb_frozen"
  using freezePeriod_good [OF days_ok_empty] feb_freeze by (auto simp: good_step_def)

lemma feb_year: "1000 \<le> period_year ''2026-02''"
  by (simp add: period_year_def parse_nat_def digit_val_def char_code_def)

lemma feb_frozen_month: "frozen_month (feb_env [feb_employee]) (fst feb_range) (snd feb_range) feb_frozen"
  using feb_freeze freezePeriod_frozen [OF days_ok_empty feb_year feb_month] by blast

lemma feb_found: "findEmployee (feb_env [feb_employee]) 7 = Some feb_employee"
  by (simp add: findEmployee_def feb_env_def feb_employee_def)

lemma feb_last_day: "snd feb_range \<in> set (days_from_to (fst feb_range) (snd feb_range))"
    "employedOnDay feb_employee (snd feb_range)"
  by code_simp+

lemma feb_row: "\<exists>d \<in> set (as_days feb_frozen). is_day_of 7 (snd feb_range) d \<and> dy_frozenAt d \<noteq> None"
proof -
  have "settled (feb_env [feb_employee]) 7 (snd feb_range) feb_frozen"
    using feb_frozen_month feb_last_day(1) unfolding frozen_month_def by blast
  then obtain d where "d \<in> set (as_days feb_frozen)" "is_day_of 7 (snd feb_range) d" "\<not> dy_isDeleted d"
    using feb_last_day(2) by (auto simp: settled_def feb_found)
  moreover have "fst feb_range \<le> snd feb_range" by code_simp
  ultimately have "dy_frozenAt d \<noteq> None" using feb_frozen_month
    by (auto simp: frozen_month_def filter_empty_conv unfrozen_in_def is_day_of_def)
  then show ?thesis using \<open>d \<in> set (as_days feb_frozen)\<close> \<open>is_day_of 7 (snd feb_range) d\<close> by blast
qed

lemma feb_only: "x \<in> set (as_days feb_frozen) \<Longrightarrow> dy_employeeId x = 7"
proof -
  assume x: "x \<in> set (as_days feb_frozen)"
  obtain u n where u: "computeDays (feb_env [feb_employee]) (pairs_of (listIdsForAttendance (feb_env [feb_employee]))
      (days_from_to (fst feb_range) (snd feb_range))) (0, 0) empty_att = (u, Inr n)"
    using computeDays_succeeds [OF days_ok_empty] by blast
  have "as_days feb_frozen = update_where (unfrozen_in (fst feb_range) (snd feb_range))
      (\<lambda>d. d\<lparr>dy_frozenAt := Some (ev_now (feb_env [feb_employee]))\<rparr>) (as_days u)"
    using u feb_due [of "[feb_employee]"] by (simp add: feb_frozen_def freezePeriod_def feb_month st_defs emit_def)
  then obtain y where "y \<in> set (as_days u)" "dy_employeeId x = dy_employeeId y"
    using x by (auto simp: in_update_where)
  then show ?thesis using computeDays_rows [OF days_ok_empty u]
    by (fastforce simp: empty_att_def listIdsForAttendance_def feb_env_def feb_employee_def split: if_splits)
qed

theorem frozen_days_never_change_witness:
  "\<exists>d. is_day_of 7 (snd feb_range) d \<and>
     d \<in> set (as_days (run_att [(feb_env [], Recompute None 0 0), (feb_env [feb_employee], NightlyCompute)] feb_frozen))"
proof -
  obtain d where "d \<in> set (as_days feb_frozen)" "is_day_of 7 (snd feb_range) d" "dy_frozenAt d \<noteq> None" using feb_row by blast
  then show ?thesis using frozen_days_never_change [OF feb_ok, of d] by blast
qed

theorem freeze_covers_the_month_witness:
  "\<exists>t r rows. freezePeriod (feb_env [feb_employee]) ''2026-02'' empty_att = (t, Inr r) \<and>
    readFrozenFeed ''2026-02'' (Some 7) t = Inr rows \<and>
    (\<exists>row \<in> set rows. fr_employeeId row = 7 \<and> fr_workDate row = dateOnlyIso (snd feb_range))"
  by (rule freeze_covers_the_month [OF days_ok_empty feb_year feb_month feb_due feb_found feb_last_day]) simp

theorem freeze_is_final_witness:
  "freezePeriod ((feb_env [feb_employee])\<lparr>ev_leaves := [\<lparr>al_id = 1, al_employeeId = 7, al_status = LeaveApproved,
      al_startDate = date_of_iso ''2026-02-22'', al_endDate = date_of_iso ''2026-02-23'', al_halfDayStart = False,
      al_halfDayEnd = False, al_isDeleted = False\<rparr>]\<rparr>) ''2026-02'' feb_frozen =
    (feb_frozen, Inr \<lparr>fz_period = ''2026-02'', fz_computed = 0, fz_frozen = 0, fz_alreadyFrozen = True\<rparr>)"
proof -
  obtain r where "freezePeriod (feb_env [feb_employee]) ''2026-02'' empty_att = (feb_frozen, Inr r)" using feb_freeze by blast
  then show ?thesis by (rule freeze_is_final [OF days_ok_empty feb_year]) simp_all
qed

definition late_employee :: att_employee where
  "late_employee = feb_employee\<lparr>ae_id := 8\<rparr>"

theorem late_row_closes_the_feed_witness:
  "readFrozenFeed ''2026-02'' (Some 7)
     (fst (computeDay (feb_env [feb_employee, late_employee]) 8 (date_of_iso ''2026-02-20'') feb_frozen)) =
   Inl (BusinessRuleError ''period is not frozen'')"
proof -
  obtain u r where u: "computeDay (feb_env [feb_employee, late_employee]) 8 (date_of_iso ''2026-02-20'') feb_frozen = (u, r)"
    by fastforce
  have "fst feb_range \<le> toDateOnly (date_of_iso ''2026-02-20'')" "toDateOnly (date_of_iso ''2026-02-20'') \<le> snd feb_range"
    "employedOnDay late_employee (toDateOnly (date_of_iso ''2026-02-20''))"
    by code_simp+
  moreover have "findEmployee (feb_env [feb_employee, late_employee]) 8 = Some late_employee"
    by (simp add: findEmployee_def feb_env_def feb_employee_def late_employee_def)
  moreover have "\<not> (\<exists>x \<in> set (as_days feb_frozen). dy_employeeId x = 8 \<and> dy_workDate x = toDateOnly (date_of_iso ''2026-02-20''))"
    using feb_only by auto
  ultimately have "readFrozenFeed ''2026-02'' (Some 7) u = Inl (BusinessRuleError ''period is not frozen'')"
    using late_row_closes_the_feed [OF feb_ok feb_month _ _ _ _ _ u] by blast
  then show ?thesis by (simp add: u)
qed

end
