(* ===== verification/Leave_Allocation.thy ===== *)
theory Leave_Allocation
  imports Leave_Pay
begin

text \<open>
  Cutting a leave consumption down to one payroll period: \<open>payroll/runs/leave-allocation.ts\<close>. Days and
  rates are doubles, as in \<open>Leave_Pay\<close>. The reference the theorems compare with is the list of the days
  of the entry, one by one, each with the rate it was consumed at.
\<close>

datatype leave_allocation = Whole | Chronological

record consumed_leave =
  cl_from :: instant
  cl_to :: instant
  cl_days :: rat
  cl_breakdown :: "leave_tier list"

record leave_slice =
  ls_from :: instant
  ls_to :: instant
  ls_days :: rat
  ls_breakdown :: "leave_tier list"
  ls_allocation :: leave_allocation

definition intersect_closed :: "instant \<times> instant \<Rightarrow> instant \<times> instant \<Rightarrow> (instant \<times> instant) option" where
  "intersect_closed sp window =
     (let from = (if fst sp > fst window then fst sp else fst window);
          to = (if snd sp < snd window then snd sp else snd window)
      in if from > to then None else Some (from, to))"

definition perCalendarDay :: "consumed_leave \<Rightarrow> rat" where
  "perCalendarDay c = fl (cl_days c / of_int (calendarDaysInclusive (cl_from c) (cl_to c)))"

definition daysBefore :: "consumed_leave \<Rightarrow> instant \<times> instant \<Rightarrow> rat" where
  "daysBefore c slice =
     (let skipped = calendarDaysInclusive (cl_from c) (fst slice) - 1
      in fl (of_int skipped * perCalendarDay c))"

definition SLIVER :: rat where
  "SLIVER = fl (5 / 1000)"

fun takeBreakdown :: "leave_tier list \<Rightarrow> rat \<Rightarrow> rat \<Rightarrow> leave_tier list" where
  "takeBreakdown [] skip remaining = []"
| "takeBreakdown (tier # tiers) skip remaining =
     (if remaining \<le> 0 then []
      else let available = fl (lt_days tier - min skip (lt_days tier));
               skip' = max 0 (fl (skip - lt_days tier))
           in if available \<le> 0 then takeBreakdown tiers skip' remaining
              else let tk = min remaining available
                   in (if SLIVER < tk then [\<lparr>lt_days = round2 tk, lt_payRate = lt_payRate tier\<rparr>] else []) @
                      takeBreakdown tiers skip' (fl (remaining - tk)))"

definition sliceForPeriod :: "consumed_leave \<Rightarrow> instant \<times> instant \<Rightarrow> leave_slice option" where
  "sliceForPeriod consumed window =
     (let from = toDateOnly (cl_from consumed); to = toDateOnly (cl_to consumed);
          dated = consumed\<lparr>cl_from := from, cl_to := to\<rparr>
      in case intersect_closed (from, to) window of None \<Rightarrow> None
         | Some sp \<Rightarrow>
             if sp = (from, to)
             then Some \<lparr>ls_from = fst sp, ls_to = snd sp, ls_days = cl_days consumed,
                    ls_breakdown = cl_breakdown consumed, ls_allocation = Whole\<rparr>
             else let sliceDays = round2 (fl (of_int (calendarDaysInclusive (fst sp) (snd sp)) * perCalendarDay dated))
                  in Some \<lparr>ls_from = fst sp, ls_to = snd sp, ls_days = sliceDays,
                       ls_breakdown = takeBreakdown (cl_breakdown consumed) (daysBefore dated sp) sliceDays,
                       ls_allocation = Chronological\<rparr>)"

section \<open>Day by day\<close>

text \<open>The days of a breakdown in order, each with its rate; a breakdown of whole days.\<close>

definition whole_tier :: "leave_tier \<Rightarrow> bool" where
  "whole_tier t \<longleftrightarrow> (\<exists>k \<le> 1000000000. lt_days t = of_nat k)"

definition day_rates :: "leave_tier list \<Rightarrow> rat list" where
  "day_rates ts = concat (map (\<lambda>t. replicate (nat \<lfloor>lt_days t\<rfloor>) (lt_payRate t)) ts)"

lemma fl_nat: "k \<le> 9007199254740992 \<Longrightarrow> fl (of_nat k) = of_nat k"
  using fl_of_int [of "int k"] by simp

lemma round2_nat:
  assumes "k \<le> 1000000000"
  shows "round2 (of_nat k) = of_nat k"
proof -
  have "fl (of_nat k * 100) = of_int (int k * 100)" using fl_of_int [of "int k * 100"] assms by simp
  then have "round2 (of_nat k) = fl (of_int (int k * 100) / 100)"
    by (simp only: round2_def math_round_of_int)
  then show ?thesis using fl_nat [of k] assms by simp
qed

lemma SLIVER_less: "SLIVER < 1"
proof -
  have "fl (5 / 1000) \<le> fl (1 / 2)" by (rule fl_mono) simp
  then show ?thesis by (simp add: SLIVER_def fl_half)
qed

lemma takeBreakdown_days:
  "\<forall>t \<in> set ts. whole_tier t \<Longrightarrow> o' \<le> 1000000000 \<Longrightarrow> n \<le> 1000000000 \<Longrightarrow>
     day_rates (takeBreakdown ts (of_nat o') (of_nat n)) = take n (drop o' (day_rates ts))"
proof (induction ts arbitrary: o' n)
  case Nil
  then show ?case by (simp add: day_rates_def)
next
  case (Cons t ts)
  obtain k where k: "k \<le> 1000000000" "lt_days t = of_nat k" using Cons.prems(1) by (auto simp: whole_tier_def)
  have rates: "day_rates (t # ts) = replicate k (lt_payRate t) @ day_rates ts" by (simp add: day_rates_def k)
  show ?case
  proof (cases "n = 0")
    case True
    then show ?thesis by (simp add: day_rates_def)
  next
    case False
    have skip: "max 0 (fl (of_nat o' - of_nat k)) = (of_nat (o' - k) :: rat)"
    proof (cases "k \<le> o'")
      case True
      then show ?thesis using fl_nat [of "o' - k"] Cons.prems(2) by (simp add: of_nat_diff)
    next
      case False
      then have "fl (of_nat o' - of_nat k) \<le> 0" using fl_mono [of "of_nat o' - of_nat k" 0] by simp
      then show ?thesis using False by simp
    qed
    have avail: "fl (of_nat k - min (of_nat o') (of_nat k)) = (of_nat (k - o') :: rat)"
      using fl_nat [of "k - o'"] k(1) by (cases "o' \<le> k") (simp_all add: of_nat_diff min_def)
    show ?thesis
    proof (cases "k \<le> o'")
      case True
      then show ?thesis using Cons.IH [of "o' - k" n] Cons.prems False k skip avail by (simp add: Let_def rates)
    next
      case False2: False
      define tk where "tk = min n (k - o')"
      have tk: "min (of_nat n) (of_nat (k - o')) = (of_nat tk :: rat)" "1 \<le> tk" "tk \<le> n" "tk \<le> 1000000000"
        using False False2 Cons.prems(3) by (auto simp: tk_def min_def)
      have rest: "fl (of_nat n - of_nat tk) = (of_nat (n - tk) :: rat)"
        using fl_nat [of "n - tk"] tk Cons.prems(3) by (simp add: of_nat_diff)
      have "SLIVER < of_nat tk" using SLIVER_less tk(2) by (simp add: order_less_le_trans)
      then have "takeBreakdown (t # ts) (of_nat o') (of_nat n) =
          \<lparr>lt_days = of_nat tk, lt_payRate = lt_payRate t\<rparr> # takeBreakdown ts (of_nat (o' - k)) (of_nat (n - tk))"
        using False False2 k skip avail tk rest round2_nat [of tk] by (simp add: Let_def)
      then have "day_rates (takeBreakdown (t # ts) (of_nat o') (of_nat n)) =
          replicate tk (lt_payRate t) @ take (n - tk) (drop (o' - k) (day_rates ts))"
        using Cons by (simp add: day_rates_def)
      also have "\<dots> = take n (drop o' (day_rates (t # ts)))"
        using False2 by (simp add: rates tk_def) (cases "n \<le> k - o'"; simp)
      finally show ?thesis .
    qed
  qed
qed

text \<open>An entry of whole calendar days: from day \<open>a\<close> to day \<open>b\<close>, one ledger day for each.\<close>

definition whole_entry :: "consumed_leave \<Rightarrow> int \<Rightarrow> int \<Rightarrow> bool" where
  "whole_entry c a b \<longleftrightarrow>
     toDateOnly (cl_from c) = ms_per_day * a \<and> toDateOnly (cl_to c) = ms_per_day * b \<and>
     a \<le> b \<and> b - a < 1000000000 \<and> cl_days c = of_int (b - a + 1) \<and>
     (\<forall>t \<in> set (cl_breakdown c). whole_tier t) \<and> int (length (day_rates (cl_breakdown c))) = b - a + 1"

lemma days_le_iff: "ms_per_day * x \<le> ms_per_day * y \<longleftrightarrow> x \<le> y" "ms_per_day * x < ms_per_day * y \<longleftrightarrow> x < y"
  "ms_per_day * x = ms_per_day * y \<longleftrightarrow> x = y" "ms_per_day \<noteq> 0"
  by (simp_all add: ms_per_day_def)

lemma intersect_closed_days:
  "intersect_closed (ms_per_day * a, ms_per_day * b) (ms_per_day * u, ms_per_day * v) =
     (if min b v < max a u then None else Some (ms_per_day * max a u, ms_per_day * min b v))"
  by (auto simp: intersect_closed_def Let_def days_le_iff max_def min_def)

section \<open>Properties\<close>

text \<open>C23. A slice is the days of the entry that fall into the period, read in order. For an entry of whole
  days, \<open>sliceForPeriod\<close> gives nothing when no day falls into the window; otherwise the bounds and the
  number of days of the overlap, and a breakdown which, day by day, lists the rates of exactly those days
  of the entry; it is marked \<open>Whole\<close>, and copied unchanged, just when the whole entry lies inside.\<close>

lemma slice_reads_the_days:
  assumes "whole_entry c a b"
  shows "case sliceForPeriod c (ms_per_day * u, ms_per_day * v) of
      None \<Rightarrow> min b v < max a u
    | Some s \<Rightarrow> max a u \<le> min b v \<and>
        ls_from s = ms_per_day * max a u \<and> ls_to s = ms_per_day * min b v \<and>
        ls_days s = of_int (min b v - max a u + 1) \<and>
        day_rates (ls_breakdown s) =
          take (nat (min b v - max a u + 1)) (drop (nat (max a u - a)) (day_rates (cl_breakdown c))) \<and>
        (ls_allocation s = Whole \<longleftrightarrow> u \<le> a \<and> b \<le> v) \<and>
        (ls_allocation s = Whole \<longrightarrow> ls_breakdown s = cl_breakdown c)"
proof (cases "min b v < max a u")
  case True
  then show ?thesis using assms by (simp add: sliceForPeriod_def whole_entry_def intersect_closed_days Let_def)
next
  case False
  define n k where "n = min b v - max a u + 1" and "k = max a u - a"
  have e: "toDateOnly (cl_from c) = ms_per_day * a" "toDateOnly (cl_to c) = ms_per_day * b" "a \<le> b"
    "b - a < 1000000000" "cl_days c = of_int (b - a + 1)" "\<forall>t \<in> set (cl_breakdown c). whole_tier t"
    "int (length (day_rates (cl_breakdown c))) = b - a + 1"
    using assms by (simp_all add: whole_entry_def)
  have nk: "1 \<le> n" "n \<le> b - a + 1" "0 \<le> k" "k \<le> b - a" using False e(3) by (auto simp: n_def k_def)
  have same: "(ms_per_day * max a u, ms_per_day * min b v) = (ms_per_day * a, ms_per_day * b) \<longleftrightarrow> u \<le> a \<and> b \<le> v"
    using e(3) False by (auto simp: days_le_iff max_def min_def)
  show ?thesis
  proof (cases "u \<le> a \<and> b \<le> v")
    case True
    then have "max a u = a" "min b v = b" by auto
    then show ?thesis using e True by (simp add: sliceForPeriod_def intersect_closed_days Let_def)
  next
    case False2: False
    have per: "perCalendarDay (c\<lparr>cl_from := ms_per_day * a, cl_to := ms_per_day * b\<rparr>) = 1"
      using e(3) by (simp add: perCalendarDay_def calendarDaysInclusive_days e(5))
    have days: "round2 (fl (of_int (calendarDaysInclusive (ms_per_day * max a u) (ms_per_day * min b v)) *
        perCalendarDay (c\<lparr>cl_from := ms_per_day * a, cl_to := ms_per_day * b\<rparr>))) = of_int n"
      using nk e(4) fl_of_int [of n] round2_nat [of "nat n"] by (simp add: per calendarDaysInclusive_days n_def)
    have before': "daysBefore (c\<lparr>cl_from := ms_per_day * a, cl_to := ms_per_day * b\<rparr>)
        (ms_per_day * max a u, ms_per_day * min b v) = of_int k"
      using nk e(4) fl_of_int [of k] by (simp add: daysBefore_def per calendarDaysInclusive_days k_def)
    have "day_rates (takeBreakdown (cl_breakdown c) (of_int k) (of_int n)) =
        take (nat n) (drop (nat k) (day_rates (cl_breakdown c)))"
      using takeBreakdown_days [OF e(6), of "nat k" "nat n"] nk e(4) by simp
    moreover have "sliceForPeriod c (ms_per_day * u, ms_per_day * v) =
        Some \<lparr>ls_from = ms_per_day * max a u, ls_to = ms_per_day * min b v, ls_days = of_int n,
          ls_breakdown = takeBreakdown (cl_breakdown c) (of_int k) (of_int n), ls_allocation = Chronological\<rparr>"
      using False False2 unfolding sliceForPeriod_def Let_def e(1,2) intersect_closed_days
      by (simp add: days before' days_le_iff) linarith
    ultimately show ?thesis using False False2 by (simp add: n_def k_def) linarith
  qed
qed

text \<open>Cut at a month's end, the two slices of an entry are its days, neither losing nor repeating one.\<close>

lemma slices_partition:
  assumes c: "whole_entry c a b" and w: "u \<le> a" "a \<le> w" "w < b" "b \<le> v"
    and s: "sliceForPeriod c (ms_per_day * u, ms_per_day * w) = Some s"
    and t: "sliceForPeriod c (ms_per_day * (w + 1), ms_per_day * v) = Some t"
  shows "day_rates (ls_breakdown s) @ day_rates (ls_breakdown t) = day_rates (cl_breakdown c) \<and>
    ls_days s + ls_days t = cl_days c"
proof -
  have l: "int (length (day_rates (cl_breakdown c))) = b - a + 1" "cl_days c = of_int (b - a + 1)"
    using c by (simp_all add: whole_entry_def)
  have m: "max a u = a" "min b w = w" "max a (w + 1) = w + 1" "min b v = b" using w by auto
  have S: "day_rates (ls_breakdown s) = take (nat (w - a + 1)) (day_rates (cl_breakdown c))" "ls_days s = of_int (w - a + 1)"
    using slice_reads_the_days [OF c, where u = u and v = w] s m by simp_all
  have T: "day_rates (ls_breakdown t) = take (nat (b - w)) (drop (nat (w - a + 1)) (day_rates (cl_breakdown c)))"
    "ls_days t = of_int (b - w)"
    using slice_reads_the_days [OF c, where u = "w + 1" and v = v] t m by (simp_all add: algebra_simps)
  have "take (nat (b - w)) (drop (nat (w - a + 1)) (day_rates (cl_breakdown c))) =
      drop (nat (w - a + 1)) (day_rates (cl_breakdown c))"
    using l(1) w by (intro take_all) (simp add: nat_le_iff le_nat_iff)
  then show ?thesis using S T l(2) by simp
qed

text \<open>Ten days from 28 March to 6 April, seven of them paid in full.\<close>

definition spring_leave :: consumed_leave where
  "spring_leave = \<lparr>cl_from = 1774656000000, cl_to = 1775433600000, cl_days = 10,
     cl_breakdown = [\<lparr>lt_days = 7, lt_payRate = 100\<rparr>, \<lparr>lt_days = 3, lt_payRate = 50\<rparr>]\<rparr>"

lemma slice_reads_the_days_witness:
  "\<exists>s. sliceForPeriod spring_leave (ms_per_day * 20544, ms_per_day * 20573) = Some s \<and>
     ls_days s = 6 \<and> day_rates (ls_breakdown s) = [100, 100, 100, 50, 50, 50]"
proof -
  have d: "toDateOnly 1774656000000 = ms_per_day * 20540" "toDateOnly 1775433600000 = ms_per_day * 20549"
    by code_simp+
  have w: "whole_tier \<lparr>lt_days = 7, lt_payRate = 100\<rparr>" "whole_tier \<lparr>lt_days = 3, lt_payRate = 50\<rparr>"
    unfolding whole_tier_def by (intro exI [of _ 7]; simp) (intro exI [of _ 3]; simp)
  have "whole_entry spring_leave 20540 20549"
    using w by (simp add: whole_entry_def spring_leave_def d day_rates_def)
  from slice_reads_the_days [OF this, where u = 20544 and v = 20573] show ?thesis
    by (simp add: spring_leave_def day_rates_def numeral_eq_Suc split: option.splits)
qed

end
