(* ===== verification/Payroll_Runs.thy ===== *)
theory Payroll_Runs
  imports Attendance_Claims Leave_Allocation
begin

text \<open>
  The payroll run: \<open>payroll/runs/payroll-run.service.ts\<close>, \<open>payroll-run.model.ts\<close>,
  \<open>payroll-leave-snapshot.model.ts\<close> and the ports \<open>attendance-freeze.port.ts\<close>, \<open>leave-facts.port.ts\<close>,
  \<open>compensation/leave-snapshot.port.ts\<close>. The store holds the runs, the leave they pinned and the attendance
  rows they freeze; the leave ledger and the requests are read only, so they are the environment's.
\<close>

section \<open>Data\<close>

datatype run_status = RunDraft | RunFrozen | RunApproved | RunPaid | RunClosed | RunCancelled

definition CANCELLABLE_PAYROLL_RUN_STATUSES :: "run_status list" where
  "CANCELLABLE_PAYROLL_RUN_STATUSES = [RunDraft, RunFrozen, RunApproved]"

record payroll_run =
  pr_id :: oid
  pr_period :: string
  pr_status :: run_status
  pr_frozenAt :: "instant option"
  pr_frozenBy :: "oid option"
  pr_attendanceFrozenRows :: nat
  pr_attendanceComputedRows :: nat
  pr_leaveSnapshotRows :: nat
  pr_approvedAt :: "instant option"
  pr_approvedBy :: "oid option"
  pr_approvalNote :: "string option"
  pr_paidAt :: "instant option"
  pr_paidBy :: "oid option"
  pr_paidOn :: "instant option"
  pr_paymentReference :: "string option"
  pr_closedAt :: "instant option"
  pr_closedBy :: "oid option"
  pr_cancelledAt :: "instant option"
  pr_cancelledBy :: "oid option"
  pr_cancelReason :: "string option"
  pr_note :: "string option"
  pr_version :: int
  pr_isDeleted :: bool
  pr_createdBy :: oid
  pr_updatedBy :: oid
  pr_updatedAt :: instant

record leave_snapshot =
  sn_id :: oid
  sn_runId :: oid
  sn_period :: string
  sn_employeeId :: oid
  sn_ledgerEntryId :: oid
  sn_requestId :: "oid option"
  sn_typeId :: oid
  sn_typeCode :: string
  sn_from :: instant
  sn_to :: instant
  sn_days :: rat
  sn_breakdown :: "leave_tier list"
  sn_allocation :: leave_allocation
  sn_snapshotAt :: instant

datatype run_effect =
    RunAudited oid "run_status option" run_status
  | RunEvent oid string run_status oid
  | RunNotice string string

record run_store =
  rs_runs :: "payroll_run list"
  rs_snapshots :: "leave_snapshot list"
  rs_attendance :: att_store
  rs_log :: "run_effect list"
  rs_nextId :: oid

text \<open>A row of the leave ledger.\<close>

record ledger_entry =
  le_id :: oid
  le_employeeId :: oid
  le_consume :: bool
  le_requestId :: "oid option"
  le_typeId :: oid
  le_effectiveFrom :: "instant option"
  le_effectiveTo :: "instant option"
  le_days :: rat
  le_paidBreakdown :: "leave_tier list"

record run_env =
  rv_att :: att_env
  rv_ledger :: "ledger_entry list"
  rv_leaveTypes :: "oid \<Rightarrow> string option"
  rv_user :: oid

text \<open>A handler of a part of the store.\<close>

definition st_zoom :: "('s \<Rightarrow> 'p) \<Rightarrow> ('p \<Rightarrow> 's \<Rightarrow> 's) \<Rightarrow> ('p, 'a) st \<Rightarrow> ('s, 'a) st" where
  "st_zoom get put m s = (case m (get s) of (t, r) \<Rightarrow> (put t s, r))"

section \<open>The leave ledger\<close>

record consumed_leave_entry = consumed_leave +
  ce_ledgerEntryId :: oid
  ce_employeeId :: oid
  ce_requestId :: "oid option"
  ce_typeId :: oid
  ce_typeCode :: string

definition consumed_in_window :: "instant \<times> instant \<Rightarrow> ledger_entry \<Rightarrow> bool" where
  "consumed_in_window window e \<longleftrightarrow> le_consume e \<and>
     (case le_effectiveFrom e of None \<Rightarrow> False | Some f \<Rightarrow> f \<le> snd window) \<and>
     (case le_effectiveTo e of None \<Rightarrow> False | Some t \<Rightarrow> fst window \<le> t)"

definition consumed_entry_of :: "run_env \<Rightarrow> ledger_entry \<Rightarrow> consumed_leave_entry" where
  "consumed_entry_of env e = \<lparr>cl_from = the (le_effectiveFrom e), cl_to = the (le_effectiveTo e), cl_days = le_days e,
     cl_breakdown = le_paidBreakdown e, ce_ledgerEntryId = le_id e, ce_employeeId = le_employeeId e,
     ce_requestId = le_requestId e, ce_typeId = le_typeId e,
     ce_typeCode = (case rv_leaveTypes env (le_typeId e) of None \<Rightarrow> [] | Some c \<Rightarrow> c)\<rparr>"

definition consumedIn :: "run_env \<Rightarrow> instant \<times> instant \<Rightarrow> consumed_leave_entry list" where
  "consumedIn env window =
     map (consumed_entry_of env) (sort_key (\<lambda>e. (le_employeeId e, the (le_effectiveFrom e), le_id e))
       (filter (consumed_in_window window) (rv_ledger env)))"

definition LEAVE_BLOCKING_STATUSES :: "leave_status list" where
  "LEAVE_BLOCKING_STATUSES = [LeavePendingManager, LeavePendingHr, LeavePendingApproval, LeaveApproved, LeaveActive]"

definition unsettledRequestsIn :: "run_env \<Rightarrow> instant \<times> instant \<Rightarrow> nat" where
  "unsettledRequestsIn env window =
     length (filter (\<lambda>l. al_status l \<in> set LEAVE_BLOCKING_STATUSES \<and> al_startDate l \<le> snd window \<and>
       fst window \<le> al_endDate l \<and> \<not> al_isDeleted l) (ev_leaves (rv_att env)))"

section \<open>Reading and writing runs\<close>

definition live_statuses :: "run_status list" where
  "live_statuses = [RunDraft, RunFrozen, RunApproved, RunPaid, RunClosed]"

text \<open>The partial unique index on the period: one run that is not cancelled.\<close>

definition holds_period :: "string \<Rightarrow> payroll_run \<Rightarrow> bool" where
  "holds_period period r \<longleftrightarrow> pr_period r = period \<and> pr_status r \<in> set live_statuses \<and> \<not> pr_isDeleted r"

definition findRun :: "oid \<Rightarrow> run_store \<Rightarrow> payroll_run option" where
  "findRun i s = List.find (\<lambda>r. pr_id r = i \<and> \<not> pr_isDeleted r) (rs_runs s)"

definition getRun :: "oid \<Rightarrow> (run_store, payroll_run) st" where
  "getRun i = st_bind (st_gets (findRun i)) (\<lambda>r. st_lift (option_or (NotFoundError ''Not found'') r))"

definition updateRunById ::
  "oid \<Rightarrow> int \<Rightarrow> run_env \<Rightarrow> (payroll_run \<Rightarrow> payroll_run) \<Rightarrow> (run_store, payroll_run) st" where
  "updateRunById i version env f s =
     (let P = (\<lambda>r. pr_id r = i \<and> pr_version r = version \<and> \<not> pr_isDeleted r);
          g = (\<lambda>r. (f r)\<lparr>pr_updatedBy := rv_user env, pr_updatedAt := ev_now (rv_att env),
            pr_version := pr_version r + 1\<rparr>)
      in case List.find P (rs_runs s) of
           Some r \<Rightarrow> (s\<lparr>rs_runs := update_first P g (rs_runs s)\<rparr>, Inr (g r))
         | None \<Rightarrow> (s, Inl (case findRun i s of None \<Rightarrow> NotFoundError ''Not found'' | Some _ \<Rightarrow> StaleDocumentError)))"

definition log_run :: "run_effect \<Rightarrow> (run_store, unit) st" where
  "log_run e = st_modify (\<lambda>s. s\<lparr>rs_log := rs_log s @ [e]\<rparr>)"

definition recordTransition :: "oid \<Rightarrow> run_status \<Rightarrow> run_status \<Rightarrow> (run_store, unit) st" where
  "recordTransition i from to = log_run (RunAudited i (Some from) to)"

text \<open>The event, then the notice to whoever holds the permission of the next turn.\<close>

definition publish :: "run_env \<Rightarrow> payroll_run \<Rightarrow> string \<Rightarrow> (run_store, unit) st" where
  "publish env r permission =
     st_bind (log_run (RunEvent (pr_id r) (pr_period r) (pr_status r) (rv_user env))) (\<lambda>_.
       log_run (RunNotice permission (pr_period r)))"

section \<open>create\<close>

definition draft_run :: "oid \<Rightarrow> string \<Rightarrow> string option \<Rightarrow> run_env \<Rightarrow> payroll_run" where
  "draft_run i period note env = \<lparr>pr_id = i, pr_period = period, pr_status = RunDraft, pr_frozenAt = None,
     pr_frozenBy = None, pr_attendanceFrozenRows = 0, pr_attendanceComputedRows = 0, pr_leaveSnapshotRows = 0,
     pr_approvedAt = None, pr_approvedBy = None, pr_approvalNote = None, pr_paidAt = None, pr_paidBy = None,
     pr_paidOn = None, pr_paymentReference = None, pr_closedAt = None, pr_closedBy = None,
     pr_cancelledAt = None, pr_cancelledBy = None, pr_cancelReason = None, pr_note = note,
     pr_version = 0, pr_isDeleted = False, pr_createdBy = rv_user env, pr_updatedBy = rv_user env,
     pr_updatedAt = ev_now (rv_att env)\<rparr>"

definition insertRun :: "string \<Rightarrow> string option \<Rightarrow> run_env \<Rightarrow> (run_store, payroll_run) st" where
  "insertRun period note env s =
     (if \<exists>r \<in> set (rs_runs s). holds_period period r
      then (s, Inl (ConflictError ''another record already holds this period''))
      else let r = draft_run (rs_nextId s) period note env
           in (s\<lparr>rs_runs := rs_runs s @ [r], rs_nextId := rs_nextId s + 1\<rparr>, Inr r))"

definition create_run :: "run_env \<Rightarrow> string \<Rightarrow> string option \<Rightarrow> (run_store, payroll_run) st" where
  "create_run env period note =
     st_bind (st_gets (\<lambda>s. List.find (\<lambda>r. pr_period r = period \<and> pr_status r \<in> {RunDraft, RunFrozen} \<and>
       \<not> pr_isDeleted r) (rs_runs s))) (\<lambda>live.
     st_bind (st_ensure (live = None) (ConflictError ''period already has a payroll run'')) (\<lambda>_.
     st_bind (insertRun period note env) (\<lambda>r.
     st_bind (log_run (RunAudited (pr_id r) None RunDraft)) (\<lambda>_.
     st_return r))))"

section \<open>freeze\<close>

definition same_slice :: "oid \<Rightarrow> oid \<Rightarrow> instant \<Rightarrow> leave_snapshot \<Rightarrow> bool" where
  "same_slice runId entryId from x \<longleftrightarrow> sn_runId x = runId \<and> sn_ledgerEntryId x = entryId \<and> sn_from x = from"

definition snapshot_row :: "oid \<Rightarrow> payroll_run \<Rightarrow> consumed_leave_entry \<Rightarrow> leave_slice \<Rightarrow> instant \<Rightarrow> leave_snapshot" where
  "snapshot_row i run entry slice now = \<lparr>sn_id = i, sn_runId = pr_id run, sn_period = pr_period run,
     sn_employeeId = ce_employeeId entry, sn_ledgerEntryId = ce_ledgerEntryId entry,
     sn_requestId = ce_requestId entry, sn_typeId = ce_typeId entry, sn_typeCode = ce_typeCode entry,
     sn_from = ls_from slice, sn_to = ls_to slice, sn_days = ls_days slice, sn_breakdown = ls_breakdown slice,
     sn_allocation = ls_allocation slice, sn_snapshotAt = now\<rparr>"

text \<open>The loop over the consumed entries: one \<open>$setOnInsert\<close> upsert each, and the count of the rows written.\<close>

fun snapshotLeave ::
  "payroll_run \<Rightarrow> instant \<times> instant \<Rightarrow> instant \<Rightarrow> consumed_leave_entry list \<Rightarrow> nat \<Rightarrow> (run_store, nat) st" where
  "snapshotLeave run window now [] n = st_return n"
| "snapshotLeave run window now (entry # entries) n =
     (case sliceForPeriod (consumed_leave.truncate entry) window of
        None \<Rightarrow> snapshotLeave run window now entries n
      | Some slice \<Rightarrow>
          st_bind (st_gets (\<lambda>s. \<exists>x \<in> set (rs_snapshots s). same_slice (pr_id run) (ce_ledgerEntryId entry) (ls_from slice) x)) (\<lambda>there.
          st_bind (if there then st_return () else st_modify (\<lambda>s. s\<lparr>
              rs_snapshots := rs_snapshots s @ [snapshot_row (rs_nextId s) run entry slice now],
              rs_nextId := rs_nextId s + 1\<rparr>)) (\<lambda>_.
          snapshotLeave run window now entries (if there then n else n + 1))))"

definition attendanceFreeze :: "run_env \<Rightarrow> string \<Rightarrow> (run_store, freeze_result) st" where
  "attendanceFreeze env period = st_zoom rs_attendance (\<lambda>a s. s\<lparr>rs_attendance := a\<rparr>) (freezePeriod (rv_att env) period)"

text \<open>The commit point and what follows it.\<close>

definition stampFrozen :: "run_env \<Rightarrow> oid \<Rightarrow> int \<Rightarrow> freeze_result \<Rightarrow> nat \<Rightarrow> (run_store, payroll_run) st" where
  "stampFrozen env i version frozen rows =
     st_bind (updateRunById i version env (\<lambda>r. r\<lparr>pr_status := RunFrozen,
        pr_frozenAt := Some (ev_now (rv_att env)), pr_frozenBy := Some (rv_user env),
        pr_attendanceFrozenRows := fz_frozen frozen, pr_attendanceComputedRows := fz_computed frozen,
        pr_leaveSnapshotRows := rows\<rparr>)) (\<lambda>updated.
     st_bind (log_run (RunAudited i (Some RunDraft) RunFrozen)) (\<lambda>_.
     st_bind (publish env updated ''payrollRun.approve'') (\<lambda>_.
     st_return updated)))"

definition freeze_run :: "run_env \<Rightarrow> oid \<Rightarrow> int \<Rightarrow> (run_store, payroll_run) st" where
  "freeze_run env i version =
     st_bind (getRun i) (\<lambda>run.
     st_bind (st_ensure (pr_status run = RunDraft) (BusinessRuleError ''only a draft run can be frozen'')) (\<lambda>_.
     st_bind (st_lift (periodRange (pr_period run))) (\<lambda>window.
     st_bind (st_ensure (snd window < ev_today (rv_att env)) (BusinessRuleError ''the period has not ended yet'')) (\<lambda>_.
     st_bind (st_ensure (unsettledRequestsIn env window = 0) (BusinessRuleError ''leave requests still in flight'')) (\<lambda>_.
     st_bind (attendanceFreeze env (pr_period run)) (\<lambda>frozen.
     st_bind (snapshotLeave run window (ev_now (rv_att env)) (consumedIn env window) 0) (\<lambda>rows.
     stampFrozen env i version frozen rows)))))))"

section \<open>approve, pay, close, cancel\<close>

definition approve_run :: "run_env \<Rightarrow> oid \<Rightarrow> string option \<Rightarrow> int \<Rightarrow> (run_store, payroll_run) st" where
  "approve_run env i note version =
     st_bind (getRun i) (\<lambda>run.
     st_bind (st_ensure (pr_status run = RunFrozen) (BusinessRuleError ''only a frozen run has figures to approve'')) (\<lambda>_.
     st_bind (st_ensure (pr_frozenBy run \<noteq> Some (rv_user env)) (ForbiddenError ''cannot be approved by the person who froze it'')) (\<lambda>_.
     st_bind (updateRunById i version env (\<lambda>r. r\<lparr>pr_status := RunApproved,
        pr_approvedAt := Some (ev_now (rv_att env)), pr_approvedBy := Some (rv_user env), pr_approvalNote := note\<rparr>)) (\<lambda>updated.
     st_bind (recordTransition i RunFrozen RunApproved) (\<lambda>_.
     st_bind (publish env updated ''payrollRun.pay'') (\<lambda>_.
     st_return updated))))))"

definition pay_run :: "run_env \<Rightarrow> oid \<Rightarrow> instant \<Rightarrow> string option \<Rightarrow> int \<Rightarrow> (run_store, payroll_run) st" where
  "pay_run env i paidOn reference version =
     st_bind (getRun i) (\<lambda>run.
     st_bind (st_ensure (pr_status run = RunApproved) (BusinessRuleError ''approve it first'')) (\<lambda>_.
     st_bind (updateRunById i version env (\<lambda>r. r\<lparr>pr_status := RunPaid,
        pr_paidAt := Some (ev_now (rv_att env)), pr_paidBy := Some (rv_user env),
        pr_paidOn := Some (toDateOnly paidOn), pr_paymentReference := reference\<rparr>)) (\<lambda>updated.
     st_bind (recordTransition i RunApproved RunPaid) (\<lambda>_.
     st_bind (publish env updated ''payrollRun.manage'') (\<lambda>_.
     st_return updated)))))"

definition close_run :: "run_env \<Rightarrow> oid \<Rightarrow> string option \<Rightarrow> int \<Rightarrow> (run_store, payroll_run) st" where
  "close_run env i note version =
     st_bind (getRun i) (\<lambda>run.
     st_bind (st_ensure (pr_status run = RunPaid) (BusinessRuleError ''record the payment first'')) (\<lambda>_.
     st_bind (updateRunById i version env (\<lambda>r. r\<lparr>pr_status := RunClosed,
        pr_closedAt := Some (ev_now (rv_att env)), pr_closedBy := Some (rv_user env),
        pr_note := (case note of None \<Rightarrow> pr_note run | Some n \<Rightarrow> Some n)\<rparr>)) (\<lambda>updated.
     st_bind (recordTransition i RunPaid RunClosed) (\<lambda>_.
     st_return updated))))"

definition cancel_run :: "run_env \<Rightarrow> oid \<Rightarrow> string \<Rightarrow> int \<Rightarrow> (run_store, payroll_run) st" where
  "cancel_run env i reason version =
     st_bind (getRun i) (\<lambda>run.
     st_bind (st_ensure (pr_status run \<noteq> RunCancelled) (BusinessRuleError ''this run is already cancelled'')) (\<lambda>_.
     st_bind (st_ensure (pr_status run \<in> set CANCELLABLE_PAYROLL_RUN_STATUSES)
       (BusinessRuleError ''money has already been recorded as paid'')) (\<lambda>_.
     st_bind (updateRunById i version env (\<lambda>r. r\<lparr>pr_status := RunCancelled,
        pr_cancelledAt := Some (ev_now (rv_att env)), pr_cancelledBy := Some (rv_user env),
        pr_cancelReason := Some reason\<rparr>)) (\<lambda>updated.
     st_bind (log_run (RunAudited i (Some (pr_status run)) RunCancelled)) (\<lambda>_.
     st_return updated)))))"

section \<open>What the rest of payroll reads\<close>

definition frozenPeriods :: "run_store \<Rightarrow> string list" where
  "frozenPeriods s = map pr_period (filter (\<lambda>r. pr_status r = RunFrozen \<and> \<not> pr_isDeleted r) (rs_runs s))"

definition snapshotFor :: "oid \<Rightarrow> oid option \<Rightarrow> (run_store, leave_snapshot list) st" where
  "snapshotFor runId employeeId =
     st_bind (st_gets (findRun runId)) (\<lambda>r.
     st_bind (st_ensure (r \<noteq> None) (NotFoundError ''payroll run not found'')) (\<lambda>_.
     st_gets (\<lambda>s. sort_key (\<lambda>x. (sn_employeeId x, sn_from x))
       (filter (\<lambda>x. sn_runId x = runId \<and> (case employeeId of None \<Rightarrow> True | Some e \<Rightarrow> sn_employeeId x = e)) (rs_snapshots s)))))"

text \<open>\<open>leaveSnapshotPort.frozenFor\<close>. Only a run that is frozen answers.\<close>

definition frozenLeaveFor :: "run_store \<Rightarrow> string \<Rightarrow> oid \<Rightarrow> frozen_leave option" where
  "frozenLeaveFor s period employeeId =
     map_option (\<lambda>run. \<lparr>fz_runId = pr_id run,
         fz_snapshotAt = (case pr_frozenAt run of None \<Rightarrow> pr_updatedAt run | Some t \<Rightarrow> t),
         fz_slices = map (\<lambda>x. \<lparr>sf_typeCode = sn_typeCode x, sf_days = sn_days x, sf_breakdown = sn_breakdown x\<rparr>)
           (sort_key (\<lambda>x. (sn_from x, sn_id x))
             (filter (\<lambda>x. sn_runId x = pr_id run \<and> sn_employeeId x = employeeId) (rs_snapshots s)))\<rparr>)
       (List.find (\<lambda>r. pr_period r = period \<and> pr_status r = RunFrozen \<and> \<not> pr_isDeleted r) (rs_runs s))"

text \<open>\<open>attendanceQuantityPort.frozenFor\<close>: a refusal of the reader means the period is not frozen.\<close>

definition frozenAttendanceFor :: "run_store \<Rightarrow> string \<Rightarrow> oid \<Rightarrow> app_error + frozen_attendance option" where
  "frozenAttendanceFor s period employeeId =
     (let answer = (\<lambda>rows employed_rows. case rows of [] \<Rightarrow> None
            | r # _ \<Rightarrow> Some \<lparr>fa_rows = map feed_row.truncate employed_rows, fa_frozenAt = Some (fr_frozenAt r)\<rparr>);
          read = (\<lambda>who. readFrozenFeed period who (rs_attendance s));
          tried = res_bind (read (Some employeeId)) (\<lambda>rows. if rows \<noteq> [] then Inr (answer rows rows)
            else res_bind (read None) (\<lambda>anyRow. Inr (answer anyRow [])))
      in case tried of Inl (BusinessRuleError _) \<Rightarrow> Inr None | _ \<Rightarrow> tried)"

section \<open>The operations of the run screen\<close>

datatype run_op =
    CreateRun string "string option"
  | FreezeRun oid int
  | ApproveRun oid "string option" int
  | PayRun oid instant "string option" int
  | CloseRun oid "string option" int
  | CancelRun oid string int

definition quietly :: "('s, 'a) st \<Rightarrow> ('s, unit) st" where
  "quietly m = st_bind m (\<lambda>_. st_return ())"

fun run_op_step :: "run_env \<Rightarrow> run_op \<Rightarrow> (run_store, unit) st" where
  "run_op_step env (CreateRun period note) = quietly (create_run env period note)"
| "run_op_step env (FreezeRun i v) = quietly (freeze_run env i v)"
| "run_op_step env (ApproveRun i note v) = quietly (approve_run env i note v)"
| "run_op_step env (PayRun i paidOn reference v) = quietly (pay_run env i paidOn reference v)"
| "run_op_step env (CloseRun i note v) = quietly (close_run env i note v)"
| "run_op_step env (CancelRun i reason v) = quietly (cancel_run env i reason v)"

text \<open>A history: the requests of the run screen, between which the attendance service goes on working.\<close>

datatype payroll_event = RunRequest run_op | AttendanceEvent att_op

fun payroll_step :: "run_env \<Rightarrow> payroll_event \<Rightarrow> run_store \<Rightarrow> run_store" where
  "payroll_step env (RunRequest opn) s = fst (run_op_step env opn s)"
| "payroll_step env (AttendanceEvent opn) s = s\<lparr>rs_attendance := fst (run_att_op (rv_att env) opn (rs_attendance s))\<rparr>"

fun payroll_history :: "(run_env \<times> payroll_event) list \<Rightarrow> run_store \<Rightarrow> run_store" where
  "payroll_history [] s = s"
| "payroll_history ((env, e) # xs) s = payroll_history xs (payroll_step env e s)"

definition empty_runs :: run_store where
  "empty_runs = \<lparr>rs_runs = [], rs_snapshots = [], rs_attendance = empty_att, rs_log = [], rs_nextId = 1\<rparr>"

end
