(* ===== verification/Pay_Items.thy ===== *)
theory Pay_Items
  imports Compensation_Rules Employee_Loans Payroll_Runs
begin

text \<open>
  The pay-item catalog and its assignments to employees: \<open>payroll/pay-items/pay-item.service.ts\<close> and
  \<open>payroll/employee-pay-items/\<close> (\<open>employee-pay-item.service.ts\<close>, its repository and
  \<open>frozen-period-guard.ts\<close>). The register of employees, the frozen periods (\<open>frozenPeriods\<close> of the run
  service) and the clock are the environment's; the register answers an employee only inside the caller's
  scope.
\<close>

section \<open>Data\<close>

record pay_item_doc =
  it_id :: oid
  it_item :: pay_item_ref
  it_archived :: bool
  it_version :: int
  it_isDeleted :: bool
  it_createdBy :: oid
  it_updatedBy :: oid

record pay_assignment =
  pa_id :: oid
  pa_employeeId :: oid
  pa_payItemId :: oid
  pa_amount :: jsnum
  pa_currency :: string
  pa_effectiveFrom :: instant
  pa_effectiveTo :: "instant option"
  pa_note :: "string option"
  pa_branchId :: "oid option"
  pa_departmentId :: "oid option"
  pa_version :: int
  pa_isDeleted :: bool
  pa_createdBy :: oid
  pa_updatedBy :: oid

record pay_store =
  ps_items :: "pay_item_doc list"
  ps_assignments :: "pay_assignment list"
  ps_nextId :: oid

record pay_env =
  pe_employee :: "oid \<Rightarrow> loan_employee option"
  pe_frozen :: "string list"
  pe_today :: instant
  pe_user :: oid

section \<open>The frozen-period guard\<close>

definition periodKeyOf :: "instant \<Rightarrow> string" where
  "periodKeyOf t = show_nat (nat (utc_full_year t)) @ ''-'' @ pad_start 2 (CHR ''0'') (show_nat (utc_month t + 1))"

text \<open>\<open>a >= b\<close> and \<open>a <= b\<close> of strings, and the least of a list of them.\<close>

definition str_le :: "string \<Rightarrow> string \<Rightarrow> bool" where
  "str_le a b \<longleftrightarrow> \<not> str_less b a"

definition str_min :: "string list \<Rightarrow> string option" where
  "str_min xs = (case xs of [] \<Rightarrow> None | x # ys \<Rightarrow> Some (fold (\<lambda>a b. if str_less a b then a else b) ys x))"

definition blockingFrozenPeriod :: "string list \<Rightarrow> instant \<Rightarrow> instant option \<Rightarrow> string option" where
  "blockingFrozenPeriod frozen from to =
     str_min (filter (\<lambda>p. str_le (periodKeyOf from) p \<and>
       (case to of None \<Rightarrow> True | Some t \<Rightarrow> str_le p (periodKeyOf t))) frozen)"

section \<open>The catalog\<close>

definition findItem :: "oid \<Rightarrow> pay_store \<Rightarrow> pay_item_doc option" where
  "findItem i s = List.find (\<lambda>x. it_id x = i \<and> \<not> it_isDeleted x) (ps_items s)"

definition isPayItemInUse :: "oid \<Rightarrow> pay_store \<Rightarrow> bool" where
  "isPayItemInUse i s \<longleftrightarrow> (\<exists>a \<in> set (ps_assignments s). pa_payItemId a = i \<and> \<not> pa_isDeleted a)"

text \<open>The one coherence rule of the catalog: what is priced per day counts days, what is priced per minute
  counts minutes, and the rest counts nothing.\<close>

fun CALC_BASIS_UNITS :: "calc_basis \<Rightarrow> quantity_unit option" where
  "CALC_BASIS_UNITS PerDay = Some UnitDays"
| "CALC_BASIS_UNITS PerMinute = Some UnitMinutes"
| "CALC_BASIS_UNITS _ = None"

definition quantitySourceFits :: "calc_basis \<Rightarrow> quantity_source option \<Rightarrow> bool" where
  "quantitySourceFits basis source \<longleftrightarrow>
     (case CALC_BASIS_UNITS basis of
        None \<Rightarrow> source = None
      | Some needed \<Rightarrow> (case source of None \<Rightarrow> False | Some q \<Rightarrow> unitOf q = needed))"

text \<open>\<open>toUpperCase\<close>, of the letters a code may have.\<close>

definition upper_char :: "char \<Rightarrow> char" where
  "upper_char c = (if 97 \<le> char_code c \<and> char_code c \<le> 122 then char_of (char_code c - 32) else c)"

record create_item =
  ni_code :: string
  ni_name :: localized
  ni_kind :: pay_item_kind
  ni_calcBasis :: calc_basis
  ni_quantitySource :: "quantity_source option"
  ni_sortOrder :: "int option"

definition nextSortOrder :: "pay_store \<Rightarrow> int" where
  "nextSortOrder s = (case filter (\<lambda>x. \<not> it_isDeleted x) (ps_items s) of [] \<Rightarrow> 0
     | x # xs \<Rightarrow> fold (\<lambda>y m. max (pi_sortOrder (it_item y)) m) xs (pi_sortOrder (it_item x)) + 10)"

definition live_code :: "string \<Rightarrow> pay_item_doc \<Rightarrow> bool" where
  "live_code code x \<longleftrightarrow> pi_code (it_item x) = code \<and> \<not> it_isDeleted x"

definition create_item_op :: "pay_env \<Rightarrow> create_item \<Rightarrow> (pay_store, pay_item_doc) st" where
  "create_item_op env input =
     (let code = map upper_char (ni_code input) in
     st_bind (st_gets (\<lambda>s. List.find (live_code code) (ps_items s))) (\<lambda>clash.
     st_bind (st_ensure (clash = None) (ConflictError ''a pay item with this code already exists'')) (\<lambda>_.
     st_bind (st_gets (\<lambda>s. \<lparr>it_id = ps_nextId s, it_item = \<lparr>pi_code = code, pi_name = ni_name input, pi_kind = ni_kind input,
         pi_calcBasis = ni_calcBasis input, pi_quantitySource = ni_quantitySource input,
         pi_sortOrder = (case ni_sortOrder input of Some n \<Rightarrow> n | None \<Rightarrow> nextSortOrder s)\<rparr>,
       it_archived = False, it_version = 0, it_isDeleted = False, it_createdBy = pe_user env, it_updatedBy = pe_user env\<rparr>)) (\<lambda>x.
     st_bind (st_modify (\<lambda>s. s\<lparr>ps_items := ps_items s @ [x], ps_nextId := ps_nextId s + 1\<rparr>)) (\<lambda>_.
     st_return x)))))"

definition updateItemById :: "oid \<Rightarrow> int \<Rightarrow> oid \<Rightarrow> (pay_item_doc \<Rightarrow> pay_item_doc) \<Rightarrow> (pay_store, pay_item_doc) st" where
  "updateItemById i version by f s =
     (let P = (\<lambda>x. it_id x = i \<and> it_version x = version \<and> \<not> it_isDeleted x);
          g = (\<lambda>x. (f x)\<lparr>it_updatedBy := by, it_version := it_version x + 1\<rparr>)
      in case List.find P (ps_items s) of
           Some x \<Rightarrow> (s\<lparr>ps_items := update_first P g (ps_items s)\<rparr>, Inr (g x))
         | None \<Rightarrow> (s, Inl (case findItem i s of None \<Rightarrow> NotFoundError ''Not found'' | Some _ \<Rightarrow> StaleDocumentError)))"

text \<open>Name, order and status only; \<open>None\<close> leaves a field as it is.\<close>

definition update_item_op ::
  "pay_env \<Rightarrow> oid \<Rightarrow> localized option \<Rightarrow> int option \<Rightarrow> bool option \<Rightarrow> int \<Rightarrow> (pay_store, pay_item_doc) st" where
  "update_item_op env i name sortOrder archived version =
     st_bind (st_gets (findItem i)) (\<lambda>found.
     st_bind (st_ensure (found \<noteq> None) (NotFoundError ''Not found'')) (\<lambda>_.
     updateItemById i version (pe_user env) (\<lambda>x. x\<lparr>
       it_item := (it_item x)\<lparr>pi_name := (case name of None \<Rightarrow> pi_name (it_item x) | Some n \<Rightarrow> n),
         pi_sortOrder := (case sortOrder of None \<Rightarrow> pi_sortOrder (it_item x) | Some n \<Rightarrow> n)\<rparr>,
       it_archived := (case archived of None \<Rightarrow> it_archived x | Some b \<Rightarrow> b)\<rparr>)))"

definition delete_item_op :: "pay_env \<Rightarrow> oid \<Rightarrow> (pay_store, unit) st" where
  "delete_item_op env i =
     st_bind (st_gets (findItem i)) (\<lambda>found.
     st_bind (st_ensure (found \<noteq> None) (NotFoundError ''Not found'')) (\<lambda>_.
     st_bind (st_gets (isPayItemInUse i)) (\<lambda>used.
     st_bind (st_ensure (\<not> used) (BusinessRuleError ''assigned to at least one employee'')) (\<lambda>_.
     st_modify (\<lambda>s. s\<lparr>ps_items := update_first (\<lambda>x. it_id x = i \<and> \<not> it_isDeleted x)
       (\<lambda>x. x\<lparr>it_isDeleted := True, it_updatedBy := pe_user env, it_version := it_version x + 1\<rparr>) (ps_items s)\<rparr>)))))"

section \<open>Assignments\<close>

record create_assignment =
  na_payItemId :: oid
  na_amount :: jsnum
  na_currency :: string
  na_effectiveFrom :: instant
  na_effectiveTo :: "instant option"
  na_note :: "string option"

definition pe_getEmployee :: "pay_env \<Rightarrow> oid \<Rightarrow> app_error + loan_employee" where
  "pe_getEmployee env i = option_or (NotFoundError ''Not found'') (pe_employee env i)"

definition overlaps_candidate :: "oid \<Rightarrow> oid \<Rightarrow> instant \<Rightarrow> instant option \<Rightarrow> pay_assignment \<Rightarrow> bool" where
  "overlaps_candidate emp item from to a \<longleftrightarrow> pa_employeeId a = emp \<and> pa_payItemId a = item \<and> \<not> pa_isDeleted a \<and>
     (case pa_effectiveTo a of None \<Rightarrow> True | Some t \<Rightarrow> from \<le> t) \<and>
     (case to of None \<Rightarrow> True | Some t \<Rightarrow> pa_effectiveFrom a \<le> t)"

definition findOverlapping :: "oid \<Rightarrow> oid \<Rightarrow> instant \<Rightarrow> instant option \<Rightarrow> pay_store \<Rightarrow> pay_assignment option" where
  "findOverlapping emp item from to s =
     (case sort_key pa_effectiveFrom (filter (overlaps_candidate emp item from to) (ps_assignments s)) of
        [] \<Rightarrow> None | a # _ \<Rightarrow> Some a)"

definition new_assignment :: "pay_env \<Rightarrow> oid \<Rightarrow> loan_employee \<Rightarrow> create_assignment \<Rightarrow> oid \<Rightarrow> pay_assignment" where
  "new_assignment env employeeId employee input i = \<lparr>pa_id = i, pa_employeeId = employeeId,
     pa_payItemId = na_payItemId input, pa_amount = na_amount input, pa_currency = na_currency input,
     pa_effectiveFrom = toDateOnly (na_effectiveFrom input),
     pa_effectiveTo = map_option toDateOnly (na_effectiveTo input), pa_note = na_note input,
     pa_branchId = e_branchId employee, pa_departmentId = e_departmentId employee, pa_version = 0,
     pa_isDeleted = False, pa_createdBy = pe_user env, pa_updatedBy = pe_user env\<rparr>"

definition create_assignment_op :: "pay_env \<Rightarrow> oid \<Rightarrow> create_assignment \<Rightarrow> (pay_store, pay_assignment) st" where
  "create_assignment_op env employeeId input =
     (let from = toDateOnly (na_effectiveFrom input); to = map_option toDateOnly (na_effectiveTo input) in
     st_bind (st_lift (pe_getEmployee env employeeId)) (\<lambda>employee.
     st_bind (st_gets (findItem (na_payItemId input))) (\<lambda>found.
     st_bind (st_lift (option_or (NotFoundError ''pay item not found'') found)) (\<lambda>item.
     st_bind (st_ensure (\<not> it_archived item) (BusinessRuleError ''an archived item cannot start a new assignment'')) (\<lambda>_.
     st_bind (st_ensure (spanContaining (employmentSpansOf (e_dates employee)) from to \<noteq> None)
       (BusinessRuleError ''a pay item must fall inside a single employment period'')) (\<lambda>_.
     st_bind (st_ensure (blockingFrozenPeriod (pe_frozen env) from to = None)
       (BusinessRuleError ''would apply to a frozen period'')) (\<lambda>_.
     st_bind (st_gets (findOverlapping employeeId (na_payItemId input) from to)) (\<lambda>clash.
     st_bind (st_ensure (clash = None) (ConflictError ''already assigned'')) (\<lambda>_.
     st_bind (st_gets (\<lambda>s. new_assignment env employeeId employee input (ps_nextId s))) (\<lambda>a.
     st_bind (st_modify (\<lambda>s. s\<lparr>ps_assignments := ps_assignments s @ [a], ps_nextId := ps_nextId s + 1\<rparr>)) (\<lambda>_.
     st_return a)))))))))))"

datatype removal = Removed | Ended | AlreadyEnded

definition getAssignment :: "oid \<Rightarrow> oid \<Rightarrow> pay_store \<Rightarrow> pay_assignment option" where
  "getAssignment employeeId i s =
     List.find (\<lambda>a. pa_id a = i \<and> pa_employeeId a = employeeId \<and> \<not> pa_isDeleted a) (ps_assignments s)"

text \<open>\<open>updateById\<close> and \<open>softDeleteById\<close> of the base repository, on assignments.\<close>

definition updateAssignmentById ::
  "oid \<Rightarrow> int \<Rightarrow> oid \<Rightarrow> (pay_assignment \<Rightarrow> pay_assignment) \<Rightarrow> (pay_store, pay_assignment) st" where
  "updateAssignmentById i version by f s =
     (let P = (\<lambda>a. pa_id a = i \<and> pa_version a = version \<and> \<not> pa_isDeleted a);
          g = (\<lambda>a. (f a)\<lparr>pa_updatedBy := by, pa_version := pa_version a + 1\<rparr>)
      in case List.find P (ps_assignments s) of
           Some a \<Rightarrow> (s\<lparr>ps_assignments := update_first P g (ps_assignments s)\<rparr>, Inr (g a))
         | None \<Rightarrow> (s, Inl (if \<exists>a \<in> set (ps_assignments s). pa_id a = i \<and> \<not> pa_isDeleted a
             then StaleDocumentError else NotFoundError ''Not found'')))"

definition softDeleteAssignment :: "oid \<Rightarrow> oid \<Rightarrow> (pay_store, unit) st" where
  "softDeleteAssignment i by s =
     (let P = (\<lambda>a. pa_id a = i \<and> \<not> pa_isDeleted a)
      in case List.find P (ps_assignments s) of
           Some a \<Rightarrow> (s\<lparr>ps_assignments := update_first P
             (\<lambda>a. a\<lparr>pa_isDeleted := True, pa_updatedBy := by, pa_version := pa_version a + 1\<rparr>) (ps_assignments s)\<rparr>, Inr ())
         | None \<Rightarrow> (s, Inl (NotFoundError ''Not found'')))"

definition remove_assignment_op :: "pay_env \<Rightarrow> oid \<Rightarrow> oid \<Rightarrow> (pay_store, removal) st" where
  "remove_assignment_op env employeeId i =
     st_bind (st_lift (pe_getEmployee env employeeId)) (\<lambda>_.
     st_bind (st_gets (getAssignment employeeId i)) (\<lambda>found.
     st_bind (st_lift (option_or (NotFoundError ''employee pay item not found'') found)) (\<lambda>a.
     if pe_today env < pa_effectiveFrom a
     then st_bind (softDeleteAssignment i (pe_user env)) (\<lambda>_. st_return Removed)
     else if (case pa_effectiveTo a of None \<Rightarrow> False | Some t \<Rightarrow> t < pe_today env) then st_return AlreadyEnded
     else st_bind (updateAssignmentById i (pa_version a) (pe_user env) (\<lambda>x. x\<lparr>pa_effectiveTo := Some (pe_today env)\<rparr>))
       (\<lambda>_. st_return Ended))))"

section \<open>The operations together\<close>

text \<open>A request passes its schema first: the pairing of basis and quantity, the order of the two dates.\<close>

datatype pay_op =
    CreateItem create_item
  | UpdateItem oid "localized option" "int option" "bool option" int
  | DeleteItem oid
  | CreateAssignment oid create_assignment
  | RemoveAssignment oid oid

fun pay_op_step :: "pay_env \<Rightarrow> pay_op \<Rightarrow> (pay_store, unit) st" where
  "pay_op_step env (CreateItem input) =
     st_bind (st_ensure (quantitySourceFits (ni_calcBasis input) (ni_quantitySource input))
       (ValidationError ''quantitySource'')) (\<lambda>_. quietly (create_item_op env input))"
| "pay_op_step env (UpdateItem i name sortOrder archived v) = quietly (update_item_op env i name sortOrder archived v)"
| "pay_op_step env (DeleteItem i) = quietly (delete_item_op env i)"
| "pay_op_step env (CreateAssignment e input) =
     st_bind (st_ensure (case na_effectiveTo input of None \<Rightarrow> True | Some t \<Rightarrow> na_effectiveFrom input \<le> t)
       (ValidationError ''effectiveTo must be on or after effectiveFrom'')) (\<lambda>_. quietly (create_assignment_op env e input))"
| "pay_op_step env (RemoveAssignment e i) = quietly (remove_assignment_op env e i)"

fun pay_history :: "(pay_env \<times> pay_op) list \<Rightarrow> pay_store \<Rightarrow> pay_store" where
  "pay_history [] s = s"
| "pay_history ((env, opn) # xs) s = pay_history xs (fst (pay_op_step env opn s))"

definition empty_pay :: pay_store where
  "empty_pay = \<lparr>ps_items = [], ps_assignments = [], ps_nextId = 1\<rparr>"

end
