(* ===== verification/Payroll_Adjustments.thy ===== *)
theory Payroll_Adjustments
  imports Pay_Items
begin

text \<open>
  Bonuses and penalties: \<open>payroll/adjustments/payroll-adjustment.service.ts\<close> with its repository and model,
  and \<open>adjustmentPort\<close> of \<open>payroll/compensation/adjustment.port.ts\<close>. A request brings the environment of a
  loan request (caller, clock, employees inside the caller's scope, frozen months, files) and the catalog.
\<close>

section \<open>Data\<close>

datatype adjustment_status = AdjDraft | AdjPendingApproval | AdjApproved | AdjCancelled

definition LIVE_STATUSES :: "adjustment_status list" where
  "LIVE_STATUSES = [AdjDraft, AdjPendingApproval, AdjApproved]"

record adjustment_doc =
  aj_id :: oid
  aj_employeeId :: oid
  aj_period :: string
  aj_kind :: adjustment_kind
  aj_amount :: jsnum
  aj_currency :: string
  aj_reason :: string
  aj_payItemId :: "oid option"
  aj_note :: "string option"
  aj_attachmentFileId :: "oid option"
  aj_status :: adjustment_status
  aj_submittedBy :: "oid option"
  aj_submittedAt :: "instant option"
  aj_decidedBy :: "oid option"
  aj_decidedAt :: "instant option"
  aj_decisionNote :: "string option"
  aj_cancelledBy :: "oid option"
  aj_cancelledAt :: "instant option"
  aj_cancelReason :: "string option"
  aj_branchId :: "oid option"
  aj_departmentId :: "oid option"
  aj_createdAt :: instant
  aj_createdBy :: oid
  aj_updatedBy :: "oid option"
  aj_version :: int
  aj_isDeleted :: bool

datatype adjustment_effect =
    AdjustmentAudited oid string
  | AdjustmentMoved oid adjustment_status adjustment_status "string option"
  | AdjustmentSubmitted oid oid string adjustment_kind jsnum string
  | AdjustmentDecided oid oid string adjustment_kind jsnum string bool
  | ApproversNotified string oid
  | EmployeeNotified oid string bool oid

record adjustment_store =
  js_docs :: "adjustment_doc list"
  js_log :: "adjustment_effect list"
  js_nextId :: oid

record adjustment_env = loan_env +
  je_item :: "oid \<Rightarrow> pay_item_doc option"

record create_adjustment =
  ca_period :: string
  ca_kind :: adjustment_kind
  ca_amount :: jsnum
  ca_currency :: string
  ca_reason :: string
  ca_payItemId :: "oid option"
  ca_note :: "string option"
  ca_attachmentFileId :: "oid option"

text \<open>An edit: \<open>None\<close> leaves a field as it is.\<close>

record update_adjustment =
  ua_period :: "string option"
  ua_kind :: "adjustment_kind option"
  ua_amount :: "jsnum option"
  ua_currency :: "string option"
  ua_reason :: "string option"
  ua_payItemId :: "oid option"
  ua_note :: "string option"
  ua_attachmentFileId :: "oid option"
  ua_version :: int

section \<open>The repository\<close>

definition adjustment_for :: "oid \<Rightarrow> oid \<Rightarrow> adjustment_store \<Rightarrow> app_error + adjustment_doc" where
  "adjustment_for employeeId i s =
     option_or (NotFoundError ''payroll adjustment not found'')
       (List.find (\<lambda>d. aj_id d = i \<and> aj_employeeId d = employeeId \<and> \<not> aj_isDeleted d) (js_docs s))"

fun kind_order :: "adjustment_kind \<Rightarrow> nat" where
  "kind_order Bonus = 0"
| "kind_order Penalty = 1"

definition approvedFor :: "oid \<Rightarrow> string \<Rightarrow> adjustment_store \<Rightarrow> adjustment_doc list" where
  "approvedFor employeeId period s =
     sort_key (\<lambda>d. (kind_order (aj_kind d), aj_createdAt d))
       (filter (\<lambda>d. aj_employeeId d = employeeId \<and> aj_period d = period \<and> aj_status d = AdjApproved \<and> \<not> aj_isDeleted d)
          (js_docs s))"

definition findDuplicate :: "oid \<Rightarrow> string \<Rightarrow> adjustment_kind \<Rightarrow> string \<Rightarrow> oid option \<Rightarrow> adjustment_store \<Rightarrow> adjustment_doc option" where
  "findDuplicate employeeId period kind reason excludeId s =
     List.find (\<lambda>d. aj_employeeId d = employeeId \<and> aj_period d = period \<and> aj_kind d = kind \<and> aj_reason d = reason \<and>
       aj_status d \<in> set LIVE_STATUSES \<and> \<not> aj_isDeleted d \<and> excludeId \<noteq> Some (aj_id d)) (js_docs s)"

definition updateAdjustmentById ::
  "oid \<Rightarrow> int \<Rightarrow> oid \<Rightarrow> (adjustment_doc \<Rightarrow> adjustment_doc) \<Rightarrow> (adjustment_store, adjustment_doc) st" where
  "updateAdjustmentById i version by f s =
     (let P = (\<lambda>d. aj_id d = i \<and> aj_version d = version \<and> \<not> aj_isDeleted d);
          g = (\<lambda>d. (f d)\<lparr>aj_updatedBy := Some by, aj_version := aj_version d + 1\<rparr>)
      in case List.find P (js_docs s) of
           Some d \<Rightarrow> (s\<lparr>js_docs := update_first P g (js_docs s)\<rparr>, Inr (g d))
         | None \<Rightarrow> (s, Inl (if \<exists>d \<in> set (js_docs s). aj_id d = i \<and> \<not> aj_isDeleted d
             then StaleDocumentError else NotFoundError ''Not found'')))"

definition log_adjustment :: "adjustment_effect \<Rightarrow> (adjustment_store, unit) st" where
  "log_adjustment e = st_modify (\<lambda>s. s\<lparr>js_log := js_log s @ [e]\<rparr>)"

section \<open>Rules\<close>

definition assertAdjustmentPeriodOpen :: "adjustment_env \<Rightarrow> string \<Rightarrow> app_error + unit" where
  "assertAdjustmentPeriodOpen env period =
     res_ensure (period \<notin> set (env_frozen env)) (BusinessRuleError ''has a frozen payroll run'')"

definition assertRecordable :: "adjustment_env \<Rightarrow> string \<Rightarrow> jsnum \<Rightarrow> string \<Rightarrow> loan_employee \<Rightarrow> app_error + unit" where
  "assertRecordable env period amount currency employee =
     res_bind (res_ensure (\<not> num_nonpositive amount) (BusinessRuleError ''an adjustment amount must be positive'')) (\<lambda>_.
     res_bind (res_ensure (e_salaryCurrency employee \<in> {None, Some currency})
       (BusinessRuleError ''this employee is paid in another currency'')) (\<lambda>_.
     res_bind (periodRange period) (\<lambda>range.
     res_bind (res_ensure (spanContaining (employmentSpansOf (e_dates employee)) (fst range) (Some (snd range)) \<noteq> None)
       (BusinessRuleError ''not inside a single employment period'')) (\<lambda>_.
     assertAdjustmentPeriodOpen env period))))"

definition resolveAdjustmentFile :: "adjustment_env \<Rightarrow> oid \<Rightarrow> oid option \<Rightarrow> oid option \<Rightarrow> app_error + oid option" where
  "resolveAdjustmentFile env employeeId file otherwise =
     (case file of None \<Rightarrow> Inr otherwise
      | Some fileId \<Rightarrow>
          res_bind (env_file env fileId) (\<lambda>ref.
          res_bind (res_ensure (ref = (''hr'', ''payrollAdjustmentAttachment'', employeeId))
            (BusinessRuleError ''the attachment must be uploaded for this employee'')) (\<lambda>_.
          Inr (Some fileId))))"

definition employee_in_scope :: "adjustment_env \<Rightarrow> oid \<Rightarrow> app_error + loan_employee" where
  "employee_in_scope env employeeId = option_or (NotFoundError ''Not found'') (env_employee env employeeId)"

section \<open>Operations\<close>

definition draft_adjustment ::
  "adjustment_env \<Rightarrow> oid \<Rightarrow> loan_employee \<Rightarrow> create_adjustment \<Rightarrow> oid option \<Rightarrow> oid \<Rightarrow> adjustment_doc" where
  "draft_adjustment env employeeId employee input attachment i =
     \<lparr>aj_id = i, aj_employeeId = employeeId, aj_period = ca_period input, aj_kind = ca_kind input,
      aj_amount = ca_amount input, aj_currency = ca_currency input, aj_reason = ca_reason input,
      aj_payItemId = ca_payItemId input, aj_note = ca_note input, aj_attachmentFileId = attachment,
      aj_status = AdjDraft, aj_submittedBy = None, aj_submittedAt = None, aj_decidedBy = None, aj_decidedAt = None,
      aj_decisionNote = None, aj_cancelledBy = None, aj_cancelledAt = None, aj_cancelReason = None,
      aj_branchId = e_branchId employee, aj_departmentId = e_departmentId employee, aj_createdAt = env_now env,
      aj_createdBy = env_user env, aj_updatedBy = None, aj_version = 0, aj_isDeleted = False\<rparr>"

definition create_adjustment_op :: "adjustment_env \<Rightarrow> oid \<Rightarrow> create_adjustment \<Rightarrow> (adjustment_store, adjustment_doc) st" where
  "create_adjustment_op env employeeId input =
     st_bind (st_lift (employee_in_scope env employeeId)) (\<lambda>employee.
     st_bind (st_lift (assertRecordable env (ca_period input) (ca_amount input) (ca_currency input) employee)) (\<lambda>_.
     st_bind (st_gets (findDuplicate employeeId (ca_period input) (ca_kind input) (ca_reason input) None)) (\<lambda>duplicate.
     st_bind (st_ensure (duplicate = None) (ConflictError ''already recorded'')) (\<lambda>_.
     st_bind (st_lift (resolveAdjustmentFile env employeeId (ca_attachmentFileId input) None)) (\<lambda>attachment.
     st_bind (st_gets (\<lambda>s. draft_adjustment env employeeId employee input attachment (js_nextId s))) (\<lambda>doc.
     st_bind (st_modify (\<lambda>s. s\<lparr>js_docs := js_docs s @ [doc], js_nextId := js_nextId s + 1\<rparr>)) (\<lambda>_.
     st_bind (log_adjustment (AdjustmentAudited (aj_id doc) ''create'')) (\<lambda>_.
     st_return doc))))))))"

definition edit_adjustment :: "update_adjustment \<Rightarrow> oid option \<Rightarrow> adjustment_doc \<Rightarrow> adjustment_doc" where
  "edit_adjustment input attachment d = d\<lparr>
     aj_period := case_option (aj_period d) id (ua_period input), aj_kind := case_option (aj_kind d) id (ua_kind input),
     aj_amount := case_option (aj_amount d) id (ua_amount input), aj_currency := case_option (aj_currency d) id (ua_currency input),
     aj_reason := case_option (aj_reason d) id (ua_reason input),
     aj_note := (case ua_note input of None \<Rightarrow> aj_note d | Some n \<Rightarrow> Some n),
     aj_payItemId := (case ua_payItemId input of None \<Rightarrow> aj_payItemId d | Some p \<Rightarrow> Some p),
     aj_attachmentFileId := attachment\<rparr>"

definition update_adjustment_op :: "adjustment_env \<Rightarrow> oid \<Rightarrow> oid \<Rightarrow> update_adjustment \<Rightarrow> (adjustment_store, adjustment_doc) st" where
  "update_adjustment_op env employeeId i input =
     st_bind (st_lift (employee_in_scope env employeeId)) (\<lambda>employee.
     st_bind (st_gets (adjustment_for employeeId i)) (\<lambda>found.
     st_bind (st_lift found) (\<lambda>doc.
     st_bind (st_ensure (aj_status doc = AdjDraft) (BusinessRuleError ''cannot be edited'')) (\<lambda>_.
     st_bind (st_ensure (ua_version input = aj_version doc) (ConflictError ''this adjustment was modified'')) (\<lambda>_.
     let edited = edit_adjustment input (aj_attachmentFileId doc) doc in
     st_bind (st_lift (assertRecordable env (aj_period edited) (aj_amount edited) (aj_currency edited) employee)) (\<lambda>_.
     st_bind (st_gets (findDuplicate employeeId (aj_period edited) (aj_kind edited) (aj_reason edited) (Some i))) (\<lambda>duplicate.
     st_bind (st_ensure (duplicate = None) (ConflictError ''already recorded'')) (\<lambda>_.
     st_bind (st_lift (resolveAdjustmentFile env employeeId (ua_attachmentFileId input) (aj_attachmentFileId doc))) (\<lambda>attachment.
     st_bind (updateAdjustmentById i (ua_version input) (env_user env) (edit_adjustment input attachment)) (\<lambda>after.
     st_bind (log_adjustment (AdjustmentAudited i ''update'')) (\<lambda>_.
     st_return after)))))))))))"

definition submit_adjustment_op :: "adjustment_env \<Rightarrow> oid \<Rightarrow> oid \<Rightarrow> int \<Rightarrow> (adjustment_store, adjustment_doc) st" where
  "submit_adjustment_op env employeeId i version =
     st_bind (st_lift (employee_in_scope env employeeId)) (\<lambda>employee.
     st_bind (st_gets (adjustment_for employeeId i)) (\<lambda>found.
     st_bind (st_lift found) (\<lambda>doc.
     st_bind (st_ensure (aj_status doc = AdjDraft) (BusinessRuleError ''only a draft can be submitted'')) (\<lambda>_.
     st_bind (st_lift (assertRecordable env (aj_period doc) (aj_amount doc) (aj_currency doc) employee)) (\<lambda>_.
     st_bind (updateAdjustmentById i version (env_user env) (\<lambda>d. d\<lparr>aj_status := AdjPendingApproval,
       aj_submittedBy := Some (env_user env), aj_submittedAt := Some (env_now env)\<rparr>)) (\<lambda>after.
     st_bind (log_adjustment (AdjustmentMoved i (aj_status doc) AdjPendingApproval None)) (\<lambda>_.
     st_bind (log_adjustment (AdjustmentSubmitted i employeeId (aj_period doc) (aj_kind doc) (aj_amount doc) (aj_currency doc))) (\<lambda>_.
     st_bind (log_adjustment (ApproversNotified (e_code employee) i)) (\<lambda>_.
     st_return after)))))))))"

definition decide_adjustment_op ::
  "adjustment_env \<Rightarrow> oid \<Rightarrow> oid \<Rightarrow> bool \<Rightarrow> string option \<Rightarrow> int \<Rightarrow> (adjustment_store, adjustment_doc) st" where
  "decide_adjustment_op env employeeId i approved note version =
     st_bind (st_lift (employee_in_scope env employeeId)) (\<lambda>employee.
     st_bind (st_gets (adjustment_for employeeId i)) (\<lambda>found.
     st_bind (st_lift found) (\<lambda>doc.
     st_bind (st_ensure (aj_status doc = AdjPendingApproval) (BusinessRuleError ''not awaiting approval'')) (\<lambda>_.
     st_bind (st_ensure (aj_submittedBy doc \<noteq> Some (env_user env))
       (ForbiddenError ''cannot be approved by the person who submitted it'')) (\<lambda>_.
     st_bind (st_lift (if approved then assertRecordable env (aj_period doc) (aj_amount doc) (aj_currency doc) employee
                       else Inr ())) (\<lambda>_.
     let st = (if approved then AdjApproved else AdjDraft) in
     st_bind (updateAdjustmentById i version (env_user env) (\<lambda>d. d\<lparr>aj_status := st,
       aj_decidedBy := Some (env_user env), aj_decidedAt := Some (env_now env), aj_decisionNote := note\<rparr>)) (\<lambda>after.
     st_bind (log_adjustment (AdjustmentMoved i AdjPendingApproval st note)) (\<lambda>_.
     st_bind (log_adjustment (AdjustmentDecided i employeeId (aj_period doc) (aj_kind doc) (aj_amount doc) (aj_currency doc) approved)) (\<lambda>_.
     st_bind (case e_userId employee of None \<Rightarrow> st_return ()
              | Some u \<Rightarrow> log_adjustment (EmployeeNotified u (aj_period after) approved i)) (\<lambda>_.
     st_return after))))))))))"

definition cancel_adjustment_op :: "adjustment_env \<Rightarrow> oid \<Rightarrow> oid \<Rightarrow> string \<Rightarrow> int \<Rightarrow> (adjustment_store, adjustment_doc) st" where
  "cancel_adjustment_op env employeeId i reason version =
     st_bind (st_lift (employee_in_scope env employeeId)) (\<lambda>_.
     st_bind (st_gets (adjustment_for employeeId i)) (\<lambda>found.
     st_bind (st_lift found) (\<lambda>doc.
     st_bind (st_ensure (aj_status doc \<noteq> AdjCancelled) (BusinessRuleError ''already cancelled'')) (\<lambda>_.
     st_bind (st_lift (assertAdjustmentPeriodOpen env (aj_period doc))) (\<lambda>_.
     st_bind (updateAdjustmentById i version (env_user env) (\<lambda>d. d\<lparr>aj_status := AdjCancelled,
       aj_cancelledBy := Some (env_user env), aj_cancelledAt := Some (env_now env), aj_cancelReason := Some reason\<rparr>)) (\<lambda>after.
     st_bind (log_adjustment (AdjustmentMoved i (aj_status doc) AdjCancelled (Some reason))) (\<lambda>_.
     st_return after)))))))"

section \<open>A distribution\<close>

record bulk_row =
  br_employeeId :: oid
  br_amount :: jsnum
  br_reason :: string

record bulk_result =
  bu_created :: nat
  bu_duplicates :: nat
  bu_rejected :: "(nat \<times> oid \<times> string) list"

text \<open>A failure as a value: \<open>try { \<dots> } catch\<close>.\<close>

definition st_try :: "('s, 'a) st \<Rightarrow> ('s, app_error + 'a) st" where
  "st_try m s = (case m s of (t, r) \<Rightarrow> (t, Inr r))"

definition reject_row :: "nat \<Rightarrow> bulk_row \<Rightarrow> string \<Rightarrow> bulk_result \<Rightarrow> bulk_result" where
  "reject_row index row reason res = res\<lparr>bu_rejected := bu_rejected res @ [(index, br_employeeId row, reason)]\<rparr>"

fun caught_row :: "nat \<Rightarrow> bulk_row \<Rightarrow> app_error \<Rightarrow> bulk_result \<Rightarrow> app_error + bulk_result" where
  "caught_row index row (ConflictError _) res = Inr (res\<lparr>bu_duplicates := bu_duplicates res + 1\<rparr>)"
| "caught_row index row (BusinessRuleError m) res = Inr (reject_row index row m res)"
| "caught_row index row (NotFoundError m) res = Inr (reject_row index row m res)"
| "caught_row index row (ForbiddenError m) res = Inr (reject_row index row m res)"
| "caught_row index row e res = Inl e"

definition bulk_input :: "string \<Rightarrow> oid \<Rightarrow> bulk_row \<Rightarrow> string \<Rightarrow> create_adjustment" where
  "bulk_input period itemId row currency = \<lparr>ca_period = period, ca_kind = Bonus, ca_amount = br_amount row,
     ca_currency = currency, ca_reason = br_reason row, ca_payItemId = Some itemId, ca_note = None, ca_attachmentFileId = None\<rparr>"

definition bulk_row_op :: "adjustment_env \<Rightarrow> string \<Rightarrow> oid \<Rightarrow> nat \<Rightarrow> bulk_row \<Rightarrow> bulk_result \<Rightarrow> (adjustment_store, bulk_result) st" where
  "bulk_row_op env period itemId index row res =
     (case employee_in_scope env (br_employeeId row) of
        Inl e \<Rightarrow> st_lift (caught_row index row e res)
      | Inr employee \<Rightarrow>
         (case e_salaryCurrency employee of
            None \<Rightarrow> st_return (reject_row index row ''no basic salary recorded, so the payment has no currency'' res)
          | Some currency \<Rightarrow>
             st_bind (st_try (create_adjustment_op env (br_employeeId row) (bulk_input period itemId row currency))) (\<lambda>outcome.
             st_lift (case outcome of Inr _ \<Rightarrow> Inr (res\<lparr>bu_created := bu_created res + 1\<rparr>) | Inl e \<Rightarrow> caught_row index row e res))))"

fun bulk_rows_op ::
  "adjustment_env \<Rightarrow> string \<Rightarrow> oid \<Rightarrow> nat \<Rightarrow> bulk_row list \<Rightarrow> bulk_result \<Rightarrow> (adjustment_store, bulk_result) st" where
  "bulk_rows_op env period itemId index [] res = st_return res"
| "bulk_rows_op env period itemId index (row # rows) res =
     st_bind (bulk_row_op env period itemId index row res) (\<lambda>res'. bulk_rows_op env period itemId (index + 1) rows res')"

definition create_many_op :: "adjustment_env \<Rightarrow> string \<Rightarrow> oid \<Rightarrow> bulk_row list \<Rightarrow> (adjustment_store, bulk_result) st" where
  "create_many_op env period itemId rows =
     st_bind (st_lift (option_or (NotFoundError ''pay item not found'') (je_item env itemId))) (\<lambda>item.
     st_bind (st_ensure (\<not> it_archived item) (BusinessRuleError ''an archived item cannot label a new payment'')) (\<lambda>_.
     st_bind (st_ensure (pi_kind (it_item item) = Earning) (BusinessRuleError ''its item must be an earning'')) (\<lambda>_.
     bulk_rows_op env period itemId 0 rows \<lparr>bu_created = 0, bu_duplicates = 0, bu_rejected = []\<rparr>)))"

section \<open>The port\<close>

definition adjustmentsFor ::
  "(oid \<Rightarrow> pay_item_doc option) \<Rightarrow> oid \<Rightarrow> string \<Rightarrow> adjustment_store \<Rightarrow> adjustment_input list" where
  "adjustmentsFor items employeeId period s =
     map (\<lambda>d. \<lparr>ad_id = aj_id d, ad_kind = aj_kind d, ad_amount = aj_amount d, ad_currency = aj_currency d,
          ad_reason = aj_reason d, ad_payItemId = aj_payItemId d,
          ad_payItem = (case aj_payItemId d of None \<Rightarrow> None
            | Some p \<Rightarrow> map_option (\<lambda>x. (pi_code (it_item x), pi_name (it_item x))) (items p))\<rparr>)
       (approvedFor employeeId period s)"

section \<open>The operations together\<close>

datatype adjustment_op =
    CreateAdjustment oid create_adjustment
  | CreateMany string oid "bulk_row list"
  | UpdateAdjustment oid oid update_adjustment
  | SubmitAdjustment oid oid int
  | DecideAdjustment oid oid bool "string option" int
  | CancelAdjustment oid oid string int

fun adjustment_step :: "adjustment_env \<Rightarrow> adjustment_op \<Rightarrow> (adjustment_store, unit) st" where
  "adjustment_step env (CreateAdjustment e input) = quietly (create_adjustment_op env e input)"
| "adjustment_step env (CreateMany period item rows) = quietly (create_many_op env period item rows)"
| "adjustment_step env (UpdateAdjustment e i input) = quietly (update_adjustment_op env e i input)"
| "adjustment_step env (SubmitAdjustment e i v) = quietly (submit_adjustment_op env e i v)"
| "adjustment_step env (DecideAdjustment e i approved note v) = quietly (decide_adjustment_op env e i approved note v)"
| "adjustment_step env (CancelAdjustment e i reason v) = quietly (cancel_adjustment_op env e i reason v)"

fun adjustment_history :: "(adjustment_env \<times> adjustment_op) list \<Rightarrow> adjustment_store \<Rightarrow> adjustment_store" where
  "adjustment_history [] s = s"
| "adjustment_history ((env, opn) # xs) s = adjustment_history xs (fst (adjustment_step env opn s))"

definition empty_adjustments :: adjustment_store where
  "empty_adjustments = \<lparr>js_docs = [], js_log = [], js_nextId = 1\<rparr>"

end
