(* ===== verification/Compensation.thy ===== *)
theory Compensation
  imports Compensation_Rules
begin

text \<open>
  The whole calculation, \<open>computeCompensation\<close> of \<open>payroll/compensation/compensation-rules.ts\<close>: the lines
  of the assignments in presentation order, then leave, then decisions, then instalments; the totals;
  the warnings. The theorems say what the figures of a result are worth.
\<close>

section \<open>The lines\<close>

definition normal_spans :: "date_span list \<Rightarrow> date_span list" where
  "normal_spans spans = map (\<lambda>sp. \<lparr>span_from = toDateOnly (span_from sp),
     span_to = map_option toDateOnly (span_to sp)\<rparr>) spans"

definition assignment_lines ::
  "collation \<Rightarrow> compensation_input \<Rightarrow> bounded \<Rightarrow> int \<Rightarrow> int \<Rightarrow> date_span list \<Rightarrow> app_error + compensation_line list" where
  "assignment_lines coll input window periodDays basicMinor spans =
     res_map (\<lambda>a. toLine a (the (intersect (own_span a) window)) (daysInForce a window spans) periodDays
         (Some basicMinor) spans (ci_attendance input))
       (filter (\<lambda>a. daysInForce a window spans \<noteq> 0) (sort_key (presentation_key coll) (ci_assignments input)))"

definition leave_lines ::
  "collation \<Rightarrow> compensation_input \<Rightarrow> int \<Rightarrow> int \<Rightarrow> string \<Rightarrow> app_error + compensation_line list" where
  "leave_lines coll input periodDays basicMinor currency =
     (case ci_leave input of None \<Rightarrow> Inr []
      | Some leave \<Rightarrow> res_map (\<lambda>sh. toLeaveLine sh basicMinor periodDays currency)
          (filter isChargeable (shortfallsOf coll leave)))"

definition pending_leave :: "compensation_input \<Rightarrow> int \<Rightarrow> string \<Rightarrow> compensation_line list" where
  "pending_leave input periodDays currency =
     (case ci_leave input of None \<Rightarrow> [pendingLeaveLine periodDays currency] | Some _ \<Rightarrow> [])"

definition is_pending :: "compensation_line \<Rightarrow> bool" where
  "is_pending l \<longleftrightarrow> ln_state l = PendingQuantity"

definition of_kind :: "pay_item_kind \<Rightarrow> compensation_line list \<Rightarrow> compensation_line list" where
  "of_kind k ls = filter (\<lambda>l. ln_kind l = k) ls"

definition line_minor :: "compensation_line \<Rightarrow> int" where
  "line_minor l = (case ln_amountMinor l of None \<Rightarrow> 0 | Some n \<Rightarrow> n)"

section \<open>Warnings\<close>

definition incomplete_day ::
  "compensation_input \<Rightarrow> bounded \<Rightarrow> date_span list \<Rightarrow> compensation_line list \<Rightarrow> bool" where
  "incomplete_day input window spans lines \<longleftrightarrow>
     (case ci_attendance input of None \<Rightarrow> False
      | Some att \<Rightarrow> (\<exists>l \<in> set lines. ln_quantitySource l \<noteq> None) \<and>
          (\<exists>r \<in> set (fa_rows att). fr_status r = DayIncomplete \<and> employedOn (row_day r) window spans))"

definition compensation_warnings ::
  "compensation_input \<Rightarrow> bounded \<Rightarrow> date_span list \<Rightarrow> nat \<Rightarrow> compensation_line list \<Rightarrow> int \<Rightarrow>
     compensation_warning list" where
  "compensation_warnings input window spans leaveLines lines netMinor =
     (if ci_hasLegacyAllowances input then [LegacyAllowancesIgnored] else []) @
     (if netMinor < 0 then [NetBelowZero] else []) @
     (if 0 < leaveLines \<and> (\<exists>l \<in> set lines. ln_quantitySource l = Some LeaveDays) then [LeaveDaysAlsoPriced] else []) @
     (if incomplete_day input window spans lines then [IncompleteDay] else [])"

section \<open>The calculation\<close>

definition same_currency :: "compensation_input \<Rightarrow> string \<Rightarrow> app_error + unit" where
  "same_currency input currency =
     res_bind (res_ensure (\<forall>a \<in> set (ci_assignments input). as_currency a = currency)
       (BusinessRuleError ''cannot mix currencies'')) (\<lambda>_.
     res_bind (res_ensure (\<forall>a \<in> set (ci_adjustments input). ad_currency a = currency)
       (BusinessRuleError ''cannot mix currencies'')) (\<lambda>_.
     res_ensure (\<forall>i \<in> set (ci_loanInstallments input). li_currency i = currency)
       (BusinessRuleError ''cannot mix currencies'')))"

definition finish_compensation ::
  "compensation_input \<Rightarrow> jsnum \<Rightarrow> string \<Rightarrow> bounded \<Rightarrow> int \<Rightarrow> date_span list \<Rightarrow>
     compensation_line list \<Rightarrow> compensation_line list \<Rightarrow> compensation_line list \<Rightarrow> nat \<Rightarrow>
     app_error + compensation_effects" where
  "finish_compensation input salary currency window periodDays spans earnings deductions deferred leaveLines =
     res_bind (sumMinorUnits (map line_minor earnings)) (\<lambda>totalEarnings.
     res_bind (sumMinorUnits (map line_minor deductions)) (\<lambda>totalDeductions.
     let net = totalEarnings - totalDeductions in
     res_bind (fromMinorUnits totalEarnings) (\<lambda>earned.
     res_bind (fromMinorUnits totalDeductions) (\<lambda>deducted.
     res_bind (fromMinorUnits net) (\<lambda>netAmount.
     Inr \<lparr>ef_employeeId = ci_employeeId input, ef_period = ci_period input,
          ef_from = dateOnlyIso (fst window), ef_to = dateOnlyIso (snd window),
          ef_currency = currency, ef_basicSalary = salary,
          ef_employmentDaysInPeriod = daysWithin window spans, ef_daysInPeriod = periodDays,
          ef_earnings = earnings, ef_deductions = deductions, ef_deferred = deferred,
          ef_leave = map_option leaveFactsOf (ci_leave input),
          ef_totalEarningsMinor = totalEarnings, ef_totalEarnings = earned,
          ef_totalDeductionsMinor = totalDeductions, ef_totalDeductions = deducted,
          ef_netMinor = net, ef_net = netAmount,
          ef_warnings = compensation_warnings input window spans leaveLines (earnings @ deductions) net\<rparr>)))))"

definition computeCompensation :: "collation \<Rightarrow> compensation_input \<Rightarrow> app_error + compensation_effects" where
  "computeCompensation coll input =
     res_bind (periodRange (ci_period input)) (\<lambda>window.
     let periodDays = calendarDaysInclusive (fst window) (snd window) in
     res_bind (option_or (BusinessRuleError ''no basic salary'') (ci_basicSalary input)) (\<lambda>basic.
     res_bind (toMinorUnits (fst basic)) (\<lambda>basicMinor.
     res_bind (same_currency input (snd basic)) (\<lambda>_.
     let spans = normal_spans (ci_employmentSpans input) in
     res_bind (assignment_lines coll input window periodDays basicMinor spans) (\<lambda>assigned.
     res_bind (leave_lines coll input periodDays basicMinor (snd basic)) (\<lambda>leave.
     res_bind (res_map (\<lambda>a. toAdjustmentLine a periodDays) (ci_adjustments input)) (\<lambda>adjusted.
     res_bind (res_map (\<lambda>i. toLoanLine i periodDays) (ci_loanInstallments input)) (\<lambda>loaned.
     let priced = filter (\<lambda>l. \<not> is_pending l) assigned in
     finish_compensation input (fst basic) (snd basic) window periodDays spans
       (of_kind Earning priced @ of_kind Earning adjusted)
       (of_kind Deduction priced @ leave @ of_kind Deduction adjusted @ loaned)
       (filter is_pending assigned @ pending_leave input periodDays (snd basic))
       (length leave)))))))))"

section \<open>Facts about lines\<close>

text \<open>A line either carries a figure and the amount that figure reads as, or carries none.\<close>

definition line_ok :: "compensation_line \<Rightarrow> bool" where
  "line_ok l \<longleftrightarrow>
     (if ln_state l = LineComputed
      then \<exists>m x. ln_amountMinor l = Some m \<and> ln_amount l = Some x \<and> fromMinorUnits m = Inr x
      else ln_amountMinor l = None \<and> ln_amount l = None)"

named_theorems line_facts "what a constructor of lines puts on the line"

lemma toLine_Inr [line_facts]:
  assumes "toLine a slice n d b spans att = Inr l"
  shows "line_ok l \<and> ln_origin l = FromPayItem \<and> ln_kind l = pi_kind (as_item a) \<and> ln_currency l = as_currency a \<and>
    ln_sourceAssignmentId l = Some (as_id a) \<and> ln_daysInForce l = of_int n \<and> ln_state l \<in> {LineComputed, PendingQuantity}"
proof (cases "pi_calcBasis (as_item a) \<in> {PerDay, PerMinute}")
  case True
  then show ?thesis using assms
    by (cases "pi_quantitySource (as_item a)"; cases att)
      (auto simp: toLine_def flat_line_def line_ok_def res_bind_Inr)
next
  case False
  then show ?thesis using assms by (auto simp: toLine_def flat_line_def line_ok_def res_bind_Inr Let_def)
qed

lemma toLeaveLine_Inr [line_facts]:
  "toLeaveLine sh b d c = Inr l \<Longrightarrow> line_ok l \<and> ln_origin l = FromLeaveSnapshot \<and> ln_kind l = Deduction \<and>
     ln_currency l = c \<and> ln_state l = LineComputed \<and> shortfallMinor sh b d = Inr (line_minor l) \<and>
     ln_leavePayRate l = Some (sh_payRate sh) \<and> ln_quantitySource l = None"
  by (auto simp: toLeaveLine_def leave_line_def line_ok_def line_minor_def res_bind_Inr)

lemma toAdjustmentLine_Inr [line_facts]:
  "toAdjustmentLine a d = Inr l \<Longrightarrow> line_ok l \<and> ln_origin l = FromAdjustment \<and>
     ln_kind l = (if ad_kind a = Bonus then Earning else Deduction) \<and> ln_currency l = ad_currency a \<and>
     ln_state l = LineComputed \<and> toMinorUnits (ad_amount a) = Inr (line_minor l) \<and>
     ln_sourceAssignmentId l = Some (ad_id a)"
  by (auto simp: toAdjustmentLine_def line_ok_def line_minor_def res_bind_Inr)

lemma toLoanLine_Inr [line_facts]:
  "toLoanLine i d = Inr l \<Longrightarrow> line_ok l \<and> ln_origin l = FromLoanInstallment \<and> ln_kind l = Deduction \<and>
     ln_currency l = li_currency i \<and> ln_state l = LineComputed \<and> ln_amountMinor l = Some (li_amountMinor i) \<and>
     ln_sourceAssignmentId l = Some (li_id i)"
  by (auto simp: toLoanLine_def line_ok_def res_bind_Inr)

lemma pendingLeaveLine_facts [line_facts]:
  "line_ok (pendingLeaveLine d c)" "ln_currency (pendingLeaveLine d c) = c"
  "ln_state (pendingLeaveLine d c) = PendingLeaveSnapshot"
  by (simp_all add: pendingLeaveLine_def leave_line_def line_ok_def)

section \<open>Facts about a result\<close>

text \<open>Everything a successful calculation went through.\<close>

lemma computeCompensation_Inr:
  assumes "computeCompensation coll input = Inr ef"
  obtains window basic basicMinor assigned leave adjusted loaned where
    "periodRange (ci_period input) = Inr window" "ci_basicSalary input = Some basic"
    "toMinorUnits (fst basic) = Inr basicMinor" "same_currency input (snd basic) = Inr ()"
    "assignment_lines coll input window (calendarDaysInclusive (fst window) (snd window)) basicMinor
       (normal_spans (ci_employmentSpans input)) = Inr assigned"
    "leave_lines coll input (calendarDaysInclusive (fst window) (snd window)) basicMinor (snd basic) = Inr leave"
    "res_map (\<lambda>a. toAdjustmentLine a (calendarDaysInclusive (fst window) (snd window))) (ci_adjustments input) = Inr adjusted"
    "res_map (\<lambda>i. toLoanLine i (calendarDaysInclusive (fst window) (snd window))) (ci_loanInstallments input) = Inr loaned"
    "finish_compensation input (fst basic) (snd basic) window (calendarDaysInclusive (fst window) (snd window))
       (normal_spans (ci_employmentSpans input))
       (of_kind Earning (filter (\<lambda>l. \<not> is_pending l) assigned) @ of_kind Earning adjusted)
       (of_kind Deduction (filter (\<lambda>l. \<not> is_pending l) assigned) @ leave @ of_kind Deduction adjusted @ loaned)
       (filter is_pending assigned @ pending_leave input (calendarDaysInclusive (fst window) (snd window)) (snd basic))
       (length leave) = Inr ef"
  using assms unfolding computeCompensation_def Let_def res_bind_Inr option_or_Inr
  by (elim exE conjE) (rule that; simp add: unit_eq)

lemma finish_Inr:
  assumes "finish_compensation input salary currency window d spans es ds fs n = Inr ef"
  shows "ef_earnings ef = es \<and> ef_deductions ef = ds \<and> ef_deferred ef = fs \<and> ef_currency ef = currency \<and>
    ef_totalEarningsMinor ef = sum_list (map line_minor es) \<and>
    ef_totalDeductionsMinor ef = sum_list (map line_minor ds) \<and>
    ef_netMinor ef = sum_list (map line_minor es) - sum_list (map line_minor ds) \<and>
    fromMinorUnits (ef_netMinor ef) = Inr (ef_net ef) \<and> ef_period ef = ci_period input \<and>
    ef_employmentDaysInPeriod ef = daysWithin window spans \<and> ef_daysInPeriod ef = d \<and>
    fromMinorUnits (ef_totalEarningsMinor ef) = Inr (ef_totalEarnings ef) \<and>
    fromMinorUnits (ef_totalDeductionsMinor ef) = Inr (ef_totalDeductions ef)"
  using assms by (auto simp: finish_compensation_def res_bind_Inr Let_def dest!: sumMinorUnits_eq)

lemma same_currency_Inr:
  "same_currency input c = Inr u \<Longrightarrow> (\<forall>a \<in> set (ci_assignments input). as_currency a = c) \<and>
     (\<forall>a \<in> set (ci_adjustments input). ad_currency a = c) \<and>
     (\<forall>i \<in> set (ci_loanInstallments input). li_currency i = c)"
  by (auto simp: same_currency_def res_bind_Inr)

lemma assignment_lines_facts:
  assumes "assignment_lines coll input window d b spans = Inr ls" "l \<in> set ls"
  obtains a where "a \<in> set (ci_assignments input)" "daysInForce a window spans \<noteq> 0"
    "toLine a (the (intersect (own_span a) window)) (daysInForce a window spans) d (Some b) spans
       (ci_attendance input) = Inr l"
  using res_map_set [OF assms [unfolded assignment_lines_def]] by auto

lemma leave_lines_facts:
  assumes "leave_lines coll input d b c = Inr ls" "l \<in> set ls"
  obtains leave sh where "ci_leave input = Some leave" "sh \<in> set (shortfallsOf coll leave)" "isChargeable sh"
    "toLeaveLine sh b d c = Inr l"
  using assms by (auto simp: leave_lines_def split: option.splits dest!: res_map_set)

text \<open>The lines of a result by their source.\<close>

lemma result_sources:
  assumes "computeCompensation coll input = Inr ef"
  obtains window basic b assigned leave adjusted loaned where
    "periodRange (ci_period input) = Inr window" "ef_daysInPeriod ef = calendarDaysInclusive (fst window) (snd window)"
    "ci_basicSalary input = Some basic" "toMinorUnits (fst basic) = Inr b" "ef_currency ef = snd basic"
    "same_currency input (snd basic) = Inr ()"
    "assignment_lines coll input window (ef_daysInPeriod ef) b (normal_spans (ci_employmentSpans input)) = Inr assigned"
    "leave_lines coll input (ef_daysInPeriod ef) b (snd basic) = Inr leave"
    "res_map (\<lambda>a. toAdjustmentLine a (ef_daysInPeriod ef)) (ci_adjustments input) = Inr adjusted"
    "res_map (\<lambda>i. toLoanLine i (ef_daysInPeriod ef)) (ci_loanInstallments input) = Inr loaned"
    "ef_earnings ef = of_kind Earning (filter (\<lambda>l. \<not> is_pending l) assigned) @ of_kind Earning adjusted"
    "ef_deductions ef = of_kind Deduction (filter (\<lambda>l. \<not> is_pending l) assigned) @ leave @ of_kind Deduction adjusted @ loaned"
    "ef_deferred ef = filter is_pending assigned @ pending_leave input (ef_daysInPeriod ef) (snd basic)"
  using assms
proof (rule computeCompensation_Inr)
  fix window basic b assigned leave adjusted loaned
  let ?d = "calendarDaysInclusive (fst window) (snd window)"
  assume a: "periodRange (ci_period input) = Inr window" "ci_basicSalary input = Some basic"
    "toMinorUnits (fst basic) = Inr b" "same_currency input (snd basic) = Inr ()"
    "assignment_lines coll input window ?d b (normal_spans (ci_employmentSpans input)) = Inr assigned"
    "leave_lines coll input ?d b (snd basic) = Inr leave"
    "res_map (\<lambda>a. toAdjustmentLine a ?d) (ci_adjustments input) = Inr adjusted"
    "res_map (\<lambda>i. toLoanLine i ?d) (ci_loanInstallments input) = Inr loaned"
    "finish_compensation input (fst basic) (snd basic) window ?d (normal_spans (ci_employmentSpans input))
       (of_kind Earning (filter (\<lambda>l. \<not> is_pending l) assigned) @ of_kind Earning adjusted)
       (of_kind Deduction (filter (\<lambda>l. \<not> is_pending l) assigned) @ leave @ of_kind Deduction adjusted @ loaned)
       (filter is_pending assigned @ pending_leave input ?d (snd basic)) (length leave) = Inr ef"
  note e = finish_Inr [OF a(9)]
  then have d: "ef_daysInPeriod ef = ?d" by blast
  show thesis using a(1-8) e by (intro that [of window basic b assigned leave adjusted loaned]) (simp_all add: d)
qed

lemma source_origins:
  "assignment_lines coll input w d b spans = Inr ls \<Longrightarrow> \<forall>x \<in> set ls. ln_origin x = FromPayItem"
  "leave_lines coll input d b c = Inr ls \<Longrightarrow> \<forall>x \<in> set ls. ln_origin x = FromLeaveSnapshot"
  "res_map (\<lambda>a. toAdjustmentLine a d) as = Inr ls \<Longrightarrow> \<forall>x \<in> set ls. ln_origin x = FromAdjustment"
  "res_map (\<lambda>i. toLoanLine i d) is = Inr ls \<Longrightarrow> \<forall>x \<in> set ls. ln_origin x = FromLoanInstallment"
  by (auto elim!: assignment_lines_facts leave_lines_facts dest!: res_map_set toLine_Inr toLeaveLine_Inr
      toAdjustmentLine_Inr toLoanLine_Inr)

end
