(* ===== verification/Salary_History.thy ===== *)
theory Salary_History
  imports Business_Date Payroll_Money "HOL-Library.Multiset"
begin

text \<open>
  The basic salary as it was on a date: \<open>payroll/compensation/salary-history.ts\<close>, fed by
  \<open>listAppliedSalaryChanges\<close> of \<open>employee-actions/employee-action.repository.ts\<close>, which hands the applied
  changes over by effective date and sequence number. A logged value is null, money, or some other shape.
\<close>

type_synonym money = "jsnum \<times> string"

datatype logged_value = LoggedNull | LoggedMoney money | LoggedOther

record raw_salary_change =
  rs_effectiveDate :: instant
  rs_from :: logged_value
  rs_to :: logged_value

record salary_change =
  sc_effectiveDate :: instant
  sc_from :: "money option"
  sc_to :: "money option"

fun isMoney :: "logged_value \<Rightarrow> bool" where
  "isMoney (LoggedMoney _) = True"
| "isMoney _ = False"

fun money_of :: "logged_value \<Rightarrow> money option" where
  "money_of (LoggedMoney m) = Some m"
| "money_of _ = None"

definition readableChanges :: "raw_salary_change list \<Rightarrow> salary_change list" where
  "readableChanges rows =
     map (\<lambda>r. \<lparr>sc_effectiveDate = rs_effectiveDate r, sc_from = money_of (rs_from r), sc_to = money_of (rs_to r)\<rparr>)
       (filter (\<lambda>r. rs_from r = LoggedNull \<or> isMoney (rs_from r)) rows)"

definition change_day :: "salary_change \<Rightarrow> instant" where
  "change_day c = toDateOnly (sc_effectiveDate c)"

fun undo_after :: "instant \<Rightarrow> money option \<Rightarrow> salary_change list \<Rightarrow> money option" where
  "undo_after on v [] = v"
| "undo_after on v (c # cs) = (if change_day c \<le> on then v else undo_after on (sc_from c) cs)"

definition salaryAsOf :: "money option \<Rightarrow> salary_change list \<Rightarrow> instant \<Rightarrow> money option" where
  "salaryAsOf current changes asked =
     undo_after (toDateOnly asked) current (sort_key (\<lambda>c. - change_day c) changes)"

section \<open>Facts\<close>

text \<open>A history: each change replaces the value the one before installed. \<open>salary_on\<close> replays it.\<close>

fun salary_chain :: "money option \<Rightarrow> salary_change list \<Rightarrow> money option \<Rightarrow> bool" where
  "salary_chain v [] w \<longleftrightarrow> v = w"
| "salary_chain v (c # cs) w \<longleftrightarrow> sc_from c = v \<and> salary_chain (sc_to c) cs w"

definition salary_on :: "money option \<Rightarrow> salary_change list \<Rightarrow> instant \<Rightarrow> money option" where
  "salary_on v hist asked = fold (\<lambda>c _. sc_to c) (filter (\<lambda>c. change_day c \<le> toDateOnly asked) hist) v"

lemma salary_chain_snoc:
  "salary_chain v (cs @ [c]) w \<longleftrightarrow> salary_chain v cs (sc_from c) \<and> sc_to c = w"
  by (induction cs arbitrary: v) auto

lemma undo_after_rev:
  "salary_chain v hist w \<Longrightarrow> sorted_wrt (<) (map change_day hist) \<Longrightarrow>
     undo_after (toDateOnly asked) w (rev hist) = salary_on v hist asked"
proof (induction hist arbitrary: w rule: rev_induct)
  case (snoc c cs)
  have cs: "salary_chain v cs (sc_from c)" "sc_to c = w" using snoc.prems by (simp_all add: salary_chain_snoc)
  have days: "sorted_wrt (<) (map change_day cs)" "\<forall>d \<in> set cs. change_day d < change_day c"
    using snoc.prems by (simp_all add: sorted_wrt_append)
  show ?case
  proof (cases "change_day c \<le> toDateOnly asked")
    case True
    then show ?thesis using cs(2) by (simp add: salary_on_def)
  next
    case False
    then show ?thesis using snoc.IH [OF cs(1) days(1)] by (simp add: salary_on_def)
  qed
qed (simp add: salary_on_def)

section \<open>Properties\<close>

text \<open>C26. Walking back from today's salary gives the salary of the day: when the log records every change,
  each with the value it replaced, on days that are all different, then \<open>salaryAsOf\<close> is the value that
  replaying the changes effective up to that day gives, whatever order the log hands them over in. So a
  later raise never restates an earlier month.\<close>

lemma salaryAsOf_replays:
  assumes "salary_chain v hist current" "sorted_wrt (<) (map change_day hist)" "mset changes = mset hist"
  shows "salaryAsOf current changes asked = salary_on v hist asked"
proof -
  have "distinct (map change_day hist)" using assms(2) strict_sorted_iff by blast
  then have "inj_on (\<lambda>c. - change_day c) (set changes)"
    using mset_eq_setD [OF assms(3)] by (simp add: distinct_map inj_on_def)
  moreover have "sorted (map (\<lambda>c. - change_day c) (rev hist))"
  proof -
    have "sorted_wrt (\<lambda>a b. change_day b < change_day a) (rev hist)"
      using assms(2) by (simp add: sorted_wrt_rev sorted_wrt_map)
    then show ?thesis unfolding sorted_map by (rule sorted_wrt_mono_rel [rotated]) simp
  qed
  ultimately have "sort_key (\<lambda>c. - change_day c) changes = rev hist"
    using assms(3) by (intro sort_key_inj_key_eq) simp_all
  then show ?thesis using undo_after_rev [OF assms(1,2)] by (simp add: salaryAsOf_def)
qed

text \<open>Two changes on one business day are not both undone: the log hands them over in the order they
  were applied and the sort keeps that order, so the walk undoes the first and then the second, and the
  answer for an earlier day is the value between the two instead of the one before them.\<close>

lemma same_day_changes_half_undone:
  assumes "change_day a = change_day b" "toDateOnly asked < change_day a" "salary_chain v [a, b] current"
  shows "salaryAsOf current [a, b] asked = sc_to a \<and> salary_on v [a, b] asked = v"
  using assms by (simp add: salaryAsOf_def salary_on_def)

definition raise :: "instant \<Rightarrow> nat \<Rightarrow> nat \<Rightarrow> salary_change" where
  "raise t x y = \<lparr>sc_effectiveDate = t, sc_from = Some (Finite False x [], ''EGP''),
     sc_to = Some (Finite False y [], ''EGP'')\<rparr>"

lemma salaryAsOf_replays_witness:
  "salaryAsOf (Some (Finite False 30 [], ''EGP'')) [raise 1780272000000 20 30, raise 1767225600000 10 20] 1774915200000 =
     Some (Finite False 20 [], ''EGP'')"
proof -
  have d: "change_day (raise 1780272000000 20 30) = 1780272000000" "change_day (raise 1767225600000 10 20) = 1767225600000"
    "toDateOnly 1774915200000 = 1774915200000" by code_simp+
  show ?thesis
    using salaryAsOf_replays [of "Some (Finite False 10 [], ''EGP'')" "[raise 1767225600000 10 20, raise 1780272000000 20 30]"
      "Some (Finite False 30 [], ''EGP'')" "[raise 1780272000000 20 30, raise 1767225600000 10 20]" 1774915200000]
    by (simp add: d salary_on_def) (simp add: raise_def)
qed

lemma same_day_changes_half_undone_witness:
  "salaryAsOf (Some (Finite False 30 [], ''EGP'')) [raise 1780272000000 10 20, raise 1780300000000 20 30] 1774915200000 =
     Some (Finite False 20 [], ''EGP'')"
proof -
  have d: "change_day (raise 1780272000000 10 20) = 1780272000000" "change_day (raise 1780300000000 20 30) = 1780272000000"
    "toDateOnly 1774915200000 = 1774915200000" by code_simp+
  show ?thesis
    using same_day_changes_half_undone [of "raise 1780272000000 10 20" "raise 1780300000000 20 30" 1774915200000
        "Some (Finite False 10 [], ''EGP'')" "Some (Finite False 30 [], ''EGP'')"]
    by (simp add: d) (simp add: raise_def)
qed

end
