(* ===== verification/Payslips.thy ===== *)
theory Payslips
  imports Payroll_Adjustments Compensation Salary_History
begin

text \<open>
  Issuing the payslips of a run: \<open>payroll/payslips/payslip.service.ts\<close> with \<open>payslip-eligibility.ts\<close> and
  \<open>payslip.model.ts\<close>, the gathering of the inputs in \<open>payroll/compensation/compensation.service.ts\<close>, the
  loan port \<open>loan-installment.port.ts\<close>, and the two stamps a payslip carries: \<open>shared/department-at.ts\<close> and
  \<open>cost-center-assignments/cost-center-resolution.ts\<close>. Here the parts of payroll meet: a store holds the
  runs with their attendance and leave, the pay items, the adjustments, the loans and the payslips. The
  register of employees, their action log and their memberships are read only, so they are the environment's.
\<close>

section \<open>Where an employee stood on a day\<close>

record department_move =
  dm_from :: "oid option"
  dm_to :: "oid option"
  dm_effectiveDate :: instant

definition move_day :: "department_move \<Rightarrow> instant" where
  "move_day m = toDateOnly (dm_effectiveDate m)"

text \<open>The walk over the moves in order: the last one that had taken effect.\<close>

fun last_in_force :: "instant \<Rightarrow> department_move option \<Rightarrow> department_move list \<Rightarrow> department_move option" where
  "last_in_force on found [] = found"
| "last_in_force on found (m # ms) = (if move_day m \<le> on then last_in_force on (Some m) ms else found)"

definition departmentAt :: "department_move list \<Rightarrow> instant \<Rightarrow> oid option \<Rightarrow> oid option" where
  "departmentAt moves at_day current =
     (case sort_key move_day moves of
        [] \<Rightarrow> current
      | m # ms \<Rightarrow>
         (case last_in_force (toDateOnly at_day) None (m # ms) of
            None \<Rightarrow> (case dm_from m of None \<Rightarrow> current | Some d \<Rightarrow> Some d)
          | Some inForce \<Rightarrow> (case dm_to inForce of None \<Rightarrow> current | Some d \<Rightarrow> Some d)))"

record dated_membership =
  dc_employeeId :: oid
  dc_costCenterId :: oid
  dc_effectiveFrom :: instant
  dc_effectiveTo :: "instant option"

definition membership_covers :: "instant \<Rightarrow> dated_membership \<Rightarrow> bool" where
  "membership_covers on r \<longleftrightarrow> dc_effectiveFrom r \<le> on \<and> (case dc_effectiveTo r of None \<Rightarrow> True | Some t \<Rightarrow> on \<le> t)"

definition costCentreOn :: "dated_membership list \<Rightarrow> instant \<Rightarrow> oid option" where
  "costCentreOn rows on =
     (case filter (membership_covers on) rows of
        [] \<Rightarrow> None
      | r # rs \<Rightarrow> Some (dc_costCenterId
          (fold (\<lambda>row best. if dc_effectiveFrom best < dc_effectiveFrom row then row else best) rs r)))"

section \<open>Data\<close>

record payslip_employee =
  se_id :: oid
  se_code :: string
  se_fullNameAr :: string
  se_fullNameEn :: "string option"
  se_jobTitleId :: oid
  se_dates :: employment_dates
  se_salary :: "money option"
  se_hasAllowances :: bool
  se_branchId :: "oid option"
  se_departmentId :: "oid option"

record payslip_identity =
  id_code :: string
  id_fullNameAr :: string
  id_fullNameEn :: "string option"
  id_jobTitle :: "localized option"

record payslip =
  py_id :: oid
  py_runId :: oid
  py_period :: string
  py_employeeId :: oid
  py_employee :: payslip_identity
  py_currency :: string
  py_basicSalary :: jsnum
  py_employmentDaysInPeriod :: int
  py_daysInPeriod :: int
  py_earnings :: "compensation_line list"
  py_deductions :: "compensation_line list"
  py_leave :: "leave_pay_facts option"
  py_totalEarningsMinor :: int
  py_totalDeductionsMinor :: int
  py_netMinor :: int
  py_warnings :: "compensation_warning list"
  py_issuedAt :: instant
  py_issuedBy :: oid
  py_branchId :: "oid option"
  py_departmentId :: "oid option"
  py_costCenterId :: "oid option"

datatype skip_reason = NoBasicSalary | PendingLine | NoLines | MixedCurrency

datatype payslip_effect = PassAudited oid string nat nat nat nat

record payslip_env =
  sv_loan :: loan_env
  sv_user :: oid
  sv_now :: instant
  sv_employees :: "payslip_employee list"
  sv_salaryLog :: "oid \<Rightarrow> raw_salary_change list"
  sv_moves :: "oid \<Rightarrow> department_move list"
  sv_memberships :: "dated_membership list"
  sv_jobTitle :: "oid \<Rightarrow> localized option"
  sv_coll :: collation

record payroll_world =
  pw_runs :: run_store
  pw_pay :: pay_store
  pw_adjustments :: adjustment_store
  pw_loans :: loan_store
  pw_slips :: "payslip list"
  pw_nextSlip :: oid
  pw_log :: "payslip_effect list"

section \<open>Who is in the batch\<close>

definition employedDuring :: "date_span list \<Rightarrow> bounded \<Rightarrow> bool" where
  "employedDuring spans window \<longleftrightarrow> (\<exists>sp \<in> set spans. span_from sp \<le> snd window \<and>
     (case span_to sp of None \<Rightarrow> True | Some t \<Rightarrow> fst window \<le> t))"

definition skipReasonFor :: "compensation_effects \<Rightarrow> skip_reason option" where
  "skipReasonFor ef =
     (if ef_deferred ef \<noteq> [] then Some PendingLine
      else if ef_earnings ef = [] \<and> ef_deductions ef = [] then Some NoLines else None)"

text \<open>\<open>message.includes(needle)\<close>.\<close>

definition str_includes :: "string \<Rightarrow> string \<Rightarrow> bool" where
  "str_includes hay needle \<longleftrightarrow> list_ex (\<lambda>i. take (length needle) (drop i hay) = needle) [0..<Suc (length hay)]"

definition refusalReason :: "string \<Rightarrow> skip_reason" where
  "refusalReason m = (if str_includes m ''no basic salary'' then NoBasicSalary else MixedCurrency)"

section \<open>The loan port\<close>

definition dueFor :: "oid \<Rightarrow> string \<Rightarrow> loan_store \<Rightarrow> loan_installment_line list" where
  "dueFor employeeId period s =
     map (\<lambda>d. \<lparr>li_id = d_installmentId d, li_amountMinor = d_amountMinor d, li_currency = d_currency d,
          li_reference = d_reference d\<rparr>) (deductionsDueFor employeeId period s)"

record taken_installment =
  tk_installmentId :: oid
  tk_employeeId :: oid
  tk_amountMinor :: int

definition receipt_of :: "oid \<Rightarrow> oid \<Rightarrow> string \<Rightarrow> taken_installment \<Rightarrow> deduction_receipt" where
  "receipt_of runId payslipId period row =
     \<lparr>p_installmentId = tk_installmentId row, p_employeeId = tk_employeeId row, p_period = period, p_runId = runId,
      p_payslipId = payslipId, p_amountMinor = tk_amountMinor row\<rparr>"

fun recordTaken :: "loan_env \<Rightarrow> oid \<Rightarrow> oid \<Rightarrow> string \<Rightarrow> taken_installment list \<Rightarrow> nat \<Rightarrow> (loan_store, nat) st" where
  "recordTaken env runId payslipId period [] recorded = st_return recorded"
| "recordTaken env runId payslipId period (row # rows) recorded =
     st_bind (recordDeducted env (receipt_of runId payslipId period row)) (\<lambda>written.
     recordTaken env runId payslipId period rows (if written then recorded + 1 else recorded))"

section \<open>The inputs of a calculation\<close>

definition touching_period :: "oid \<Rightarrow> bounded \<Rightarrow> pay_assignment \<Rightarrow> bool" where
  "touching_period employeeId window a \<longleftrightarrow> pa_employeeId a = employeeId \<and> \<not> pa_isDeleted a \<and>
     pa_effectiveFrom a \<le> snd window \<and> (case pa_effectiveTo a of None \<Rightarrow> True | Some t \<Rightarrow> fst window \<le> t)"

text \<open>An assignment with its catalog entry, when there is one.\<close>

definition assignment_input_of :: "pay_store \<Rightarrow> pay_assignment \<Rightarrow> assignment_input option" where
  "assignment_input_of s a =
     map_option (\<lambda>x. \<lparr>as_id = pa_id a, as_payItemId = pa_payItemId a, as_amount = pa_amount a, as_currency = pa_currency a,
       as_effectiveFrom = pa_effectiveFrom a, as_effectiveTo = pa_effectiveTo a, as_item = it_item x\<rparr>) (findItem (pa_payItemId a) s)"

definition assignments_in :: "oid \<Rightarrow> bounded \<Rightarrow> pay_store \<Rightarrow> assignment_input list" where
  "assignments_in employeeId window s =
     List.map_filter (assignment_input_of s) (filter (touching_period employeeId window) (ps_assignments s))"

definition needsQuantities :: "assignment_input list \<Rightarrow> bool" where
  "needsQuantities as \<longleftrightarrow> (\<exists>a \<in> set as. pi_calcBasis (as_item a) = PerDay \<or> pi_calcBasis (as_item a) = PerMinute)"

definition effectsForEmployee ::
  "payslip_env \<Rightarrow> payroll_world \<Rightarrow> payslip_employee \<Rightarrow> string \<Rightarrow> app_error + compensation_effects" where
  "effectsForEmployee env w e period =
     res_bind (periodRange period) (\<lambda>window.
     let assignments = assignments_in (se_id e) window (pw_pay w) in
     res_bind (if needsQuantities assignments then frozenAttendanceFor (pw_runs w) period (se_id e) else Inr None) (\<lambda>attendance.
     computeCompensation (sv_coll env)
       \<lparr>ci_employeeId = se_id e, ci_period = period,
        ci_basicSalary = salaryAsOf (se_salary e) (readableChanges (sv_salaryLog env (se_id e))) (snd window),
        ci_employmentSpans = employmentSpansOf (se_dates e), ci_assignments = assignments,
        ci_hasLegacyAllowances = se_hasAllowances e,
        ci_adjustments = adjustmentsFor (\<lambda>i. findItem i (pw_pay w)) (se_id e) period (pw_adjustments w),
        ci_loanInstallments = dueFor (se_id e) period (pw_loans w), ci_attendance = attendance,
        ci_leave = frozenLeaveFor (pw_runs w) period (se_id e)\<rparr>))"

section \<open>Issuing\<close>

record payslip_pass =
  ps_created :: nat
  ps_existing :: nat
  ps_skipped :: "(oid \<times> skip_reason) list"
  ps_repaid :: nat

definition identityOf :: "payslip_env \<Rightarrow> payslip_employee \<Rightarrow> payslip_identity" where
  "identityOf env e = \<lparr>id_code = se_code e, id_fullNameAr = se_fullNameAr e, id_fullNameEn = se_fullNameEn e,
     id_jobTitle = sv_jobTitle env (se_jobTitleId e)\<rparr>"

definition departmentFor :: "payslip_env \<Rightarrow> payslip_employee \<Rightarrow> instant \<Rightarrow> oid option" where
  "departmentFor env e on =
     (case departmentAt (sv_moves env (se_id e)) on (se_departmentId e) of None \<Rightarrow> se_departmentId e | Some d \<Rightarrow> Some d)"

definition costCentreFor :: "payslip_env \<Rightarrow> payslip_employee \<Rightarrow> instant \<Rightarrow> oid option" where
  "costCentreFor env e on = costCentreOn (filter (\<lambda>r. dc_employeeId r = se_id e) (sv_memberships env)) on"

definition new_payslip :: "payslip_env \<Rightarrow> payroll_run \<Rightarrow> instant \<Rightarrow> payslip_employee \<Rightarrow> compensation_effects \<Rightarrow> oid \<Rightarrow> payslip" where
  "new_payslip env run periodEnd e ef i =
     \<lparr>py_id = i, py_runId = pr_id run, py_period = pr_period run, py_employeeId = se_id e, py_employee = identityOf env e,
      py_currency = ef_currency ef, py_basicSalary = ef_basicSalary ef,
      py_employmentDaysInPeriod = ef_employmentDaysInPeriod ef, py_daysInPeriod = ef_daysInPeriod ef,
      py_earnings = ef_earnings ef, py_deductions = ef_deductions ef, py_leave = ef_leave ef,
      py_totalEarningsMinor = ef_totalEarningsMinor ef, py_totalDeductionsMinor = ef_totalDeductionsMinor ef,
      py_netMinor = ef_netMinor ef, py_warnings = ef_warnings ef, py_issuedAt = sv_now env, py_issuedBy = sv_user env,
      py_branchId = se_branchId e, py_departmentId = departmentFor env e periodEnd,
      py_costCenterId = costCentreFor env e periodEnd\<rparr>"

definition taken_of :: "oid \<Rightarrow> compensation_line list \<Rightarrow> taken_installment list" where
  "taken_of employeeId deductions =
     map (\<lambda>l. \<lparr>tk_installmentId = the (ln_sourceAssignmentId l), tk_employeeId = employeeId, tk_amountMinor = line_minor l\<rparr>)
       (filter (\<lambda>l. ln_origin l = FromLoanInstallment \<and> ln_sourceAssignmentId l \<noteq> None) deductions)"

definition recordLoanRepayments :: "payslip_env \<Rightarrow> payslip \<Rightarrow> (payroll_world, nat) st" where
  "recordLoanRepayments env slip =
     st_zoom pw_loans (\<lambda>l w. w\<lparr>pw_loans := l\<rparr>)
       (recordTaken (sv_loan env) (py_runId slip) (py_id slip) (py_period slip)
          (taken_of (py_employeeId slip) (py_deductions slip)) 0)"

definition has_slip :: "oid \<Rightarrow> oid \<Rightarrow> payroll_world \<Rightarrow> bool" where
  "has_slip runId employeeId w \<longleftrightarrow> (\<exists>p \<in> set (pw_slips w). py_runId p = runId \<and> py_employeeId p = employeeId)"

definition skip_employee :: "payslip_employee \<Rightarrow> skip_reason \<Rightarrow> payslip_pass \<Rightarrow> payslip_pass" where
  "skip_employee e r acc = acc\<lparr>ps_skipped := ps_skipped acc @ [(se_id e, r)]\<rparr>"

text \<open>The upsert with \<open>$setOnInsert\<close>: a slip of this run and this employee is left as it is.\<close>

definition upsertSlip :: "payslip_env \<Rightarrow> payroll_run \<Rightarrow> instant \<Rightarrow> payslip_employee \<Rightarrow> compensation_effects \<Rightarrow>
    (payroll_world, payslip option) st" where
  "upsertSlip env run periodEnd e ef w =
     (if has_slip (pr_id run) (se_id e) w then (w, Inr None)
      else let slip = new_payslip env run periodEnd e ef (pw_nextSlip w)
           in (w\<lparr>pw_slips := pw_slips w @ [slip], pw_nextSlip := pw_nextSlip w + 1\<rparr>, Inr (Some slip)))"

definition issue_one :: "payslip_env \<Rightarrow> payroll_run \<Rightarrow> instant \<Rightarrow> payslip_employee \<Rightarrow> payslip_pass \<Rightarrow>
    (payroll_world, payslip_pass) st" where
  "issue_one env run periodEnd e acc =
     st_bind (st_gets (\<lambda>w. effectsForEmployee env w e (pr_period run))) (\<lambda>tried.
     case tried of
       Inl (BusinessRuleError m) \<Rightarrow> st_return (skip_employee e (refusalReason m) acc)
     | Inl err \<Rightarrow> st_throw err
     | Inr ef \<Rightarrow>
        (case skipReasonFor ef of
           Some r \<Rightarrow> st_return (skip_employee e r acc)
         | None \<Rightarrow>
            st_bind (upsertSlip env run periodEnd e ef) (\<lambda>inserted.
            case inserted of
              None \<Rightarrow> st_return (acc\<lparr>ps_existing := ps_existing acc + 1\<rparr>)
            | Some slip \<Rightarrow>
                st_bind (recordLoanRepayments env slip) (\<lambda>repaid.
                st_return (acc\<lparr>ps_created := ps_created acc + 1, ps_repaid := ps_repaid acc + repaid\<rparr>)))))"

fun issue_all :: "payslip_env \<Rightarrow> payroll_run \<Rightarrow> instant \<Rightarrow> payslip_employee list \<Rightarrow> payslip_pass \<Rightarrow>
    (payroll_world, payslip_pass) st" where
  "issue_all env run periodEnd [] acc = st_return acc"
| "issue_all env run periodEnd (e # es) acc =
     st_bind (issue_one env run periodEnd e acc) (\<lambda>acc'. issue_all env run periodEnd es acc')"

definition batch_population :: "payslip_env \<Rightarrow> bounded \<Rightarrow> payslip_employee list" where
  "batch_population env window = filter (\<lambda>e. employedDuring (employmentSpansOf (se_dates e)) window) (sv_employees env)"

definition log_pass :: "payroll_run \<Rightarrow> payslip_pass \<Rightarrow> (payroll_world, unit) st" where
  "log_pass run res = st_modify (\<lambda>w. w\<lparr>pw_log := pw_log w @
     [PassAudited (pr_id run) (pr_period run) (ps_created res) (ps_existing res) (length (ps_skipped res)) (ps_repaid res)]\<rparr>)"

definition generateFor :: "payslip_env \<Rightarrow> oid \<Rightarrow> (payroll_world, nat \<times> payslip_pass) st" where
  "generateFor env runId =
     st_bind (st_gets (\<lambda>w. option_or (NotFoundError ''Not found'') (findRun runId (pw_runs w)))) (\<lambda>found.
     st_bind (st_lift found) (\<lambda>run.
     st_bind (st_ensure (pr_status run = RunFrozen) (BusinessRuleError ''payslips can only be issued from a frozen run'')) (\<lambda>_.
     st_bind (st_lift (periodRange (pr_period run))) (\<lambda>window.
     let population = batch_population env window in
     st_bind (issue_all env run (snd window) population \<lparr>ps_created = 0, ps_existing = 0, ps_skipped = [], ps_repaid = 0\<rparr>) (\<lambda>res.
     st_bind (log_pass run res) (\<lambda>_.
     st_return (length population, res)))))))"

section \<open>The parts of payroll together\<close>

text \<open>A deduction reaches the loans through a payslip only; it is no request of the loan screen.\<close>

fun loan_request :: "loan_op \<Rightarrow> bool" where
  "loan_request (OpDeducted _) = False"
| "loan_request _ = True"

datatype world_event =
    IssuePayslips payslip_env oid
  | OnRuns run_env payroll_event
  | OnPayItems pay_env pay_op
  | OnAdjustments adjustment_env adjustment_op
  | OnLoans loan_env loan_op

fun world_step :: "world_event \<Rightarrow> payroll_world \<Rightarrow> payroll_world" where
  "world_step (IssuePayslips env runId) w = fst (generateFor env runId w)"
| "world_step (OnRuns env e) w = w\<lparr>pw_runs := payroll_step env e (pw_runs w)\<rparr>"
| "world_step (OnPayItems env opn) w = w\<lparr>pw_pay := fst (pay_op_step env opn (pw_pay w))\<rparr>"
| "world_step (OnAdjustments env opn) w = w\<lparr>pw_adjustments := fst (adjustment_step env opn (pw_adjustments w))\<rparr>"
| "world_step (OnLoans env opn) w =
     (if loan_request opn then w\<lparr>pw_loans := fst (run_loan_op env opn (pw_loans w))\<rparr> else w)"

definition world_history :: "world_event list \<Rightarrow> payroll_world \<Rightarrow> payroll_world" where
  "world_history es w = fold world_step es w"

definition empty_world :: payroll_world where
  "empty_world = \<lparr>pw_runs = empty_runs, pw_pay = empty_pay, pw_adjustments = empty_adjustments,
     pw_loans = empty_loan_store, pw_slips = [], pw_nextSlip = 1, pw_log = []\<rparr>"

end
