(* ===== verification/Compensation_Claims.thy ===== *)
theory Compensation_Claims
  imports Compensation "HOL-Library.Multiset"
begin

text \<open>
  What the compensation engine promises: its totals are the sums of the lines shown, the order the
  assignments arrive in does not matter, the days of a span are the calendar days it covers, a share
  of a period never exceeds the whole, and a month's instalments are taken exactly.
\<close>

section \<open>A concrete month\<close>

text \<open>An employee hired in January, an allowance from the middle of June, a bonus and an instalment.\<close>

definition plain_collation :: collation where
  "plain_collation s = map char_code s"

definition sample_item :: pay_item_ref where
  "sample_item = \<lparr>pi_code = ''HOUSING'', pi_name = \<lparr>name_ar = [], name_en = ''Housing''\<rparr>, pi_kind = Earning,
     pi_calcBasis = FixedBasis, pi_quantitySource = None, pi_sortOrder = 1\<rparr>"



definition sample_assignment :: assignment_input where
  "sample_assignment = \<lparr>as_id = 1, as_payItemId = 11, as_amount = Finite False 1000 [], as_currency = ''EGP'',
     as_effectiveFrom = 1781568000000, as_effectiveTo = None, as_item = sample_item\<rparr>"

definition sample_input :: compensation_input where
  "sample_input = \<lparr>ci_employeeId = 7, ci_period = ''2026-06'', ci_basicSalary = Some (Finite False 9000 [], ''EGP''),
     ci_employmentSpans = [\<lparr>span_from = 1767225600000, span_to = None\<rparr>],
     ci_assignments = [sample_assignment], ci_hasLegacyAllowances = False,
     ci_adjustments = [\<lparr>ad_id = 3, ad_kind = Bonus, ad_amount = Finite False 250 [7, 5], ad_currency = ''EGP'',
       ad_reason = ''audit'', ad_payItemId = None, ad_payItem = None\<rparr>],
     ci_loanInstallments = [\<lparr>li_id = 4, li_amountMinor = 30000, li_currency = ''EGP'', li_reference = ''advance''\<rparr>],
     ci_attendance = None, ci_leave = None\<rparr>"

abbreviation june :: bounded where
  "june \<equiv> (1780272000000, 1782777600000)"
abbreviation spans26 :: "date_span list" where
  "spans26 \<equiv> [\<lparr>span_from = 1767225600000, span_to = None\<rparr>]"

definition sample_loan_line :: compensation_line where
  "sample_loan_line = (case toLoanLine (hd (ci_loanInstallments sample_input)) 30 of Inr l \<Rightarrow> l)"

definition sample_bonus_line :: compensation_line where
  "sample_bonus_line = (case toAdjustmentLine (hd (ci_adjustments sample_input)) 30 of Inr l \<Rightarrow> l)"

lemma june_range: "periodRange ''2026-06'' = Inr june"
  by code_simp

lemma sample_days:
  "normal_spans (ci_employmentSpans sample_input) = spans26" "daysInForce sample_assignment june spans26 = 15"
  "intersect (own_span sample_assignment) june = Some (1781568000000, 1782777600000)"
  "calendarDaysInclusive 1780272000000 1782777600000 = 30"
  by code_simp+

lemma sample_figures:
  "toMinorUnits (Finite False 9000 []) = Inr 900000" "toMinorUnits (Finite False 1000 []) = Inr 100000"
  "toMinorUnits (Finite False 250 [7, 5]) = Inr 25075"
  "fromMinorUnits 50000 = Inr (Finite False 500 [])" "fromMinorUnits 25075 = Inr (Finite False 250 [7, 5])"
  "fromMinorUnits 30000 = Inr (Finite False 300 [])" "fromMinorUnits 75075 = Inr (Finite False 750 [7, 5])"
  "fromMinorUnits 45075 = Inr (Finite False 450 [7, 5])"
  by (simp_all add: toMinorUnits.simps MONEY_MAX_AMOUNT_def NEGLIGIBLE_def abs_value_def
      MONEY_MINOR_UNITS_PER_UNIT_def fromMinorUnits_def fraction_of_cents_def safe_integer_def)

lemma sample_assignment_fields:
  "as_item sample_assignment = sample_item" "as_currency sample_assignment = ''EGP''"
  "as_amount sample_assignment = Finite False 1000 []"
  by (simp_all add: sample_assignment_def)

lemma sample_fields:
  "ci_period sample_input = ''2026-06''" "ci_basicSalary sample_input = Some (Finite False 9000 [], ''EGP'')"
  "ci_leave sample_input = None" "ci_assignments sample_input = [sample_assignment]"
  by (simp_all add: sample_input_def)

lemma sample_lines:
  "assignment_lines plain_collation sample_input june 30 900000 spans26 =
     Inr [flat_line sample_assignment 15 30 (Some (1 / 2)) (Some 50000) (Some (Finite False 500 [])) LineComputed]"
  "res_map (\<lambda>i. toLoanLine i 30) (ci_loanInstallments sample_input) = Inr [sample_loan_line]"
  "res_map (\<lambda>i. toAdjustmentLine i 30) (ci_adjustments sample_input) = Inr [sample_bonus_line]"
  "ln_amountMinor sample_loan_line = Some 30000" "ln_amountMinor sample_bonus_line = Some 25075"
  "ln_kind sample_bonus_line = Earning"
  by (simp_all add: assignment_lines_def sample_days toLine_def sample_assignment_fields sample_fields
      sample_item_def priceLine_def sample_figures scale_defs safe_integer_def fl_half Let_def
      sample_loan_line_def sample_bonus_line_def sample_input_def toLoanLine_def toAdjustmentLine_def)

definition sample_allowance_line :: compensation_line where
  "sample_allowance_line =
     flat_line sample_assignment 15 30 (Some (1 / 2)) (Some 50000) (Some (Finite False 500 [])) LineComputed"

lemma sample_computes: "\<exists>ef. computeCompensation plain_collation sample_input = Inr ef \<and> ef_netMinor ef = 45075 \<and>
    ef_earnings ef = [sample_allowance_line, sample_bonus_line] \<and> ef_deductions ef = [sample_loan_line]"
  by (simp add: computeCompensation_def sample_fields june_range Let_def sample_days sample_figures
      same_currency_def sample_assignment_fields sample_lines leave_lines_def)
    (simp add: sample_input_def of_kind_def is_pending_def sample_lines flat_line_def sample_assignment_fields
      sample_item_def finish_compensation_def sample_figures res_ensure_def sumMinorUnits_def safe_integer_def
      line_minor_def sample_allowance_line_def)

section \<open>Totals\<close>

lemma line_figure:
  assumes "line_ok l" "ln_state l = LineComputed"
  shows "ln_amountMinor l = Some (line_minor l)" "num_value (the (ln_amount l)) = of_int (line_minor l) / 100"
  using assms fromMinorUnits_value(1) by (auto simp: line_ok_def line_minor_def)

lemma result_lines:
  assumes "computeCompensation coll input = Inr ef"
  shows "\<forall>l \<in> set (ef_earnings ef @ ef_deductions ef). line_ok l \<and> ln_state l = LineComputed \<and> ln_currency l = ef_currency ef"
    "\<forall>l \<in> set (ef_earnings ef). ln_kind l = Earning" "\<forall>l \<in> set (ef_deductions ef). ln_kind l = Deduction"
    "\<forall>l \<in> set (ef_deferred ef). ln_state l \<noteq> LineComputed \<and> line_ok l"
proof -
  obtain window basic b assigned leave adjusted loaned where
    w: "periodRange (ci_period input) = Inr window" "ef_daysInPeriod ef = calendarDaysInclusive (fst window) (snd window)"
    "ci_basicSalary input = Some basic" "toMinorUnits (fst basic) = Inr b" "ef_currency ef = snd basic"
    and c: "same_currency input (snd basic) = Inr ()"
    and a: "assignment_lines coll input window (ef_daysInPeriod ef) b (normal_spans (ci_employmentSpans input)) = Inr assigned"
    and v: "leave_lines coll input (ef_daysInPeriod ef) b (snd basic) = Inr leave"
    and d: "res_map (\<lambda>a. toAdjustmentLine a (ef_daysInPeriod ef)) (ci_adjustments input) = Inr adjusted"
    and n: "res_map (\<lambda>i. toLoanLine i (ef_daysInPeriod ef)) (ci_loanInstallments input) = Inr loaned"
    and e: "ef_earnings ef = of_kind Earning (filter (\<lambda>l. \<not> is_pending l) assigned) @ of_kind Earning adjusted"
    "ef_deductions ef = of_kind Deduction (filter (\<lambda>l. \<not> is_pending l) assigned) @ leave @ of_kind Deduction adjusted @ loaned"
    "ef_deferred ef = filter is_pending assigned @ pending_leave input (ef_daysInPeriod ef) (snd basic)"
    using assms by (rule result_sources)
  note cur = same_currency_Inr [OF c]
  have A: "\<forall>x \<in> set assigned. line_ok x \<and> ln_currency x = snd basic \<and> ln_state x \<in> {LineComputed, PendingQuantity}"
    using cur by (auto elim!: assignment_lines_facts [OF a] dest!: toLine_Inr)
  have L: "\<forall>x \<in> set leave. line_ok x \<and> ln_currency x = snd basic \<and> ln_state x = LineComputed \<and> ln_kind x = Deduction"
    by (auto elim!: leave_lines_facts [OF v] dest!: toLeaveLine_Inr)
  have D: "\<forall>x \<in> set adjusted. line_ok x \<and> ln_currency x = snd basic \<and> ln_state x = LineComputed"
    using cur by (auto dest!: res_map_set [OF d] toAdjustmentLine_Inr)
  have N: "\<forall>x \<in> set loaned. line_ok x \<and> ln_currency x = snd basic \<and> ln_state x = LineComputed \<and> ln_kind x = Deduction"
    using cur by (auto dest!: res_map_set [OF n] toLoanLine_Inr)
  show "\<forall>l \<in> set (ef_earnings ef @ ef_deductions ef). line_ok l \<and> ln_state l = LineComputed \<and> ln_currency l = ef_currency ef"
    using A L D N by (auto simp: e w of_kind_def is_pending_def)
  show "\<forall>l \<in> set (ef_earnings ef). ln_kind l = Earning" by (auto simp: e of_kind_def)
  show "\<forall>l \<in> set (ef_deductions ef). ln_kind l = Deduction" using L N by (auto simp: e of_kind_def)
  show "\<forall>l \<in> set (ef_deferred ef). ln_state l \<noteq> LineComputed \<and> line_ok l"
    using A by (auto simp: e is_pending_def pending_leave_def line_facts split: option.splits)
qed

lemma result_finished:
  assumes "computeCompensation coll input = Inr ef"
  obtains salary currency window d spans es ds fs n where
    "finish_compensation input salary currency window d spans es ds fs n = Inr ef"
  using assms by (rule computeCompensation_Inr) (rule that)

lemma result_totals:
  assumes "computeCompensation coll input = Inr ef"
  shows "ef_totalEarningsMinor ef = sum_list (map line_minor (ef_earnings ef))"
    "ef_totalDeductionsMinor ef = sum_list (map line_minor (ef_deductions ef))"
    "ef_netMinor ef = ef_totalEarningsMinor ef - ef_totalDeductionsMinor ef"
    "num_value (ef_net ef) = of_int (ef_netMinor ef) / 100"
proof -
  obtain salary currency window d spans es ds fs n where
    "finish_compensation input salary currency window d spans es ds fs n = Inr ef"
    using assms by (rule result_finished)
  note f = finish_Inr [OF this]
  show "ef_totalEarningsMinor ef = sum_list (map line_minor (ef_earnings ef))"
    "ef_totalDeductionsMinor ef = sum_list (map line_minor (ef_deductions ef))"
    "ef_netMinor ef = ef_totalEarningsMinor ef - ef_totalDeductionsMinor ef"
    using f by simp_all
  have "fromMinorUnits (ef_netMinor ef) = Inr (ef_net ef)" using f by blast
  then show "num_value (ef_net ef) = of_int (ef_netMinor ef) / 100" by (rule fromMinorUnits_value)
qed

text \<open>C3. The figures of a calculation are the figures of its lines: each total is the sum of the minor
  units of the lines shown beside it, the net is their difference and reads as its hundredth; every
  totalled line has a figure, reads as that figure, is of the side it stands on and is in the one
  currency; and a line without a figure is in \<open>deferred\<close> and in no total.\<close>

lemma totals_are_the_lines:
  assumes "computeCompensation coll input = Inr ef"
  shows "ef_totalEarningsMinor ef = sum_list (map line_minor (ef_earnings ef)) \<and>
    ef_totalDeductionsMinor ef = sum_list (map line_minor (ef_deductions ef)) \<and>
    ef_netMinor ef = ef_totalEarningsMinor ef - ef_totalDeductionsMinor ef \<and>
    num_value (ef_net ef) = of_int (ef_netMinor ef) / 100 \<and>
    (\<forall>l \<in> set (ef_earnings ef @ ef_deductions ef).
       ln_amountMinor l = Some (line_minor l) \<and> num_value (the (ln_amount l)) = of_int (line_minor l) / 100 \<and>
       ln_currency l = ef_currency ef) \<and>
    (\<forall>l \<in> set (ef_earnings ef). ln_kind l = Earning) \<and> (\<forall>l \<in> set (ef_deductions ef). ln_kind l = Deduction) \<and>
    (\<forall>l \<in> set (ef_deferred ef). ln_amountMinor l = None)"
proof -
  have "\<forall>l \<in> set (ef_earnings ef @ ef_deductions ef).
       ln_amountMinor l = Some (line_minor l) \<and> num_value (the (ln_amount l)) = of_int (line_minor l) / 100 \<and>
       ln_currency l = ef_currency ef"
    using result_lines(1) [OF assms] line_figure by blast
  moreover have "\<forall>l \<in> set (ef_deferred ef). ln_amountMinor l = None"
    using result_lines(4) [OF assms] by (auto simp: line_ok_def)
  ultimately show ?thesis using result_totals [OF assms] result_lines(2,3) [OF assms] by blast
qed

lemma totals_are_the_lines_witness:
  "\<exists>ef. computeCompensation plain_collation sample_input = Inr ef \<and> ef_netMinor ef = 45075 \<and>
     ef_netMinor ef = ef_totalEarningsMinor ef - ef_totalDeductionsMinor ef"
  using sample_computes totals_are_the_lines by blast

section \<open>Order\<close>

text \<open>C17. The figures do not depend on the order the database hands the assignments over: two inputs
  that differ only in that order get the same result, or the same refusal, as long as no two different
  assignments share their kind, catalog order and code.\<close>

lemma order_of_assignments_irrelevant:
  assumes "mset xs = mset ys" "inj_on (presentation_key coll) (set xs)"
  shows "computeCompensation coll (input\<lparr>ci_assignments := xs\<rparr>) =
    computeCompensation coll (input\<lparr>ci_assignments := ys\<rparr>)"
proof -
  have "mset (sort_key (presentation_key coll) ys) = mset xs" using assms(1) by simp
  then have sorted: "sort_key (presentation_key coll) xs = sort_key (presentation_key coll) ys"
    using assms(2) by (intro sort_key_inj_key_eq) simp_all
  have "set xs = set ys" using assms(1) by (rule mset_eq_setD)
  then have "same_currency (input\<lparr>ci_assignments := xs\<rparr>) c = same_currency (input\<lparr>ci_assignments := ys\<rparr>) c" for c
    by (simp add: same_currency_def)
  moreover have "assignment_lines coll (input\<lparr>ci_assignments := xs\<rparr>) w d b sp =
    assignment_lines coll (input\<lparr>ci_assignments := ys\<rparr>) w d b sp" for w d b sp
    by (simp add: assignment_lines_def sorted)
  moreover have "leave_lines coll (input\<lparr>ci_assignments := xs\<rparr>) d b c = leave_lines coll (input\<lparr>ci_assignments := ys\<rparr>) d b c"
    "pending_leave (input\<lparr>ci_assignments := xs\<rparr>) d c = pending_leave (input\<lparr>ci_assignments := ys\<rparr>) d c" for d b c
    by (simp_all add: leave_lines_def pending_leave_def)
  moreover have "finish_compensation (input\<lparr>ci_assignments := xs\<rparr>) = finish_compensation (input\<lparr>ci_assignments := ys\<rparr>)"
    by (intro ext) (simp add: finish_compensation_def compensation_warnings_def incomplete_day_def)
  ultimately show ?thesis by (simp add: computeCompensation_def)
qed

lemma order_of_assignments_irrelevant_witness:
  "computeCompensation plain_collation (sample_input\<lparr>ci_assignments :=
      [sample_assignment, sample_assignment\<lparr>as_id := 2, as_item := sample_item\<lparr>pi_code := ''MEAL''\<rparr>\<rparr>]\<rparr>) =
   computeCompensation plain_collation (sample_input\<lparr>ci_assignments :=
      [sample_assignment\<lparr>as_id := 2, as_item := sample_item\<lparr>pi_code := ''MEAL''\<rparr>\<rparr>, sample_assignment]\<rparr>)"
  by (rule order_of_assignments_irrelevant)
    (auto simp: presentation_key_def plain_collation_def sample_assignment_fields sample_item_def char_code_def)

section \<open>Days\<close>

text \<open>Spans of whole days: their ends are midnights, and no two of them share an instant.\<close>

definition midnight :: "instant \<Rightarrow> bool" where
  "midnight t \<longleftrightarrow> ms_per_day dvd t"

definition whole_days :: "date_span \<Rightarrow> bool" where
  "whole_days sp \<longleftrightarrow> midnight (span_from sp) \<and> (\<forall>t. span_to sp = Some t \<longrightarrow> midnight t)"

definition disjoint_spans :: "date_span list \<Rightarrow> bool" where
  "disjoint_spans spans \<longleftrightarrow> sorted_wrt (\<lambda>x y. \<forall>t. \<not> (span_covers x t \<and> span_covers y t)) spans"

definition covered_days :: "bounded \<Rightarrow> date_span list \<Rightarrow> int set" where
  "covered_days window spans = {d. fst window \<le> ms_per_day * d \<and> ms_per_day * d \<le> snd window \<and>
     (\<exists>sp \<in> set spans. span_covers sp (ms_per_day * d))}"

lemma midnight_toDateOnly [simp]: "midnight (toDateOnly t)"
  by (simp add: midnight_def toDateOnly_def date_utc_def Let_def)

lemma whole_days_normal: "\<forall>sp \<in> set (normal_spans spans). whole_days sp"
  by (auto simp: normal_spans_def whole_days_def)

lemma finite_covered_days: "finite (covered_days window spans)"
proof (rule finite_subset)
  show "covered_days window spans \<subseteq> (\<lambda>d. ms_per_day * d) -` {fst window .. snd window}"
    by (auto simp: covered_days_def)
  show "finite ((\<lambda>d. ms_per_day * d) -` {fst window .. snd window})"
    by (rule finite_vimageI) (simp_all add: inj_on_def ms_per_day_def)
qed

definition overlap_days :: "bounded \<Rightarrow> date_span \<Rightarrow> int" where
  "overlap_days window sp = (case intersect sp window of None \<Rightarrow> 0
     | Some overlap \<Rightarrow> calendarDaysInclusive (fst overlap) (snd overlap))"

lemma daysWithin_sum: "daysWithin window spans = sum_list (map (overlap_days window) spans)"
proof -
  have "fold (\<lambda>sp days. case intersect sp window of None \<Rightarrow> days
      | Some overlap \<Rightarrow> days + calendarDaysInclusive (fst overlap) (snd overlap)) spans n =
    n + sum_list (map (overlap_days window) spans)" for n
    by (induction spans arbitrary: n) (auto simp: overlap_days_def split: option.splits)
  then show ?thesis by (simp add: daysWithin_def)
qed

lemma overlap_days_card:
  assumes "midnight (fst window)" "midnight (snd window)" "whole_days sp"
  shows "overlap_days window sp = int (card (covered_days window [sp]))"
proof -
  obtain a b where w: "window = (ms_per_day * a, ms_per_day * b)"
    using assms(1,2) by (cases window) (auto simp: midnight_def dvd_def)
  obtain p where p: "span_from sp = ms_per_day * p" using assms(3) by (auto simp: whole_days_def midnight_def dvd_def)
  have le: "ms_per_day * x \<le> ms_per_day * y \<longleftrightarrow> x \<le> y" "ms_per_day * x < ms_per_day * y \<longleftrightarrow> x < y" for x y
    by (simp_all add: ms_per_day_def)
  define q where "q = (case span_to sp of None \<Rightarrow> b | Some t \<Rightarrow> min b (t div ms_per_day))"
  have cov: "covered_days window [sp] = {max a p .. q}"
  proof (cases "span_to sp")
    case None
    then show ?thesis by (auto simp: covered_days_def w p le span_covers_def q_def)
  next
    case (Some t)
    then obtain r where r: "t = ms_per_day * r" using assms(3) by (auto simp: whole_days_def midnight_def dvd_def)
    then have "t div ms_per_day = r" by (simp add: ms_per_day_def)
    then show ?thesis using Some by (auto simp: covered_days_def w p le span_covers_def q_def r)
  qed
  have i: "intersect sp window = (if max a p > q then None else Some (ms_per_day * max a p, ms_per_day * q))"
  proof (cases "span_to sp")
    case None
    then show ?thesis by (auto simp: intersect_def w p le q_def Let_def max_def)
  next
    case (Some t)
    then obtain r where r: "t = ms_per_day * r" using assms(3) by (auto simp: whole_days_def midnight_def dvd_def)
    then have "t div ms_per_day = r" by (simp add: ms_per_day_def)
    then show ?thesis using Some by (auto simp: intersect_def w p le q_def Let_def max_def min_def r)
  qed
  show ?thesis by (simp add: overlap_days_def i cov calendarDaysInclusive_days)
qed

lemma daysWithin_card:
  assumes "midnight (fst window)" "midnight (snd window)" "\<forall>sp \<in> set spans. whole_days sp" "disjoint_spans spans"
  shows "daysWithin window spans = int (card (covered_days window spans))"
  using assms(3,4)
proof (induction spans)
  case Nil
  then show ?case by (simp add: daysWithin_def covered_days_def)
next
  case (Cons sp spans)
  have "covered_days window (sp # spans) = covered_days window [sp] \<union> covered_days window spans"
    by (auto simp: covered_days_def)
  moreover have "covered_days window [sp] \<inter> covered_days window spans = {}"
    using Cons.prems by (auto simp: covered_days_def disjoint_spans_def)
  ultimately have "card (covered_days window (sp # spans)) = card (covered_days window [sp]) + card (covered_days window spans)"
    by (simp add: card_Un_disjoint finite_covered_days)
  then show ?case using Cons overlap_days_card [OF assms(1,2), of sp]
    by (simp add: daysWithin_sum disjoint_spans_def)
qed

text \<open>\<open>daysWithin\<close> counts calendar days: for spans of whole days that never overlap, the sum the code
  takes over the spans is the number of days of the window that some span covers.\<close>

lemma daysWithin_counts_days:
  assumes "midnight (fst window)" "midnight (snd window)" "\<forall>sp \<in> set spans. whole_days sp" "disjoint_spans spans"
  shows "daysWithin window spans = int (card (covered_days window spans))"
  using assms by (rule daysWithin_card)

lemma daysWithin_counts_days_witness:
  "let spans = [\<lparr>span_from = 0, span_to = Some (ms_per_day * 3)\<rparr>, \<lparr>span_from = ms_per_day * 6, span_to = None\<rparr>]
   in daysWithin (ms_per_day * 2, ms_per_day * 9) spans = int (card (covered_days (ms_per_day * 2, ms_per_day * 9) spans))"
  unfolding Let_def
  by (rule daysWithin_counts_days)
    (auto simp: midnight_def whole_days_def disjoint_spans_def span_covers_def ms_per_day_def)

section \<open>Bounds\<close>

text \<open>Days counted over a window are days of that window.\<close>

lemma covered_days_card_le:
  assumes "midnight (fst window)" "midnight (snd window)" "covered_days window spans \<noteq> {}"
  shows "int (card (covered_days window spans)) \<le> calendarDaysInclusive (fst window) (snd window)"
proof -
  obtain a b where w: "window = (ms_per_day * a, ms_per_day * b)"
    using assms(1,2) by (cases window) (auto simp: midnight_def dvd_def)
  have sub: "covered_days window spans \<subseteq> {a .. b}" by (auto simp: covered_days_def w ms_per_day_def)
  then have "card (covered_days window spans) \<le> card {a .. b}" by (intro card_mono) auto
  moreover have "a \<le> b" using sub assms(3) by auto
  ultimately show ?thesis by (simp add: w calendarDaysInclusive_days)
qed

lemma daysWithin_le:
  assumes "midnight (fst window)" "midnight (snd window)" "fst window \<le> snd window"
    "\<forall>sp \<in> set spans. whole_days sp" "disjoint_spans spans"
  shows "0 \<le> daysWithin window spans" "daysWithin window spans \<le> calendarDaysInclusive (fst window) (snd window)"
proof -
  note n = daysWithin_card [OF assms(1,2,4,5)]
  show "0 \<le> daysWithin window spans" by (simp add: n)
  have "0 \<le> calendarDaysInclusive (fst window) (snd window)"
    using assms(3) by (simp add: calendarDaysInclusive_def ms_per_day_def)
  then show "daysWithin window spans \<le> calendarDaysInclusive (fst window) (snd window)"
    using covered_days_card_le [OF assms(1,2), of spans] by (cases "covered_days window spans = {}") (simp_all add: n)
qed

lemma calendarDaysInclusive_mono: "a \<le> b \<Longrightarrow> c \<le> d \<Longrightarrow> calendarDaysInclusive b c \<le> calendarDaysInclusive a d"
  unfolding calendarDaysInclusive_def by (intro add_right_mono zdiv_mono1) (simp_all add: ms_per_day_def)

lemma intersect_Some:
  assumes "intersect sp window = Some w"
  shows "fst window \<le> fst w" "fst w \<le> snd w" "snd w \<le> snd window"
    "whole_days sp \<Longrightarrow> midnight (fst window) \<Longrightarrow> midnight (snd window) \<Longrightarrow> midnight (fst w) \<and> midnight (snd w)"
  using assms by (auto simp: intersect_def Let_def whole_days_def split: if_splits option.splits)

lemma own_span_whole [simp]: "whole_days (own_span a)"
  by (auto simp: own_span_def whole_days_def)

lemma daysInForce_le:
  assumes "midnight (fst window)" "midnight (snd window)" "\<forall>sp \<in> set spans. whole_days sp" "disjoint_spans spans"
  shows "0 \<le> daysInForce a window spans"
    "daysInForce a window spans \<noteq> 0 \<Longrightarrow> daysInForce a window spans \<le> calendarDaysInclusive (fst window) (snd window)"
proof -
  have "0 \<le> daysWithin w spans \<and> daysWithin w spans \<le> calendarDaysInclusive (fst window) (snd window)"
    if "intersect (own_span a) window = Some w" for w
    using intersect_Some [OF that] daysWithin_le [of w spans] assms
      calendarDaysInclusive_mono [of "fst window" "fst w" "snd w" "snd window"] by force
  then show "0 \<le> daysInForce a window spans"
    "daysInForce a window spans \<noteq> 0 \<Longrightarrow> daysInForce a window spans \<le> calendarDaysInclusive (fst window) (snd window)"
    by (auto simp: daysInForce_def split: option.splits)
qed

lemma periodRange_midnight: "periodRange p = Inr w \<Longrightarrow> midnight (fst w) \<and> midnight (snd w)"
  by (auto simp: periodRange_def midnight_def date_utc_def Let_def split: if_splits)

text \<open>The share of a period an assignment is in force for.\<close>

definition share :: "int \<Rightarrow> int \<Rightarrow> rat" where
  "share n d = fl (of_int n / of_int d)"

lemma share_bounds: "0 < n \<Longrightarrow> n \<le> d \<Longrightarrow> 0 \<le> share n d \<and> share n d \<le> 1"
  unfolding share_def by (rule fl_unit) (simp_all add: divide_simps)

lemma toLine_fixed:
  assumes "toLine a slice n d b spans att = Inr l" "pi_calcBasis (as_item a) = FixedBasis"
    "toMinorUnits (as_amount a) = Inr m" "0 \<le> m" "0 < n" "n \<le> d"
  shows "0 \<le> line_minor l \<and> line_minor l \<le> m \<and> (n = d \<longrightarrow> line_minor l = m)"
proof -
  have l: "scaleMinorUnits m (share n d) = Inr (line_minor l)"
    using assms by (auto simp: toLine_def priceLine_def res_bind_Inr flat_line_def line_minor_def share_def Let_def)
  then have sm: "safe_integer m" by (simp add: scale_defs split: if_splits)
  have "n = d \<Longrightarrow> share n d = 1" using assms(5) by (simp add: share_def)
  then show ?thesis
    using scaleMinorUnits_between [OF sm assms(4), of "share n d"] share_bounds [OF assms(5,6)] l
      scaleMinorUnits_1 [OF sm] by auto
qed

lemma toLine_percent:
  assumes "toLine a slice n d (Some b) spans att = Inr l" "pi_calcBasis (as_item a) = PercentOfBase"
    "0 \<le> b" "0 < n" "n \<le> d"
  shows "0 \<le> line_minor l \<and> line_minor l \<le> b"
proof -
  obtain neg w ds where x: "as_amount a = Finite neg w ds" and r: "\<not> percent_out_of_range (as_amount a)"
    and l: "scaleMinorUnits b (fl (fl (num_double (as_amount a) / MAX_PERCENT) * share n d)) = Inr (line_minor l)"
    using assms by (cases "as_amount a")
      (auto simp: toLine_def priceLine_def res_bind_Inr flat_line_def line_minor_def share_def Let_def split: if_splits)
  have "0 \<le> num_double (as_amount a) / MAX_PERCENT" "num_double (as_amount a) / MAX_PERCENT \<le> 1"
    using r by (simp_all add: x MAX_PERCENT_def)
  then have u: "0 \<le> fl (num_double (as_amount a) / MAX_PERCENT)" "fl (num_double (as_amount a) / MAX_PERCENT) \<le> 1"
    using fl_unit by blast+
  note v = share_bounds [OF assms(4,5)]
  have "0 \<le> fl (num_double (as_amount a) / MAX_PERCENT) * share n d" using u v by simp
  moreover have "fl (num_double (as_amount a) / MAX_PERCENT) * share n d \<le> 1"
    using mult_mono [of _ 1 "share n d" 1] u v by simp
  ultimately have f: "0 \<le> fl (fl (num_double (as_amount a) / MAX_PERCENT) * share n d)"
    "fl (fl (num_double (as_amount a) / MAX_PERCENT) * share n d) \<le> 1"
    using fl_unit by blast+
  have "safe_integer b" using l by (simp add: scale_defs split: if_splits)
  then show ?thesis using scaleMinorUnits_between [OF _ assms(3) f] l by auto
qed

lemma toLeaveLine_share:
  assumes "toLeaveLine sh b d c = Inr l" "0 \<le> b" "isChargeable sh" "0 \<le> sh_payRate sh" "sh_days sh \<le> of_int d" "0 < d"
  shows "0 \<le> line_minor l \<and> line_minor l \<le> b"
proof -
  have l: "scaleMinorUnits b (shortfall_factor sh d) = Inr (line_minor l)"
    using toLeaveLine_Inr [OF assms(1)] by (simp add: shortfallMinor_def)
  then have "safe_integer b" by (simp add: scale_defs split: if_splits)
  moreover have "0 \<le> shortfall_factor sh d" "shortfall_factor sh d \<le> 1"
    using assms(3-6) by (auto simp: isChargeable_def intro: shortfall_in_range)
  ultimately show ?thesis using scaleMinorUnits_between [OF _ assms(2)] l by fastforce
qed

text \<open>The assigned lines of a result.\<close>

lemma assigned_line:
  assumes "computeCompensation coll input = Inr ef" "l \<in> set (ef_earnings ef @ ef_deductions ef)"
    "ln_origin l = FromPayItem"
  obtains a window basic b where "a \<in> set (ci_assignments input)" "periodRange (ci_period input) = Inr window"
    "ci_basicSalary input = Some basic" "toMinorUnits (fst basic) = Inr b"
    "ef_daysInPeriod ef = calendarDaysInclusive (fst window) (snd window)"
    "daysInForce a window (normal_spans (ci_employmentSpans input)) \<noteq> 0"
    "toLine a (the (intersect (own_span a) window)) (daysInForce a window (normal_spans (ci_employmentSpans input)))
       (ef_daysInPeriod ef) (Some b) (normal_spans (ci_employmentSpans input)) (ci_attendance input) = Inr l"
proof -
  obtain window basic b assigned leave adjusted loaned where
    w: "periodRange (ci_period input) = Inr window" "ef_daysInPeriod ef = calendarDaysInclusive (fst window) (snd window)"
    "ci_basicSalary input = Some basic" "toMinorUnits (fst basic) = Inr b" "ef_currency ef = snd basic"
    and c: "same_currency input (snd basic) = Inr ()"
    and a: "assignment_lines coll input window (ef_daysInPeriod ef) b (normal_spans (ci_employmentSpans input)) = Inr assigned"
    and v: "leave_lines coll input (ef_daysInPeriod ef) b (snd basic) = Inr leave"
    and d: "res_map (\<lambda>a. toAdjustmentLine a (ef_daysInPeriod ef)) (ci_adjustments input) = Inr adjusted"
    and n: "res_map (\<lambda>i. toLoanLine i (ef_daysInPeriod ef)) (ci_loanInstallments input) = Inr loaned"
    and e: "ef_earnings ef = of_kind Earning (filter (\<lambda>l. \<not> is_pending l) assigned) @ of_kind Earning adjusted"
    "ef_deductions ef = of_kind Deduction (filter (\<lambda>l. \<not> is_pending l) assigned) @ leave @ of_kind Deduction adjusted @ loaned"
    "ef_deferred ef = filter is_pending assigned @ pending_leave input (ef_daysInPeriod ef) (snd basic)"
    using assms(1) by (rule result_sources)
  have "l \<in> set assigned"
    using assms(2,3) source_origins(2) [OF v] source_origins(3) [OF d] source_origins(4) [OF n]
    by (auto simp: e of_kind_def)
  with a obtain x where "x \<in> set (ci_assignments input)"
    "daysInForce x window (normal_spans (ci_employmentSpans input)) \<noteq> 0"
    "toLine x (the (intersect (own_span x) window)) (daysInForce x window (normal_spans (ci_employmentSpans input)))
       (ef_daysInPeriod ef) (Some b) (normal_spans (ci_employmentSpans input)) (ci_attendance input) = Inr l"
    by (rule assignment_lines_facts)
  then show thesis by (rule that [OF _ w(1,3,4,2)])
qed

text \<open>A share never exceeds the whole. On every assigned line the days in force are between one day
  and the days of the period; a flat item pays at least nothing and at most its full amount, and exactly
  that amount when it was in force all month; a percentage of the salary pays at most the salary.\<close>

lemma share_within_whole:
  assumes "computeCompensation coll input = Inr ef" "disjoint_spans (normal_spans (ci_employmentSpans input))"
    "l \<in> set (ef_earnings ef @ ef_deductions ef)" "ln_origin l = FromPayItem"
  shows "\<exists>a \<in> set (ci_assignments input). ln_sourceAssignmentId l = Some (as_id a) \<and>
    1 \<le> ln_daysInForce l \<and> ln_daysInForce l \<le> of_int (ef_daysInPeriod ef) \<and>
    (pi_calcBasis (as_item a) = FixedBasis \<longrightarrow> (\<forall>m. toMinorUnits (as_amount a) = Inr m \<and> 0 \<le> m \<longrightarrow>
       0 \<le> line_minor l \<and> line_minor l \<le> m \<and>
       (ln_daysInForce l = of_int (ef_daysInPeriod ef) \<longrightarrow> line_minor l = m))) \<and>
    (pi_calcBasis (as_item a) = PercentOfBase \<longrightarrow>
       (\<forall>x cur b. ci_basicSalary input = Some (x, cur) \<and> toMinorUnits x = Inr b \<and> 0 \<le> b \<longrightarrow>
          0 \<le> line_minor l \<and> line_minor l \<le> b))"
proof -
  obtain a window basic b where a: "a \<in> set (ci_assignments input)" and w: "periodRange (ci_period input) = Inr window"
    and b: "ci_basicSalary input = Some basic" "toMinorUnits (fst basic) = Inr b"
    and d: "ef_daysInPeriod ef = calendarDaysInclusive (fst window) (snd window)"
    and n: "daysInForce a window (normal_spans (ci_employmentSpans input)) \<noteq> 0"
    and t: "toLine a (the (intersect (own_span a) window)) (daysInForce a window (normal_spans (ci_employmentSpans input)))
       (ef_daysInPeriod ef) (Some b) (normal_spans (ci_employmentSpans input)) (ci_attendance input) = Inr l"
    using assms(1,3,4) by (rule assigned_line)
  define k where "k = daysInForce a window (normal_spans (ci_employmentSpans input))"
  have k: "0 < k" "k \<le> ef_daysInPeriod ef"
    using daysInForce_le [of window "normal_spans (ci_employmentSpans input)" a] periodRange_midnight [OF w]
      whole_days_normal assms(2) n by (auto simp: k_def d)
  note line = toLine_Inr [OF t, folded k_def] and fixed = toLine_fixed [OF t [folded k_def] _ _ _ k]
    and percent = toLine_percent [OF t [folded k_def] _ _ k]
  have "(1::rat) \<le> of_int k" "of_int k \<le> (of_int (ef_daysInPeriod ef) :: rat)" using k by simp_all
  then show ?thesis using a line fixed percent b by (intro bexI [of _ a]) auto
qed

lemma share_within_whole_witness:
  "\<exists>ef. computeCompensation plain_collation sample_input = Inr ef \<and> sample_allowance_line \<in> set (ef_earnings ef) \<and>
     ln_sourceAssignmentId sample_allowance_line = Some (as_id sample_assignment) \<and>
     0 \<le> line_minor sample_allowance_line \<and> line_minor sample_allowance_line \<le> 100000"
proof -
  obtain ef where ef: "computeCompensation plain_collation sample_input = Inr ef"
    "ef_earnings ef = [sample_allowance_line, sample_bonus_line]"
    using sample_computes by blast
  have "disjoint_spans (normal_spans (ci_employmentSpans sample_input))"
    by (simp add: sample_days disjoint_spans_def)
  moreover have "ln_origin sample_allowance_line = FromPayItem" by (simp add: sample_allowance_line_def flat_line_def)
  ultimately show ?thesis
    using share_within_whole [OF ef(1), of sample_allowance_line] ef
    by (auto simp: sample_fields sample_assignment_fields sample_item_def sample_figures)
qed

text \<open>Decisions and debts are taken exactly: the deduction lines of instalments are, one by one and in
  order, the instalments handed in, with their own amounts; and every approved bonus or penalty stands on
  its side with the minor units of its amount, unprorated.\<close>

lemma decisions_taken_exactly:
  assumes "computeCompensation coll input = Inr ef"
  shows "map (\<lambda>l. (ln_sourceAssignmentId l, ln_amountMinor l))
      (filter (\<lambda>l. ln_origin l = FromLoanInstallment) (ef_deductions ef)) =
    map (\<lambda>i. (Some (li_id i), Some (li_amountMinor i))) (ci_loanInstallments input) \<and>
    filter (\<lambda>l. ln_origin l = FromLoanInstallment) (ef_earnings ef) = [] \<and>
    map (\<lambda>l. (ln_sourceAssignmentId l, Inr (line_minor l)))
      (filter (\<lambda>l. ln_origin l = FromAdjustment) (ef_earnings ef @ ef_deductions ef)) =
    map (\<lambda>a. (Some (ad_id a), toMinorUnits (ad_amount a)))
      (filter (\<lambda>a. ad_kind a = Bonus) (ci_adjustments input) @
       filter (\<lambda>a. ad_kind a \<noteq> Bonus) (ci_adjustments input))"
proof -
  obtain window basic b assigned leave adjusted loaned where
    w: "periodRange (ci_period input) = Inr window" "ef_daysInPeriod ef = calendarDaysInclusive (fst window) (snd window)"
    "ci_basicSalary input = Some basic" "toMinorUnits (fst basic) = Inr b" "ef_currency ef = snd basic"
    and c: "same_currency input (snd basic) = Inr ()"
    and a: "assignment_lines coll input window (ef_daysInPeriod ef) b (normal_spans (ci_employmentSpans input)) = Inr assigned"
    and v: "leave_lines coll input (ef_daysInPeriod ef) b (snd basic) = Inr leave"
    and d: "res_map (\<lambda>a. toAdjustmentLine a (ef_daysInPeriod ef)) (ci_adjustments input) = Inr adjusted"
    and n: "res_map (\<lambda>i. toLoanLine i (ef_daysInPeriod ef)) (ci_loanInstallments input) = Inr loaned"
    and e: "ef_earnings ef = of_kind Earning (filter (\<lambda>l. \<not> is_pending l) assigned) @ of_kind Earning adjusted"
    "ef_deductions ef = of_kind Deduction (filter (\<lambda>l. \<not> is_pending l) assigned) @ leave @ of_kind Deduction adjusted @ loaned"
    "ef_deferred ef = filter is_pending assigned @ pending_leave input (ef_daysInPeriod ef) (snd basic)"
    using assms by (rule result_sources)
  note origins = source_origins(1) [OF a] source_origins(2) [OF v] source_origins(3) [OF d] source_origins(4) [OF n]
  have none: "filter (\<lambda>l. ln_origin l = FromLoanInstallment) (of_kind k (filter P assigned)) = []"
    "filter (\<lambda>l. ln_origin l = FromAdjustment) (of_kind k (filter P assigned)) = []"
    "filter (\<lambda>l. ln_origin l = FromLoanInstallment) leave = []" "filter (\<lambda>l. ln_origin l = FromAdjustment) leave = []"
    "filter (\<lambda>l. ln_origin l = FromLoanInstallment) (of_kind k adjusted) = []"
    "filter (\<lambda>l. ln_origin l = FromLoanInstallment) loaned = loaned" "filter (\<lambda>l. ln_origin l = FromAdjustment) loaned = []" for k P
    using origins by (auto simp: filter_empty_conv filter_id_conv of_kind_def)
  have own: "filter (\<lambda>l. ln_origin l = FromAdjustment) (of_kind k adjusted) = of_kind k adjusted" for k
    using origins(3) by (intro filter_True) (simp add: of_kind_def)
  have loaned: "map (\<lambda>l. (ln_sourceAssignmentId l, ln_amountMinor l)) loaned =
      map (\<lambda>i. (Some (li_id i), Some (li_amountMinor i))) (ci_loanInstallments input)"
    by (rule res_map_map [OF n]) (auto dest: toLoanLine_Inr)
  have "list_all2 (\<lambda>a l. toAdjustmentLine a (ef_daysInPeriod ef) = Inr l)
      (ci_adjustments input) adjusted"
    using d by (simp add: res_map_Inr)
  then have adj: "map (\<lambda>l. (ln_sourceAssignmentId l, Inr (line_minor l))) (of_kind Earning adjusted) =
      map (\<lambda>a. (Some (ad_id a), toMinorUnits (ad_amount a))) (filter (\<lambda>a. ad_kind a = Bonus) (ci_adjustments input)) \<and>
    map (\<lambda>l. (ln_sourceAssignmentId l, Inr (line_minor l))) (of_kind Deduction adjusted) =
      map (\<lambda>a. (Some (ad_id a), toMinorUnits (ad_amount a))) (filter (\<lambda>a. ad_kind a \<noteq> Bonus) (ci_adjustments input))"
    by (induction rule: list_all2_induct) (auto simp: of_kind_def dest!: toAdjustmentLine_Inr split: if_splits)
  show ?thesis by (simp add: e none own loaned adj)
qed

lemma decisions_taken_exactly_witness:
  "\<exists>ef. computeCompensation plain_collation sample_input = Inr ef \<and>
     map (\<lambda>l. (ln_sourceAssignmentId l, ln_amountMinor l))
       (filter (\<lambda>l. ln_origin l = FromLoanInstallment) (ef_deductions ef)) = [(Some 4, Some 30000)]"
proof -
  obtain ef where ef: "computeCompensation plain_collation sample_input = Inr ef" using sample_computes by blast
  then show ?thesis using decisions_taken_exactly [OF ef] by (auto simp: sample_input_def)
qed

end
