(* ===== verification/Loan_Ledger.thy ===== *)
theory Loan_Ledger
  imports Employee_Loans
begin

text \<open>
  What the loan service may do to its collections. \<open>loan_write\<close> is the abstract specification: an
  event system whose events are the single writes a handler makes, each with the guard under which
  it is lawful (which statuses a loan moves between, that nobody approves their own request, that an
  instalment enters an open month under a free number, that only planned rows are withdrawn or
  deducted, that a month is repaid once). Every handler of \<open>Employee_Loans\<close>, run to its end or
  refused half way, is a sequence of such events (\<open>run_loan_op_writes\<close>); the invariants are proved
  on the events.
\<close>

section \<open>Lawful changes of a loan\<close>

definition kept_terms :: "loan_doc \<Rightarrow> loan_doc \<Rightarrow> bool" where
  "kept_terms d d' \<longleftrightarrow> l_principal d' = l_principal d \<and> l_currency d' = l_currency d \<and>
     l_installmentCount d' = l_installmentCount d \<and> l_firstPeriod d' = l_firstPeriod d \<and>
     l_type d' = l_type d"

definition kept_people :: "loan_doc \<Rightarrow> loan_doc \<Rightarrow> bool" where
  "kept_people d d' \<longleftrightarrow> l_submittedBy d' = l_submittedBy d \<and> l_decidedBy d' = l_decidedBy d"

definition same_loan :: "loan_doc \<Rightarrow> loan_doc \<Rightarrow> bool" where
  "same_loan d d' \<longleftrightarrow> l_id d' = l_id d \<and> l_employeeId d' = l_employeeId d \<and>
     l_isDeleted d' = l_isDeleted d \<and> l_version d' = l_version d + 1"

definition other_live :: "loan_store \<Rightarrow> loan_doc \<Rightarrow> bool" where
  "other_live s d \<longleftrightarrow> (\<exists>l \<in> set (loans s). l_employeeId l = l_employeeId d \<and> live_status (l_status l) \<and>
     \<not> l_isDeleted l \<and> l_id l \<noteq> l_id d)"

inductive loan_change :: "loan_store \<Rightarrow> loan_doc \<Rightarrow> loan_doc \<Rightarrow> bool" for s d d' where
  edit: "same_loan d d' \<Longrightarrow> kept_people d d' \<Longrightarrow> l_externalSettlement d' = l_externalSettlement d \<Longrightarrow>
    l_status d = LoanDraft \<Longrightarrow> l_status d' = LoanDraft \<Longrightarrow> loan_change s d d'"
| submit: "same_loan d d' \<Longrightarrow> kept_terms d d' \<Longrightarrow> l_externalSettlement d' = l_externalSettlement d \<Longrightarrow>
    l_status d = LoanDraft \<Longrightarrow> l_status d' = LoanPendingApproval \<Longrightarrow> l_submittedBy d' \<noteq> None \<Longrightarrow>
    \<not> other_live s d \<Longrightarrow> loan_change s d d'"
| approve: "same_loan d d' \<Longrightarrow> kept_terms d d' \<Longrightarrow> l_externalSettlement d' = l_externalSettlement d \<Longrightarrow>
    l_status d = LoanPendingApproval \<Longrightarrow> l_status d' = LoanApproved \<Longrightarrow> l_decidedBy d' \<noteq> None \<Longrightarrow>
    l_submittedBy d' = l_submittedBy d \<Longrightarrow> l_decidedBy d' \<noteq> l_submittedBy d \<Longrightarrow> loan_change s d d'"
| reject: "same_loan d d' \<Longrightarrow> kept_terms d d' \<Longrightarrow> l_externalSettlement d' = l_externalSettlement d \<Longrightarrow>
    l_status d = LoanPendingApproval \<Longrightarrow> l_status d' = LoanDraft \<Longrightarrow> loan_change s d d'"
| disburse: "same_loan d d' \<Longrightarrow> kept_terms d d' \<Longrightarrow> kept_people d d' \<Longrightarrow>
    l_externalSettlement d' = l_externalSettlement d \<Longrightarrow>
    l_status d = LoanApproved \<Longrightarrow> l_status d' = LoanActive \<Longrightarrow> (\<exists>m. toMinorUnits (l_principal d') = Inr m) \<Longrightarrow> loan_change s d d'"
| withdraw: "same_loan d d' \<Longrightarrow> kept_terms d d' \<Longrightarrow> kept_people d d' \<Longrightarrow>
    l_externalSettlement d' = l_externalSettlement d \<Longrightarrow>
    l_status d \<in> {LoanDraft, LoanPendingApproval, LoanApproved} \<Longrightarrow> l_status d' = LoanCancelled \<Longrightarrow>
    loan_change s d d'"
| touch: "same_loan d d' \<Longrightarrow> kept_terms d d' \<Longrightarrow> kept_people d d' \<Longrightarrow>
    l_externalSettlement d' = l_externalSettlement d \<Longrightarrow>
    l_status d = LoanActive \<Longrightarrow> l_status d' = LoanActive \<Longrightarrow> loan_change s d d'"
| settle: "same_loan d d' \<Longrightarrow> kept_terms d d' \<Longrightarrow> kept_people d d' \<Longrightarrow>
    l_status d = LoanActive \<Longrightarrow> l_status d' = LoanSettled \<Longrightarrow>
    remainingMinorOf d' (repaidMinor (l_id d) s) = Inr m \<Longrightarrow> m \<le> 0 \<Longrightarrow> loan_change s d d'"
| exit: "same_loan d d' \<Longrightarrow> kept_terms d d' \<Longrightarrow> kept_people d d' \<Longrightarrow>
    l_externalSettlement d' = l_externalSettlement d \<Longrightarrow>
    l_status d = LoanActive \<Longrightarrow> l_status d' = LoanOutstandingAtExit \<Longrightarrow> loan_change s d d'"

section \<open>The events\<close>

definition seq_taken :: "loan_store \<Rightarrow> installment_doc \<Rightarrow> bool" where
  "seq_taken s row \<longleftrightarrow> (\<exists>r \<in> set (installments s). i_loanId r = i_loanId row \<and> i_seq r = i_seq row)"

definition month_taken :: "loan_store \<Rightarrow> installment_doc \<Rightarrow> bool" where
  "month_taken s row \<longleftrightarrow> (\<exists>r \<in> set (installments s).
     i_loanId r = i_loanId row \<and> i_period r = i_period row \<and> i_status r = InstPlanned)"

definition disbursing :: "loan_store \<Rightarrow> oid \<Rightarrow> bool" where
  "disbursing s loanId \<longleftrightarrow>
     (\<exists>l \<in> set (loans s). l_id l = loanId \<and> l_status l \<in> {LoanApproved, LoanActive})"

inductive loan_write :: "string list \<Rightarrow> loan_store \<Rightarrow> loan_store \<Rightarrow> bool" for frozen s where
  log: "loan_write frozen s (s\<lparr>loan_effects := loan_effects s @ [e]\<rparr>)"
| insert: "l_id d = next_oid s \<Longrightarrow> l_status d = LoanDraft \<Longrightarrow> \<not> l_isDeleted d \<Longrightarrow>
    l_externalSettlement d = None \<Longrightarrow>
    loan_write frozen s (s\<lparr>loans := loans s @ [d], next_oid := next_oid s + 1\<rparr>)"
| change: "d \<in> set (loans s) \<Longrightarrow> loan_change s d d' \<Longrightarrow> loan_write frozen s (put_loan d' s)"
| plan: "i_id row = next_oid s \<Longrightarrow> i_status row = InstPlanned \<Longrightarrow> \<not> seq_taken s row \<Longrightarrow>
    \<not> month_taken s row \<Longrightarrow> i_period row \<notin> set frozen \<Longrightarrow> 0 < i_amountMinor row \<Longrightarrow>
    disbursing s (i_loanId row) \<Longrightarrow>
    loan_write frozen s (s\<lparr>installments := installments s @ [row], next_oid := next_oid s + 1\<rparr>)"
| withdraw_rows: "\<forall>r \<in> set (installments s). P r \<longrightarrow> i_status r = InstPlanned \<Longrightarrow>
    loan_write frozen s
      (s\<lparr>installments := map (\<lambda>r. if P r then cancel_row by r else r) (installments s)\<rparr>)"
| deduct: "loan_write frozen s (s\<lparr>installments := map (\<lambda>r.
      if i_id r = docId \<and> i_status r = InstPlanned
      then r\<lparr>i_status := InstDeducted, i_version := i_version r + 1\<rparr> else r) (installments s)\<rparr>)"
| repay: "\<forall>r \<in> set (repayments s). \<not> (r_loanId r = r_loanId row \<and> r_period r = r_period row) \<Longrightarrow>
    0 < r_amountMinor row \<Longrightarrow>
    loan_write frozen s (s\<lparr>repayments := repayments s @ [row], next_oid := next_oid s + 1\<rparr>)"

inductive_cases loan_changeE: "loan_change s d d'"
inductive_cases loan_writeE: "loan_write frozen s t"

section \<open>Invariants\<close>

definition ids_ok :: "loan_store \<Rightarrow> bool" where
  "ids_ok s \<longleftrightarrow> distinct (map l_id (loans s)) \<and> distinct (map i_id (installments s)) \<and>
     (\<forall>l \<in> set (loans s). l_id l < next_oid s) \<and> (\<forall>r \<in> set (installments s). i_id r < next_oid s)"

definition one_live :: "loan_store \<Rightarrow> bool" where
  "one_live s \<longleftrightarrow> (\<forall>l \<in> set (loans s). \<forall>l' \<in> set (loans s).
     live_status (l_status l) \<and> live_status (l_status l') \<and> \<not> l_isDeleted l \<and> \<not> l_isDeleted l' \<and>
     l_employeeId l = l_employeeId l' \<longrightarrow> l_id l = l_id l')"

definition two_person :: "loan_doc \<Rightarrow> bool" where
  "two_person l \<longleftrightarrow>
     (l_status l = LoanPendingApproval \<longrightarrow> l_submittedBy l \<noteq> None) \<and>
     (l_status l \<in> {LoanApproved, LoanActive, LoanSettled, LoanOutstandingAtExit} \<longrightarrow>
        l_submittedBy l \<noteq> None \<and> l_decidedBy l \<noteq> None \<and> l_decidedBy l \<noteq> l_submittedBy l)"

definition settled_clear :: "loan_store \<Rightarrow> loan_doc \<Rightarrow> bool" where
  "settled_clear s l \<longleftrightarrow>
     (l_status l = LoanSettled \<longrightarrow> (\<exists>m \<le> 0. remainingMinorOf l (repaidMinor (l_id l) s) = Inr m)) \<and>
     (l_status l \<noteq> LoanSettled \<longrightarrow> l_externalSettlement l = None)"

definition loans_ok :: "loan_store \<Rightarrow> bool" where
  "loans_ok s \<longleftrightarrow> (\<forall>l \<in> set (loans s). \<not> l_isDeleted l \<and> two_person l \<and> settled_clear s l)"

definition rows_ok :: "loan_store \<Rightarrow> bool" where
  "rows_ok s \<longleftrightarrow>
     distinct (map (\<lambda>r. (i_loanId r, i_seq r)) (installments s)) \<and>
     distinct (map (\<lambda>r. (i_loanId r, i_period r)) (filter (\<lambda>r. i_status r = InstPlanned) (installments s))) \<and>
     (\<forall>r \<in> set (installments s). 0 < i_amountMinor r)"

definition repayments_ok :: "loan_store \<Rightarrow> bool" where
  "repayments_ok s \<longleftrightarrow> distinct (map (\<lambda>r. (r_loanId r, r_period r)) (repayments s)) \<and>
     (\<forall>r \<in> set (repayments s). 0 < r_amountMinor r)"

definition store_ok :: "loan_store \<Rightarrow> bool" where
  "store_ok s \<longleftrightarrow> ids_ok s \<and> one_live s \<and> loans_ok s \<and> rows_ok s \<and> repayments_ok s"

subsection \<open>Each event keeps them\<close>

lemma put_loan_sel [simp]:
  "loans (put_loan d s) = map (\<lambda>l. if l_id l = l_id d then d else l) (loans s)"
  "installments (put_loan d s) = installments s" "repayments (put_loan d s) = repayments s"
  "next_oid (put_loan d s) = next_oid s" "loan_effects (put_loan d s) = loan_effects s"
  by (simp_all add: put_loan_def)

lemma put_loan_ids: "map l_id (map (\<lambda>l. if l_id l = l_id d then d else l) ls) = map l_id ls"
  by (induction ls) auto

lemma cancel_row_sel [simp]:
  "i_id (cancel_row by r) = i_id r" "i_loanId (cancel_row by r) = i_loanId r"
  "i_employeeId (cancel_row by r) = i_employeeId r"
  "i_seq (cancel_row by r) = i_seq r" "i_period (cancel_row by r) = i_period r"
  "i_amountMinor (cancel_row by r) = i_amountMinor r" "i_status (cancel_row by r) = InstCancelled"
  "i_isDeleted (cancel_row by r) = i_isDeleted r"
  by (simp_all add: cancel_row_def)

lemma map_update_same: "(\<And>x. P x \<Longrightarrow> f (g x) = f x) \<Longrightarrow> map f (map (\<lambda>x. if P x then g x else x) xs) = map f xs"
  by (induction xs) auto

lemma change_same: "loan_change s d d' \<Longrightarrow> same_loan d d'"
  by (erule loan_changeE) auto

lemma ids_ok_write: "loan_write frozen s t \<Longrightarrow> ids_ok s \<Longrightarrow> ids_ok t"
proof (erule loan_writeE)
  fix d d' assume "t = put_loan d' s" "d \<in> set (loans s)" "loan_change s d d'" "ids_ok s"
  then show "ids_ok t" using change_same [of s d d'] put_loan_ids [of d' "loans s"]
    by (auto simp: ids_ok_def same_loan_def simp del: map_map)
qed (auto simp: ids_ok_def map_update_same simp del: map_map split: if_splits)

lemma loan_by_id: "ids_ok s \<Longrightarrow> l \<in> set (loans s) \<Longrightarrow> l' \<in> set (loans s) \<Longrightarrow> l_id l = l_id l' \<Longrightarrow> l = l'"
  unfolding ids_ok_def by (metis distinct_map inj_onD)

lemma row_by_id:
  "ids_ok s \<Longrightarrow> r \<in> set (installments s) \<Longrightarrow> r' \<in> set (installments s) \<Longrightarrow> i_id r = i_id r' \<Longrightarrow> r = r'"
  unfolding ids_ok_def by (metis distinct_map inj_onD)

lemma in_put_loan: "l \<in> set (loans (put_loan d s)) \<Longrightarrow> l = d \<or> l \<in> set (loans s) \<and> l_id l \<noteq> l_id d"
  by (auto split: if_splits)

text \<open>A loan only becomes live by a submission, and a submission needs that nobody else is.\<close>

lemma change_live:
  assumes "loan_change s d d'" "live_status (l_status d')"
  shows "live_status (l_status d) \<or> \<not> other_live s d"
  using assms by (cases rule: loan_change.cases) (auto simp: live_status_def)

lemma one_live_cong: "one_live s \<Longrightarrow> loans t = loans s \<Longrightarrow> one_live t"
  by (simp only: one_live_def)

lemma one_live_write:
  assumes w: "loan_write frozen s t" and s: "one_live s"
  shows "one_live t"
  using w
proof (cases rule: loan_write.cases)
  case (change d d')
  have same: "same_loan d d'" by (rule change_same [OF change(3)])
  have d: "l_id d' = l_id d" "l_employeeId d' = l_employeeId d" "l_isDeleted d' = l_isDeleted d"
    using same by (simp_all add: same_loan_def)
  have key: "l_id l = l_id d" if "l \<in> set (loans s)" "live_status (l_status l)" "\<not> l_isDeleted l"
    "l_employeeId l = l_employeeId d" "live_status (l_status d')" "\<not> l_isDeleted d" for l
  proof (cases "live_status (l_status d)")
    case True
    then show ?thesis using s [unfolded one_live_def, rule_format, of l d] that change(2) by simp
  next
    case False
    then have "\<not> other_live s d" using change_live [OF change(3)] that by simp
    then show ?thesis using that unfolding other_live_def by blast
  qed
  show ?thesis unfolding one_live_def
  proof (intro ballI impI)
    fix l l' assume l: "l \<in> set (loans t)" "l' \<in> set (loans t)"
      and h: "live_status (l_status l) \<and> live_status (l_status l') \<and> \<not> l_isDeleted l \<and> \<not> l_isDeleted l' \<and>
        l_employeeId l = l_employeeId l'"
    from l change(1) have "l = d' \<or> l \<in> set (loans s)" "l' = d' \<or> l' \<in> set (loans s)"
      using in_put_loan [of _ d' s] by auto
    then show "l_id l = l_id l'"
    proof (elim disjE)
      assume "l \<in> set (loans s)" "l' \<in> set (loans s)"
      then show ?thesis using s [unfolded one_live_def, rule_format, of l l'] h by blast
    next
      assume "l = d'" "l' \<in> set (loans s)"
      then show ?thesis using key [of l'] h d by simp
    next
      assume "l \<in> set (loans s)" "l' = d'"
      then show ?thesis using key [of l] h d by simp
    qed simp
  qed
next
  case (insert d)
  have nl: "\<not> live_status (l_status d)" using insert(3) by (simp add: live_status_def)
  have "l \<in> set (loans s)" if "l \<in> set (loans t)" "live_status (l_status l)" for l
    using that nl by (auto simp: insert(1))
  then show ?thesis using s unfolding one_live_def by blast
qed (rule one_live_cong [OF s], simp)+

lemma two_person_change:
  assumes "loan_change s d d'" "two_person d"
  shows "two_person d'"
  using assms by (cases rule: loan_change.cases) (auto simp: two_person_def kept_people_def)

lemma remainingMinorOf_cong:
  "l_principal d' = l_principal d \<Longrightarrow> l_externalSettlement d' = l_externalSettlement d \<Longrightarrow>
     remainingMinorOf d' x = remainingMinorOf d x"
  by (auto simp: remainingMinorOf_def split: sum.split)

lemma settled_clear_change:
  assumes "loan_change s d d'" "settled_clear s d" "repayments t = repayments s"
  shows "settled_clear t d'"
proof -
  have r: "repaidMinor x t = repaidMinor x s" for x using assms(3) by (simp add: repaidMinor_def)
  show ?thesis
    using assms(1,2) by (cases rule: loan_change.cases) (auto simp: settled_clear_def same_loan_def r)
qed

lemma repaid_mono:
  assumes "repayments t = repayments s @ [row]" "0 < r_amountMinor row"
  shows "repaidMinor x s \<le> repaidMinor x t"
  using assms by (simp add: repaidMinor_def)

lemma settled_clear_repay:
  assumes "settled_clear s l" "repayments t = repayments s @ [row]" "0 < r_amountMinor row"
  shows "settled_clear t l"
  using assms(1) repaid_mono [OF assms(2,3), of "l_id l"]
  by (force simp: settled_clear_def remainingMinorOf_def split: sum.splits option.splits)

lemma settled_clear_cong: "settled_clear s l \<Longrightarrow> repayments t = repayments s \<Longrightarrow> settled_clear t l"
  by (simp add: settled_clear_def repaidMinor_def)

lemma loans_ok_write:
  assumes w: "loan_write frozen s t" and s: "loans_ok s"
  shows "loans_ok t"
  using w
proof (cases rule: loan_write.cases)
  case (change d d')
  have d: "\<not> l_isDeleted d" "two_person d" "settled_clear s d" using s change(2) by (auto simp: loans_ok_def)
  have "settled_clear t d'" by (rule settled_clear_change [OF change(3) d(3)]) (simp add: change(1))
  moreover have "two_person d'" by (rule two_person_change [OF change(3) d(2)])
  moreover have "\<not> l_isDeleted d'" using change_same [OF change(3)] d(1) by (simp add: same_loan_def)
  moreover have "settled_clear t l" if "settled_clear s l" for l
    by (rule settled_clear_cong [OF that]) (simp add: change(1))
  ultimately show ?thesis using s in_put_loan [of _ d' s] by (auto simp: loans_ok_def change(1))
next
  case (repay row)
  have "repayments t = repayments s @ [row]" by (simp add: repay(1))
  then have "settled_clear t l" if "settled_clear s l" for l by (rule settled_clear_repay [OF that _ repay(3)])
  then show ?thesis using s by (auto simp: loans_ok_def repay(1))
next
  case (insert d)
  have "settled_clear t l" if "settled_clear s l" for l
    by (rule settled_clear_cong [OF that]) (simp add: insert(1))
  then show ?thesis using s insert by (auto simp: loans_ok_def two_person_def settled_clear_def)
qed (use s in \<open>auto simp: loans_ok_def intro: settled_clear_cong\<close>)

lemma planned_keys_sub:
  assumes "\<And>r. i_loanId (f r) = i_loanId r \<and> i_period (f r) = i_period r"
    "\<And>r. i_status (f r) = InstPlanned \<Longrightarrow> i_status r = InstPlanned"
    "distinct (map (\<lambda>r. (i_loanId r, i_period r)) (filter (\<lambda>r. i_status r = InstPlanned) rs))"
  shows "distinct (map (\<lambda>r. (i_loanId r, i_period r)) (filter (\<lambda>r. i_status r = InstPlanned) (map f rs)))"
  using assms(3)
proof (induction rs)
  case (Cons r rs)
  have sub: "(\<lambda>r. (i_loanId r, i_period r)) ` set (filter (\<lambda>r. i_status r = InstPlanned) (map f rs))
      \<subseteq> (\<lambda>r. (i_loanId r, i_period r)) ` set (filter (\<lambda>r. i_status r = InstPlanned) rs)"
    using assms(1,2) by (fastforce simp: image_iff)
  have ih: "distinct (map (\<lambda>r. (i_loanId r, i_period r)) (filter (\<lambda>r. i_status r = InstPlanned) (map f rs)))"
    using Cons by (auto split: if_splits)
  show ?case
  proof (cases "i_status (f r) = InstPlanned")
    case True
    then have "i_status r = InstPlanned" by (rule assms(2))
    then show ?thesis using Cons.prems sub ih assms(1) True by auto
  qed (use ih in simp)
qed simp

lemma rows_ok_map:
  assumes "rows_ok s" "installments t = map f (installments s)"
    "\<And>r. i_loanId (f r) = i_loanId r \<and> i_period (f r) = i_period r \<and> i_seq (f r) = i_seq r \<and>
      i_amountMinor (f r) = i_amountMinor r"
    "\<And>r. i_status (f r) = InstPlanned \<Longrightarrow> i_status r = InstPlanned"
  shows "rows_ok t"
  using assms planned_keys_sub [of f "installments s"] by (auto simp: rows_ok_def comp_def)

lemma rows_ok_write:
  assumes w: "loan_write frozen s t" and s: "rows_ok s"
  shows "rows_ok t"
  using w
proof (cases rule: loan_write.cases)
  case (plan row)
  then show ?thesis using s by (auto simp: rows_ok_def seq_taken_def month_taken_def image_iff)
next
  case (withdraw_rows P "by")
  show ?thesis by (rule rows_ok_map [OF s, where f = "\<lambda>r. if P r then cancel_row by r else r"])
    (auto simp: withdraw_rows split: if_splits)
next
  case (deduct docId)
  show ?thesis by (rule rows_ok_map [OF s, where f = "\<lambda>r. if i_id r = docId \<and> i_status r = InstPlanned
      then r\<lparr>i_status := InstDeducted, i_version := i_version r + 1\<rparr> else r"])
    (auto simp: deduct split: if_splits)
qed (use s in \<open>auto simp: rows_ok_def\<close>)

lemma repayments_ok_write:
  assumes w: "loan_write frozen s t" and s: "repayments_ok s"
  shows "repayments_ok t"
  using w by (cases rule: loan_write.cases) (use s in \<open>auto simp: repayments_ok_def\<close>)

lemma store_ok_write: "loan_write frozen s t \<Longrightarrow> store_ok s \<Longrightarrow> store_ok t"
  unfolding store_ok_def
  using ids_ok_write one_live_write loans_ok_write rows_ok_write repayments_ok_write by blast

lemma store_ok_writes: "(loan_write frozen)\<^sup>*\<^sup>* s t \<Longrightarrow> store_ok s \<Longrightarrow> store_ok t"
  by (induction rule: rtranclp_induct) (auto intro: store_ok_write)

lemma store_ok_empty: "store_ok empty_loan_store"
  by (simp add: store_ok_def ids_ok_def one_live_def loans_ok_def rows_ok_def repayments_ok_def
      empty_loan_store_def)

section \<open>The handlers are sequences of events\<close>

definition via :: "string list \<Rightarrow> loan_store \<Rightarrow> loan_store \<Rightarrow> bool" where
  "via frozen s t \<longleftrightarrow> (loan_write frozen)\<^sup>*\<^sup>* s t \<and> store_ok t"

lemma via_refl: "store_ok s \<Longrightarrow> via frozen s s"
  by (simp add: via_def)

lemma via_write: "via frozen s t \<Longrightarrow> loan_write frozen t u \<Longrightarrow> via frozen s u"
  by (auto simp: via_def intro: store_ok_write)

lemma via_ids: "via frozen s t \<Longrightarrow> ids_ok t"
  by (simp add: via_def store_ok_def)

lemma kept_bind_log [kept]:
  "via z s0 s \<Longrightarrow> (\<And>t. via z s0 t \<Longrightarrow> loans t = loans s \<Longrightarrow> kept (via z s0) (f ()) t) \<Longrightarrow>
     kept (via z s0) (st_bind (log_effect e) f) s"
  using via_write [OF _ loan_write.log, of z s0 s e] by (simp add: kept_def wp log_effect_def)

lemma kept_log [kept]: "via z s0 s \<Longrightarrow> kept (via z s0) (log_effect e) s"
  using via_write [OF _ loan_write.log, of z s0 s e] by (simp add: kept_def wp log_effect_def)

lemma kept_bind_recordStatus [kept]:
  "via z s0 s \<Longrightarrow> (\<And>t. via z s0 t \<Longrightarrow> kept (via z s0) (f ()) t) \<Longrightarrow>
     kept (via z s0) (st_bind (recordStatus d a b n) f) s"
  unfolding recordStatus_def by (rule kept_bind_log)

lemma kept_recordStatus [kept]: "via z s0 s \<Longrightarrow> kept (via z s0) (recordStatus d a b n) s"
  unfolding recordStatus_def by (rule kept_log)

lemma kept_bind_notify [kept]:
  "via z s0 s \<Longrightarrow> (\<And>t. via z s0 t \<Longrightarrow> kept (via z s0) (f ()) t) \<Longrightarrow>
     kept (via z s0) (st_bind (notifyEmployee k e d) f) s"
  unfolding notifyEmployee_def by (cases "e_userId e") (auto intro: kept)

lemma kept_bind_getEmployee [kept]:
  "V s \<Longrightarrow> (\<And>e. kept V (f e) s) \<Longrightarrow> kept V (st_bind (getEmployee env x) f) s"
  unfolding getEmployee_def by (rule kept_bind_lift)

lemma findLoan_Some: "findLoan P s = Some l \<Longrightarrow> l \<in> set (loans s) \<and> P l \<and> \<not> l_isDeleted l"
  using find_Some_iff_hd [of _ "loans s" l] by (auto simp: findLoan_def)

lemma findLoan_None: "findLoan P s = None \<longleftrightarrow> (\<forall>l \<in> set (loans s). l_isDeleted l \<or> \<not> P l)"
  by (auto simp: findLoan_def find_None_iff_all)

lemma kept_bind_getForEmployee [kept]:
  assumes "V s" "\<And>d. d \<in> set (loans s) \<Longrightarrow> l_id d = docId \<Longrightarrow> l_employeeId d = x \<Longrightarrow> kept V (f d) s"
  shows "kept V (st_bind (getForEmployee x docId) f) s"
proof (cases "findLoan (\<lambda>l. l_id l = docId \<and> l_employeeId l = x) s")
  case None
  then show ?thesis using assms(1) by (simp add: kept_def wp_bind) (simp add: st_wp_def getForEmployee_def)
next
  case (Some d)
  then have "kept V (f d) s" using findLoan_Some [OF Some] assms(2) by blast
  then show ?thesis by (simp add: kept_def wp_bind) (simp add: st_wp_def getForEmployee_def Some)
qed

lemma via_same: "via z s0 s \<Longrightarrow> d \<in> set (loans s) \<Longrightarrow> l \<in> set (loans s) \<Longrightarrow> l_id l = l_id d \<Longrightarrow> l = d"
  using loan_by_id [OF via_ids] by blast

lemma kept_updateLoanById:
  assumes "via z s0 s" "\<And>l. l \<in> set (loans s) \<Longrightarrow> l_id l = docId \<Longrightarrow> loan_change s l (bump_loan f by l)"
  shows "kept (via z s0) (updateLoanById docId v f by) s"
proof (cases "findLoan (\<lambda>l. l_id l = docId \<and> l_version l = v) s")
  case None
  then show ?thesis using assms(1) by (simp add: kept_def st_wp_def updateLoanById_def)
next
  case (Some l)
  then have "loan_write z s (put_loan (bump_loan f by l) s)"
    using findLoan_Some [OF Some] assms(2) by (intro loan_write.change) auto
  then show ?thesis using via_write [OF assms(1)] by (simp add: kept_def st_wp_def updateLoanById_def Some)
qed

lemma kept_bind_update:
  assumes "via z s0 s" "d \<in> set (loans s)" "l_id d = docId" "loan_change s d (bump_loan f by d)"
    "\<And>x t. via z s0 t \<Longrightarrow> kept (via z s0) (k x) t"
  shows "kept (via z s0) (st_bind (updateLoanById docId v f by) k) s"
proof (rule kept_bind [OF kept_updateLoanById [OF assms(1)]])
  show "loan_change s l (bump_loan f by l)" if "l \<in> set (loans s)" "l_id l = docId" for l
    using via_same [OF assms(1,2), of l] that assms(3,4) by simp
qed (use assms(5) in auto)

lemma kept_last_update:
  assumes "via z s0 s" "d \<in> set (loans s)" "l_id d = docId" "loan_change s d (bump_loan f by d)"
  shows "kept (via z s0) (updateLoanById docId v f by) s"
  using kept_bind_update [OF assms, of st_return v] kept_updateLoanById [OF assms(1)]
    via_same [OF assms(1,2)] assms(3,4) by metis

text \<open>Instalments.\<close>

definition via_rows :: "string list \<Rightarrow> loan_store \<Rightarrow> loan_store \<Rightarrow> loan_store \<Rightarrow> bool" where
  "via_rows z s0 s t \<longleftrightarrow> via z s0 t \<and> loans t = loans s \<and> repayments t = repayments s"

lemma via_rowsD: "via_rows z s0 s t \<Longrightarrow> via z s0 t" "via_rows z s0 s t \<Longrightarrow> loans t = loans s"
  "via_rows z s0 s t \<Longrightarrow> repayments t = repayments s"
  by (simp_all add: via_rows_def)

lemma kept_upsert:
  assumes v: "via_rows z s0 s t" and d: "disbursing s (l_id doc)"
    and row: "si_period row \<notin> set z" "0 < si_amountMinor row"
  shows "kept (via_rows z s0 s) (upsertInstallment doc by row) t"
proof -
  let ?new = "planned_row doc row by (next_oid t)"
  have "loan_write z t (t\<lparr>installments := installments t @ [?new], next_oid := next_oid t + 1\<rparr>)"
    if "\<not> seq_taken t ?new" "\<not> month_taken t ?new"
    using that row d via_rowsD(2) [OF v]
    by (intro loan_write.plan) (simp_all add: planned_row_def disbursing_def)
  then show ?thesis
    using v via_write [of z s0 t]
    by (auto simp: kept_def st_wp_def upsertInstallment_def via_rows_def seq_taken_def month_taken_def planned_row_def)
qed

lemma kept_writeSchedule:
  assumes "via z s0 s" "disbursing s (l_id doc)"
    "\<forall>row \<in> set rows. si_period row \<notin> set z \<and> 0 < si_amountMinor row"
  shows "kept (via_rows z s0 s) (writeSchedule doc rows by) s"
  unfolding writeSchedule_def
proof (rule kept_each)
  show "via_rows z s0 s s" using assms(1) by (simp add: via_rows_def)
  show "kept (via_rows z s0 s) (upsertInstallment doc by row) t" if "row \<in> set rows" "via_rows z s0 s t" for row t
    using that assms by (intro kept_upsert) auto
qed

lemma kept_cancelInstallments:
  assumes "via z s0 s" "\<forall>r \<in> set (installments s). P r \<longrightarrow> i_status r = InstPlanned"
  shows "kept (via_rows z s0 s) (cancelInstallments P by) s"
  using via_write [OF assms(1) withdraw_rows [OF assms(2)]]
  by (simp add: kept_def wp cancelInstallments_def via_rows_def)

lemma renumber_rows: "x \<in> set (renumber n rows) \<Longrightarrow> (si_period x, si_amountMinor x) \<in> set rows"
  by (induction n rows rule: renumber.induct) auto

lemma planned_rows:
  "r \<in> set (plannedForLoan loanId s) \<longleftrightarrow>
     r \<in> set (installments s) \<and> i_loanId r = loanId \<and> i_status r = InstPlanned \<and> \<not> i_isDeleted r"
  by (auto simp: plannedForLoan_def)

lemma kept_rewriteSchedule:
  assumes v: "via z s0 s" and d: "disbursing s (l_id doc)"
    and replaced: "set replaced \<subseteq> set (plannedForLoan (l_id doc) s)"
    and rows: "\<forall>x \<in> set rows. fst x \<notin> set z \<and> 0 < snd x"
  shows "kept (via_rows z s0 s) (rewriteSchedule doc planned replaced rows by) s"
proof -
  have "i_status r = InstPlanned" if r: "r \<in> set (installments s)" "i_id r \<in> set (map i_id replaced)" for r
  proof -
    obtain r' where r': "r' \<in> set replaced" "i_id r = i_id r'" using r(2) by auto
    then have p: "r' \<in> set (installments s)" "i_status r' = InstPlanned" using replaced planned_rows by blast+
    have "r = r'" by (rule row_by_id [OF via_ids [OF v] r(1) p(1) r'(2)])
    then show ?thesis using p by simp
  qed
  then have "\<forall>r \<in> set (installments s). i_id r \<in> set (map i_id replaced) \<longrightarrow> i_status r = InstPlanned" by blast
  note c = kept_cancelInstallments [OF v this]
  show ?thesis unfolding rewriteSchedule_def
  proof (rule kept_bind [OF c])
    fix x t assume t: "via_rows z s0 s t"
    have "kept (via_rows z s0 t) (writeSchedule doc (renumber (next_seq planned) rows) by) t"
      using d rows renumber_rows via_rowsD [OF t]
      by (intro kept_writeSchedule) (fastforce simp: disbursing_def)+
    then show "kept (via_rows z s0 s) (writeSchedule doc (renumber (next_seq planned) rows) by) t"
      by (rule kept_mono) (use t in \<open>simp add: via_rows_def\<close>)
  qed
qed

lemma kept_bind_rows:
  assumes "kept (via_rows z s0 s) m s" "\<And>x t. via z s0 t \<Longrightarrow> loans t = loans s \<Longrightarrow> repayments t = repayments s \<Longrightarrow>
      kept (via z s0) (f x) t"
  shows "kept (via z s0) (st_bind m f) s"
  by (rule kept_bind [OF assms(1)]) (use assms(2) in \<open>auto simp: via_rows_def\<close>)

subsection \<open>Requests and decisions\<close>

lemma bump_loan_sel [simp]:
  "l_version (bump_loan f by l) = l_version l + 1" "l_id (bump_loan f by l) = l_id (f l)"
  "l_status (bump_loan f by l) = l_status (f l)" "l_employeeId (bump_loan f by l) = l_employeeId (f l)"
  "l_isDeleted (bump_loan f by l) = l_isDeleted (f l)" "l_principal (bump_loan f by l) = l_principal (f l)"
  "l_currency (bump_loan f by l) = l_currency (f l)" "l_type (bump_loan f by l) = l_type (f l)"
  "l_installmentCount (bump_loan f by l) = l_installmentCount (f l)"
  "l_firstPeriod (bump_loan f by l) = l_firstPeriod (f l)"
  "l_submittedBy (bump_loan f by l) = l_submittedBy (f l)" "l_decidedBy (bump_loan f by l) = l_decidedBy (f l)"
  "l_externalSettlement (bump_loan f by l) = l_externalSettlement (f l)"
  by (simp_all add: bump_loan_def)

lemmas change_defs = same_loan_def kept_terms_def kept_people_def

lemma findLive_None:
  "findLive x exclude s = None \<longleftrightarrow> (\<forall>l \<in> set (loans s). l_isDeleted l \<or>
     \<not> (l_employeeId l = x \<and> live_status (l_status l) \<and> Some (l_id l) \<noteq> exclude))"
  by (simp add: findLive_def findLoan_None)

lemma kept_create: "via z s0 s \<Longrightarrow> kept (via z s0) (create_loan_op env x input) s"
proof -
  have ins: "kept (via z s0) (insertLoan (draft_loan env x e input a)) s" if "via z s0 s" for e a
    using via_write [OF that loan_write.insert, of "draft_loan env x e input a (next_oid s)"]
    by (simp add: kept_def st_wp_def insertLoan_def draft_loan_def)
  show "via z s0 s \<Longrightarrow> ?thesis" unfolding create_loan_op_def
    by (intro kept kept_bind [OF ins]) (auto intro: kept)
qed

lemma kept_update: "via z s0 s \<Longrightarrow> kept (via z s0) (update_loan_op env x docId input v) s"
  unfolding update_loan_op_def
  by (intro kept kept_bind_update; assumption?)
    (auto intro!: loan_change.edit simp: change_defs edit_loan_def)

lemma kept_submit: "via z s0 s \<Longrightarrow> kept (via z s0) (submit_loan_op env x docId v) s"
  unfolding submit_loan_op_def
  by (intro kept kept_bind_update; assumption?)
    (auto intro!: loan_change.submit simp: change_defs findLive_None other_live_def)

lemma decide_change:
  assumes "l_status d = LoanPendingApproval" "l_submittedBy d \<noteq> Some u"
  shows "loan_change s d (bump_loan (\<lambda>l. l\<lparr>l_status := (if a then LoanApproved else LoanDraft),
    l_decidedBy := Some u, l_decidedAt := t, l_decisionNote := n\<rparr>) by d)"
proof (cases a)
  case True
  with assms show ?thesis by (intro loan_change.approve) (auto simp: change_defs)
next
  case False
  with assms show ?thesis by (intro loan_change.reject) (auto simp: change_defs)
qed

lemma kept_decide: "via z s0 s \<Longrightarrow> kept (via z s0) (decide_loan_op env x docId a n v) s"
  unfolding decide_loan_op_def
  by (intro kept kept_bind_update decide_change; assumption?)

lemma kept_cancel: "via z s0 s \<Longrightarrow> kept (via z s0) (cancel_loan_op env x docId r v) s"
  unfolding cancel_loan_op_def
  by (intro kept kept_bind_update; assumption?)
    (auto intro!: loan_change.withdraw simp: change_defs)

subsection \<open>Money out, and the schedule\<close>

lemma schedule_positive:
  "generateSchedule minor count first = Inr rows \<Longrightarrow> row \<in> set rows \<Longrightarrow> 0 < si_amountMinor row"
  using generateSchedule_Inr(1-3,8) [of minor count first rows] pos_imp_zdiv_pos_iff [of count minor]
  by fastforce

lemma schedule_of_loan:
  assumes "assertSchedulable env e amount currency count first = Inr u" "toMinorUnits amount = Inr minor"
    "generateSchedule minor count first = Inr rows"
  shows "\<forall>row \<in> set rows. si_period row \<notin> set (env_frozen env) \<and> 0 < si_amountMinor row"
proof -
  note g = generateSchedule_Inr [OF assms(3)]
  have "assertPeriodsOpen env (map si_period rows) = Inr u"
    using assms(1,2) g(6) by (auto simp: assertSchedulable_def res_bind_Inr)
  then have "\<forall>row \<in> set rows. si_period row \<notin> set (env_frozen env)"
    by (auto simp: assertPeriodsOpen_def filter_empty_conv)
  then show ?thesis using schedule_positive [OF assms(3)] by blast
qed

lemma kept_disburse: "via (env_frozen env) s0 s \<Longrightarrow>
    kept (via (env_frozen env) s0) (disburse_loan_op env x docId t n v) s"
  unfolding disburse_loan_op_def
  apply (intro kept; assumption?)
  apply (rule kept_bind_rows)
   apply (rule kept_writeSchedule; (assumption)?)
    apply (force simp: disbursing_def)
   apply (auto simp: res_bind_Inr dest: schedule_of_loan)[1]
  apply (intro kept kept_bind_update; assumption?)
   apply (auto intro!: loan_change.disburse simp: change_defs res_bind_Inr)
  done

lemma rows_positive: "via z s0 s \<Longrightarrow> r \<in> set (installments s) \<Longrightarrow> 0 < i_amountMinor r"
  by (simp add: via_def store_ok_def rows_ok_def)

lemma kept_reschedule: "via (env_frozen env) s0 s \<Longrightarrow>
    kept (via (env_frozen env) s0) (reschedule_loan_op env x docId c f r v) s"
  unfolding reschedule_loan_op_def
  apply (intro kept; assumption?)
  apply (rule kept_bind_rows)
   apply (rule kept_rewriteSchedule; (assumption)?)
     apply (force simp: disbursing_def)
    apply force
   apply (auto dest: schedule_positive)[1]
  apply (intro kept; assumption?)
  apply (rule kept_last_update; (assumption | (simp, assumption))?)
  apply (auto intro!: loan_change.touch simp: change_defs)
  done

lemma accelerated_rows:
  assumes "accelerateTail (i_period target, i_amountMinor target)
      (map (\<lambda>r. (i_period r, i_amountMinor r)) later) extra = Inr rows"
    "\<forall>r \<in> set (target # later). 0 < i_amountMinor r \<and> i_period r \<notin> z"
  shows "\<forall>x \<in> set rows. fst x \<notin> z \<and> 0 < snd x"
proof -
  have "\<forall>r \<in> set (map (\<lambda>r. (i_period r, i_amountMinor r)) later). 0 < snd r" using assms(2) by auto
  note a = accelerateTail_Inr [OF assms(1) this]
  have "set (map fst rows) \<subseteq> i_period ` set (target # later)"
    using set_mono_prefix [OF a(4)] by (auto simp: comp_def)
  then have "\<forall>x \<in> set rows. fst x \<notin> z" using assms(2) by fastforce
  moreover have "\<forall>x \<in> set rows. 0 < snd x"
    using a(2,3,5) assms(2) by (cases rows) auto
  ultimately show ?thesis by blast
qed

lemma kept_accelerate: "via (env_frozen env) s0 s \<Longrightarrow>
    kept (via (env_frozen env) s0) (accelerate_loan_op env x docId p a r v) s"
  unfolding accelerate_loan_op_def
  apply (intro kept; assumption?)
  apply (rule kept_bind_rows)
   apply (rule kept_rewriteSchedule; (assumption)?)
     apply (force simp: disbursing_def)
    apply (force dest: find_Some_iff_hd)
   apply (rule accelerated_rows, assumption)
   apply (force dest: find_Some_iff_hd simp: planned_rows intro: rows_positive)
  apply (intro kept; assumption?)
  apply (rule kept_last_update; (assumption | (simp, assumption))?)
  apply (auto intro!: loan_change.touch simp: change_defs)
  done

lemma settle_change:
  assumes "via z s0 s" "d \<in> set (loans s)" "l_status d = LoanActive"
    "remainingMinorOf d (repaidMinor (l_id d) s) = Inr paid" "repayments t = repayments s"
    "x_amountMinor x = paid"
  shows "loan_change t d (bump_loan (\<lambda>l. l\<lparr>l_status := LoanSettled, l_externalSettlement := Some x,
    l_attachmentFileId := g l\<rparr>) by d)"
proof -
  have "settled_clear s d" using assms(1,2) by (simp add: via_def store_ok_def loans_ok_def)
  then have "l_externalSettlement d = None" using assms(3) by (simp add: settled_clear_def)
  then have "remainingMinorOf (bump_loan (\<lambda>l. l\<lparr>l_status := LoanSettled, l_externalSettlement := Some x,
    l_attachmentFileId := g l\<rparr>) by d) (repaidMinor (l_id d) t) = Inr 0"
    using assms(4,5,6) by (auto simp: remainingMinorOf_def repaidMinor_def split: sum.splits)
  then show ?thesis using assms(3) by (intro loan_change.settle [where m = 0]) (auto simp: change_defs)
qed

lemma kept_settle: "via (env_frozen env) s0 s \<Longrightarrow>
    kept (via (env_frozen env) s0) (settle_externally_op env x docId a r f v) s"
  unfolding settle_externally_op_def
  apply (intro kept; assumption?)
  apply (rule kept_bind_rows)
   apply (rule kept_cancelInstallments; simp)
  apply (intro kept kept_bind_update; assumption?)
   apply simp
  apply (rule settle_change)
       apply auto
  done

subsection \<open>The payroll seam and the exit\<close>

lemma kept_settleIfCleared: "via z s0 s \<Longrightarrow> kept (via z s0) (settleIfCleared docId) s"
  unfolding settleIfCleared_def
  apply (intro kept kept_bind_update; assumption?)
    apply (auto simp: findLoanById_def dest: findLoan_Some
      intro!: loan_change.settle simp: change_defs cong: remainingMinorOf_cong)
  done

lemma kept_withdraw_doomed:
  assumes "via z s0 s"
  shows "kept (via_rows z s0 s) (if plannedForEmployeeAfter x p s = [] then st_return ()
    else cancelInstallments (\<lambda>r. i_id r \<in> set (map i_id (plannedForEmployeeAfter x p s))) by) s"
proof -
  have "i_status r = InstPlanned" if r: "r \<in> set (installments s)"
    "i_id r \<in> set (map i_id (plannedForEmployeeAfter x p s))" for r
  proof -
    obtain r' where "r' \<in> set (installments s)" "i_id r = i_id r'" "i_status r' = InstPlanned"
      using r(2) by (auto simp: plannedForEmployeeAfter_def)
    then show ?thesis using row_by_id [OF via_ids [OF assms] r(1)] by metis
  qed
  then show ?thesis using assms by (intro kept kept_cancelInstallments) (auto simp: via_rows_def)
qed

lemma findLive_Some: "findLive x e s = Some l \<Longrightarrow> l \<in> set (loans s) \<and> l_employeeId l = x \<and> live_status (l_status l)"
  by (auto simp: findLive_def dest: findLoan_Some)

lemma findLoanById_Some: "findLoanById d s = Some l \<Longrightarrow> l \<in> set (loans s) \<and> l_id l = d"
  by (auto simp: findLoanById_def dest: findLoan_Some)

lemma kept_exited: "via z s0 s \<Longrightarrow> kept (via z s0) (onEmployeeExited env x t) s"
  unfolding onEmployeeExited_def
  apply (intro kept; assumption?)
  apply (rule kept_bind_rows)
   apply (rule kept_withdraw_doomed, assumption)
  apply (intro kept; assumption?)
   apply (rule kept_bind_update, assumption)
      apply (simp, erule conjunct1 [OF findLive_Some])
     apply simp
    apply (frule findLive_Some, auto intro!: loan_change.withdraw simp: change_defs live_status_def)[1]
   apply (intro kept; assumption?)
  apply (rule kept_bind_update, assumption)
     apply (simp, erule conjunct1 [OF findLive_Some])
    apply simp
   apply (auto intro!: loan_change.exit simp: change_defs)[1]
  apply (intro kept; assumption?)
  done

lemma kept_recordDeducted:
  assumes "via z s0 s" "0 < p_amountMinor input"
  shows "kept (via z s0) (recordDeducted env input) s"
proof -
  have ins: "kept (via z s0) (insertRepayment row) t" if "via z s0 t" "0 < r_amountMinor row" for row t
    using via_write [OF that(1) loan_write.repay, of "row\<lparr>r_id := next_oid t\<rparr>"] that
    by (auto simp: kept_def st_wp_def insertRepayment_def)
  have mark: "kept (via z s0) (markDeducted d) t" if "via z s0 t" for d t
    using via_write [OF that loan_write.deduct] by (simp add: kept_def wp markDeducted_def)
  show ?thesis unfolding recordDeducted_def
    using assms by (intro kept kept_bind [OF ins] kept_bind [OF mark] kept_bind [OF kept_settleIfCleared]) auto
qed

subsection \<open>Every request\<close>

lemma kept_outcome: "kept V m s \<Longrightarrow> kept V (outcome m) s"
  unfolding outcome_def by (rule kept_bind [where W = V]) (auto intro: kept)

lemma kept_run:
  assumes "via (env_frozen env) s0 s" "valid_loan_op op"
  shows "kept (via (env_frozen env) s0) (run_loan_op env op) s"
  using assms
  by (cases op) (auto intro!: kept_outcome kept_create kept_update kept_submit kept_decide kept_disburse
    kept_cancel kept_reschedule kept_settle kept_accelerate kept_recordDeducted kept_exited)

lemma run_loan_op_via:
  assumes "run_loan_op env op s = (t, r)" "valid_loan_op op" "store_ok s"
  shows "via (env_frozen env) s t"
  by (rule keptD [OF kept_run [OF via_refl [OF assms(3)] assms(2)] assms(1)])


section \<open>The deduction of a month never fails\<close>

text \<open>A loan under repayment has a principal that is an amount of money, since its schedule was computed
  from it; so what is left of it can always be told, and recording a deduction always ends.\<close>

definition active_priced :: "loan_store \<Rightarrow> bool" where
  "active_priced s \<longleftrightarrow> (\<forall>l \<in> set (loans s). l_status l = LoanActive \<longrightarrow> (\<exists>m. toMinorUnits (l_principal l) = Inr m))"

lemma active_priced_write: "loan_write frozen s t \<Longrightarrow> active_priced s \<Longrightarrow> active_priced t"
proof (erule loan_writeE)
  fix d d' assume "active_priced s" "t = put_loan d' s" "d \<in> set (loans s)" "loan_change s d d'"
  moreover from this have "l_status d' = LoanActive \<longrightarrow> (\<exists>m. toMinorUnits (l_principal d') = Inr m)"
    by (elim loan_changeE) (auto simp: active_priced_def kept_terms_def)
  ultimately show "active_priced t" by (auto simp: active_priced_def)
qed (auto simp: active_priced_def)

lemma active_priced_writes: "(loan_write frozen)\<^sup>*\<^sup>* s t \<Longrightarrow> active_priced s \<Longrightarrow> active_priced t"
  by (induction rule: rtranclp_induct) (auto intro: active_priced_write)

lemma settleIfCleared_total:
  assumes "active_priced s"
  shows "\<exists>t. settleIfCleared d s = (t, Inr ())"
proof (cases "findLoanById d s")
  case (Some l)
  then have l: "l \<in> set (loans s)" "l_id l = d" "\<not> l_isDeleted l"
    by (auto simp: findLoanById_def findLoan_def dest: find_Some_iff_hd)
  show ?thesis
  proof (cases "l_status l = LoanActive")
    case True
    then obtain m where m: "toMinorUnits (l_principal l) = Inr m" using assms l by (auto simp: active_priced_def)
    have "findLoan (\<lambda>x. l_id x = d \<and> l_version x = l_version l) s \<noteq> None"
      using l by (auto simp: findLoan_def find_None_iff_all)
    then show ?thesis using True Some m
      by (auto simp: settleIfCleared_def st_defs st_bind_def remainingMinorOf_def updateLoanById_def recordStatus_def log_effect_def)
  qed (simp add: settleIfCleared_def st_defs st_bind_def Some)
qed (simp add: settleIfCleared_def st_defs st_bind_def)

end
