(* ===== verification/Loan_Claims.thy ===== *)
theory Loan_Claims
  imports Loan_Ledger
begin

text \<open>
  What the loan service guarantees, over every sequence of requests (\<open>loan_reachable\<close>) and for the
  single operations: one live loan per employee, the two-person rule, no debt behind a settled loan,
  a history that is never rewritten, the schedule and its rescheduling conserving the debt, and the
  two situations in which the code does not conserve it.
\<close>

section \<open>Reachable stores\<close>

inductive_cases loan_stepE: "loan_step s t"

lemma reachable_ok: "loan_reachable s \<Longrightarrow> store_ok s"
proof (induction rule: loan_reachable.induct)
  case (step s t)
  from step(2) show ?case
    by (rule loan_stepE) (use run_loan_op_via step.IH in \<open>auto simp: via_def\<close>)
qed (rule store_ok_empty)

text \<open>A reachable store with an active loan, for the witnesses: a request drafted and submitted by user
  1, approved by user 2 and paid out, over months nobody has closed.\<close>

definition demo_employee :: loan_employee where
  "demo_employee = \<lparr>e_code = ''E-7'', e_userId = Some 70, e_branchId = Some 3, e_departmentId = None,
     e_salaryCurrency = Some ''EGP'',
     e_dates = \<lparr>hiredAt = 1577836800000, exitDate = None, employmentPeriods = []\<rparr>\<rparr>"

definition demo_env :: "oid \<Rightarrow> string list \<Rightarrow> loan_env" where
  "demo_env user frozen =
     \<lparr>env_user = user, env_now = 1704067200000,
      env_employee = (\<lambda>x. if x = 7 then Some demo_employee else None),
      env_frozen = frozen, env_file = (\<lambda>_. Inl (NotFoundError ''file''))\<rparr>"

definition demo_input :: create_loan where
  "demo_input = \<lparr>c_type = PlainLoan, c_principal = Finite False 400 [], c_currency = ''EGP'',
     c_installmentCount = 4, c_firstPeriod = ''2024-01'', c_reason = ''reason'', c_note = None,
     c_attachmentFileId = None\<rparr>"

fun run_all :: "(loan_env \<times> loan_op) list \<Rightarrow> loan_store \<Rightarrow> loan_store" where
  "run_all [] s = s"
| "run_all ((env, op) # ops) s = run_all ops (fst (run_loan_op env op s))"

lemma run_all_reachable:
  "loan_reachable s \<Longrightarrow> list_all (\<lambda>x. valid_loan_op (snd x)) ops \<Longrightarrow> loan_reachable (run_all ops s)"
proof (induction ops s rule: run_all.induct)
  case (2 env op ops s)
  have "loan_step s (fst (run_loan_op env op s))"
    using 2(3) by (intro loan_step.request [of env op s _ "snd (run_loan_op env op s)"]) auto
  then show ?case using 2 by (auto intro: loan_reachable.step)
qed simp

text \<open>The stores after the submission and after the payment.\<close>

definition demo_loan :: loan_doc where
  "demo_loan =
     \<lparr>l_id = 100, l_employeeId = 7, l_type = PlainLoan, l_principal = Finite False 400 [],
      l_currency = ''EGP'', l_installmentCount = 4, l_firstPeriod = ''2024-01'', l_reason = ''reason'',
      l_note = None, l_attachmentFileId = None, l_status = LoanPendingApproval, l_submittedBy = Some 11,
      l_submittedAt = Some 1704067200000, l_decidedBy = None, l_decidedAt = None, l_decisionNote = None,
      l_disbursedAt = None, l_disbursedBy = None, l_disbursementNote = None, l_externalSettlement = None,
      l_cancelledBy = None, l_cancelledAt = None, l_cancelReason = None, l_branchId = Some 3,
      l_departmentId = None, l_createdBy = 11, l_updatedBy = Some 11, l_version = 1, l_isDeleted = False\<rparr>"

definition demo_pending :: loan_store where
  "demo_pending = \<lparr>loans = [demo_loan], installments = [], repayments = [], next_oid = 101,
     loan_effects =
       [AuditRecorded 100 ''create''
          [(''type'', CNull, CStr ''loan''), (''principal'', CNull, CNum (Finite False 400 [])),
           (''installmentCount'', CNull, CInt 4), (''firstPeriod'', CNull, CStr ''2024-01'')],
        AuditRecorded 100 ''statusChange'' [(''status'', CStr ''draft'', CStr ''pendingApproval'')],
        EventEmitted ''hr.employeeLoan.submitted'' 100 7,
        Notified ''hr.employeeLoan.submitted'' None 100]\<rparr>"

definition demo_row :: "oid \<Rightarrow> int \<Rightarrow> string \<Rightarrow> int \<Rightarrow> installment_doc" where
  "demo_row docId sq period amount =
     \<lparr>i_id = docId, i_loanId = 100, i_employeeId = 7, i_seq = sq, i_period = period, i_amountMinor = amount,
      i_status = InstPlanned, i_branchId = Some 3, i_createdBy = 12, i_updatedBy = None, i_version = 0,
      i_isDeleted = False\<rparr>"

definition demo_active :: loan_store where
  "demo_active = \<lparr>loans = [demo_loan\<lparr>l_status := LoanActive, l_decidedBy := Some 12,
       l_decidedAt := Some 1704067200000, l_disbursedAt := Some 1704153600000, l_disbursedBy := Some 12,
       l_updatedBy := Some 12, l_version := 3\<rparr>],
     installments = [demo_row 101 1 ''2024-01'' 10000, demo_row 102 2 ''2024-02'' 10000,
       demo_row 103 3 ''2024-03'' 10000, demo_row 104 4 ''2024-04'' 10000],
     repayments = [], next_oid = 105,
     loan_effects = loan_effects demo_pending @
       [AuditRecorded 100 ''statusChange'' [(''status'', CStr ''pendingApproval'', CStr ''approved'')],
        EventEmitted ''hr.employeeLoan.decided'' 100 7,
        Notified ''hr.employeeLoan.decided'' (Some 70) 100,
        AuditRecorded 100 ''statusChange''
          [(''status'', CStr ''approved'', CStr ''active''), (''disbursedAt'', CNull, CStr ''2024-01-02''),
           (''installments'', CNull, CInt 4)],
        EventEmitted ''hr.employeeLoan.disbursed'' 100 7,
        Notified ''hr.employeeLoan.disbursed'' (Some 70) 100]\<rparr>"

lemma demo_env_simps [simp]:
  "env_user (demo_env u z) = u" "env_now (demo_env u z) = 1704067200000"
  "env_employee (demo_env u z) 7 = Some demo_employee" "env_frozen (demo_env u z) = z"
  by (simp_all add: demo_env_def)

lemma demo_employee_simps [simp]:
  "e_salaryCurrency demo_employee = Some ''EGP''" "e_userId demo_employee = Some 70"
  "e_branchId demo_employee = Some 3" "e_departmentId demo_employee = None"
  by (simp_all add: demo_employee_def)

lemmas minor_run = toMinorUnits.simps MONEY_MAX_AMOUNT_def NEGLIGIBLE_def Let_def MONEY_MINOR_UNITS_PER_UNIT_def abs_value_def

lemmas within_run = assertWithinEmployment_def date_run period_eval demo_employee_def res_ensure_def
  spanContaining_def employmentSpansOf_def span_covers_def

lemma demo_periods:
  "periodsFrom ''2024-01'' 4 = Inr [''2024-01'', ''2024-02'', ''2024-03'', ''2024-04'']"
  by (simp add: period_run)

lemma demo_within:
  "assertWithinEmployment demo_employee [''2024-01'', ''2024-02'', ''2024-03'', ''2024-04''] = Inr ()"
  by (simp add: within_run)

lemma demo_minor: "toMinorUnits (Finite False 400 []) = Inr 40000"
  by (simp add: minor_run)

lemma demo_schedulable:
  "assertSchedulable (demo_env u []) demo_employee (Finite False 400 []) ''EGP'' 4 ''2024-01'' = Inr ()"
  by (simp add: assertSchedulable_def num_nonpositive_def res_ensure_def demo_periods demo_within demo_minor abs_value_def
      assertPeriodsOpen_def)

lemmas loan_run = outcome_def st_defs st_bind_def demo_input_def draft_loan_def resolve_optional_def
  insertLoan_def log_effect_def recordStatus_def create_loan_op_def submit_loan_op_def decide_loan_op_def
  disburse_loan_op_def getEmployee_def getForEmployee_def findLive_def findLoan_def findLoanById_def
  updateLoanById_def put_loan_def bump_loan_def notifyEmployee_def assertFresh_def live_status_def
  upsertInstallment_def planned_row_def res_ensure_def writeSchedule_def

lemma demo_pending_run:
  "fst (run_loan_op (demo_env 11 []) (OpSubmit 7 100 0)
     (fst (run_loan_op (demo_env 11 []) (OpCreate 7 demo_input) empty_loan_store))) = demo_pending"
  by (simp add: loan_run demo_schedulable empty_loan_store_def demo_pending_def demo_loan_def)

lemma demo_schedule:
  "generateSchedule 40000 4 ''2024-01'' =
     Inr [\<lparr>si_seq = 1, si_period = ''2024-01'', si_amountMinor = 10000\<rparr>,
          \<lparr>si_seq = 2, si_period = ''2024-02'', si_amountMinor = 10000\<rparr>,
          \<lparr>si_seq = 3, si_period = ''2024-03'', si_amountMinor = 10000\<rparr>,
          \<lparr>si_seq = 4, si_period = ''2024-04'', si_amountMinor = 10000\<rparr>]"
  by (simp add: generateSchedule_def demo_periods)

lemma demo_active_run:
  "fst (run_loan_op (demo_env 12 []) (OpDisburse 7 100 ''2024-01-02'' None 2)
     (fst (run_loan_op (demo_env 12 []) (OpDecide 7 100 True None 1) demo_pending))) = demo_active"
proof -
  have d: "toDateOnly (date_of_iso ''2024-01-02'') = 1704153600000"
  proof -
    have "100 \<le> utc_full_year 1704153600000"
      by (simp add: utc_full_year_def year_of_day_def date_run)
    then have "toDateOnly 1704153600000 = 1704153600000"
      by (simp add: toDateOnly_midnight) (simp add: ms_per_day_def)
    moreover have "date_of_iso ''2024-01-02'' = 1704153600000"
      by (simp add: date_of_iso_def parse_nat_def digit_val_def char_code_def date_run)
    ultimately show ?thesis by simp
  qed
  show ?thesis
    by (simp add: loan_run demo_schedulable demo_pending_def demo_loan_def demo_active_def demo_row_def
      d demo_minor demo_schedule)
qed

lemma demo_pending_reachable: "loan_reachable demo_pending"
  and demo_active_reachable: "loan_reachable demo_active"
proof -
  have "loan_reachable (run_all [(demo_env 11 [], OpCreate 7 demo_input), (demo_env 11 [], OpSubmit 7 100 0)]
      empty_loan_store)"
    by (rule run_all_reachable) (simp_all add: loan_reachable.init)
  then show p: "loan_reachable demo_pending" by (simp only: run_all.simps demo_pending_run)
  have "loan_reachable (run_all [(demo_env 12 [], OpDecide 7 100 True None 1),
      (demo_env 12 [], OpDisburse 7 100 ''2024-01-02'' None 2)] demo_pending)"
    by (rule run_all_reachable) (simp_all add: p)
  then show "loan_reachable demo_active" by (simp only: run_all.simps demo_active_run)
qed

section \<open>Over every sequence of requests\<close>

text \<open>C14. No employee ever has two loans that are waiting for a decision, approved or being repaid.\<close>

theorem one_live_loan:
  assumes "loan_reachable s" "l \<in> set (loans s)" "l' \<in> set (loans s)"
    "l_employeeId l = l_employeeId l'" "live_status (l_status l)" "live_status (l_status l')"
  shows "l = l'"
proof -
  have ok: "store_ok s" by (rule reachable_ok [OF assms(1)])
  then have "\<not> l_isDeleted l" "\<not> l_isDeleted l'" using assms by (auto simp: store_ok_def loans_ok_def)
  moreover have "one_live s" using ok by (simp add: store_ok_def)
  ultimately have "l_id l = l_id l'" using assms unfolding one_live_def by blast
  then show ?thesis using loan_by_id [of s l l'] ok assms by (simp add: store_ok_def)
qed

theorem one_live_loan_witness:
  "demo_loan = hd (loans demo_pending)"
  by (rule one_live_loan [OF demo_pending_reachable]) (simp_all add: demo_pending_def demo_loan_def live_status_def)

text \<open>C32. A loan that was approved, paid out, settled or left open at exit was submitted by one person and
  approved by another.\<close>

theorem two_person_rule:
  assumes "loan_reachable s" "l \<in> set (loans s)"
    "l_status l \<in> {LoanApproved, LoanActive, LoanSettled, LoanOutstandingAtExit}"
  shows "\<exists>a b. l_submittedBy l = Some a \<and> l_decidedBy l = Some b \<and> a \<noteq> b"
  using reachable_ok [OF assms(1)] assms(2,3) by (fastforce simp: store_ok_def loans_ok_def two_person_def)

theorem two_person_rule_witness:
  "\<exists>a b. l_submittedBy (hd (loans demo_active)) = Some a \<and> l_decidedBy (hd (loans demo_active)) = Some b \<and> a \<noteq> b"
  by (rule two_person_rule [OF demo_active_reachable]) (simp_all add: demo_active_def)

text \<open>C22. Nothing is owed on a settled loan: what payroll took and what was settled outside cover the
  principal.\<close>

theorem settled_owes_nothing:
  assumes "loan_reachable s" "l \<in> set (loans s)" "l_status l = LoanSettled"
  shows "\<exists>m. remainingMinorOf l (repaidMinor (l_id l) s) = Inr m \<and> m \<le> 0"
  using reachable_ok [OF assms(1)] assms(2,3) by (fastforce simp: store_ok_def loans_ok_def settled_clear_def)

definition demo_settled :: loan_store where
  "demo_settled = fst (run_loan_op (demo_env 12 []) (OpSettle 7 100 (Finite False 400 []) ''paid'' None 3) demo_active)"

lemma demo_settled_reachable: "loan_reachable demo_settled"
  using run_all_reachable [OF demo_active_reachable,
    of "[(demo_env 12 [], OpSettle 7 100 (Finite False 400 []) ''paid'' None 3)]"]
  by (simp add: demo_settled_def)

lemma demo_settled_loans:
  "loans demo_settled = [(hd (loans demo_active))\<lparr>l_status := LoanSettled,
     l_externalSettlement := Some \<lparr>x_amountMinor = 40000, x_reason = ''paid'', x_at = 1704067200000, x_by = Some 12\<rparr>,
     l_version := 4\<rparr>]"
  by (simp add: demo_settled_def loan_run settle_externally_op_def demo_active_def demo_loan_def
      repaidMinor_def remainingMinorOf_def demo_minor cancelInstallments_def)

theorem settled_owes_nothing_witness:
  "\<exists>m. remainingMinorOf (hd (loans demo_settled)) (repaidMinor (l_id (hd (loans demo_settled))) demo_settled) = Inr m \<and> m \<le> 0"
  by (rule settled_owes_nothing [OF demo_settled_reachable]) (simp_all add: demo_settled_loans)

section \<open>History is never rewritten\<close>

text \<open>The contract of a history relation: whatever single events do, requests do.\<close>

locale event_relation =
  fixes frozen :: "string list" and R :: "loan_store \<Rightarrow> loan_store \<Rightarrow> bool"
  assumes refl: "R x x"
    and trans: "R x y \<Longrightarrow> R y z \<Longrightarrow> R x z"
    and event: "loan_write frozen x y \<Longrightarrow> store_ok x \<Longrightarrow> R x y"
begin

lemma via_R:
  assumes "via frozen s t" "store_ok s"
  shows "R s t"
proof -
  have "(loan_write frozen)\<^sup>*\<^sup>* s t" using assms(1) by (simp add: via_def)
  then show ?thesis
  proof (induction rule: rtranclp_induct)
    case base
    show ?case by (rule refl)
  next
    case (step y z)
    have "store_ok y" by (rule store_ok_writes [OF step(1) assms(2)])
    then show ?case using trans event step by blast
  qed
qed

lemma request_R:
  assumes "loan_reachable s" "run_loan_op env op s = (t, r)" "valid_loan_op op" "frozen = env_frozen env"
  shows "R s t"
  using via_R run_loan_op_via [OF assms(2,3)] reachable_ok [OF assms(1)] assms(4) by simp

end

definition row_moves :: "installment_doc \<Rightarrow> installment_doc \<Rightarrow> bool" where
  "row_moves r r' \<longleftrightarrow> i_id r' = i_id r \<and> i_loanId r' = i_loanId r \<and> i_employeeId r' = i_employeeId r \<and>
     i_seq r' = i_seq r \<and> i_period r' = i_period r \<and> i_amountMinor r' = i_amountMinor r \<and>
     (i_status r' = i_status r \<or> i_status r = InstPlanned)"

definition rows_history :: "loan_store \<Rightarrow> loan_store \<Rightarrow> bool" where
  "rows_history s t \<longleftrightarrow> (\<forall>r \<in> set (installments s). \<exists>r' \<in> set (installments t). row_moves r r')"

lemma row_moves_refl [simp]: "row_moves r r"
  by (simp add: row_moves_def)

lemma row_moves_trans: "row_moves a b \<Longrightarrow> row_moves b c \<Longrightarrow> row_moves a c"
  by (auto simp: row_moves_def)

lemma rows_history_map: "installments t = map f (installments s) \<Longrightarrow>
    (\<And>r. r \<in> set (installments s) \<Longrightarrow> row_moves r (f r)) \<Longrightarrow> rows_history s t"
  by (auto simp: rows_history_def)

lemma rows_history_write:
  assumes "loan_write frozen s t"
  shows "rows_history s t"
  using assms
proof (cases rule: loan_write.cases)
  case (withdraw_rows P "by")
  show ?thesis
    by (rule rows_history_map [where f = "\<lambda>r. if P r then cancel_row by r else r"])
      (use withdraw_rows in \<open>auto simp: row_moves_def\<close>)
next
  case (deduct docId)
  show ?thesis
    by (rule rows_history_map [where f = "\<lambda>r. if i_id r = docId \<and> i_status r = InstPlanned
      then r\<lparr>i_status := InstDeducted, i_version := i_version r + 1\<rparr> else r"])
      (use deduct in \<open>auto simp: row_moves_def\<close>)
qed (auto simp: rows_history_def intro: row_moves_refl)

interpretation rows: event_relation frozen rows_history for frozen
proof
  show "rows_history x x" for x using row_moves_refl unfolding rows_history_def by blast
  show "rows_history x z" if h: "rows_history x y" "rows_history y z" for x y z
    using h row_moves_trans unfolding rows_history_def by meson
qed (rule rows_history_write)

lemma ledger_write:
  "loan_write frozen s t \<Longrightarrow> prefix (repayments s) (repayments t) \<and> prefix (loan_effects s) (loan_effects t)"
  by (erule loan_writeE) auto

interpretation ledger: event_relation frozen
  "\<lambda>s t. prefix (repayments s) (repayments t) \<and> prefix (loan_effects s) (loan_effects t)" for frozen
  by unfold_locales (auto dest: ledger_write intro: prefix_order.trans)

text \<open>No request rewrites the past: an instalment keeps its month, its number and its amount for
  ever, one that was deducted or cancelled keeps that status too, and the repayment ledger and the
  audit trail only grow at the end.\<close>

theorem history_kept:
  assumes "loan_reachable s" "loan_step s t"
  shows "(\<forall>r \<in> set (installments s). \<exists>r' \<in> set (installments t). row_moves r r') \<and>
    prefix (repayments s) (repayments t) \<and> prefix (loan_effects s) (loan_effects t)"
proof -
  obtain env op r where run: "run_loan_op env op s = (t, r)" "valid_loan_op op"
    using assms(2) by (blast elim: loan_stepE)
  show ?thesis
    using rows.request_R [OF assms(1) run] ledger.request_R [OF assms(1) run] by (auto simp: rows_history_def)
qed

lemma demo_step: "loan_step demo_active demo_settled"
  by (rule loan_step.request [of "demo_env 12 []" "OpSettle 7 100 (Finite False 400 []) ''paid'' None 3" _ _
    "snd (run_loan_op (demo_env 12 []) (OpSettle 7 100 (Finite False 400 []) ''paid'' None 3) demo_active)"])
    (simp_all add: demo_settled_def)

theorem history_kept_witness:
  "(\<exists>r' \<in> set (installments demo_settled). row_moves (demo_row 101 1 ''2024-01'' 10000) r') \<and>
    prefix (loan_effects demo_active) (loan_effects demo_settled)"
  using history_kept [OF demo_active_reachable demo_step] by (simp add: demo_active_def)

text \<open>Months and new instalments.\<close>

definition open_row :: "string list \<Rightarrow> installment_doc \<Rightarrow> bool" where
  "open_row frozen r \<longleftrightarrow> i_period r \<notin> set frozen \<and> 0 < i_amountMinor r"

definition new_rows_open :: "string list \<Rightarrow> loan_store \<Rightarrow> loan_store \<Rightarrow> bool" where
  "new_rows_open frozen s t \<longleftrightarrow> (\<forall>r \<in> set (installments t).
     open_row frozen r \<or> (\<exists>r' \<in> set (installments s). row_moves r' r))"

lemma new_rows_open_map: "installments t = map f (installments s) \<Longrightarrow>
    (\<And>r. r \<in> set (installments s) \<Longrightarrow> row_moves r (f r)) \<Longrightarrow> new_rows_open frozen s t"
  by (auto simp: new_rows_open_def)

lemma new_rows_open_same: "set (installments t) \<subseteq> set (installments s) \<union> {r. open_row frozen r} \<Longrightarrow> new_rows_open frozen s t"
  using row_moves_refl by (fastforce simp: new_rows_open_def)

lemma new_rows_open_write:
  assumes "loan_write frozen s t"
  shows "new_rows_open frozen s t"
  using assms
proof (cases rule: loan_write.cases)
  case (withdraw_rows P "by")
  show ?thesis
    by (rule new_rows_open_map [where f = "\<lambda>r. if P r then cancel_row by r else r"])
      (use withdraw_rows in \<open>auto simp: row_moves_def\<close>)
next
  case (deduct docId)
  show ?thesis
    by (rule new_rows_open_map [where f = "\<lambda>r. if i_id r = docId \<and> i_status r = InstPlanned
      then r\<lparr>i_status := InstDeducted, i_version := i_version r + 1\<rparr> else r"])
      (use deduct in \<open>auto simp: row_moves_def\<close>)
qed (auto intro!: new_rows_open_same simp: open_row_def)

lemma open_row_moves: "open_row frozen r \<Longrightarrow> row_moves r r' \<Longrightarrow> open_row frozen r'"
  by (simp add: open_row_def row_moves_def)

interpretation months: event_relation frozen "new_rows_open frozen" for frozen
proof
  show "new_rows_open frozen x z" if "new_rows_open frozen x y" "new_rows_open frozen y z" for x y z
    using that open_row_moves row_moves_trans unfolding new_rows_open_def by meson
qed (auto simp: new_rows_open_write new_rows_open_same)

text \<open>A request writes new instalments only into months that no payroll run has closed, and never one
  worth nothing.\<close>

theorem frozen_months_respected:
  assumes "loan_reachable s" "run_loan_op env op s = (t, res)" "valid_loan_op op"
    "r \<in> set (installments t)" "i_id r \<notin> set (map i_id (installments s))"
  shows "i_period r \<notin> set (env_frozen env) \<and> 0 < i_amountMinor r"
proof -
  have "new_rows_open (env_frozen env) s t" by (rule months.request_R [OF assms(1-3) refl])
  then show ?thesis using assms(4,5) by (auto simp: new_rows_open_def open_row_def row_moves_def)
qed

text \<open>Statuses.\<close>

fun status_rank :: "loan_status \<Rightarrow> nat" where
  "status_rank LoanDraft = 0"
| "status_rank LoanPendingApproval = 0"
| "status_rank LoanApproved = 1"
| "status_rank LoanActive = 2"
| "status_rank _ = 3"

definition loan_moves :: "loan_doc \<Rightarrow> loan_doc \<Rightarrow> bool" where
  "loan_moves l l' \<longleftrightarrow> l_id l' = l_id l \<and> l_employeeId l' = l_employeeId l \<and>
     status_rank (l_status l) \<le> status_rank (l_status l') \<and>
     (status_rank (l_status l) = 3 \<longrightarrow> l_status l' = l_status l) \<and>
     (1 \<le> status_rank (l_status l) \<longrightarrow> kept_terms l l' \<and> kept_people l l')"

lemma loan_moves_refl [simp]: "loan_moves l l"
  by (simp add: loan_moves_def change_defs)

lemma loan_moves_trans: "loan_moves a b \<Longrightarrow> loan_moves b c \<Longrightarrow> loan_moves a c"
  by (auto simp: loan_moves_def change_defs)

lemma change_moves: "loan_change s d d' \<Longrightarrow> loan_moves d d'"
  by (erule loan_changeE) (auto simp: loan_moves_def change_defs)

definition loans_history :: "loan_store \<Rightarrow> loan_store \<Rightarrow> bool" where
  "loans_history s t \<longleftrightarrow> (\<forall>l \<in> set (loans s). \<exists>l' \<in> set (loans t). loan_moves l l')"

lemma loans_history_write:
  assumes "loan_write frozen s t" "store_ok s"
  shows "loans_history s t"
  using assms(1)
proof (cases rule: loan_write.cases)
  case (change d d')
  have i: "l_id d' = l_id d" using change_same [OF change(3)] by (simp add: same_loan_def)
  show ?thesis unfolding loans_history_def
  proof
    fix l assume l: "l \<in> set (loans s)"
    show "\<exists>l' \<in> set (loans t). loan_moves l l'"
    proof (cases "l_id l = l_id d")
      case True
      then have "l = d" using loan_by_id [of s l d] assms(2) l change(2) by (simp add: store_ok_def)
      moreover have "d' \<in> set (loans t)" using change(1,2) i by (auto simp: image_iff)
      ultimately show ?thesis using change_moves [OF change(3)] by blast
    next
      case False
      then have "l \<in> set (loans t)" using l change(1) i by (force simp: image_iff)
      then show ?thesis using loan_moves_refl by blast
    qed
  qed
qed (auto simp: loans_history_def intro: loan_moves_refl)

interpretation docs: event_relation frozen loans_history for frozen
proof
  show "loans_history x x" for x using loan_moves_refl unfolding loans_history_def by blast
  show "loans_history x z" if "loans_history x y" "loans_history y z" for x y z
    using that loan_moves_trans unfolding loans_history_def by meson
qed (rule loans_history_write)

text \<open>A loan only moves forward (draft or waiting, approved, active, closed); settled, cancelled and
  outstanding-at-exit are final; once it is approved its terms and the two people behind it are fixed.\<close>

theorem loan_moves_forward:
  assumes "loan_reachable s" "loan_step s t" "l \<in> set (loans s)"
  shows "\<exists>l' \<in> set (loans t). l_id l' = l_id l \<and> status_rank (l_status l) \<le> status_rank (l_status l') \<and>
    (status_rank (l_status l) = 3 \<longrightarrow> l_status l' = l_status l) \<and>
    (1 \<le> status_rank (l_status l) \<longrightarrow> kept_terms l l' \<and> kept_people l l')"
proof -
  obtain env op r where "run_loan_op env op s = (t, r)" "valid_loan_op op"
    using assms(2) by (blast elim: loan_stepE)
  from docs.request_R [OF assms(1) this] have "loans_history s t" by simp
  then show ?thesis using assms(3) unfolding loans_history_def loan_moves_def by blast
qed

theorem loan_moves_forward_witness:
  "\<exists>l' \<in> set (loans demo_settled). l_id l' = 100 \<and> 2 \<le> status_rank (l_status l')"
  using loan_moves_forward [OF demo_active_reachable demo_step, of "hd (loans demo_active)"]
  by (fastforce simp: demo_active_def demo_loan_def)

section \<open>Where the debt is lost\<close>

text \<open>February is doubled; February and March are priced and deducted while January is still open.\<close>

definition demo_paid :: "oid \<Rightarrow> string \<Rightarrow> int \<Rightarrow> deduction_receipt" where
  "demo_paid docId period amount =
     \<lparr>p_installmentId = docId, p_employeeId = 7, p_period = period, p_runId = 50, p_payslipId = 60,
      p_amountMinor = amount\<rparr>"

definition demo_accelerated :: loan_store where
  "demo_accelerated = fst (run_loan_op (demo_env 12 [])
     (OpAccelerate 7 100 ''2024-02'' (Finite False 100 []) ''bonus'' 3) demo_active)"

lemma demo_within_2: "assertWithinEmployment demo_employee [''2024-02'', ''2024-03''] = Inr ()"
  and demo_within_1: "assertWithinEmployment demo_employee [''2024-04''] = Inr ()"
  by (simp_all add: within_run)

lemma demo_minor_100: "toMinorUnits (Finite False 100 []) = Inr 10000"
  by (simp add: minor_run)

lemmas rewrite_run = rewriteSchedule_def cancelInstallments_def cancel_row_def next_seq_def
  plannedForLoan_def assertScheduleTotals_def accelerateTail_def accelerate_loan_op_def
  reschedule_loan_op_def char_code_def

definition demo_cancelled :: "installment_doc \<Rightarrow> installment_doc" where
  "demo_cancelled r = r\<lparr>i_status := InstCancelled, i_version := 1, i_updatedBy := Some 12\<rparr>"

lemma demo_accelerated_run:
  "snd (run_loan_op (demo_env 12 []) (OpAccelerate 7 100 ''2024-02'' (Finite False 100 []) ''bonus'' 3) demo_active) = Inr ()"
  "installments demo_accelerated = [demo_row 101 1 ''2024-01'' 10000,
     demo_cancelled (demo_row 102 2 ''2024-02'' 10000), demo_cancelled (demo_row 103 3 ''2024-03'' 10000),
     demo_cancelled (demo_row 104 4 ''2024-04'' 10000), demo_row 105 5 ''2024-02'' 20000, demo_row 106 6 ''2024-03'' 10000]"
  "loans demo_accelerated = [hd (loans demo_active) \<lparr>l_version := 4\<rparr>]"
  "repayments demo_accelerated = []" "next_oid demo_accelerated = 107"
  by (simp_all add: demo_accelerated_def loan_run rewrite_run demo_active_def demo_loan_def demo_row_def
    demo_minor_100 demo_within_2 demo_cancelled_def)

definition demo_deducted :: loan_store where
  "demo_deducted = fst (run_loan_op (demo_env 12 []) (OpDeducted (demo_paid 106 ''2024-03'' 10000))
     (fst (run_loan_op (demo_env 12 []) (OpDeducted (demo_paid 105 ''2024-02'' 20000)) demo_accelerated)))"

lemma demo_deducted_reachable: "loan_reachable demo_deducted"
proof -
  have "loan_reachable (run_all [(demo_env 12 [], OpAccelerate 7 100 ''2024-02'' (Finite False 100 []) ''bonus'' 3),
      (demo_env 12 [], OpDeducted (demo_paid 105 ''2024-02'' 20000)),
      (demo_env 12 [], OpDeducted (demo_paid 106 ''2024-03'' 10000))] demo_active)"
    by (rule run_all_reachable [OF demo_active_reachable]) (simp add: demo_paid_def)
  then show ?thesis by (simp add: demo_deducted_def demo_accelerated_def del: run_loan_op.simps)
qed

lemmas deduct_run = recordDeducted_def insertRepayment_def markDeducted_def settleIfCleared_def
  repaidMinor_def remainingMinorOf_def demo_paid_def

lemma demo_deducted_run:
  "installments demo_deducted = [demo_row 101 1 ''2024-01'' 10000,
     demo_cancelled (demo_row 102 2 ''2024-02'' 10000), demo_cancelled (demo_row 103 3 ''2024-03'' 10000),
     demo_cancelled (demo_row 104 4 ''2024-04'' 10000),
     (demo_row 105 5 ''2024-02'' 20000)\<lparr>i_status := InstDeducted, i_version := 1\<rparr>,
     (demo_row 106 6 ''2024-03'' 10000)\<lparr>i_status := InstDeducted, i_version := 1\<rparr>]"
  "loans demo_deducted = [hd (loans demo_active) \<lparr>l_version := 4\<rparr>]"
  "repaidMinor 100 demo_deducted = 30000"
  by (simp_all add: demo_deducted_def loan_run deduct_run demo_accelerated_run demo_minor demo_row_def
    demo_cancelled_def demo_active_def demo_loan_def)

definition demo_lost :: loan_store where
  "demo_lost = fst (run_loan_op (demo_env 12 [''2024-02'', ''2024-03''])
     (OpReschedule 7 100 1 ''2024-04'' ''move January'' 4) demo_deducted)"

lemma demo_one_month: "generateSchedule 10000 1 ''2024-04'' =
    Inr [\<lparr>si_seq = 1, si_period = ''2024-04'', si_amountMinor = 10000\<rparr>]"
proof -
  have "periodsFrom ''2024-04'' 1 = Inr [''2024-04'']" by (simp add: period_run)
  then show ?thesis by (simp add: generateSchedule_def)
qed

lemma demo_lost_run:
  "snd (run_loan_op (demo_env 12 [''2024-02'', ''2024-03''])
     (OpReschedule 7 100 1 ''2024-04'' ''move January'' 4) demo_deducted) = Inr ()"
  "installments demo_lost = demo_cancelled (demo_row 101 1 ''2024-01'' 10000) # tl (installments demo_deducted)"
  "loans demo_lost = [hd (loans demo_active) \<lparr>l_version := 5\<rparr>]"
  "repaidMinor 100 demo_lost = repaidMinor 100 demo_deducted"
  by (simp_all add: demo_lost_def loan_run rewrite_run demo_deducted_run demo_active_def demo_loan_def
    demo_row_def demo_cancelled_def demo_one_month demo_within_1 repaidMinor_def) auto

lemma demo_lost_reachable: "loan_reachable demo_lost"
  using run_all_reachable [OF demo_deducted_reachable, of "[(demo_env 12 [''2024-02'', ''2024-03''],
     OpReschedule 7 100 1 ''2024-04'' ''move January'' 4)]"]
  by (simp add: demo_lost_def del: run_loan_op.simps)

text \<open>What is planned for a loan.\<close>

definition planned_total :: "oid \<Rightarrow> loan_store \<Rightarrow> int" where
  "planned_total docId s = sum_list (map i_amountMinor (plannedForLoan docId s))"

lemma planned_total_eq:
  "planned_total docId s = sum_list (map i_amountMinor (filter (\<lambda>r. i_loanId r = docId \<and>
     i_status r = InstPlanned \<and> \<not> i_isDeleted r) (installments s)))"
  by (simp add: planned_total_def plannedForLoan_def sum_list_sort_key)

text \<open>C34. A counterexample to "a reschedule does not move the debt": the new rows are numbered after the
  largest planned number only, so after a later month was paid first a number can be one a cancelled
  row still holds; the upsert then writes nothing, and the last 100 owed have no instalment left.\<close>

theorem reschedule_can_lose_the_debt:
  "\<exists>s t env. loan_reachable s \<and>
     run_loan_op env (OpReschedule 7 100 1 ''2024-04'' ''move January'' 4) s = (t, Inr ()) \<and>
     planned_total 100 s = 10000 \<and> planned_total 100 t = 0 \<and>
     (\<exists>l \<in> set (loans t). l_id l = 100 \<and> l_status l = LoanActive \<and>
        remainingMinorOf l (repaidMinor 100 t) = Inr 10000)"
proof -
  let ?env = "demo_env 12 [''2024-02'', ''2024-03'']"
  let ?op = "OpReschedule 7 100 1 ''2024-04'' ''move January'' 4"
  have "run_loan_op ?env ?op demo_deducted = (demo_lost, Inr ())"
    using demo_lost_run(1) by (intro prod_eqI) (simp_all add: demo_lost_def del: run_loan_op.simps)
  moreover have "planned_total 100 demo_deducted = 10000" "planned_total 100 demo_lost = 0"
    by (simp_all add: planned_total_eq demo_lost_run demo_deducted_run demo_row_def demo_cancelled_def)
  moreover have "\<exists>l \<in> set (loans demo_lost). l_id l = 100 \<and> l_status l = LoanActive \<and>
      remainingMinorOf l (repaidMinor 100 demo_lost) = Inr 10000"
    by (simp add: demo_lost_run demo_deducted_run demo_active_def demo_loan_def remainingMinorOf_def demo_minor)
  ultimately show ?thesis using demo_deducted_reachable by blast
qed


theorem frozen_months_respected_witness:
  "i_period (demo_row 105 5 ''2024-02'' 20000) \<notin> set (env_frozen (demo_env 12 [])) \<and>
    0 < i_amountMinor (demo_row 105 5 ''2024-02'' 20000)"
proof (rule frozen_months_respected [OF demo_active_reachable])
  show "run_loan_op (demo_env 12 []) (OpAccelerate 7 100 ''2024-02'' (Finite False 100 []) ''bonus'' 3) demo_active =
      (demo_accelerated, Inr ())"
    using demo_accelerated_run(1) by (intro prod_eqI) (simp_all add: demo_accelerated_def del: run_loan_op.simps)
  show "demo_row 105 5 ''2024-02'' 20000 \<in> set (installments demo_accelerated)"
    by (simp add: demo_accelerated_run)
qed (simp_all add: demo_active_def demo_row_def)

section \<open>The payroll seam is idempotent\<close>

lemma find_map_id:
  assumes "\<And>r. r \<in> set xs \<Longrightarrow> P (f r) = P r"
  shows "List.find P (map f xs) = map_option f (List.find P xs)"
  using assms by (induction xs) auto

lemma settleIfCleared_frame:
  "settleIfCleared d s = (t, r) \<Longrightarrow> installments t = installments s \<and> repayments t = repayments s"
  by (auto simp: settleIfCleared_def st_defs st_bind_def updateLoanById_def recordStatus_def log_effect_def
      split: sum.splits option.splits prod.splits if_splits)

lemma recordDeducted_again:
  assumes "\<And>inst. List.find (\<lambda>r. i_id r = p_installmentId input) (installments t) = Some inst \<Longrightarrow>
      findLoanById (i_loanId inst) t = None \<or>
      (\<exists>r \<in> set (repayments t). r_loanId r = i_loanId inst \<and> r_period r = p_period input)"
  shows "recordDeducted env input t = (t, Inr False)"
  using assms by (auto simp: recordDeducted_def st_defs st_bind_def insertRepayment_def split: option.splits)

text \<open>C29. A payslip that is issued twice, or a batch that is run again, takes nothing more: once a month's
  deduction has been offered, offering it again reports \<open>False\<close> and changes nothing at all, whatever
  became of the first attempt.\<close>

theorem recordDeducted_once:
  assumes "recordDeducted env input s = (t, res)"
    "p_installmentId input' = p_installmentId input" "p_period input' = p_period input"
  shows "recordDeducted env' input' t = (t, Inr False)"
proof (rule recordDeducted_again)
  fix inst assume inst: "List.find (\<lambda>r. i_id r = p_installmentId input') (installments t) = Some inst"
  let ?find = "List.find (\<lambda>r. i_id r = p_installmentId input) (installments s)"
  let ?taken = "\<lambda>r. \<exists>x \<in> set (repayments s). r_loanId x = i_loanId r \<and> r_period x = p_period input"
  show "findLoanById (i_loanId inst) t = None \<or>
    (\<exists>r \<in> set (repayments t). r_loanId r = i_loanId inst \<and> r_period r = p_period input')"
  proof (cases "\<exists>r l. ?find = Some r \<and> findLoanById (i_loanId r) s = Some l \<and> \<not> ?taken r")
    case False
    then have "t = s" using assms(1)
      by (auto simp: recordDeducted_def st_defs st_bind_def insertRepayment_def split: option.splits if_splits)
    then show ?thesis using False inst assms(2,3) by (cases "findLoanById (i_loanId inst) s") auto
  next
    case True
    then obtain r l where r: "?find = Some r" "findLoanById (i_loanId r) s = Some l" "\<not> ?taken r" by blast
    define f where "f x = (if i_id x = p_installmentId input \<and> i_status x = InstPlanned
      then x\<lparr>i_status := InstDeducted, i_version := i_version x + 1\<rparr> else x)" for x :: installment_doc
    have t: "installments t = map f (installments s) \<and> (\<exists>x. repayments t = repayments s @ [x] \<and>
        r_loanId x = i_loanId r \<and> r_period x = p_period input)"
      using assms(1) r settleIfCleared_frame
      by (fastforce simp: recordDeducted_def st_defs st_bind_def insertRepayment_def markDeducted_def log_effect_def
          f_def [abs_def] split: prod.splits sum.splits)
    have "List.find (\<lambda>x. i_id x = p_installmentId input) (map f (installments s)) = Some (f r)"
      using r(1) by (subst find_map_id) (auto simp: f_def)
    then have "i_loanId inst = i_loanId r" using inst t assms(2) by (auto simp: f_def)
    then show ?thesis using t assms(3) by auto
  qed
qed

theorem recordDeducted_once_witness:
  "recordDeducted (demo_env 13 []) (demo_paid 101 ''2024-01'' 10000)
     (fst (recordDeducted (demo_env 12 []) (demo_paid 101 ''2024-01'' 10000) demo_active)) =
   (fst (recordDeducted (demo_env 12 []) (demo_paid 101 ''2024-01'' 10000) demo_active), Inr False)"
  by (rule recordDeducted_once [of "demo_env 12 []" "demo_paid 101 ''2024-01'' 10000" demo_active _
    "snd (recordDeducted (demo_env 12 []) (demo_paid 101 ''2024-01'' 10000) demo_active)"]) simp_all

section \<open>The schedule carries the debt\<close>

lemma planned_total_append:
  "installments u = installments s @ [planned_row doc row by i] \<Longrightarrow>
     planned_total (l_id doc) u = planned_total (l_id doc) s + si_amountMinor row"
  by (simp add: planned_total_eq planned_row_def)

lemma writeSchedule_total:
  assumes "writeSchedule doc rows by s = (t, Inr ())" "distinct (map si_seq rows)"
    "\<forall>row \<in> set rows. \<forall>x \<in> set (installments s). i_loanId x = l_id doc \<longrightarrow> i_seq x \<noteq> si_seq row"
  shows "planned_total (l_id doc) t = planned_total (l_id doc) s + sum_list (map si_amountMinor rows)"
  using assms unfolding writeSchedule_def
proof (induction rows arbitrary: s)
  case Nil
  then show ?case by (simp add: run_Inr)
next
  case (Cons row rows)
  then obtain u where u: "upsertInstallment doc by row s = (u, Inr ())"
    "st_each (upsertInstallment doc by) rows u = (t, Inr ())" by (auto simp: bind_Inr)
  then have i: "installments u = installments s @ [planned_row doc row by (next_oid s)]"
    using Cons.prems(3) by (auto simp: upsertInstallment_def split: if_splits)
  have "planned_total (l_id doc) t = planned_total (l_id doc) u + sum_list (map si_amountMinor rows)"
    using Cons.prems(2,3) by (intro Cons.IH [OF u(2)]) (auto simp: i planned_row_def)
  then show ?case using planned_total_append [OF i] by simp
qed

lemma sum_list_minus_filter:
  "sum_list (map f (filter (\<lambda>x. Q x \<and> \<not> R x) xs)) =
     sum_list (map f (filter Q xs)) - (sum_list (map f (filter (\<lambda>x. Q x \<and> R x) xs)) :: int)"
  by (induction xs) auto

lemma cancel_total:
  assumes ok: "ids_ok s" and sub: "set replaced \<subseteq> set (plannedForLoan d s)" and dist: "distinct replaced"
    and run: "cancelInstallments (\<lambda>r. i_id r \<in> set (map i_id replaced)) by s = (t, Inr ())"
  shows "planned_total d t = planned_total d s - sum_list (map i_amountMinor replaced)"
proof -
  let ?P = "\<lambda>r. i_loanId r = d \<and> i_status r = InstPlanned \<and> \<not> i_isDeleted r"
  let ?R = "\<lambda>r. i_id r \<in> set (map i_id replaced)"
  have t: "installments t = map (\<lambda>r. if ?R r then cancel_row by r else r) (installments s)"
    using run by (auto simp: cancelInstallments_def run_Inr)
  have R: "?R r \<longleftrightarrow> r \<in> set replaced" if "r \<in> set (installments s)" for r
    using row_by_id [OF ok that] sub planned_rows by (fastforce simp: image_iff)
  have "sum_list (map i_amountMinor (filter ?P (map (\<lambda>r. if ?R r then cancel_row by r else r) rs))) =
      sum_list (map i_amountMinor (filter (\<lambda>r. ?P r \<and> \<not> ?R r) rs))" for rs
    by (induction rs) auto
  then have "planned_total d t = planned_total d s -
      sum_list (map i_amountMinor (filter (\<lambda>r. ?P r \<and> ?R r) (installments s)))"
    using sum_list_minus_filter [of i_amountMinor ?P ?R "installments s"]
    by (simp add: planned_total_eq t del: set_map)
  moreover have dq: "distinct (filter (\<lambda>r. ?P r \<and> ?R r) (installments s))"
    using ok by (simp add: ids_ok_def distinct_map)
  moreover have sq: "set (filter (\<lambda>r. ?P r \<and> ?R r) (installments s)) = set replaced"
  proof (intro equalityI subsetI)
    show "r \<in> set replaced" if "r \<in> set (filter (\<lambda>r. ?P r \<and> ?R r) (installments s))" for r
      using that R [of r] by simp
    show "r \<in> set (filter (\<lambda>r. ?P r \<and> ?R r) (installments s))" if r: "r \<in> set replaced" for r
      using subsetD [OF sub r] r unfolding planned_rows by simp
  qed
  ultimately show ?thesis
    by (simp only: sum_list_distinct_conv_sum_set [OF dq] sum_list_distinct_conv_sum_set [OF dist] sq)
qed

lemma renumber_seqs: "map si_seq (renumber n rows) = map (\<lambda>i. n + int i) [0..<length rows]"
proof (induction n rows rule: renumber.induct)
  case (2 n p a rows)
  have "[0..<length ((p, a) # rows)] = 0 # map Suc [0..<length rows]" by (simp add: upt_conv_Cons map_Suc_upt del: upt_Suc)
  then show ?case using 2 by (simp add: comp_def algebra_simps del: upt_Suc)
qed simp

lemma renumber_amounts: "map si_amountMinor (renumber n rows) = map snd rows"
  by (induction n rows rule: renumber.induct) auto

lemma renumber_fresh: "row \<in> set (renumber n rows) \<Longrightarrow> n \<le> si_seq row"
  using renumber_seqs [of n rows] by (metis (no_types, lifting) imageE in_set_conv_nth length_map
    le_add_same_cancel1 list.set_map nth_map of_nat_0_le_iff)

lemma rewrite_total:
  assumes ok: "ids_ok s" and sub: "set replaced \<subseteq> set (plannedForLoan (l_id doc) s)" "distinct replaced"
    and run: "rewriteSchedule doc planned replaced rows by s = (t, Inr ())"
    and frontier: "\<forall>x \<in> set (installments s). i_loanId x = l_id doc \<longrightarrow> i_seq x < next_seq planned"
  shows "planned_total (l_id doc) t =
    planned_total (l_id doc) s - sum_list (map i_amountMinor replaced) + sum_list (map snd rows)"
proof -
  obtain u where u: "cancelInstallments (\<lambda>r. i_id r \<in> set (map i_id replaced)) (Some by) s = (u, Inr ())"
    "writeSchedule doc (renumber (next_seq planned) rows) by u = (t, Inr ())"
    using run by (auto simp: rewriteSchedule_def bind_Inr)
  have "distinct (map si_seq (renumber (next_seq planned) rows))"
    by (simp add: renumber_seqs distinct_map inj_on_def)
  moreover have "i_seq x \<noteq> si_seq row" if "row \<in> set (renumber (next_seq planned) rows)"
    "x \<in> set (installments u)" "i_loanId x = l_id doc" for row x
  proof -
    have "\<forall>x \<in> set (installments u). i_loanId x = l_id doc \<longrightarrow> i_seq x < next_seq planned"
      using u(1) frontier by (auto simp: cancelInstallments_def run_Inr)
    then show ?thesis using that renumber_fresh by fastforce
  qed
  ultimately show ?thesis
    using writeSchedule_total [OF u(2)] cancel_total [OF ok sub u(1)] by (simp add: renumber_amounts)
qed

lemma log_effect_Inr: "log_effect e s = (t, Inr u) \<longleftrightarrow> t = s\<lparr>loan_effects := loan_effects s @ [e]\<rparr>"
  by (simp add: log_effect_def run_Inr)

lemma updateLoanById_rows: "updateLoanById d v f by s = (t, r) \<Longrightarrow> installments t = installments s"
  by (auto simp: updateLoanById_def split: option.splits)

lemma updateLoanById_status:
  "updateLoanById d v f by s = (t, Inr a) \<Longrightarrow> \<exists>l. l_status a = l_status (f l)"
  by (auto simp: updateLoanById_def split: option.splits)

lemma getForEmployee_Inr: "getForEmployee e d s = (t, Inr l) \<Longrightarrow> t = s \<and> l_id l = d \<and> l \<in> set (loans s)"
  by (auto simp: getForEmployee_def dest: findLoan_Some)

lemma getEmployee_Inr: "getEmployee env e s = (t, Inr x) \<Longrightarrow> t = s"
  by (auto simp: getEmployee_def run_Inr)

lemma planned_total_rows: "installments t = installments s \<Longrightarrow> planned_total d t = planned_total d s"
  by (simp add: planned_total_eq)

lemma distinct_planned: "ids_ok s \<Longrightarrow> distinct (plannedForLoan d s)"
  by (simp add: plannedForLoan_def ids_ok_def distinct_map)

lemma outcome_Inr: "outcome m s = (t, Inr u) \<longleftrightarrow> (\<exists>x. m s = (t, Inr x))"
  by (auto simp: outcome_def bind_Inr run_Inr)

lemma run_eqI: "fst p = t \<Longrightarrow> snd p = r \<Longrightarrow> p = (t, r)"
  by auto

text \<open>A reschedule moves the debt to other months without changing it, as long as no row of the loan
  is numbered above the planned ones.\<close>

theorem reschedule_conserves:
  assumes "loan_reachable s" "reschedule_loan_op env e d count first reason v s = (t, Inr after)"
    "\<forall>x \<in> set (installments s). i_loanId x = d \<longrightarrow> i_seq x < next_seq (plannedForLoan d s)"
  shows "planned_total d t = planned_total d s"
proof -
  have ok: "ids_ok s" using reachable_ok [OF assms(1)] by (simp add: store_ok_def)
  let ?open = "filter (\<lambda>r. i_period r \<notin> set (env_frozen env)) (plannedForLoan d s)"
  obtain doc rows u where doc: "l_id doc = d"
    and g: "generateSchedule (totalMinor (map i_amountMinor ?open)) count first = Inr rows"
    and rw: "rewriteSchedule doc (plannedForLoan d s) ?open
      (map (\<lambda>r. (si_period r, si_amountMinor r)) rows) (env_user env) s = (u, Inr ())"
    and t: "installments t = installments u"
    using assms(2) unfolding reschedule_loan_op_def
    by (auto simp: bind_Inr run_Inr log_effect_Inr dest!: getForEmployee_Inr getEmployee_Inr updateLoanById_rows)
  have "planned_total d u = planned_total d s - sum_list (map i_amountMinor ?open) + sum_list (map si_amountMinor rows)"
    using rewrite_total [OF ok _ _ rw] assms(3) distinct_planned [OF ok] doc by (simp add: comp_def)
  also have "sum_list (map si_amountMinor rows) = sum_list (map i_amountMinor ?open)"
    using generateSchedule_Inr(5) [OF g] by simp
  finally show ?thesis using planned_total_rows [OF t] by simp
qed

text \<open>Paying more in one month and less in the last ones does not change the debt either.\<close>

theorem accelerate_conserves:
  assumes "loan_reachable s" "accelerate_loan_op env e d period extra reason v s = (t, Inr after)"
    "\<forall>x \<in> set (installments s). i_loanId x = d \<longrightarrow> i_seq x < next_seq (plannedForLoan d s)"
  shows "planned_total d t = planned_total d s"
proof -
  have st: "store_ok s" by (rule reachable_ok [OF assms(1)])
  then have ok: "ids_ok s" by (simp add: store_ok_def)
  let ?later = "filter (\<lambda>r. str_less period (i_period r) \<and> i_period r \<notin> set (env_frozen env)) (plannedForLoan d s)"
  obtain doc target x rows u where doc: "l_id doc = d"
    and target: "List.find (\<lambda>r. i_period r = period) (plannedForLoan d s) = Some target"
    and a: "accelerateTail (i_period target, i_amountMinor target)
      (map (\<lambda>r. (i_period r, i_amountMinor r)) ?later) x = Inr rows"
    and rw: "rewriteSchedule doc (plannedForLoan d s) (target # ?later) rows (env_user env) s = (u, Inr ())"
    and t: "installments t = installments u"
    using assms(2) unfolding accelerate_loan_op_def
    by (auto simp: bind_Inr run_Inr log_effect_Inr dest!: getForEmployee_Inr getEmployee_Inr updateLoanById_rows)
  note tg = find_Some_iff_hd [OF target]
  have "\<forall>r \<in> set (map (\<lambda>r. (i_period r, i_amountMinor r)) ?later). 0 < snd r"
    using st by (auto simp: planned_rows store_ok_def rows_ok_def)
  then have sum: "sum_list (map snd rows) = i_amountMinor target + sum_list (map i_amountMinor ?later)"
    using accelerateTail_Inr(1) [OF a] by (simp add: comp_def)
  have "distinct (target # ?later)" using distinct_planned [OF ok] tg by auto
  then have "planned_total d u = planned_total d s - sum_list (map i_amountMinor (target # ?later)) + sum_list (map snd rows)"
    using rewrite_total [OF ok _ _ rw] assms(3) tg doc by auto
  then show ?thesis using planned_total_rows [OF t] sum by simp
qed

text \<open>Paying a loan out puts its whole principal on the calendar.\<close>

theorem disburse_schedules_principal:
  assumes "loan_reachable s" "disburse_loan_op env e d date note v s = (t, Inr after)"
    "\<forall>x \<in> set (installments s). i_loanId x \<noteq> d"
  shows "\<exists>l \<in> set (loans s). l_id l = d \<and> l_status l = LoanApproved \<and>
    toMinorUnits (l_principal l) = Inr (planned_total d t) \<and> l_status after = LoanActive"
proof -
  obtain doc minor rows u w where doc: "doc \<in> set (loans s)" "l_id doc = d" "l_status doc = LoanApproved"
    and m: "toMinorUnits (l_principal doc) = Inr minor"
    and g: "generateSchedule minor (l_installmentCount doc) (l_firstPeriod doc) = Inr rows"
    and w: "writeSchedule doc rows (env_user env) s = (u, Inr ())"
    and upd: "updateLoanById d v (\<lambda>l. l\<lparr>l_status := LoanActive,
        l_disbursedAt := Some (toDateOnly (date_of_iso date)), l_disbursedBy := Some (env_user env),
        l_disbursementNote := note\<rparr>) (Some (env_user env)) u = (w, Inr after)"
    and t0: "installments t = installments w"
    using assms(2) unfolding disburse_loan_op_def bind_Inr
    by (auto simp: run_Inr log_effect_Inr notifyEmployee_def res_bind_Inr split: option.splits
        dest!: getForEmployee_Inr getEmployee_Inr)
  have t: "installments t = installments u" using t0 updateLoanById_rows [OF upd] by simp
  have a: "l_status after = LoanActive" using updateLoanById_status [OF upd] by auto
  have "distinct (map si_seq rows)" by (simp add: generateSchedule_Inr(7) [OF g] distinct_map inj_on_def)
  then have "planned_total d u = planned_total d s + minor"
    using writeSchedule_total [OF w] assms(3) doc generateSchedule_Inr(5) [OF g] by simp
  moreover have "filter (\<lambda>r. i_loanId r = d \<and> i_status r = InstPlanned \<and> \<not> i_isDeleted r) (installments s) = []"
    using assms(3) by (simp add: filter_empty_conv)
  then have "planned_total d s = 0" by (simp add: planned_total_eq)
  ultimately have "planned_total d t = minor" using planned_total_rows [OF t] by simp
  then show ?thesis using doc m a by auto
qed

text \<open>The hypotheses hold of the example loan.\<close>

definition demo_approved :: loan_store where
  "demo_approved = fst (run_loan_op (demo_env 12 []) (OpDecide 7 100 True None 1) demo_pending)"

lemma demo_approved_reachable: "loan_reachable demo_approved"
  using run_all_reachable [OF demo_pending_reachable, of "[(demo_env 12 [], OpDecide 7 100 True None 1)]"]
  by (simp add: demo_approved_def del: run_loan_op.simps)

lemma demo_approved_run:
  "run_loan_op (demo_env 12 []) (OpDisburse 7 100 ''2024-01-02'' None 2) demo_approved = (demo_active, Inr ())"
  "installments demo_approved = []"
proof -
  show "run_loan_op (demo_env 12 []) (OpDisburse 7 100 ''2024-01-02'' None 2) demo_approved = (demo_active, Inr ())"
  proof (rule run_eqI)
    show "fst (run_loan_op (demo_env 12 []) (OpDisburse 7 100 ''2024-01-02'' None 2) demo_approved) = demo_active"
      unfolding demo_approved_def by (rule demo_active_run)
    show "snd (run_loan_op (demo_env 12 []) (OpDisburse 7 100 ''2024-01-02'' None 2) demo_approved) = Inr ()"
      by (simp add: demo_approved_def loan_run demo_schedulable demo_pending_def demo_loan_def
        demo_minor demo_schedule)
  qed
  show "installments demo_approved = []"
    by (simp add: demo_approved_def loan_run demo_schedulable demo_pending_def demo_loan_def)
qed

theorem disburse_schedules_principal_witness:
  "\<exists>l \<in> set (loans demo_approved). l_id l = 100 \<and> toMinorUnits (l_principal l) = Inr (planned_total 100 demo_active)"
proof -
  obtain a where "disburse_loan_op (demo_env 12 []) 7 100 ''2024-01-02'' None 2 demo_approved = (demo_active, Inr a)"
    using demo_approved_run(1) by (auto simp: outcome_Inr)
  from disburse_schedules_principal [OF demo_approved_reachable this] show ?thesis by (auto simp: demo_approved_run)
qed

lemma demo_frontier: "\<forall>x \<in> set (installments demo_active). i_loanId x = 100 \<longrightarrow> i_seq x < next_seq (plannedForLoan 100 demo_active)"
  by (simp add: demo_active_def demo_row_def plannedForLoan_def next_seq_def)

theorem accelerate_conserves_witness: "planned_total 100 demo_accelerated = planned_total 100 demo_active"
proof -
  obtain a where "accelerate_loan_op (demo_env 12 []) 7 100 ''2024-02'' (Finite False 100 []) ''bonus'' 3 demo_active =
      (demo_accelerated, Inr a)"
    using run_eqI [OF _ demo_accelerated_run(1)] by (force simp: demo_accelerated_def outcome_Inr)
  from accelerate_conserves [OF demo_active_reachable this demo_frontier] show ?thesis .
qed

definition demo_moved :: loan_store where
  "demo_moved = fst (run_loan_op (demo_env 12 [])
     (OpReschedule 7 100 4 ''2024-01'' ''same months'' 3) demo_active)"

lemma demo_moved_run:
  "snd (run_loan_op (demo_env 12 []) (OpReschedule 7 100 4 ''2024-01'' ''same months'' 3) demo_active) = Inr ()"
  by (simp add: loan_run rewrite_run demo_active_def demo_loan_def demo_row_def demo_schedule demo_within)

theorem reschedule_conserves_witness: "planned_total 100 demo_moved = planned_total 100 demo_active"
proof -
  obtain a where "reschedule_loan_op (demo_env 12 []) 7 100 4 ''2024-01'' ''same months'' 3 demo_active =
      (demo_moved, Inr a)"
    using run_eqI [OF _ demo_moved_run] by (force simp: demo_moved_def outcome_Inr)
  from reschedule_conserves [OF demo_active_reachable this demo_frontier] show ?thesis .
qed

end
