(* ===== verification/Payroll_Run_Claims.thy ===== *)
theory Payroll_Run_Claims
  imports Payroll_Runs "HOL-Library.Multiset"
begin

text \<open>
  What the payroll run guarantees: one run per period, a one-way life with a second person in it, and a
  freeze whose leave stays as it was pinned.
\<close>

section \<open>The life of a run\<close>

fun later_status :: "run_status \<Rightarrow> run_status list" where
  "later_status RunDraft = [RunDraft, RunFrozen, RunApproved, RunPaid, RunClosed, RunCancelled]"
| "later_status RunFrozen = [RunFrozen, RunApproved, RunPaid, RunClosed, RunCancelled]"
| "later_status RunApproved = [RunApproved, RunPaid, RunClosed, RunCancelled]"
| "later_status RunPaid = [RunPaid, RunClosed]"
| "later_status RunClosed = [RunClosed]"
| "later_status RunCancelled = [RunCancelled]"

lemma later_refl [simp]: "x \<in> set (later_status x)"
  by (cases x) simp_all

lemma later_trans: "y \<in> set (later_status x) \<Longrightarrow> z \<in> set (later_status y) \<Longrightarrow> z \<in> set (later_status x)"
  by (cases x; cases y; simp; blast)

lemma later_cancelled [simp]: "x \<in> set (later_status RunCancelled) \<longleftrightarrow> x = RunCancelled"
  by simp

text \<open>A stamp that is written stays.\<close>

definition stamp_kept :: "'a option \<Rightarrow> 'a option \<Rightarrow> bool" where
  "stamp_kept x y \<longleftrightarrow> x = None \<or> y = x"

lemma stamp_kept_refl [simp]: "stamp_kept x x"
  and stamp_kept_trans: "stamp_kept x y \<Longrightarrow> stamp_kept y z \<Longrightarrow> stamp_kept x z"
  by (auto simp: stamp_kept_def)

definition run_ok :: "payroll_run \<Rightarrow> bool" where
  "run_ok r \<longleftrightarrow> \<not> pr_isDeleted r \<and>
     (pr_status r = RunDraft \<longrightarrow> pr_frozenBy r = None \<and> pr_frozenAt r = None \<and> pr_approvedBy r = None \<and> pr_paidBy r = None) \<and>
     (pr_status r = RunFrozen \<longrightarrow> pr_approvedBy r = None \<and> pr_paidBy r = None) \<and>
     (pr_status r = RunApproved \<longrightarrow> pr_paidBy r = None) \<and>
     (pr_status r \<in> {RunFrozen, RunApproved, RunPaid, RunClosed} \<longrightarrow> pr_frozenBy r \<noteq> None \<and> pr_frozenAt r \<noteq> None) \<and>
     (pr_status r \<in> {RunApproved, RunPaid, RunClosed} \<longrightarrow> pr_approvedBy r \<noteq> None \<and> pr_approvedBy r \<noteq> pr_frozenBy r) \<and>
     (pr_status r \<in> {RunPaid, RunClosed} \<longrightarrow> pr_paidBy r \<noteq> None)"

text \<open>One step of a run that is already there.\<close>

definition run_advances :: "payroll_run \<Rightarrow> payroll_run \<Rightarrow> bool" where
  "run_advances r u \<longleftrightarrow> pr_id u = pr_id r \<and> pr_period u = pr_period r \<and> pr_status u \<in> set (later_status (pr_status r)) \<and>
     stamp_kept (pr_frozenBy r) (pr_frozenBy u) \<and> stamp_kept (pr_frozenAt r) (pr_frozenAt u) \<and>
     stamp_kept (pr_approvedBy r) (pr_approvedBy u) \<and> stamp_kept (pr_paidBy r) (pr_paidBy u)"

lemma run_advances_refl: "run_advances r r"
  by (simp add: run_advances_def)

lemma run_advances_trans: "run_advances r u \<Longrightarrow> run_advances u w \<Longrightarrow> run_advances r w"
  unfolding run_advances_def by (metis later_trans stamp_kept_trans)

section \<open>The invariant of the collection\<close>

definition live_run :: "payroll_run \<Rightarrow> bool" where
  "live_run r \<longleftrightarrow> pr_status r \<noteq> RunCancelled"

definition runs_ok :: "run_store \<Rightarrow> bool" where
  "runs_ok s \<longleftrightarrow> distinct (map pr_id (rs_runs s)) \<and> (\<forall>r \<in> set (rs_runs s). pr_id r < rs_nextId s \<and> run_ok r) \<and>
     distinct (map pr_period (filter live_run (rs_runs s)))"

definition runs_advance :: "run_store \<Rightarrow> run_store \<Rightarrow> bool" where
  "runs_advance s t \<longleftrightarrow> (\<forall>r \<in> set (rs_runs s). \<exists>u \<in> set (rs_runs t). run_advances r u)"

text \<open>Rows of leave are added only to a run that is still a draft.\<close>

definition pinned_kept :: "run_store \<Rightarrow> run_store \<Rightarrow> bool" where
  "pinned_kept s t \<longleftrightarrow> (\<exists>new. rs_snapshots t = rs_snapshots s @ new \<and>
     (\<forall>x \<in> set new. \<forall>r \<in> set (rs_runs s). pr_id r = sn_runId x \<longrightarrow> pr_status r = RunDraft))"

definition run_step_ok :: "run_store \<Rightarrow> run_store \<Rightarrow> bool" where
  "run_step_ok s t \<longleftrightarrow> runs_ok t \<and> runs_advance s t \<and> pinned_kept s t \<and> rs_nextId s \<le> rs_nextId t \<and>
     good_step (rs_attendance s) (rs_attendance t)"

definition sound :: "run_store \<Rightarrow> bool" where
  "sound s \<longleftrightarrow> runs_ok s \<and> days_ok (rs_attendance s)"

lemma runs_advance_refl: "runs_advance s s"
  and runs_advance_trans: "runs_advance s t \<Longrightarrow> runs_advance t u \<Longrightarrow> runs_advance s u"
  unfolding runs_advance_def by (blast intro: run_advances_refl, meson run_advances_trans)

lemma run_step_refl: "sound s \<Longrightarrow> run_step_ok s s"
  by (simp add: sound_def run_step_ok_def runs_advance_refl pinned_kept_def good_step_refl)

lemma same_run: "runs_ok s \<Longrightarrow> r \<in> set (rs_runs s) \<Longrightarrow> u \<in> set (rs_runs s) \<Longrightarrow> pr_id r = pr_id u \<Longrightarrow> r = u"
  by (auto simp: runs_ok_def distinct_map inj_on_def)

subsection \<open>Writing one run\<close>

lemma update_first_unique:
  "distinct (map h xs) \<Longrightarrow> r \<in> set xs \<Longrightarrow> P r \<Longrightarrow> (\<And>x. x \<in> set xs \<Longrightarrow> P x \<Longrightarrow> h x = h r) \<Longrightarrow>
     update_first P g xs = map (\<lambda>x. if h x = h r then g x else x) xs"
proof (induction xs)
  case (Cons x xs)
  show ?case
  proof (cases "P x")
    case True
    then have "h x = h r" using Cons.prems(4) [of x] by simp
    moreover have "h r \<notin> h ` set xs" using Cons.prems(1) \<open>h x = h r\<close> by simp
    then have "map (\<lambda>x. if h x = h r then g x else x) xs = xs" by (intro map_idI) (metis imageI)
    ultimately show ?thesis using True by simp
  next
    case False
    then have r: "r \<in> set xs" using Cons.prems(2,3) by auto
    then have "h x \<noteq> h r" using Cons.prems(1) by auto
    moreover have "update_first P g xs = map (\<lambda>x. if h x = h r then g x else x) xs"
      using Cons.prems(1,4) by (intro Cons.IH [OF _ r Cons.prems(3)]) simp_all
    ultimately show ?thesis using False by simp
  qed
qed simp

lemma distinct_map_filter_replace:
  assumes "distinct (map f (filter P xs))" "\<And>x. x \<in> set xs \<Longrightarrow> f (g x) = f x" "\<And>x. x \<in> set xs \<Longrightarrow> P (g x) \<Longrightarrow> P x"
  shows "distinct (map f (filter P (map g xs)))"
  using assms
proof (induction xs)
  case (Cons x xs)
  then have "f ` set (filter P (map g xs)) \<subseteq> f ` set (filter P xs)" by fastforce
  then show ?case using Cons by (auto split: if_splits)
qed simp

text \<open>The effect of \<open>updateById\<close> on a run that was read.\<close>

lemma update_run_step:
  assumes ok: "sound s" and r: "findRun i s = Some r"
    and run: "updateRunById i version env f s = (t, res)"
    and f: "run_ok ((f r)\<lparr>pr_updatedBy := rv_user env, pr_updatedAt := ev_now (rv_att env), pr_version := pr_version r + 1\<rparr>)"
      "run_advances r (f r)"
  shows "run_step_ok s t" and "rs_snapshots t = rs_snapshots s" and "rs_attendance t = rs_attendance s"
    and "\<And>u. res = Inr u \<Longrightarrow> u \<in> set (rs_runs t) \<and> run_advances r u \<and> pr_status u = pr_status (f r) \<and>
      pr_id u = i \<and> pr_frozenAt u = pr_frozenAt (f r)"
    and "\<And>e. res = Inl e \<Longrightarrow> t = s"
proof -
  have rid: "r \<in> set (rs_runs s)" "pr_id r = i" using r unfolding findRun_def by (auto dest: find_Some_iff_hd)
  define P where "P = (\<lambda>r::payroll_run. pr_id r = i \<and> pr_version r = version \<and> \<not> pr_isDeleted r)"
  define g where "g = (\<lambda>r::payroll_run. (f r)\<lparr>pr_updatedBy := rv_user env, pr_updatedAt := ev_now (rv_att env), pr_version := pr_version r + 1\<rparr>)"
  have gr: "run_ok (g r)" "run_advances r (g r)" using f by (simp_all add: g_def run_advances_def)
  have k: "runs_ok s" using ok by (simp add: sound_def)
  have "run_step_ok s t \<and> rs_snapshots t = rs_snapshots s \<and> rs_attendance t = rs_attendance s \<and>
    (\<forall>u. res = Inr u \<longrightarrow> u = g r \<and> u \<in> set (rs_runs t)) \<and> (\<forall>e. res = Inl e \<longrightarrow> t = s)"
  proof (cases "List.find P (rs_runs s)")
    case None
    then have "t = s" "\<exists>e. res = Inl e" using run by (auto simp: updateRunById_def P_def [symmetric] Let_def)
    then show ?thesis using ok by (auto simp: run_step_refl)
  next
    case (Some x)
    then have "x = r" using same_run [OF k _ rid(1)] rid(2) by (auto dest: find_Some_iff_hd simp: P_def)
    then have Pr: "P r" using find_Some_iff_hd [OF Some] by simp
    have t: "t = s\<lparr>rs_runs := update_first P g (rs_runs s)\<rparr>" "res = Inr (g r)"
      using run Some \<open>x = r\<close> by (auto simp: updateRunById_def P_def [symmetric] g_def [symmetric] Let_def)
    define h where "h = (\<lambda>x. if pr_id x = pr_id r then g x else x)"
    have runs: "rs_runs t = map h (rs_runs s)"
      using update_first_unique [of pr_id "rs_runs s" r P g] k rid Pr
      by (simp add: t runs_ok_def P_def h_def)
    have h: "h x = (if x = r then g r else x)" if "x \<in> set (rs_runs s)" for x
      using same_run [OF k that rid(1)] by (auto simp: h_def)
    have hr: "run_advances x (h x)" "pr_id (h x) = pr_id x" "pr_period (h x) = pr_period x"
      "live_run (h x) \<Longrightarrow> live_run x" if "x \<in> set (rs_runs s)" for x
    proof -
      show adv: "run_advances x (h x)" using h [OF that] gr(2) by (simp add: run_advances_refl)
      then show "pr_id (h x) = pr_id x" "pr_period (h x) = pr_period x" by (simp_all add: run_advances_def)
      show "live_run (h x) \<Longrightarrow> live_run x" using adv later_cancelled unfolding run_advances_def live_run_def by metis
    qed
    have "map pr_id (rs_runs t) = map pr_id (rs_runs s)" using hr(2) by (auto simp: runs)
    moreover have "distinct (map pr_period (filter live_run (rs_runs t)))"
      unfolding runs using k hr(3,4) by (intro distinct_map_filter_replace) (auto simp: runs_ok_def)
    moreover have n: "rs_nextId t = rs_nextId s" by (simp add: t(1))
    moreover have "\<forall>x \<in> set (rs_runs s). pr_id (h x) < rs_nextId s \<and> run_ok (h x)"
      using k h hr(2) gr(1) unfolding runs_ok_def by metis
    then have "\<forall>u \<in> set (rs_runs t). pr_id u < rs_nextId t \<and> run_ok u" by (simp add: runs n)
    ultimately have "runs_ok t" using k by (simp add: runs_ok_def)
    moreover have "runs_advance s t" using hr(1) by (auto simp: runs_advance_def runs)
    moreover have "g r \<in> set (rs_runs t)" using h [OF rid(1)] rid(1) by (auto simp: runs image_iff intro!: bexI [of _ r])
    ultimately show ?thesis using ok t
      by (auto simp: run_step_ok_def pinned_kept_def sound_def good_step_refl)
  qed
  then show "run_step_ok s t" "rs_snapshots t = rs_snapshots s" "rs_attendance t = rs_attendance s"
    "\<And>u. res = Inr u \<Longrightarrow> u \<in> set (rs_runs t) \<and> run_advances r u \<and> pr_status u = pr_status (f r) \<and>
      pr_id u = i \<and> pr_frozenAt u = pr_frozenAt (f r)"
    "\<And>e. res = Inl e \<Longrightarrow> t = s"
    using gr(2) rid(2) by (auto simp: g_def run_advances_def)
qed

subsection \<open>Steps in sequence\<close>

lemma draft_first: "RunDraft \<in> set (later_status x) \<Longrightarrow> x = RunDraft"
  by (cases x) simp_all

lemma pinned_kept_trans:
  assumes "pinned_kept s t" "pinned_kept t u" "runs_advance s t"
  shows "pinned_kept s u"
proof -
  obtain a b where a: "rs_snapshots t = rs_snapshots s @ a"
      "\<forall>x \<in> set a. \<forall>r \<in> set (rs_runs s). pr_id r = sn_runId x \<longrightarrow> pr_status r = RunDraft"
    and b: "rs_snapshots u = rs_snapshots t @ b"
      "\<forall>x \<in> set b. \<forall>r \<in> set (rs_runs t). pr_id r = sn_runId x \<longrightarrow> pr_status r = RunDraft"
    using assms(1,2) unfolding pinned_kept_def by auto
  have "pr_status r = RunDraft" if x: "x \<in> set b" and r: "r \<in> set (rs_runs s)" and i: "pr_id r = sn_runId x" for x r
  proof -
    obtain w where "w \<in> set (rs_runs t)" "run_advances r w" using assms(3) r unfolding runs_advance_def by blast
    then have "pr_status w = RunDraft" "pr_status w \<in> set (later_status (pr_status r))"
      using b(2) x i by (auto simp: run_advances_def)
    then show ?thesis using draft_first by simp
  qed
  then show ?thesis using a b unfolding pinned_kept_def by (intro exI [of _ "a @ b"]) auto
qed

lemma run_step_trans: "run_step_ok s t \<Longrightarrow> run_step_ok t u \<Longrightarrow> run_step_ok s u"
  unfolding run_step_ok_def using runs_advance_trans pinned_kept_trans good_step_trans by (meson order_trans)

lemma run_step_sound: "run_step_ok s t \<Longrightarrow> sound t"
  by (simp add: run_step_ok_def sound_def good_step_def)

lemma run_step_log: "run_step_ok s t \<Longrightarrow> run_step_ok s (t\<lparr>rs_log := l\<rparr>)"
  by (simp add: run_step_ok_def runs_ok_def runs_advance_def pinned_kept_def)

lemma kept_getRun:
  "V s \<Longrightarrow> (\<And>r. findRun i s = Some r \<Longrightarrow> kept V (f r) s) \<Longrightarrow> kept V (st_bind (getRun i) f) s"
  by (cases "findRun i s") (simp_all add: kept_def getRun_def wp)

lemma kept_log_run: "run_step_ok s t \<Longrightarrow> kept (run_step_ok s) (log_run e) t"
  by (simp add: log_run_def kept_def wp run_step_log)

lemma kept_publish: "run_step_ok s t \<Longrightarrow> kept (run_step_ok s) (publish env r p) t"
  by (simp add: publish_def log_run_def kept_def wp run_step_log)

lemma kept_bind_run: "m s = (t, Inr x) \<Longrightarrow> kept V (f x) t \<Longrightarrow> kept V (st_bind m f) s"
  by (simp add: kept_def st_wp_def st_bind_def)

text \<open>A handler that goes on after a good step with writes to the log only.\<close>

lemma kept_then:
  assumes "kept (run_step_ok s) m t" "\<And>x u. run_step_ok s u \<Longrightarrow> kept (run_step_ok s) (f x) u"
  shows "kept (run_step_ok s) (st_bind m f) t"
  by (rule kept_bind [where W = "run_step_ok s", OF assms(1)]) (auto intro: assms(2))

lemma kept_update_run:
  assumes "run_step_ok s0 s" "findRun i s = Some r"
    "run_ok ((f r)\<lparr>pr_updatedBy := rv_user env, pr_updatedAt := ev_now (rv_att env), pr_version := pr_version r + 1\<rparr>)"
    "run_advances r (f r)"
  shows "kept (run_step_ok s0) (updateRunById i version env f) s"
  unfolding kept_def
proof (rule st_wpI)
  fix t res
  assume "updateRunById i version env f s = (t, res)"
  then show "run_step_ok s0 t"
    using update_run_step(1) [where f = f and r = r, OF run_step_sound [OF assms(1)] assms(2) _ assms(3,4)]
      run_step_trans [OF assms(1)] by blast
qed

lemma found_run: "sound s \<Longrightarrow> findRun i s = Some r \<Longrightarrow> r \<in> set (rs_runs s) \<and> pr_id r = i \<and> run_ok r"
  unfolding findRun_def sound_def runs_ok_def by (auto dest: find_Some_iff_hd)

lemma create_run_step: "sound s \<Longrightarrow> kept (run_step_ok s) (create_run env period note) s"
  unfolding create_run_def
proof (intro kept, rule run_step_refl, assumption, rule kept_then)
  assume ok: "sound s" and live: "List.find (\<lambda>r. pr_period r = period \<and> pr_status r \<in> {RunDraft, RunFrozen} \<and> \<not> pr_isDeleted r) (rs_runs s) = None"
  show "kept (run_step_ok s) (insertRun period note env) s"
    unfolding kept_def
  proof (rule st_wpI)
    fix t res
    assume run: "insertRun period note env s = (t, res)"
    show "run_step_ok s t"
    proof (cases "\<exists>r \<in> set (rs_runs s). holds_period period r")
      case True
      then show ?thesis using run ok by (simp add: insertRun_def run_step_refl)
    next
      case False
      define d where "d = draft_run (rs_nextId s) period note env"
      have t: "t = s\<lparr>rs_runs := rs_runs s @ [d], rs_nextId := rs_nextId s + 1\<rparr>"
        using run False by (simp add: insertRun_def d_def Let_def)
      have "pr_period r \<noteq> period" if "r \<in> set (rs_runs s)" "live_run r" for r
        using False that ok by (cases "pr_status r")
          (auto simp: holds_period_def live_run_def live_statuses_def sound_def runs_ok_def run_ok_def)
      then have "distinct (map pr_period (filter live_run (rs_runs t)))"
        using ok by (auto simp: t sound_def runs_ok_def d_def draft_run_def)
      moreover have "run_ok d" by (simp add: d_def draft_run_def run_ok_def)
      ultimately have "runs_ok t" using ok by (auto simp: t sound_def runs_ok_def) (auto simp: d_def draft_run_def)
      then show ?thesis using ok
        by (auto simp: run_step_ok_def t runs_advance_def pinned_kept_def sound_def good_step_refl intro: run_advances_refl)
    qed
  qed
next
  fix x u
  assume "run_step_ok s u"
  then show "kept (run_step_ok s) (st_bind (log_run (RunAudited (pr_id x) None RunDraft)) (\<lambda>_. st_return x)) u"
    by (intro kept_then kept_log_run kept)
qed

lemmas run_fields = run_ok_def run_advances_def stamp_kept_def

lemma approve_run_step: "sound s \<Longrightarrow> kept (run_step_ok s) (approve_run env i note version) s"
  unfolding approve_run_def recordTransition_def
  by (intro kept_getRun kept kept_then kept_update_run kept_log_run kept_publish run_step_refl)
    (auto dest!: found_run simp: run_fields)

lemma pay_run_step: "sound s \<Longrightarrow> kept (run_step_ok s) (pay_run env i paidOn reference version) s"
  unfolding pay_run_def recordTransition_def
  by (intro kept_getRun kept kept_then kept_update_run kept_log_run kept_publish run_step_refl)
    (auto dest!: found_run simp: run_fields)

lemma close_run_step: "sound s \<Longrightarrow> kept (run_step_ok s) (close_run env i note version) s"
  unfolding close_run_def recordTransition_def
  by (intro kept_getRun kept kept_then kept_update_run kept_log_run kept_publish run_step_refl)
    (auto dest!: found_run simp: run_fields)

lemma cancel_run_step: "sound s \<Longrightarrow> kept (run_step_ok s) (cancel_run env i reason version) s"
  unfolding cancel_run_def
  by (intro kept_getRun kept kept_then kept_update_run kept_log_run kept_publish run_step_refl)
    (auto dest!: found_run simp: run_fields CANCELLABLE_PAYROLL_RUN_STATUSES_def)

subsection \<open>The freeze\<close>

text \<open>What a freeze pins of one employee's leave, entry by entry.\<close>

definition pin :: "instant \<times> instant \<Rightarrow> consumed_leave_entry \<Rightarrow> (oid \<times> leave_slice_facts) list" where
  "pin window e = (case sliceForPeriod (consumed_leave.truncate e) window of None \<Rightarrow> []
     | Some sl \<Rightarrow> [(ce_employeeId e, \<lparr>sf_typeCode = ce_typeCode e, sf_days = ls_days sl, sf_breakdown = ls_breakdown sl\<rparr>)])"

definition pinned_facts :: "leave_snapshot \<Rightarrow> oid \<times> leave_slice_facts" where
  "pinned_facts x = (sn_employeeId x, \<lparr>sf_typeCode = sn_typeCode x, sf_days = sn_days x, sf_breakdown = sn_breakdown x\<rparr>)"

lemma snapshotLeave_ok:
  "snapshotLeave run window now es n s = (t, r) \<Longrightarrow>
     \<exists>new. t = s\<lparr>rs_snapshots := rs_snapshots s @ new, rs_nextId := rs_nextId s + length new\<rparr> \<and>
       r = Inr (n + length new) \<and> (\<forall>x \<in> set new. sn_runId x = pr_id run) \<and>
       (distinct (map ce_ledgerEntryId es) \<and>
        (\<forall>x \<in> set (rs_snapshots s). sn_runId x = pr_id run \<longrightarrow> sn_ledgerEntryId x \<notin> ce_ledgerEntryId ` set es) \<longrightarrow>
        map pinned_facts new = concat (map (pin window) es))"
proof (induction es arbitrary: n s)
  case Nil
  then show ?case by (intro exI [of _ "[]"]) (simp add: st_return_def)
next
  case (Cons e es)
  show ?case
  proof (cases "sliceForPeriod (consumed_leave.truncate e) window")
    case None
    then show ?thesis using Cons.IH [of n s] Cons.prems by (auto simp: pin_def)
  next
    case (Some sl)
    show ?thesis
    proof (cases "\<exists>x \<in> set (rs_snapshots s). same_slice (pr_id run) (ce_ledgerEntryId e) (ls_from sl) x")
      case True
      then have "snapshotLeave run window now es n s = (t, r)" using Cons.prems Some by (simp add: st_defs)
      then obtain new where new: "t = s\<lparr>rs_snapshots := rs_snapshots s @ new, rs_nextId := rs_nextId s + length new\<rparr>"
          "r = Inr (n + length new)" "\<forall>x \<in> set new. sn_runId x = pr_id run"
        using Cons.IH by blast
      have "\<not> (\<forall>x \<in> set (rs_snapshots s). sn_runId x = pr_id run \<longrightarrow> sn_ledgerEntryId x \<notin> ce_ledgerEntryId ` set (e # es))"
        using True by (auto simp: same_slice_def)
      then show ?thesis using new by blast
    next
      case False
      define x where "x = snapshot_row (rs_nextId s) run e sl now"
      define u where "u = s\<lparr>rs_snapshots := rs_snapshots s @ [x], rs_nextId := rs_nextId s + 1\<rparr>"
      have "snapshotLeave run window now es (n + 1) u = (t, r)"
        using Cons.prems Some False by (simp add: st_defs u_def x_def)
      then obtain new where new: "t = u\<lparr>rs_snapshots := rs_snapshots u @ new, rs_nextId := rs_nextId u + length new\<rparr>"
          "r = Inr (n + 1 + length new)" "\<forall>x \<in> set new. sn_runId x = pr_id run"
          "distinct (map ce_ledgerEntryId es) \<and>
           (\<forall>x \<in> set (rs_snapshots u). sn_runId x = pr_id run \<longrightarrow> sn_ledgerEntryId x \<notin> ce_ledgerEntryId ` set es) \<longrightarrow>
           map pinned_facts new = concat (map (pin window) es)"
        using Cons.IH by blast
      have x: "sn_runId x = pr_id run" "sn_ledgerEntryId x = ce_ledgerEntryId e" "[pinned_facts x] = pin window e"
        by (simp_all add: x_def snapshot_row_def pinned_facts_def pin_def Some)
      show ?thesis
        using new x by (intro exI [of _ "x # new"]) (auto simp: u_def)
    qed
  qed
qed

lemma attendanceFreeze_ok:
  assumes "attendanceFreeze env period s = (t, r)" "sound s"
  shows "\<exists>a. t = s\<lparr>rs_attendance := a\<rparr> \<and> good_step (rs_attendance s) a \<and>
    freezePeriod (rv_att env) period (rs_attendance s) = (a, r)"
proof -
  obtain a q where f: "freezePeriod (rv_att env) period (rs_attendance s) = (a, q)" by fastforce
  then show ?thesis using assms freezePeriod_good [OF _ f] by (auto simp: attendanceFreeze_def st_zoom_def sound_def)
qed

text \<open>The writes before the commit point leave the runs as they are.\<close>

lemma freeze_writes_ok:
  assumes ok: "sound s" and run: "findRun i s = Some run" "pr_status run = RunDraft"
    and a: "attendanceFreeze env period s = (t, Inr frozen)"
    and b: "snapshotLeave run window now es 0 t = (u, q)"
  shows "run_step_ok s u \<and> findRun i u = Some run"
proof -
  obtain att where t: "t = s\<lparr>rs_attendance := att\<rparr>" "good_step (rs_attendance s) att"
    using attendanceFreeze_ok [OF a ok] by blast
  obtain new where u: "u = t\<lparr>rs_snapshots := rs_snapshots t @ new, rs_nextId := rs_nextId t + length new\<rparr>"
      "\<forall>x \<in> set new. sn_runId x = pr_id run"
    using snapshotLeave_ok [OF b] by blast
  have rid: "run \<in> set (rs_runs s)" "pr_id run = i" using found_run [OF ok run(1)] by auto
  have runs: "rs_runs u = rs_runs s" by (simp add: u t)
  have k: "runs_ok s" using ok by (simp add: sound_def)
  then have "runs_ok u" by (auto simp: runs_ok_def u t intro: trans_less_add1)
  moreover have "\<forall>x \<in> set new. \<forall>r \<in> set (rs_runs s). pr_id r = sn_runId x \<longrightarrow> pr_status r = RunDraft"
    using same_run [OF k _ rid(1)] u(2) run(2) by metis
  then have "pinned_kept s u" unfolding pinned_kept_def by (intro exI [of _ new]) (simp add: u t)
  ultimately have "run_step_ok s u"
    using t(2) by (simp add: run_step_ok_def u t runs_advance_def) (blast intro: run_advances_refl)
  then show ?thesis using run(1) by (simp add: findRun_def runs)
qed

lemma freeze_run_step:
  assumes ok: "sound s"
  shows "kept (run_step_ok s) (freeze_run env i version) s"
  unfolding freeze_run_def
proof (intro kept_getRun kept run_step_refl [OF ok])
  fix run window
  assume run: "findRun i s = Some run" "pr_status run = RunDraft"
  obtain t r where t: "attendanceFreeze env (pr_period run) s = (t, r)" by fastforce
  show "kept (run_step_ok s) (st_bind (attendanceFreeze env (pr_period run)) (\<lambda>frozen.
     st_bind (snapshotLeave run window (ev_now (rv_att env)) (consumedIn env window) 0) (\<lambda>rows.
     stampFrozen env i version frozen rows))) s"
  proof (cases r)
    case (Inl e)
    obtain a where "t = s\<lparr>rs_attendance := a\<rparr>" "good_step (rs_attendance s) a" using attendanceFreeze_ok [OF t ok] by blast
    then have "run_step_ok s t" using run_step_refl [OF ok] by (simp add: run_step_ok_def runs_ok_def runs_advance_def pinned_kept_def)
    then show ?thesis using t Inl by (simp add: kept_def st_wp_def st_bind_def)
  next
    case (Inr frozen)
    obtain u q where u: "snapshotLeave run window (ev_now (rv_att env)) (consumedIn env window) 0 t = (u, q)" by fastforce
    obtain rows where q: "q = Inr rows" using snapshotLeave_ok [OF u] by blast
    have w: "run_step_ok s u \<and> findRun i u = Some run" using freeze_writes_ok [OF ok run _ u] t Inr by blast
    have "run_ok run" using found_run [OF ok run(1)] by simp
    then have k: "kept (run_step_ok s) (stampFrozen env i version frozen rows) u"
      unfolding stampFrozen_def using w run(2)
      by (intro kept_then kept_log_run kept_publish kept kept_update_run [where r = run]) (auto simp: run_fields)
    show ?thesis
    proof (rule kept_bind_run)
      show "attendanceFreeze env (pr_period run) s = (t, Inr frozen)" using t Inr by simp
      show "kept (run_step_ok s) (st_bind (snapshotLeave run window (ev_now (rv_att env)) (consumedIn env window) 0)
          (stampFrozen env i version frozen)) t"
        using kept_bind_run [where m = "snapshotLeave run window (ev_now (rv_att env)) (consumedIn env window) 0"
            and f = "stampFrozen env i version frozen" and V = "run_step_ok s" and s = t and t = u and x = rows] u q k
        by blast
    qed
  qed
qed

section \<open>Histories\<close>

lemma kept_quietly: "kept V m s \<Longrightarrow> V (fst (quietly m s))"
  by (auto simp: kept_def st_wp_def quietly_def st_bind_def st_return_def split: prod.splits sum.splits)

lemma payroll_step_ok:
  assumes "sound s"
  shows "run_step_ok s (payroll_step env e s)"
proof (cases e)
  case (RunRequest opn)
  show ?thesis unfolding RunRequest payroll_step.simps
    by (cases opn; simp only: run_op_step.simps; rule kept_quietly)
      (blast intro: assms create_run_step freeze_run_step approve_run_step pay_run_step close_run_step cancel_run_step)+
next
  case (AttendanceEvent opn)
  have "good_step (rs_attendance s) (fst (run_att_op (rv_att env) opn (rs_attendance s)))"
    using run_att_op_good assms by (simp add: sound_def)
  then show ?thesis using run_step_refl [OF assms]
    by (simp add: AttendanceEvent run_step_ok_def runs_ok_def runs_advance_def pinned_kept_def)
qed

interpretation payroll: step_system "\<lambda>(env, e) s. payroll_step env e s" sound run_step_ok
  by unfold_locales (auto simp: run_step_refl payroll_step_ok intro: run_step_trans run_step_sound)

lemma payroll_history_fold: "payroll_history es s = fold (\<lambda>(env, e) s. payroll_step env e s) es s"
  by (induction es s rule: payroll_history.induct) auto

lemma history_ok: "sound s \<Longrightarrow> run_step_ok s (payroll_history es s)"
  unfolding payroll_history_fold by (rule payroll.history)

lemma sound_empty: "sound empty_runs"
  by (simp add: sound_def runs_ok_def empty_runs_def days_ok_empty)

lemma sound_history: "sound (payroll_history es empty_runs)"
  using history_ok [OF sound_empty] by (rule run_step_sound)

lemma history_append: "payroll_history (es @ fs) s = payroll_history fs (payroll_history es s)"
  by (induction es s rule: payroll_history.induct) auto

subsection \<open>Reading after a history\<close>

lemma same_period:
  "runs_ok s \<Longrightarrow> r \<in> set (rs_runs s) \<Longrightarrow> u \<in> set (rs_runs s) \<Longrightarrow> live_run r \<Longrightarrow> live_run u \<Longrightarrow>
     pr_period r = pr_period u \<Longrightarrow> r = u"
proof -
  assume a: "runs_ok s" "r \<in> set (rs_runs s)" "u \<in> set (rs_runs s)" "live_run r" "live_run u" "pr_period r = pr_period u"
  have "inj_on pr_period (set (filter live_run (rs_runs s)))" using a(1) by (simp add: runs_ok_def distinct_map)
  then show "r = u" by (rule inj_onD [where f = pr_period, OF _ a(6)]) (simp_all add: a)
qed

lemma find_eq: "x \<in> set xs \<Longrightarrow> P x \<Longrightarrow> (\<And>y. y \<in> set xs \<Longrightarrow> P y \<Longrightarrow> y = x) \<Longrightarrow> List.find P xs = Some x"
proof (induction xs)
  case (Cons a xs)
  show ?case
  proof (cases "P a")
    case True
    then have "a = x" using Cons.prems(3) [of a] by simp
    then show ?thesis using True by simp
  next
    case False
    then have "x \<in> set xs" using Cons.prems(1,2) by auto
    then have "List.find P xs = Some x" using Cons.prems(2,3) by (intro Cons.IH) simp_all
    then show ?thesis using False by simp
  qed
qed simp

lemma stampFrozen_ok:
  assumes "sound u" "findRun i u = Some run" "pr_status run = RunDraft"
    and "stampFrozen env i version frozen rows u = (t, Inr r)"
  shows "rs_snapshots t = rs_snapshots u \<and> rs_attendance t = rs_attendance u \<and> r \<in> set (rs_runs t) \<and>
    pr_status r = RunFrozen \<and> pr_id r = i \<and> pr_period r = pr_period run"
proof -
  obtain v where v: "updateRunById i version env (\<lambda>r. r\<lparr>pr_status := RunFrozen,
        pr_frozenAt := Some (ev_now (rv_att env)), pr_frozenBy := Some (rv_user env),
        pr_attendanceFrozenRows := fz_frozen frozen, pr_attendanceComputedRows := fz_computed frozen,
        pr_leaveSnapshotRows := rows\<rparr>) u = (v, Inr r)"
      and t: "rs_runs t = rs_runs v" "rs_snapshots t = rs_snapshots v" "rs_attendance t = rs_attendance v"
    using assms(4) by (auto simp: stampFrozen_def bind_Inr run_Inr log_run_def publish_def)
  have "run_ok run" using found_run [OF assms(1,2)] by simp
  then have f: "run_ok ((run\<lparr>pr_status := RunFrozen, pr_frozenAt := Some (ev_now (rv_att env)), pr_frozenBy := Some (rv_user env),
        pr_attendanceFrozenRows := fz_frozen frozen, pr_attendanceComputedRows := fz_computed frozen,
        pr_leaveSnapshotRows := rows\<rparr>)\<lparr>pr_updatedBy := rv_user env, pr_updatedAt := ev_now (rv_att env), pr_version := pr_version run + 1\<rparr>)"
    "run_advances run (run\<lparr>pr_status := RunFrozen, pr_frozenAt := Some (ev_now (rv_att env)), pr_frozenBy := Some (rv_user env),
        pr_attendanceFrozenRows := fz_frozen frozen, pr_attendanceComputedRows := fz_computed frozen, pr_leaveSnapshotRows := rows\<rparr>)"
    using assms(3) by (simp_all add: run_fields)
  note step = update_run_step [OF assms(1,2) v f]
  have "r \<in> set (rs_runs v)" "run_advances run r" "pr_status r = RunFrozen" "pr_id r = i"
    using step(4) [OF refl] by simp_all
  then show ?thesis using step(2,3) t by (simp add: run_advances_def)
qed

lemma freeze_run_parts:
  assumes ok: "sound s" and fr: "freeze_run env i version s = (t, Inr r)"
  shows "\<exists>run window new a counts. findRun i s = Some run \<and> pr_status run = RunDraft \<and> pr_period r = pr_period run \<and>
    periodRange (pr_period r) = Inr window \<and> unsettledRequestsIn env window = 0 \<and> snd window < ev_today (rv_att env) \<and>
    freezePeriod (rv_att env) (pr_period r) (rs_attendance s) = (a, Inr counts) \<and> rs_attendance t = a \<and>
    rs_snapshots t = rs_snapshots s @ new \<and> (\<forall>x \<in> set new. sn_runId x = i) \<and>
    (distinct (map ce_ledgerEntryId (consumedIn env window)) \<and> (\<forall>x \<in> set (rs_snapshots s). sn_runId x \<noteq> i) \<longrightarrow>
      map pinned_facts new = concat (map (pin window) (consumedIn env window))) \<and>
    r \<in> set (rs_runs t) \<and> pr_status r = RunFrozen \<and> pr_id r = i"
proof -
  obtain run window a frozen u rows where
    run: "findRun i s = Some run" "pr_status run = RunDraft" "periodRange (pr_period run) = Inr window"
      "snd window < ev_today (rv_att env)" "unsettledRequestsIn env window = 0"
    and a: "attendanceFreeze env (pr_period run) s = (a, Inr frozen)"
    and u: "snapshotLeave run window (ev_now (rv_att env)) (consumedIn env window) 0 a = (u, Inr rows)"
    and t: "stampFrozen env i version frozen rows u = (t, Inr r)"
    using fr by (auto simp: freeze_run_def getRun_def bind_Inr run_Inr)
  have w: "run_step_ok s u" "findRun i u = Some run" using freeze_writes_ok [OF ok run(1,2) a u] by auto
  have last: "rs_snapshots t = rs_snapshots u" "rs_attendance t = rs_attendance u" "r \<in> set (rs_runs t)"
      "pr_status r = RunFrozen" "pr_id r = i" "pr_period r = pr_period run"
    using stampFrozen_ok [OF run_step_sound [OF w(1)] w(2) run(2) t] by auto
  obtain att where att: "a = s\<lparr>rs_attendance := att\<rparr>" "freezePeriod (rv_att env) (pr_period run) (rs_attendance s) = (att, Inr frozen)"
    using attendanceFreeze_ok [OF a ok] by blast
  have "pr_id run = i" using found_run [OF ok run(1)] by simp
  then obtain new where new: "u = a\<lparr>rs_snapshots := rs_snapshots a @ new, rs_nextId := rs_nextId a + length new\<rparr>"
      "\<forall>x \<in> set new. sn_runId x = i"
      "distinct (map ce_ledgerEntryId (consumedIn env window)) \<and>
        (\<forall>x \<in> set (rs_snapshots a). sn_runId x = i \<longrightarrow> sn_ledgerEntryId x \<notin> ce_ledgerEntryId ` set (consumedIn env window)) \<longrightarrow>
        map pinned_facts new = concat (map (pin window) (consumedIn env window))"
    using snapshotLeave_ok [OF u] by blast
  have "rs_snapshots a = rs_snapshots s" "rs_attendance u = att" by (simp_all add: att new)
  then show ?thesis using run att last new
    by (intro exI [of _ run] exI [of _ window] exI [of _ new] exI [of _ att] exI [of _ frozen]) auto
qed

lemma consumedIn_distinct: "distinct (map le_id (rv_ledger env)) \<Longrightarrow> distinct (map ce_ledgerEntryId (consumedIn env window))"
  by (simp add: consumedIn_def comp_def consumed_entry_of_def distinct_map_filter) (simp add: distinct_map inj_on_def)

lemma pinned_history:
  assumes "sound t" "r \<in> set (rs_runs t)" "pr_status r = RunFrozen"
  shows "filter (\<lambda>x. sn_runId x = pr_id r) (rs_snapshots (payroll_history fs t)) = filter (\<lambda>x. sn_runId x = pr_id r) (rs_snapshots t)"
proof -
  obtain new where "rs_snapshots (payroll_history fs t) = rs_snapshots t @ new"
      "\<forall>x \<in> set new. \<forall>r \<in> set (rs_runs t). pr_id r = sn_runId x \<longrightarrow> pr_status r = RunDraft"
    using history_ok [OF assms(1), of fs] unfolding run_step_ok_def pinned_kept_def by auto
  then show ?thesis using assms(2,3) by (auto simp: filter_empty_conv) 
qed

section \<open>Properties\<close>

text \<open>C10. A month has one payroll run: in every store the run screen and the attendance service can leave, no two
  runs that are not cancelled are of the same period.\<close>

theorem one_run_per_period:
  "distinct (map pr_period (filter (\<lambda>r. pr_status r \<noteq> RunCancelled) (rs_runs (payroll_history es empty_runs))))"
  using sound_history by (simp add: sound_def runs_ok_def live_run_def [abs_def])

text \<open>C5. Payroll takes two people: a run that was approved, paid or closed was frozen by one person and
  approved by another, and none was paid that was not approved.\<close>

theorem payroll_takes_two_people:
  assumes "r \<in> set (rs_runs (payroll_history es empty_runs))" "pr_status r \<in> {RunApproved, RunPaid, RunClosed}"
  shows "\<exists>frozenBy approvedBy. pr_frozenBy r = Some frozenBy \<and> pr_approvedBy r = Some approvedBy \<and> frozenBy \<noteq> approvedBy"
proof -
  have "run_ok r" using sound_history [of es] assms(1) by (simp add: sound_def runs_ok_def)
  then show ?thesis using assms(2) unfolding run_ok_def by (cases "pr_frozenBy r"; cases "pr_approvedBy r") auto
qed

text \<open>A run only moves forward (draft, frozen, approved, paid, closed, or cancelled before any payment):
  later it is there still, in the same period, in a status its old one leads to, and who froze, approved
  and paid it is never rewritten.\<close>

theorem run_moves_forward:
  assumes "r \<in> set (rs_runs (payroll_history es empty_runs))"
  shows "\<exists>u \<in> set (rs_runs (payroll_history (es @ fs) empty_runs)). pr_id u = pr_id r \<and> pr_period u = pr_period r \<and>
    pr_status u \<in> set (later_status (pr_status r)) \<and> pr_frozenBy r \<in> {None, pr_frozenBy u} \<and>
    pr_frozenAt r \<in> {None, pr_frozenAt u} \<and> pr_approvedBy r \<in> {None, pr_approvedBy u} \<and> pr_paidBy r \<in> {None, pr_paidBy u}"
proof -
  have "runs_advance (payroll_history es empty_runs) (payroll_history (es @ fs) empty_runs)"
    using history_ok [OF sound_history] by (simp add: history_append run_step_ok_def)
  then show ?thesis using assms unfolding runs_advance_def run_advances_def stamp_kept_def by fastforce
qed


text \<open>C31. Approving a run takes the protection off its month: the moment a run moves from frozen to approved its
  period is no longer among the frozen ones and the leave it pinned is no longer found, although the run
  still holds the period and no other can be started.\<close>

theorem approval_unprotects_the_month:
  assumes "approve_run env i note version (payroll_history es empty_runs) = (t, Inr r)"
  shows "pr_period r \<notin> set (frozenPeriods t) \<and> frozenLeaveFor t (pr_period r) employee = None \<and>
    snd (create_run env' (pr_period r) note' t) = Inl (ConflictError ''another record already holds this period'')"
proof -
  let ?s = "payroll_history es empty_runs"
  obtain run v where run: "findRun i ?s = Some run" "pr_status run = RunFrozen" "pr_frozenBy run \<noteq> Some (rv_user env)"
    and v: "updateRunById i version env (\<lambda>r. r\<lparr>pr_status := RunApproved, pr_approvedAt := Some (ev_now (rv_att env)),
        pr_approvedBy := Some (rv_user env), pr_approvalNote := note\<rparr>) ?s = (v, Inr r)"
    and t: "rs_runs t = rs_runs v"
    using assms by (auto simp: approve_run_def getRun_def bind_Inr run_Inr log_run_def publish_def recordTransition_def)
  have "run_ok run" using found_run [OF sound_history run(1)] by simp
  then have f: "run_ok ((run\<lparr>pr_status := RunApproved, pr_approvedAt := Some (ev_now (rv_att env)),
        pr_approvedBy := Some (rv_user env), pr_approvalNote := note\<rparr>)\<lparr>pr_updatedBy := rv_user env,
        pr_updatedAt := ev_now (rv_att env), pr_version := pr_version run + 1\<rparr>)"
    "run_advances run (run\<lparr>pr_status := RunApproved, pr_approvedAt := Some (ev_now (rv_att env)),
        pr_approvedBy := Some (rv_user env), pr_approvalNote := note\<rparr>)"
    using run(2,3) by (auto simp: run_fields)
  note step = update_run_step [OF sound_history run(1) v f]
  have up: "run_step_ok ?s v" "r \<in> set (rs_runs v)" "pr_status r = RunApproved" using step(1) step(4) [OF refl] by simp_all
  have k: "runs_ok v" using run_step_sound [OF up(1)] by (simp add: sound_def)
  have only: "pr_status x \<notin> {RunDraft, RunFrozen}" if "x \<in> set (rs_runs t)" "pr_period x = pr_period r" for x
  proof
    assume x: "pr_status x \<in> {RunDraft, RunFrozen}"
    then have "x = r" using that t up(3) by (intro same_period [OF k _ up(2)]) (auto simp: live_run_def)
    then show False using x up(3) by simp
  qed
  have find_none: "List.find (\<lambda>x. pr_period x = pr_period r \<and> pr_status x \<in> {RunDraft, RunFrozen} \<and> \<not> pr_isDeleted x) (rs_runs t) = None"
    "List.find (\<lambda>x. pr_period x = pr_period r \<and> pr_status x = RunFrozen \<and> \<not> pr_isDeleted x) (rs_runs t) = None"
    unfolding find_None_iff_all using only by blast+
  moreover have "holds_period (pr_period r) r" using up k by (auto simp: holds_period_def live_statuses_def runs_ok_def run_ok_def)
  ultimately have none: "frozenLeaveFor t (pr_period r) employee = None"
    by (simp_all add: frozenLeaveFor_def)
  have "\<exists>x \<in> set (rs_runs t). holds_period (pr_period r) x" using up(2) t \<open>holds_period (pr_period r) r\<close> by auto
  then have create: "create_run env' (pr_period r) note' t = (t, Inl (ConflictError ''another record already holds this period''))"
    using find_none(1) by (simp add: create_run_def insertRun_def st_defs)
  have "pr_period r \<notin> set (frozenPeriods t)" using only by (auto simp: frozenPeriods_def)
  then show ?thesis using none create by simp
qed

section \<open>A sample run\<close>

definition sample_run_env :: "oid \<Rightarrow> run_env" where
  "sample_run_env user = \<lparr>rv_att = feb_env [], rv_ledger = [\<lparr>le_id = 31, le_employeeId = 7, le_consume = True,
       le_requestId = Some 30, le_typeId = 2, le_effectiveFrom = Some (date_of_iso ''2026-02-22''),
       le_effectiveTo = Some (date_of_iso ''2026-02-23''), le_days = 2,
       le_paidBreakdown = [\<lparr>lt_days = 2, lt_payRate = 50\<rparr>]\<rparr>],
     rv_leaveTypes = (\<lambda>_. Some ''SICK''), rv_user = user\<rparr>"

definition drafted :: "(run_env \<times> payroll_event) list" where
  "drafted = [(sample_run_env 50, RunRequest (CreateRun ''2026-02'' None))]"

definition frozen_then :: "(run_env \<times> payroll_event) list" where
  "frozen_then = drafted @ [(sample_run_env 50, RunRequest (FreezeRun 1 0))]"

definition approved_then :: "(run_env \<times> payroll_event) list" where
  "approved_then = frozen_then @ [(sample_run_env 60, RunRequest (ApproveRun 1 None 1))]"

definition first_run :: "(run_env \<times> payroll_event) list \<Rightarrow> payroll_run" where
  "first_run es = hd (rs_runs (payroll_history es empty_runs))"

lemma sample_approved: "rs_runs (payroll_history approved_then empty_runs) = [first_run approved_then] \<and> pr_status (first_run approved_then) = RunApproved"
  by code_simp

lemma sample_frozen: "rs_runs (payroll_history frozen_then empty_runs) = [first_run frozen_then] \<and> pr_status (first_run frozen_then) = RunFrozen"
  by code_simp

lemma sample_freeze:
  "\<exists>t r. freeze_run (sample_run_env 50) 1 0 (payroll_history drafted empty_runs) = (t, Inr r) \<and>
    rs_runs t = [r] \<and> pr_id r = 1 \<and> pr_status r = RunFrozen \<and> pr_period r = ''2026-02''"
proof -
  have "(case freeze_run (sample_run_env 50) 1 0 (payroll_history drafted empty_runs) of (t, Inr r) \<Rightarrow>
    rs_runs t = [r] \<and> pr_id r = 1 \<and> pr_status r = RunFrozen \<and> pr_period r = ''2026-02'' | _ \<Rightarrow> False)"
    by code_simp
  then show ?thesis by (auto split: prod.splits sum.splits)
qed

lemma sample_approve:
  "\<exists>t r. approve_run (sample_run_env 60) 1 None 1 (payroll_history frozen_then empty_runs) = (t, Inr r) \<and> pr_period r = ''2026-02''"
proof -
  have "(case approve_run (sample_run_env 60) 1 None 1 (payroll_history frozen_then empty_runs) of
    (t, Inr r) \<Rightarrow> pr_period r = ''2026-02'' | _ \<Rightarrow> False)"
    by code_simp
  then show ?thesis by (auto split: prod.splits sum.splits)
qed

theorem payroll_takes_two_people_witness:
  "\<exists>frozenBy approvedBy. pr_frozenBy (first_run approved_then) = Some frozenBy \<and>
    pr_approvedBy (first_run approved_then) = Some approvedBy \<and> frozenBy \<noteq> approvedBy"
  using payroll_takes_two_people [of "first_run approved_then" approved_then] sample_approved by simp

theorem run_moves_forward_witness:
  "\<exists>u \<in> set (rs_runs (payroll_history (frozen_then @ [(sample_run_env 60, RunRequest (ApproveRun 1 None 1))]) empty_runs)).
    pr_status u \<in> set (later_status RunFrozen) \<and> pr_id u = pr_id (first_run frozen_then)"
  using run_moves_forward [of "first_run frozen_then" frozen_then "[(sample_run_env 60, RunRequest (ApproveRun 1 None 1))]"] sample_frozen
  by auto


theorem approval_unprotects_the_month_witness:
  "\<exists>t r. approve_run (sample_run_env 60) 1 None 1 (payroll_history frozen_then empty_runs) = (t, Inr r) \<and>
    ''2026-02'' \<notin> set (frozenPeriods t) \<and> frozenLeaveFor t ''2026-02'' 7 = None"
  using sample_approve approval_unprotects_the_month by metis

end
