(* ===== verification/Pay_Item_Claims.thy ===== *)
theory Pay_Item_Claims
  imports Pay_Items Payroll_Run_Claims
begin

text \<open>
  What holds of the catalog and of the assignments, over every history of requests: on a day at most one
  amount of an item is in force for an employee, an assignment cites an item that exists and whose basis
  and quantity fit, what an item means never changes, and no assignment begins or reaches into a month
  whose run is frozen.
\<close>

section \<open>Months as runs of days\<close>

definition month_start :: "nat \<Rightarrow> int" where
  "month_start i = day_from_year (int (i div 12)) + days_before_month (leap_year (int (i div 12))) (i mod 12)"

lemma days_in_month_pos:
  assumes "m < 12"
  shows "0 < days_in_month l m"
  using nat_less_12 [OF assms] by (elim disjE) (simp_all add: days_in_month_def)

lemma days_before_next:
  assumes "k < 11"
  shows "days_before_month l (Suc k) = days_before_month l k + days_in_month l k"
proof -
  have "k = 0 \<or> k = 1 \<or> k = 2 \<or> k = 3 \<or> k = 4 \<or> k = 5 \<or> k = 6 \<or> k = 7 \<or> k = 8 \<or> k = 9 \<or> k = 10"
    using assms by arith
  then show ?thesis by (elim disjE) (simp_all add: days_before_month_def days_in_month_def)
qed

lemma month_start_step:
  "month_start (Suc i) = month_start i + days_in_month (leap_year (int (i div 12))) (i mod 12)"
proof -
  define q r where "q = i div 12" and "r = i mod 12"
  have i: "i = 12 * q + r" "r < 12" by (simp_all add: q_def r_def)
  show ?thesis
  proof (cases "r = 11")
    case True
    then have "Suc i div 12 = q + 1" "Suc i mod 12 = 0" using i by simp_all
    then show ?thesis using True day_from_year_step [of "int q"]
      by (simp add: month_start_def days_before_month_def days_in_month_def add.commute flip: q_def r_def)
  next
    case False
    then have r: "Suc r < 12" "r < 11" using i by simp_all
    have "(12 * q + Suc r) div 12 = q" "(12 * q + Suc r) mod 12 = Suc r" using r(1) by simp_all
    then have m: "Suc i div 12 = q" "Suc i mod 12 = Suc r" by (simp_all add: i(1))
    show ?thesis using days_before_next [OF r(2), of "leap_year (int q)"]
      by (simp add: month_start_def m flip: q_def r_def)
  qed
qed

lemma month_start_less: "month_start i < month_start j \<longleftrightarrow> i < j"
  using days_in_month_pos [of "k mod 12" for k]
  by (intro strict_mono_less) (auto simp: strict_mono_Suc_iff month_start_step)

lemma month_start_le: "month_start i \<le> month_start j \<longleftrightarrow> i \<le> j"
  using month_start_less [of j i] by linarith

text \<open>The month a day falls in.\<close>

definition month_index :: "instant \<Rightarrow> nat" where
  "month_index t = 12 * nat (utc_full_year t) + utc_month t"

lemma month_index_iff:
  assumes "1000 \<le> utc_full_year t"
  shows "month_index t = i \<longleftrightarrow> month_start i \<le> t div ms_per_day \<and> t div ms_per_day < month_start (Suc i)"
proof -
  define d y where "d = t div ms_per_day" and "y = nat (utc_full_year t)"
  have y: "year_of_day d = int y" using assms by (simp add: d_def y_def utc_full_year_def)
  have "month_start (12 * y) \<le> d" "d < month_start (12 * y + 12)"
    using year_of_day_bounds [of d] by (simp_all add: y month_start_def days_before_month_def add.commute)
  moreover have "\<exists>k < n. f k \<le> x \<and> x < f (Suc k)" if "f 0 \<le> x" "x < f n" for f :: "nat \<Rightarrow> int" and n x
    using that by (induction n) (auto simp: less_Suc_eq, metis not_le)
  from this [of "\<lambda>k. month_start (12 * y + k)" d 12] calculation obtain k
    where k: "k < 12" "month_start (12 * y + k) \<le> d" "d < month_start (Suc (12 * y + k))" by auto
  have dm: "(12 * y + k) div 12 = y" "(12 * y + k) mod 12 = k" using k(1) by simp_all
  have st: "month_start (12 * y + k) = day_from_year (int y) + days_before_month (leap_year (int y)) k"
    by (simp only: month_start_def dm)
  have "month_in_year (leap_year (int y)) (d - day_from_year (int y)) = k"
    using month_in_year_eq [OF k(1), of "d - month_start (12 * y + k)" "leap_year (int y)"] k(2,3)
    unfolding month_start_step dm st by (simp add: algebra_simps)
  then have "utc_month t = k" by (simp add: utc_month_def Let_def y flip: d_def)
  then have idx: "month_index t = 12 * y + k" by (simp add: month_index_def y_def)
  have only: "i = 12 * y + k" if "month_start i \<le> d" "d < month_start (Suc i)"
    using that k(2,3) month_start_less [of i "Suc (12 * y + k)"] month_start_less [of "12 * y + k" "Suc i"] by linarith
  show ?thesis unfolding idx d_def [symmetric] using only k(2,3) by auto
qed

lemma month_index_le:
  assumes "1000 \<le> utc_full_year t"
  shows "month_index t \<le> i \<longleftrightarrow> t div ms_per_day < month_start (Suc i)"
    and "i \<le> month_index t \<longleftrightarrow> month_start i \<le> t div ms_per_day"
proof -
  note own = month_index_iff [OF assms, of "month_index t", simplified]
  show "month_index t \<le> i \<longleftrightarrow> t div ms_per_day < month_start (Suc i)"
    using own month_start_le [of "Suc (month_index t)" "Suc i"] month_start_le [of "Suc i" "month_index t"]
    by (auto simp: not_less_eq_eq)
  show "i \<le> month_index t \<longleftrightarrow> month_start i \<le> t div ms_per_day"
    using own month_start_le [of i "month_index t"] month_start_le [of "Suc (month_index t)" i]
    by (auto simp: not_less_eq_eq)
qed

text \<open>A period as the days of its month.\<close>

lemma periodRange_days:
  assumes "is_period p" "1000 \<le> period_year p"
  shows "periodRange p = Inr (ms_per_day * month_start (period_index p), ms_per_day * (month_start (Suc (period_index p)) - 1))"
proof -
  define y m where "y = period_year p" and "m = period_month p - 1"
  have m: "m < 12" "period_month p = Suc m" using period_month_range [OF assms(1)] by (auto simp: m_def)
  have i: "period_index p div 12 = y" "period_index p mod 12 = m" using m by (simp_all add: period_index_def y_def)
  have a: "date_utc (int y) (int m) 1 = ms_per_day * month_start (period_index p)"
    using m(1) assms(2) by (simp add: date_utc_def Let_def month_start_def i y_def)
  have b: "date_utc (int y) (int (Suc m)) 0 = ms_per_day * (month_start (Suc (period_index p)) - 1)"
  proof (cases "m = 11")
    case True
    then have "Suc (period_index p) div 12 = Suc y" "Suc (period_index p) mod 12 = 0"
      by (simp_all add: period_index_def y_def m(2))
    then show ?thesis using True assms(2)
      by (simp add: date_utc_def Let_def month_start_def y_def add.commute)
  next
    case False
    then have "m < 11" using m(1) by simp
    then have "Suc (period_index p) div 12 = y" "Suc (period_index p) mod 12 = Suc m"
      using i by (simp_all add: div_Suc mod_Suc)
    moreover have "nat (1 + int m) = Suc m" by simp
    ultimately show ?thesis using \<open>m < 11\<close> assms(2)
      by (simp add: date_utc_def Let_def month_start_def y_def)
  qed
  have e: "int (period_month p) - 1 = int m" "int (period_month p) = int (Suc m)" using m(2) by simp_all
  show ?thesis using assms(1) a b unfolding periodRange_def e Let_def by (simp add: y_def)
qed

definition known_year :: "instant \<Rightarrow> bool" where
  "known_year t \<longleftrightarrow> 1000 \<le> utc_full_year t \<and> utc_full_year t < 10000"

lemma periodKeyOf_index:
  assumes "known_year t"
  shows "periodKeyOf t = mk_period (month_index t)" "month_index t < 120000"
proof -
  let ?y = "nat (utc_full_year t)"
  have y: "1000 \<le> ?y" "?y < 10000" using assms by (auto simp: known_year_def)
  have m: "utc_month t < 12" by (simp add: utc_month_def Let_def month_in_year_less)
  show "periodKeyOf t = mk_period (month_index t)"
    using show_year [OF y _ m] y m by (simp add: periodKeyOf_def month_index_def)
  show "month_index t < 120000" using y m by (simp add: month_index_def)
qed

lemma key_order:
  assumes "known_year t" "is_period p"
  shows "str_le (periodKeyOf t) p \<longleftrightarrow> month_index t \<le> period_index p"
    and "str_le p (periodKeyOf t) \<longleftrightarrow> period_index p \<le> month_index t"
proof -
  note k = periodKeyOf_index [OF assms(1)] and i = period_index_less [OF assms(2)]
  have p: "mk_period (period_index p) = p" by (rule period_mk_index [OF assms(2)])
  show "str_le (periodKeyOf t) p \<longleftrightarrow> month_index t \<le> period_index p"
    using str_less_mk_period [OF i k(2)] by (auto simp: str_le_def k(1) p)
  show "str_le p (periodKeyOf t) \<longleftrightarrow> period_index p \<le> month_index t"
    using str_less_mk_period [OF k(2) i] by (auto simp: str_le_def k(1) p)
qed

text \<open>A business date against a month, by strings and by days.\<close>

lemma key_days:
  assumes "known_year t" "ms_per_day dvd t" "is_period p" "1000 \<le> period_year p" "periodRange p = Inr (a, b)"
  shows "str_le (periodKeyOf t) p \<longleftrightarrow> t \<le> b" and "str_le p (periodKeyOf t) \<longleftrightarrow> a \<le> t"
proof -
  obtain D where t: "t = ms_per_day * D" using assms(2) by (auto simp: dvd_def)
  have y: "1000 \<le> utc_full_year t" using assms(1) by (simp add: known_year_def)
  have ab: "a = ms_per_day * month_start (period_index p)" "b = ms_per_day * (month_start (Suc (period_index p)) - 1)"
    using periodRange_days [OF assms(3,4)] assms(5) by simp_all
  have d: "t div ms_per_day = D" by (simp add: t ms_per_day_def)
  show "str_le (periodKeyOf t) p \<longleftrightarrow> t \<le> b"
    unfolding key_order(1) [OF assms(1,3)] month_index_le(1) [OF y] d by (simp add: t ab ms_per_day_def) linarith
  show "str_le p (periodKeyOf t) \<longleftrightarrow> a \<le> t"
    unfolding key_order(2) [OF assms(1,3)] month_index_le(2) [OF y] d by (simp add: t ab ms_per_day_def)
qed

lemma str_min_None [simp]: "str_min xs = None \<longleftrightarrow> xs = []"
  by (simp add: str_min_def split: list.splits)

lemma str_min_Some:
  assumes "str_min xs = Some m"
  shows "m \<in> set xs \<and> (\<forall>x \<in> set xs. \<not> str_less x m)"
proof -
  have "fold (\<lambda>a b. if str_less a b then a else b) ys x \<in> insert x (set ys) \<and>
     (\<forall>z \<in> insert x (set ys). \<not> str_less z (fold (\<lambda>a b. if str_less a b then a else b) ys x))" for ys x
  proof (induction ys arbitrary: x)
    case (Cons y ys)
    show ?case
      using Cons.IH [of "if str_less y x then y else x"] str_less_trans str_less_linear [of y x]
      by (cases "str_less y x"; auto; metis str_less_linear)
  qed simp
  then show ?thesis using assms by (cases xs) (auto simp: str_min_def)
qed

section \<open>The frozen-period guard\<close>

text \<open>An interval of days, as an assignment has it: no end means it goes on.\<close>

definition touches :: "instant \<Rightarrow> instant option \<Rightarrow> instant \<times> instant \<Rightarrow> bool" where
  "touches from to month \<longleftrightarrow> from \<le> snd month \<and> (case to of None \<Rightarrow> True | Some t \<Rightarrow> fst month \<le> t)"

definition business_date :: "instant \<Rightarrow> bool" where
  "business_date t \<longleftrightarrow> known_year t \<and> ms_per_day dvd t"

definition known_periods :: "string list \<Rightarrow> bool" where
  "known_periods ps \<longleftrightarrow> (\<forall>p \<in> set ps. is_period p \<and> 1000 \<le> period_year p)"

lemma touched_key:
  assumes "business_date from" "case to of None \<Rightarrow> True | Some t \<Rightarrow> business_date t"
    "is_period p" "1000 \<le> period_year p" "periodRange p = Inr month"
  shows "str_le (periodKeyOf from) p \<and> (case to of None \<Rightarrow> True | Some t \<Rightarrow> str_le p (periodKeyOf t)) \<longleftrightarrow>
    touches from to month"
  using assms key_days [of "from" p "fst month" "snd month"] key_days [of "the to" p "fst month" "snd month"]
  by (cases to) (auto simp: touches_def business_date_def)

lemma blocking_eq:
  assumes "business_date from" "case to of None \<Rightarrow> True | Some t \<Rightarrow> business_date t" "known_periods frozen"
  shows "blockingFrozenPeriod frozen from to =
    str_min (filter (\<lambda>p. \<exists>month. periodRange p = Inr month \<and> touches from to month) frozen)"
proof -
  have "(str_le (periodKeyOf from) p \<and> (case to of None \<Rightarrow> True | Some t \<Rightarrow> str_le p (periodKeyOf t))) \<longleftrightarrow>
      (\<exists>month. periodRange p = Inr month \<and> touches from to month)" if "p \<in> set frozen" for p
  proof -
    have p: "is_period p" "1000 \<le> period_year p" using assms(3) that by (auto simp: known_periods_def)
    obtain month where m: "periodRange p = Inr month" using periodRange_days [OF p] by blast
    show ?thesis using touched_key [OF assms(1,2) p m] m by simp
  qed
  then show ?thesis unfolding blockingFrozenPeriod_def by (intro arg_cong [of _ _ str_min] filter_cong) auto
qed

text \<open>C25. The guard of backdated pay compares period labels as strings; it decides the calendar question.
  It answers nothing exactly when the interval of the assignment shares no day with a frozen month, an
  open interval running on for ever, and otherwise it names the earliest frozen month the interval
  reaches.\<close>

theorem frozen_guard_is_calendar:
  assumes "business_date from" "case to of None \<Rightarrow> True | Some t \<Rightarrow> business_date t" "known_periods frozen"
  shows "case blockingFrozenPeriod frozen from to of
      None \<Rightarrow> \<forall>p \<in> set frozen. \<forall>month. periodRange p = Inr month \<longrightarrow> \<not> touches from to month
    | Some p \<Rightarrow> p \<in> set frozen \<and> (\<exists>month. periodRange p = Inr month \<and> touches from to month) \<and>
        (\<forall>q \<in> set frozen. \<forall>month. periodRange q = Inr month \<and> touches from to month \<longrightarrow>
           period_index p \<le> period_index q)"
proof (cases "blockingFrozenPeriod frozen from to")
  case None
  then have "\<forall>p \<in> set frozen. \<forall>month. periodRange p = Inr month \<longrightarrow> \<not> touches from to month"
    unfolding blocking_eq [OF assms] str_min_None by (simp add: filter_empty_conv)
  then show ?thesis by (simp add: None)
next
  case (Some p)
  note least = str_min_Some [OF Some [unfolded blocking_eq [OF assms]]]
  have "period_index p \<le> period_index q"
    if "q \<in> set frozen" "periodRange q = Inr month" "touches from to month" for q month
  proof -
    have "q \<in> set (filter (\<lambda>p. \<exists>month. periodRange p = Inr month \<and> touches from to month) frozen)"
      unfolding set_filter using that by blast
    then have "\<not> str_less q p" using least by blast
    moreover have "is_period p" "is_period q" using least assms(3) that(1) by (auto simp: known_periods_def)
    ultimately show ?thesis by (metis not_le period_order)
  qed
  then show ?thesis using least by (auto simp: Some)
qed

section \<open>The invariant of the two collections\<close>

text \<open>On a day, the assignments of an employee that pay something.\<close>

definition in_force_on :: "pay_assignment \<Rightarrow> instant \<Rightarrow> bool" where
  "in_force_on a t \<longleftrightarrow> \<not> pa_isDeleted a \<and> pa_effectiveFrom a \<le> t \<and>
     (case pa_effectiveTo a of None \<Rightarrow> True | Some e \<Rightarrow> t \<le> e)"

definition same_pay :: "pay_assignment \<Rightarrow> pay_assignment \<Rightarrow> bool" where
  "same_pay a b \<longleftrightarrow> pa_employeeId a = pa_employeeId b \<and> pa_payItemId a = pa_payItemId b"

definition apart :: "pay_store \<Rightarrow> bool" where
  "apart s \<longleftrightarrow> (\<forall>a \<in> set (ps_assignments s). \<forall>b \<in> set (ps_assignments s). \<forall>t.
     same_pay a b \<and> in_force_on a t \<and> in_force_on b t \<longrightarrow> a = b)"

definition cites_live_item :: "pay_store \<Rightarrow> pay_assignment \<Rightarrow> bool" where
  "cites_live_item s a \<longleftrightarrow> (\<exists>x \<in> set (ps_items s). it_id x = pa_payItemId a \<and> \<not> it_isDeleted x)"

definition coherent :: "pay_item_doc \<Rightarrow> bool" where
  "coherent x \<longleftrightarrow> quantitySourceFits (pi_calcBasis (it_item x)) (pi_quantitySource (it_item x))"

definition pay_ids :: "pay_store \<Rightarrow> bool" where
  "pay_ids s \<longleftrightarrow> distinct (map it_id (ps_items s)) \<and> distinct (map pa_id (ps_assignments s)) \<and>
     (\<forall>x \<in> set (ps_items s). it_id x < ps_nextId s) \<and> (\<forall>a \<in> set (ps_assignments s). pa_id a < ps_nextId s)"

definition live_codes :: "pay_store \<Rightarrow> string list" where
  "live_codes s = map (\<lambda>x. pi_code (it_item x)) (filter (\<lambda>x. \<not> it_isDeleted x) (ps_items s))"

definition pay_ok :: "pay_store \<Rightarrow> bool" where
  "pay_ok s \<longleftrightarrow> pay_ids s \<and> apart s \<and> distinct (live_codes s) \<and> (\<forall>x \<in> set (ps_items s). coherent x) \<and>
     (\<forall>a \<in> set (ps_assignments s). pa_isDeleted a \<or> cites_live_item s a)"

text \<open>What an item means, which no request changes.\<close>

definition item_meaning :: "pay_item_doc \<Rightarrow> string \<times> pay_item_kind \<times> calc_basis \<times> quantity_source option" where
  "item_meaning x = (pi_code (it_item x), pi_kind (it_item x), pi_calcBasis (it_item x), pi_quantitySource (it_item x))"

text \<open>An assignment's amount, employee, item and first day are fixed; it may only end.\<close>

definition assignment_terms :: "pay_assignment \<Rightarrow> oid \<times> oid \<times> jsnum \<times> string \<times> instant" where
  "assignment_terms a = (pa_employeeId a, pa_payItemId a, pa_amount a, pa_currency a, pa_effectiveFrom a)"

definition evolves :: "('a \<Rightarrow> 'a \<Rightarrow> bool) \<Rightarrow> 'a list \<Rightarrow> 'a list \<Rightarrow> bool" where
  "evolves R xs ys \<longleftrightarrow> (\<forall>x \<in> set xs. \<exists>y \<in> set ys. R x y)"

lemma evolves_refl: "(\<And>x. R x x) \<Longrightarrow> evolves R xs xs"
  by (auto simp: evolves_def)

lemma evolves_trans:
  "evolves R xs ys \<Longrightarrow> evolves R ys zs \<Longrightarrow> (\<And>x y z. R x y \<Longrightarrow> R y z \<Longrightarrow> R x z) \<Longrightarrow> evolves R xs zs"
  unfolding evolves_def by meson

lemma evolves_append: "(\<And>x. R x x) \<Longrightarrow> evolves R xs (xs @ ys)"
  by (auto simp: evolves_def)

lemma evolves_map: "(\<And>x. x \<in> set xs \<Longrightarrow> R x (f x)) \<Longrightarrow> evolves R xs (map f xs)"
  by (auto simp: evolves_def)

definition item_kept :: "pay_item_doc \<Rightarrow> pay_item_doc \<Rightarrow> bool" where
  "item_kept x y \<longleftrightarrow> it_id y = it_id x \<and> item_meaning y = item_meaning x"

definition assignment_kept :: "pay_assignment \<Rightarrow> pay_assignment \<Rightarrow> bool" where
  "assignment_kept a b \<longleftrightarrow> pa_id b = pa_id a \<and> assignment_terms b = assignment_terms a \<and>
     (\<forall>t. in_force_on b t \<longrightarrow> in_force_on a t)"

definition pay_kept :: "pay_store \<Rightarrow> pay_store \<Rightarrow> bool" where
  "pay_kept s t \<longleftrightarrow> ps_nextId s \<le> ps_nextId t \<and> evolves item_kept (ps_items s) (ps_items t) \<and>
     evolves assignment_kept (ps_assignments s) (ps_assignments t)"

definition pay_step_ok :: "pay_store \<Rightarrow> pay_store \<Rightarrow> bool" where
  "pay_step_ok s t \<longleftrightarrow> pay_ok t \<and> pay_kept s t"

lemma kept_refls [simp]: "item_kept x x" "assignment_kept a a"
  by (simp_all add: item_kept_def assignment_kept_def)

lemma pay_kept_refl: "pay_kept s s"
  by (simp add: pay_kept_def evolves_refl)

lemma pay_kept_trans: "pay_kept s t \<Longrightarrow> pay_kept t u \<Longrightarrow> pay_kept s u"
  unfolding pay_kept_def
  by (elim conjE, intro conjI) (auto elim!: evolves_trans simp: item_kept_def assignment_kept_def)

lemma pay_step_refl: "pay_ok s \<Longrightarrow> pay_step_ok s s"
  by (simp add: pay_step_ok_def pay_kept_refl)

subsection \<open>Writes to the catalog\<close>

lemma coherent_meaning: "item_meaning y = item_meaning x \<Longrightarrow> coherent x \<Longrightarrow> coherent y"
  by (simp add: item_meaning_def coherent_def)

text \<open>Rewriting one item, with what it means left alone.\<close>

lemma rewrite_item:
  assumes ok: "pay_ok s" and r: "r \<in> set (ps_items s)" and g: "item_kept r (g r)" "it_isDeleted r \<Longrightarrow> it_isDeleted (g r)"
    and used: "it_isDeleted (g r) \<Longrightarrow> \<not> it_isDeleted r \<Longrightarrow> \<not> isPayItemInUse (it_id r) s"
  shows "pay_step_ok s (s\<lparr>ps_items := map (\<lambda>x. if it_id x = it_id r then g x else x) (ps_items s)\<rparr>)"
    (is "pay_step_ok s ?t")
proof -
  let ?h = "\<lambda>x. if it_id x = it_id r then g x else x"
  have d: "distinct (map it_id (ps_items s))" and ids: "pay_ids s" and codes: "distinct (live_codes s)"
    and co: "\<forall>x \<in> set (ps_items s). coherent x" and ap: "apart s"
    and cites: "\<forall>a \<in> set (ps_assignments s). pa_isDeleted a \<or> cites_live_item s a"
    using ok by (simp_all add: pay_ok_def pay_ids_def)
  have same: "x = r" if "x \<in> set (ps_items s)" "it_id x = it_id r" for x
    using d r that by (auto simp: distinct_map inj_on_def)
  have h: "item_kept x (?h x) \<and> (it_isDeleted x \<longrightarrow> it_isDeleted (?h x))" if "x \<in> set (ps_items s)" for x
    using same [OF that] g by auto
  have hid: "it_id (?h x) = it_id x \<and> item_meaning (?h x) = item_meaning x" if "x \<in> set (ps_items s)" for x
    using h [OF that] by (simp add: item_kept_def)
  have mid: "map it_id (map ?h (ps_items s)) = map it_id (ps_items s)" using hid by simp
  have "\<forall>x \<in> set (map ?h (ps_items s)). it_id x < ps_nextId s" using hid ids unfolding pay_ids_def set_map by force
  moreover have t: "ps_items ?t = map ?h (ps_items s)" "ps_assignments ?t = ps_assignments s" "ps_nextId ?t = ps_nextId s"
    by simp_all
  ultimately have "pay_ids ?t" using ids unfolding pay_ids_def t mid by blast
  moreover have "distinct (live_codes ?t)"
    unfolding live_codes_def t
    by (rule distinct_map_filter_replace [OF codes [unfolded live_codes_def]])
      (use h in \<open>auto simp: item_kept_def item_meaning_def\<close>)
  moreover have "coherent (?h x)" if "x \<in> set (ps_items s)" for x
    using coherent_meaning co hid [OF that] that by blast
  then have "\<forall>x \<in> set (ps_items ?t). coherent x" unfolding t set_map by blast
  moreover have "apart ?t" using ap by (simp add: apart_def)
  moreover have "pa_isDeleted a \<or> cites_live_item ?t a" if a: "a \<in> set (ps_assignments s)" for a
  proof (rule disjCI)
    assume live: "\<not> cites_live_item ?t a"
    show "pa_isDeleted a"
    proof (rule ccontr)
      assume na: "\<not> pa_isDeleted a"
      then obtain x where x: "x \<in> set (ps_items s)" "it_id x = pa_payItemId a" "\<not> it_isDeleted x"
        using cites a by (auto simp: cites_live_item_def)
      have "?h x \<in> set (ps_items ?t)" "it_id (?h x) = pa_payItemId a" using x hid [OF x(1)] by auto
      then have dx: "it_isDeleted (?h x)" using live unfolding cites_live_item_def by blast
      then have "x = r" "it_isDeleted (g r)" using x same [OF x(1)] by (auto split: if_splits)
      then show False using used x na a by (auto simp: isPayItemInUse_def)
    qed
  qed
  ultimately have "pay_ok ?t" by (simp add: pay_ok_def)
  moreover have "pay_kept s ?t"
    using h by (auto simp: pay_kept_def intro!: evolves_map evolves_refl)
  ultimately show ?thesis by (simp add: pay_step_ok_def)
qed

lemma found_item: "findItem i s = Some x \<Longrightarrow> x \<in> set (ps_items s) \<and> it_id x = i \<and> \<not> it_isDeleted x"
  unfolding findItem_def by (drule find_Some_iff_hd) simp

lemma kept_then_pay: "m s = (t, r) \<Longrightarrow> V t \<Longrightarrow> kept V m s"
  by (simp add: kept_def st_wp_def)

lemma update_item_step:
  assumes ok: "pay_ok s" and f: "\<And>x. item_kept x (f x) \<and> it_isDeleted (f x) = it_isDeleted x"
  shows "kept (pay_step_ok s) (updateItemById i v by f) s"
proof -
  define P where "P x \<longleftrightarrow> it_id x = i \<and> it_version x = v \<and> \<not> it_isDeleted x" for x :: pay_item_doc
  define g where "g x = (f x)\<lparr>it_updatedBy := by, it_version := it_version x + 1\<rparr>" for x :: pay_item_doc
  show ?thesis
  proof (cases "List.find P (ps_items s)")
    case None
    then show ?thesis using pay_step_refl [OF ok]
      by (simp add: kept_def st_wp_def updateItemById_def Let_def P_def [abs_def])
  next
    case (Some r)
    then have r: "r \<in> set (ps_items s)" "P r" by (auto dest: find_Some_iff_hd)
    have "distinct (map it_id (ps_items s))" using ok by (simp add: pay_ok_def pay_ids_def)
    then have eq: "update_first P g (ps_items s) = map (\<lambda>x. if it_id x = it_id r then g x else x) (ps_items s)"
      using r by (intro update_first_unique) (auto simp: P_def)
    have "pay_step_ok s (s\<lparr>ps_items := update_first P g (ps_items s)\<rparr>)"
      unfolding eq using f [of r] r
      by (intro rewrite_item [OF ok]) (auto simp: g_def item_kept_def item_meaning_def P_def)
    then show ?thesis using Some
      by (simp add: kept_def st_wp_def updateItemById_def Let_def P_def [abs_def] g_def [abs_def])
  qed
qed

lemma add_item:
  assumes ok: "pay_ok s" and x: "it_id x = ps_nextId s" "coherent x" "\<not> it_isDeleted x"
    and fresh: "pi_code (it_item x) \<notin> set (live_codes s)"
  shows "pay_step_ok s (s\<lparr>ps_items := ps_items s @ [x], ps_nextId := ps_nextId s + 1\<rparr>)" (is "pay_step_ok s ?t")
proof -
  have ids: "pay_ids s" using ok by (simp add: pay_ok_def)
  have "pay_ids ?t" using ids x(1) by (auto simp: pay_ids_def less_Suc_eq)
  moreover have "distinct (live_codes ?t)" using ok fresh x(3) by (simp add: pay_ok_def live_codes_def)
  moreover have "cites_live_item s a \<Longrightarrow> cites_live_item ?t a" for a by (auto simp: cites_live_item_def)
  ultimately have "pay_ok ?t" using ok x(2) unfolding pay_ok_def apart_def by auto
  then show ?thesis by (simp add: pay_step_ok_def pay_kept_def evolves_append evolves_refl)
qed

lemma create_item_step:
  assumes ok: "pay_ok s" and fits: "quantitySourceFits (ni_calcBasis input) (ni_quantitySource input)"
  shows "kept (pay_step_ok s) (create_item_op env input) s"
proof -
  have free: "map upper_char (ni_code input) \<notin> set (live_codes s)"
    if "List.find (live_code (map upper_char (ni_code input))) (ps_items s) = None"
    using that by (auto simp: find_None_iff_all live_code_def live_codes_def)
  show ?thesis
    unfolding create_item_op_def Let_def
    by (intro kept_bind_gets kept_bind_ensure kept_bind_modify kept_return pay_step_refl [OF ok] add_item [OF ok])
      (simp_all add: coherent_def fits free)
qed

lemma delete_item_step:
  assumes ok: "pay_ok s"
  shows "kept (pay_step_ok s) (delete_item_op env i) s"
proof -
  define P where "P x \<longleftrightarrow> it_id x = i \<and> \<not> it_isDeleted x" for x :: pay_item_doc
  define g where "g x = x\<lparr>it_isDeleted := True, it_updatedBy := pe_user env, it_version := it_version x + 1\<rparr>" for x :: pay_item_doc
  have "pay_step_ok s (s\<lparr>ps_items := update_first P g (ps_items s)\<rparr>)"
    if "findItem i s = Some r" "\<not> isPayItemInUse i s" for r
  proof -
    note r = found_item [OF that(1)]
    have "distinct (map it_id (ps_items s))" using ok by (simp add: pay_ok_def pay_ids_def)
    then have eq: "update_first P g (ps_items s) = map (\<lambda>x. if it_id x = it_id r then g x else x) (ps_items s)"
      using r by (intro update_first_unique) (auto simp: P_def)
    show ?thesis unfolding eq using r that(2)
      by (intro rewrite_item [OF ok]) (auto simp: g_def item_kept_def item_meaning_def)
  qed
  then show ?thesis
    unfolding delete_item_op_def P_def [abs_def] g_def [abs_def]
    by (intro kept pay_step_refl [OF ok]) auto
qed

lemma update_item_op_step: "pay_ok s \<Longrightarrow> kept (pay_step_ok s) (update_item_op env i name sortOrder archived v) s"
  unfolding update_item_op_def
  by (intro kept pay_step_refl update_item_step) (auto simp: item_kept_def item_meaning_def)

subsection \<open>Writes to the assignments\<close>

text \<open>Rewriting one assignment so that it pays on fewer days.\<close>

lemma rewrite_assignment:
  assumes ok: "pay_ok s" and r: "r \<in> set (ps_assignments s)" "assignment_kept r (g r)"
    and live: "pa_isDeleted r \<Longrightarrow> pa_isDeleted (g r)"
  shows "pay_step_ok s (s\<lparr>ps_assignments := map (\<lambda>a. if pa_id a = pa_id r then g a else a) (ps_assignments s)\<rparr>)"
    (is "pay_step_ok s ?t")
proof -
  let ?h = "\<lambda>a. if pa_id a = pa_id r then g a else a"
  have d: "distinct (map pa_id (ps_assignments s))" and ids: "pay_ids s" and ap: "apart s"
    and cites: "\<forall>a \<in> set (ps_assignments s). pa_isDeleted a \<or> cites_live_item s a"
    using ok by (simp_all add: pay_ok_def pay_ids_def)
  have t: "ps_items ?t = ps_items s" "ps_assignments ?t = map ?h (ps_assignments s)" "ps_nextId ?t = ps_nextId s"
    by simp_all
  have same: "a = r" if "a \<in> set (ps_assignments s)" "pa_id a = pa_id r" for a
    using d r(1) that by (auto simp: distinct_map inj_on_def)
  have h: "assignment_kept a (?h a) \<and> (pa_isDeleted a \<longrightarrow> pa_isDeleted (?h a))" if "a \<in> set (ps_assignments s)" for a
    using same [OF that] r(2) live by auto
  have hid: "pa_id (?h a) = pa_id a" "same_pay a b \<longleftrightarrow> same_pay (?h a) (?h b)"
      "in_force_on (?h a) u \<Longrightarrow> in_force_on a u" "pa_payItemId (?h a) = pa_payItemId a"
    if "a \<in> set (ps_assignments s)" "b \<in> set (ps_assignments s)" for a b u
    using h [OF that(1)] h [OF that(2)] by (auto simp: assignment_kept_def assignment_terms_def same_pay_def)
  have mid: "map pa_id (map ?h (ps_assignments s)) = map pa_id (ps_assignments s)" using hid(1) by simp
  have "\<forall>a \<in> set (map ?h (ps_assignments s)). pa_id a < ps_nextId s" using hid(1) ids unfolding pay_ids_def set_map by force
  then have "pay_ids ?t" using ids unfolding pay_ids_def t mid by blast
  moreover have "apart ?t"
    unfolding apart_def t set_map
  proof (intro ballI allI impI, elim conjE imageE)
    fix x y u a b
    assume x: "same_pay x y" "in_force_on x u" "in_force_on y u" "x = ?h a" "y = ?h b"
      and ab: "a \<in> set (ps_assignments s)" "b \<in> set (ps_assignments s)"
    have "same_pay a b" "in_force_on a u" "in_force_on b u"
      using hid(2) [OF ab] hid(3) [OF ab(1) ab(1)] hid(3) [OF ab(2) ab(2)] x by blast+
    then have "a = b" using ap ab unfolding apart_def by blast
    then show "x = y" by (simp only: x(4,5))
  qed
  moreover have "live_codes ?t = live_codes s" "cites_live_item ?t = cites_live_item s"
    by (simp_all add: live_codes_def cites_live_item_def [abs_def])
  moreover have "pa_isDeleted (?h a) \<or> cites_live_item s (?h a)" if "a \<in> set (ps_assignments s)" for a
    using cites h [OF that] hid(4) [OF that that] that unfolding cites_live_item_def by metis
  then have "\<forall>a \<in> set (ps_assignments ?t). pa_isDeleted a \<or> cites_live_item s a" unfolding t set_map by blast
  ultimately have "pay_ok ?t" using ok unfolding pay_ok_def t by (elim conjE, intro conjI) simp_all
  moreover have "pay_kept s ?t" using h by (auto simp: pay_kept_def intro!: evolves_map evolves_refl)
  ultimately show ?thesis by (simp add: pay_step_ok_def)
qed

lemma add_assignment:
  assumes ok: "pay_ok s" and a: "pa_id a = ps_nextId s" "cites_live_item s a"
    and free: "findOverlapping (pa_employeeId a) (pa_payItemId a) (pa_effectiveFrom a) (pa_effectiveTo a) s = None"
  shows "pay_step_ok s (s\<lparr>ps_assignments := ps_assignments s @ [a], ps_nextId := ps_nextId s + 1\<rparr>)" (is "pay_step_ok s ?t")
proof -
  have ids: "pay_ids s" and ap: "apart s" using ok by (simp_all add: pay_ok_def)
  have no: "\<not> overlaps_candidate (pa_employeeId a) (pa_payItemId a) (pa_effectiveFrom a) (pa_effectiveTo a) b"
    if "b \<in> set (ps_assignments s)" for b
  proof -
    have "sort_key pa_effectiveFrom (filter (overlaps_candidate (pa_employeeId a) (pa_payItemId a)
        (pa_effectiveFrom a) (pa_effectiveTo a)) (ps_assignments s)) = []"
      using free by (simp add: findOverlapping_def split: list.splits)
    then have "set (filter (overlaps_candidate (pa_employeeId a) (pa_payItemId a)
        (pa_effectiveFrom a) (pa_effectiveTo a)) (ps_assignments s)) = {}" by (metis set_empty set_sort)
    then show ?thesis using that by auto
  qed
  have clash: "\<not> in_force_on b t" if "b \<in> set (ps_assignments s)" "same_pay a b" "in_force_on a t" for b t
    using no [OF that(1)] that(2,3)
    by (auto simp: overlaps_candidate_def same_pay_def in_force_on_def split: option.splits)
  have "pay_ids ?t" using ids a(1) by (auto simp: pay_ids_def less_Suc_eq)
  moreover have "apart ?t" using ap clash unfolding apart_def
    by (auto simp: same_pay_def)
  moreover have "live_codes ?t = live_codes s" "cites_live_item ?t = cites_live_item s"
    by (simp_all add: live_codes_def cites_live_item_def [abs_def])
  ultimately have "pay_ok ?t" using ok a(2) by (auto simp: pay_ok_def)
  then show ?thesis by (simp add: pay_step_ok_def pay_kept_def evolves_append evolves_refl)
qed

lemma create_assignment_step:
  assumes ok: "pay_ok s"
  shows "kept (pay_step_ok s) (create_assignment_op env e input) s"
proof -
  have cited: "cites_live_item s a" if "option_or err (findItem (pa_payItemId a) s) = Inr x" for a err x
    using that found_item [of "pa_payItemId a" s x] by (auto simp: cites_live_item_def)
  show ?thesis
    unfolding create_assignment_op_def Let_def
    by (intro kept_bind_lift kept_bind_gets kept_bind_ensure kept_bind_modify kept_return pay_step_refl [OF ok]
        add_assignment [OF ok]) (auto simp: new_assignment_def intro!: cited)
qed

lemma update_assignment_step:
  assumes ok: "pay_ok s" and a: "getAssignment e i s = Some a" and f: "assignment_kept a (f a)" "pa_isDeleted (f a) = pa_isDeleted a"
  shows "kept (pay_step_ok s) (updateAssignmentById i (pa_version a) by f) s"
proof -
  define P where "P x \<longleftrightarrow> pa_id x = i \<and> pa_version x = pa_version a \<and> \<not> pa_isDeleted x" for x :: pay_assignment
  define g where "g x = (f x)\<lparr>pa_updatedBy := by, pa_version := pa_version x + 1\<rparr>" for x :: pay_assignment
  have r: "a \<in> set (ps_assignments s)" "pa_id a = i" "\<not> pa_isDeleted a"
    using a unfolding getAssignment_def by (auto dest: find_Some_iff_hd)
  have d: "distinct (map pa_id (ps_assignments s))" using ok by (simp add: pay_ok_def pay_ids_def)
  then have eq: "update_first P g (ps_assignments s) = map (\<lambda>x. if pa_id x = pa_id a then g x else x) (ps_assignments s)"
    using r by (intro update_first_unique) (auto simp: P_def)
  have step: "pay_step_ok s (s\<lparr>ps_assignments := update_first P g (ps_assignments s)\<rparr>)"
    unfolding eq using f r
    by (intro rewrite_assignment [OF ok r(1)])
      (auto simp: g_def assignment_kept_def assignment_terms_def in_force_on_def)
  have "List.find P (ps_assignments s) \<noteq> None" using r by (auto simp: find_None_iff_all P_def)
  then show ?thesis using step
    by (auto simp: kept_def st_wp_def updateAssignmentById_def Let_def P_def [abs_def] g_def [abs_def])
qed

lemma delete_assignment_step:
  assumes ok: "pay_ok s"
  shows "kept (pay_step_ok s) (softDeleteAssignment i by) s"
proof (cases "List.find (\<lambda>a. pa_id a = i \<and> \<not> pa_isDeleted a) (ps_assignments s)")
  case None
  then show ?thesis using pay_step_refl [OF ok] by (simp add: kept_def st_wp_def softDeleteAssignment_def)
next
  case (Some r)
  then have r: "r \<in> set (ps_assignments s)" "pa_id r = i" "\<not> pa_isDeleted r" by (auto dest: find_Some_iff_hd)
  let ?g = "\<lambda>a. a\<lparr>pa_isDeleted := True, pa_updatedBy := by, pa_version := pa_version a + 1\<rparr>"
  have d: "distinct (map pa_id (ps_assignments s))" using ok by (simp add: pay_ok_def pay_ids_def)
  then have eq: "update_first (\<lambda>a. pa_id a = i \<and> \<not> pa_isDeleted a) ?g (ps_assignments s) =
      map (\<lambda>x. if pa_id x = pa_id r then ?g x else x) (ps_assignments s)"
    using r by (intro update_first_unique) auto
  have "pay_step_ok s (s\<lparr>ps_assignments := update_first (\<lambda>a. pa_id a = i \<and> \<not> pa_isDeleted a) ?g (ps_assignments s)\<rparr>)"
    unfolding eq by (rule rewrite_assignment [OF ok r(1)])
      (auto simp: assignment_kept_def assignment_terms_def in_force_on_def)
  then show ?thesis using Some by (simp add: kept_def st_wp_def softDeleteAssignment_def)
qed

lemma remove_assignment_step:
  assumes ok: "pay_ok s"
  shows "kept (pay_step_ok s) (remove_assignment_op env e i) s"
proof -
  have shorter: "assignment_kept a (a\<lparr>pa_effectiveTo := Some t\<rparr>)"
    if "\<not> (case pa_effectiveTo a of None \<Rightarrow> False | Some x \<Rightarrow> x < t)" for a t
    using that by (auto simp: assignment_kept_def assignment_terms_def in_force_on_def split: option.splits)
  show ?thesis
    unfolding remove_assignment_op_def
    by (intro kept_bind_lift kept_bind_gets kept_if kept_return kept_bind_return_after pay_step_refl [OF ok]
        delete_assignment_step [OF ok] update_assignment_step [OF ok]) (auto intro!: shorter)
qed

lemma pay_op_step_ok:
  assumes "pay_ok s"
  shows "pay_step_ok s (fst (pay_op_step env opn s))"
proof -
  have "kept (pay_step_ok s) (pay_op_step env opn) s"
    using assms by (cases opn) (auto simp: quietly_def intro!: kept_bind_ensure kept_bind_return_after pay_step_refl
      create_item_step update_item_op_step delete_item_step create_assignment_step remove_assignment_step)
  then show ?thesis by (cases "pay_op_step env opn s") (auto dest: keptD)
qed

lemma pay_step_trans: "pay_step_ok s t \<Longrightarrow> pay_step_ok t u \<Longrightarrow> pay_step_ok s u"
  by (auto simp: pay_step_ok_def intro: pay_kept_trans)

interpretation pay: step_system "\<lambda>(env, opn) s. fst (pay_op_step env opn s)" pay_ok pay_step_ok
  by unfold_locales (auto simp: pay_step_refl pay_op_step_ok intro: pay_step_trans, simp add: pay_step_ok_def)

lemma pay_history_fold: "pay_history xs s = fold (\<lambda>(env, opn) s. fst (pay_op_step env opn s)) xs s"
  by (induction xs s rule: pay_history.induct) auto

lemma pay_history_ok: "pay_ok s \<Longrightarrow> pay_step_ok s (pay_history xs s)"
  unfolding pay_history_fold by (rule pay.history)

lemma pay_ok_empty: "pay_ok empty_pay"
  by (simp add: pay_ok_def pay_ids_def apart_def live_codes_def empty_pay_def)

section \<open>What a frozen month pays\<close>

text \<open>What an item pays an employee on a day: the terms of the assignments in force.\<close>

definition paid_on :: "oid \<Rightarrow> oid \<Rightarrow> instant \<Rightarrow> pay_store \<Rightarrow> (oid \<times> oid \<times> jsnum \<times> string \<times> instant) list" where
  "paid_on e i t s = map assignment_terms
     (filter (\<lambda>a. pa_employeeId a = e \<and> pa_payItemId a = i \<and> in_force_on a t) (ps_assignments s))"

text \<open>The dates of a request are within the four-digit years.\<close>

fun dated_pay_op :: "pay_op \<Rightarrow> bool" where
  "dated_pay_op (CreateAssignment e input) \<longleftrightarrow> known_year (na_effectiveFrom input) \<and>
     (case na_effectiveTo input of None \<Rightarrow> True | Some t \<Rightarrow> known_year t)"
| "dated_pay_op _ \<longleftrightarrow> True"

lemma business_date_toDateOnly: "known_year t \<Longrightarrow> business_date (toDateOnly t)"
  by (simp add: business_date_def known_year_def toDateOnly_midnight utc_full_year_def ms_per_day_def)

lemma map_filter_update_first:
  "(\<And>x. x \<in> set xs \<Longrightarrow> P x \<Longrightarrow> Q (g x) = Q x \<and> f (g x) = f x) \<Longrightarrow>
     map f (filter Q (update_first P g xs)) = map f (filter Q xs)"
  by (induction xs) auto

lemma paid_update_first:
  assumes "\<And>a. a \<in> set (ps_assignments s) \<Longrightarrow> P a \<Longrightarrow> in_force_on (g a) t = in_force_on a t \<and> assignment_terms (g a) = assignment_terms a"
  shows "paid_on e i t (s\<lparr>ps_assignments := update_first P g (ps_assignments s)\<rparr>) = paid_on e i t s"
  unfolding paid_on_def using assms
  by (simp, intro map_filter_update_first) (auto simp: assignment_terms_def)

lemma paid_items [simp]: "paid_on e i t (s\<lparr>ps_items := xs\<rparr>) = paid_on e i t s" "paid_on e i t (s\<lparr>ps_nextId := n\<rparr>) = paid_on e i t s"
  by (simp_all add: paid_on_def)

lemma same_assignment:
  assumes "pay_ok s" "getAssignment e i s = Some a" "x \<in> set (ps_assignments s)" "pa_id x = i"
  shows "x = a"
proof -
  have "a \<in> set (ps_assignments s)" "pa_id a = i"
    using assms(2) unfolding getAssignment_def by (auto dest: find_Some_iff_hd)
  moreover have "distinct (map pa_id (ps_assignments s))" using assms(1) by (simp add: pay_ok_def pay_ids_def)
  ultimately show ?thesis using assms(3,4) by (auto simp: distinct_map inj_on_def)
qed

lemma bookkeeping [simp]:
  "in_force_on (a\<lparr>pa_updatedBy := u, pa_version := n\<rparr>) t = in_force_on a t"
  "assignment_terms (a\<lparr>pa_updatedBy := u, pa_version := n\<rparr>) = assignment_terms a"
  by (simp_all add: in_force_on_def assignment_terms_def)

lemma paid_update_assignment:
  assumes "\<And>x. x \<in> set (ps_assignments s) \<Longrightarrow> pa_id x = j \<Longrightarrow>
    in_force_on (f x) t = in_force_on x t \<and> assignment_terms (f x) = assignment_terms x"
  shows "kept (\<lambda>u. paid_on e i t u = paid_on e i t s) (updateAssignmentById j v by f) s"
proof -
  have "paid_on e i t (s\<lparr>ps_assignments := update_first (\<lambda>a. pa_id a = j \<and> pa_version a = v \<and> \<not> pa_isDeleted a)
      (\<lambda>a. (f a)\<lparr>pa_updatedBy := by, pa_version := pa_version a + 1\<rparr>) (ps_assignments s)\<rparr>) = paid_on e i t s"
  proof (rule paid_update_first)
    fix x assume x: "x \<in> set (ps_assignments s)" "pa_id x = j \<and> pa_version x = v \<and> \<not> pa_isDeleted x"
    show "in_force_on ((f x)\<lparr>pa_updatedBy := by, pa_version := pa_version x + 1\<rparr>) t = in_force_on x t \<and>
        assignment_terms ((f x)\<lparr>pa_updatedBy := by, pa_version := pa_version x + 1\<rparr>) = assignment_terms x"
      using assms [OF x(1)] x(2) by simp
  qed
  then show ?thesis by (simp add: kept_def st_wp_def updateAssignmentById_def Let_def split: option.splits)
qed

lemma paid_delete_assignment:
  assumes "\<And>x. x \<in> set (ps_assignments s) \<Longrightarrow> pa_id x = j \<Longrightarrow> \<not> in_force_on x t"
  shows "kept (\<lambda>u. paid_on e i t u = paid_on e i t s) (softDeleteAssignment j by) s"
proof -
  have "paid_on e i t (s\<lparr>ps_assignments := update_first (\<lambda>a. pa_id a = j \<and> \<not> pa_isDeleted a)
      (\<lambda>a. a\<lparr>pa_isDeleted := True, pa_updatedBy := by, pa_version := pa_version a + 1\<rparr>) (ps_assignments s)\<rparr>) = paid_on e i t s"
    by (rule paid_update_first) (use assms in \<open>auto simp: in_force_on_def assignment_terms_def\<close>)
  then show ?thesis by (simp add: kept_def st_wp_def softDeleteAssignment_def Let_def split: option.splits)
qed

lemma remove_paid:
  assumes ok: "pay_ok s" and t: "t < pe_today env"
  shows "kept (\<lambda>u. paid_on e i t u = paid_on e i t s) (remove_assignment_op env e' j) s"
proof -
  have del: "kept (\<lambda>u. paid_on e i t u = paid_on e i t s) (softDeleteAssignment j by) s"
    if a: "getAssignment e' j s = Some a" "pe_today env < pa_effectiveFrom a" for a "by"
  proof -
    have eq: "x = a" if "x \<in> set (ps_assignments s)" "pa_id x = j" for x
      by (rule same_assignment [OF ok a(1) that])
    have "\<not> in_force_on a t" using a(2) t by (simp add: in_force_on_def)
    then show ?thesis
      by (intro paid_delete_assignment) (drule (1) eq, simp)
  qed
  have upd: "kept (\<lambda>u. paid_on e i t u = paid_on e i t s)
      (updateAssignmentById j (pa_version a) by (\<lambda>x. x\<lparr>pa_effectiveTo := Some (pe_today env)\<rparr>)) s"
    if a: "getAssignment e' j s = Some a"
      "\<not> (case pa_effectiveTo a of None \<Rightarrow> False | Some x \<Rightarrow> x < pe_today env)" for a "by"
  proof -
    have eq: "x = a" if "x \<in> set (ps_assignments s)" "pa_id x = j" for x
      by (rule same_assignment [OF ok a(1) that])
    have "in_force_on (a\<lparr>pa_effectiveTo := Some (pe_today env)\<rparr>) t = in_force_on a t"
      using a(2) t by (cases "pa_effectiveTo a") (auto simp: in_force_on_def)
    then show ?thesis
      by (intro paid_update_assignment) (drule (1) eq, simp add: assignment_terms_def)
  qed
  show ?thesis
    unfolding remove_assignment_op_def
    by (intro kept_bind_lift kept_bind_gets kept_if kept_return kept_bind_return_after del upd) auto
qed

lemma create_paid:
  assumes t: "p \<in> set (pe_frozen env)" "known_periods (pe_frozen env)" "periodRange p = Inr month" "fst month \<le> t" "t \<le> snd month"
    and d: "known_year (na_effectiveFrom input)" "case na_effectiveTo input of None \<Rightarrow> True | Some t \<Rightarrow> known_year t"
  shows "kept (\<lambda>u. paid_on e i t u = paid_on e i t s) (create_assignment_op env e' input) s"
proof -
  let ?from = "toDateOnly (na_effectiveFrom input)" and ?to = "map_option toDateOnly (na_effectiveTo input)"
  have bd: "business_date ?from" "case ?to of None \<Rightarrow> True | Some t \<Rightarrow> business_date t"
    using d by (auto intro: business_date_toDateOnly split: option.splits)
  have out: "\<not> in_force_on (new_assignment env e' emp input n) t"
    if "blockingFrozenPeriod (pe_frozen env) ?from ?to = None" for emp n
  proof -
    have "\<forall>q \<in> set (pe_frozen env). \<forall>m. periodRange q = Inr m \<longrightarrow> \<not> touches ?from ?to m"
      using that unfolding blocking_eq [OF bd t(2)] str_min_None by (simp add: filter_empty_conv)
    then have "\<not> touches ?from ?to month" using t(1,3) by blast
    then show ?thesis using t(4,5)
      by (auto simp: touches_def in_force_on_def new_assignment_def split: option.splits)
  qed
  show ?thesis
    unfolding create_assignment_op_def Let_def
    by (intro kept_bind_lift kept_bind_gets kept_bind_ensure kept_bind_modify kept_return)
      (simp_all add: paid_on_def out)
qed

lemma item_ops_paid:
  "kept (\<lambda>u. paid_on e i t u = paid_on e i t s) (create_item_op env input) s"
  "kept (\<lambda>u. paid_on e i t u = paid_on e i t s) (update_item_op env j name sortOrder archived v) s"
  "kept (\<lambda>u. paid_on e i t u = paid_on e i t s) (delete_item_op env j) s"
proof -
  show "kept (\<lambda>u. paid_on e i t u = paid_on e i t s) (create_item_op env input) s"
    unfolding create_item_op_def Let_def
    by (intro kept_bind_lift kept_bind_gets kept_bind_ensure kept_bind_modify kept_return) (simp_all add: paid_on_def)
  have "kept (\<lambda>u. paid_on e i t u = paid_on e i t s) (updateItemById j v by f) s" for f "by"
    by (auto simp: kept_def st_wp_def updateItemById_def Let_def paid_on_def split: option.splits)
  then show "kept (\<lambda>u. paid_on e i t u = paid_on e i t s) (update_item_op env j name sortOrder archived v) s"
    unfolding update_item_op_def by (intro kept_bind_gets kept_bind_ensure) simp_all
  show "kept (\<lambda>u. paid_on e i t u = paid_on e i t s) (delete_item_op env j) s"
    unfolding delete_item_op_def by (intro kept_bind_gets kept_bind_ensure kept_modify) simp_all
qed

section \<open>Properties\<close>

text \<open>The parts of the invariant that speak about one assignment in force.\<close>

lemma assignment_in_force:
  assumes "a \<in> set (ps_assignments (pay_history events empty_pay))" "in_force_on a t"
  shows "\<exists>x \<in> set (ps_items (pay_history events empty_pay)). it_id x = pa_payItemId a \<and> \<not> it_isDeleted x"
    and "b \<in> set (ps_assignments (pay_history events empty_pay)) \<Longrightarrow> in_force_on b t \<Longrightarrow> same_pay b a \<Longrightarrow> b = a"
proof -
  have ok: "pay_ok (pay_history events empty_pay)"
    using pay_history_ok [OF pay_ok_empty, of events] by (simp add: pay_step_ok_def)
  have "\<not> pa_isDeleted a" using assms(2) by (simp add: in_force_on_def)
  then have "cites_live_item (pay_history events empty_pay) a" using ok assms(1) unfolding pay_ok_def by metis
  then show "\<exists>x \<in> set (ps_items (pay_history events empty_pay)). it_id x = pa_payItemId a \<and> \<not> it_isDeleted x"
    unfolding cites_live_item_def .
  have ap: "apart (pay_history events empty_pay)" using ok by (simp add: pay_ok_def)
  show "b = a" if "b \<in> set (ps_assignments (pay_history events empty_pay))" "in_force_on b t" "same_pay b a"
    using ap assms that unfolding apart_def by metis
qed

text \<open>C15. Over every history of requests, no day pays an employee the same item twice: two assignments of one
  employee and one item that are in force on the same day are one assignment. And an assignment in force cites
  a catalog item that is not deleted.\<close>

theorem one_amount_per_day:
  assumes "a \<in> set (ps_assignments (pay_history events empty_pay))" "in_force_on a t"
  shows "(\<exists>x \<in> set (ps_items (pay_history events empty_pay)). it_id x = pa_payItemId a \<and> \<not> it_isDeleted x) \<and>
    (\<forall>b \<in> set (ps_assignments (pay_history events empty_pay)). in_force_on b t \<and>
       pa_employeeId b = pa_employeeId a \<and> pa_payItemId b = pa_payItemId a \<longrightarrow> b = a)"
  using assignment_in_force [OF assms] by (auto simp: same_pay_def)

text \<open>What has been recorded keeps its meaning through whatever follows: an item keeps its code, its kind,
  its basis and its quantity (and these fit: what is priced per day counts days); an assignment keeps its
  employee, item, amount, currency and first day, and can only come to be in force on fewer days.\<close>

theorem pay_terms_fixed:
  assumes "x \<in> set (ps_items (pay_history before empty_pay))" "a \<in> set (ps_assignments (pay_history before empty_pay))"
  shows "\<exists>y \<in> set (ps_items (pay_history (before @ after) empty_pay)).
      it_id y = it_id x \<and> item_meaning y = item_meaning x \<and>
      quantitySourceFits (pi_calcBasis (it_item y)) (pi_quantitySource (it_item y))"
    and "\<exists>b \<in> set (ps_assignments (pay_history (before @ after) empty_pay)).
      pa_id b = pa_id a \<and> assignment_terms b = assignment_terms a \<and> (\<forall>t. in_force_on b t \<longrightarrow> in_force_on a t)"
proof -
  have "pay_step_ok (pay_history before empty_pay) (pay_history (before @ after) empty_pay)"
    unfolding pay_history_fold by (rule pay.later [OF pay_ok_empty])
  then have ok: "\<forall>y \<in> set (ps_items (pay_history (before @ after) empty_pay)). coherent y"
      "evolves item_kept (ps_items (pay_history before empty_pay)) (ps_items (pay_history (before @ after) empty_pay))"
      "evolves assignment_kept (ps_assignments (pay_history before empty_pay)) (ps_assignments (pay_history (before @ after) empty_pay))"
    by (simp_all add: pay_step_ok_def pay_ok_def pay_kept_def)
  show "\<exists>y \<in> set (ps_items (pay_history (before @ after) empty_pay)). it_id y = it_id x \<and> item_meaning y = item_meaning x \<and>
      quantitySourceFits (pi_calcBasis (it_item y)) (pi_quantitySource (it_item y))"
    using ok(1,2) assms(1) unfolding evolves_def item_kept_def coherent_def by meson
  show "\<exists>b \<in> set (ps_assignments (pay_history (before @ after) empty_pay)).
      pa_id b = pa_id a \<and> assignment_terms b = assignment_terms a \<and> (\<forall>t. in_force_on b t \<longrightarrow> in_force_on a t)"
    using ok(3) assms(2) unfolding evolves_def assignment_kept_def by meson
qed

text \<open>C8. While a month is frozen, no request on the catalog or on assignments changes what any item pays any
  employee on any day of it: not a backdated assignment, not one that reaches in, not one that is removed
  or ended once the month is over.\<close>

theorem frozen_month_pay_unchanged:
  assumes "p \<in> set (pe_frozen env)" "known_periods (pe_frozen env)" "periodRange p = Inr month"
    and "fst month \<le> t" "t \<le> snd month" "snd month < pe_today env" "dated_pay_op request"
  shows "paid_on e i t (fst (pay_op_step env request (pay_history events empty_pay))) =
    paid_on e i t (pay_history events empty_pay)"
proof -
  let ?s = "pay_history events empty_pay"
  have ok: "pay_ok ?s" using pay_history_ok [OF pay_ok_empty] by (simp add: pay_step_ok_def)
  have "kept (\<lambda>u. paid_on e i t u = paid_on e i t ?s) (pay_op_step env request) ?s"
    using assms(7) remove_paid [OF ok, of t env] create_paid [OF assms(1-5)] item_ops_paid [of e i t ?s] assms(5,6)
    by (cases request) (auto simp: quietly_def intro!: kept_bind_ensure kept_bind_return_after)
  then show ?thesis by (cases "pay_op_step env request ?s") (auto dest: keptD)
qed

section \<open>Witnesses\<close>

text \<open>An employee of 1 January 2026, HOUSING from 1 February on, and a second request for the same item that
  is refused; February is frozen afterwards and the assignment is ended on 10 March.\<close>

definition day_of :: "int \<Rightarrow> instant" where
  "day_of d = d * 86400000"

definition sample_pay_env :: "string list \<Rightarrow> int \<Rightarrow> pay_env" where
  "sample_pay_env frozen today = \<lparr>pe_employee = (\<lambda>i. if i = 7 then Some \<lparr>e_code = ''E7'', e_userId = None,
      e_branchId = None, e_departmentId = None, e_salaryCurrency = None,
      e_dates = \<lparr>hiredAt = day_of 20454, exitDate = None, employmentPeriods = []\<rparr>\<rparr> else None),
    pe_frozen = frozen, pe_today = day_of today, pe_user = 1\<rparr>"

definition housing :: create_item where
  "housing = \<lparr>ni_code = ''HOUSING'', ni_name = \<lparr>name_ar = [], name_en = ''Housing''\<rparr>, ni_kind = Earning,
    ni_calcBasis = FixedBasis, ni_quantitySource = None, ni_sortOrder = None\<rparr>"

definition housing_from :: "int \<Rightarrow> create_assignment" where
  "housing_from d = \<lparr>na_payItemId = 1, na_amount = Finite False 15 [], na_currency = ''EGP'', na_effectiveFrom = day_of d,
    na_effectiveTo = None, na_note = None\<rparr>"

definition sample_requests :: "(pay_env \<times> pay_op) list" where
  "sample_requests = [(sample_pay_env [] 20454, CreateItem housing),
     (sample_pay_env [] 20454, CreateAssignment 7 (housing_from 20485)),
     (sample_pay_env [] 20454, CreateAssignment 7 (housing_from 20500))]"

lemma sample_assignments:
  "map (\<lambda>a. (pa_id a, pa_employeeId a, pa_payItemId a, pa_effectiveFrom a, pa_effectiveTo a, pa_isDeleted a))
     (ps_assignments (pay_history sample_requests empty_pay)) = [(2, 7, 1, day_of 20485, None, False)]"
  by code_simp

definition housing_assignment :: pay_assignment where
  "housing_assignment = hd (ps_assignments (pay_history sample_requests empty_pay))"

definition housing_item :: pay_item_doc where
  "housing_item = hd (ps_items (pay_history sample_requests empty_pay))"

lemma sample_members:
  "housing_assignment \<in> set (ps_assignments (pay_history sample_requests empty_pay))"
  "housing_item \<in> set (ps_items (pay_history sample_requests empty_pay))"
proof -
  have "ps_assignments (pay_history sample_requests empty_pay) \<noteq> []" using sample_assignments by auto
  then show "housing_assignment \<in> set (ps_assignments (pay_history sample_requests empty_pay))"
    by (simp add: housing_assignment_def)
  have "length (ps_items (pay_history sample_requests empty_pay)) = 1" by code_simp
  then show "housing_item \<in> set (ps_items (pay_history sample_requests empty_pay))"
    unfolding housing_item_def by (cases "ps_items (pay_history sample_requests empty_pay)") auto
qed

lemma housing_in_force: "in_force_on housing_assignment (day_of 20490)"
  by code_simp

theorem one_amount_per_day_witness:
  "\<exists>x \<in> set (ps_items (pay_history sample_requests empty_pay)). it_id x = pa_payItemId housing_assignment \<and> \<not> it_isDeleted x"
  using one_amount_per_day [OF sample_members(1) housing_in_force] by blast

theorem pay_terms_fixed_witness:
  "\<exists>b \<in> set (ps_assignments (pay_history (sample_requests @ [(sample_pay_env [] 20522, RemoveAssignment 7 2)]) empty_pay)).
     pa_id b = pa_id housing_assignment \<and> assignment_terms b = assignment_terms housing_assignment \<and>
     (\<forall>t. in_force_on b t \<longrightarrow> in_force_on housing_assignment t)"
  by (rule pay_terms_fixed(2) [OF sample_members(2,1)])

lemma february: "periodRange ''2026-02'' = Inr (day_of 20485, day_of 20512)" "known_periods [''2026-02'']"
  "known_year (day_of 20490)" "business_date (day_of 20500)"
  by code_simp+

theorem frozen_guard_is_calendar_witness:
  "case blockingFrozenPeriod [''2026-02''] (day_of 20500) None of
      None \<Rightarrow> \<forall>p \<in> set [''2026-02'']. \<forall>month. periodRange p = Inr month \<longrightarrow> \<not> touches (day_of 20500) None month
    | Some p \<Rightarrow> p \<in> set [''2026-02''] \<and> (\<exists>month. periodRange p = Inr month \<and> touches (day_of 20500) None month) \<and>
        (\<forall>q \<in> set [''2026-02'']. \<forall>month. periodRange q = Inr month \<and> touches (day_of 20500) None month \<longrightarrow>
           period_index p \<le> period_index q)"
  by (rule frozen_guard_is_calendar) (simp_all add: february)

theorem frozen_month_pay_unchanged_witness:
  "paid_on 7 1 (day_of 20490) (fst (pay_op_step (sample_pay_env [''2026-02''] 20522) (RemoveAssignment 7 2)
       (pay_history sample_requests empty_pay))) = paid_on 7 1 (day_of 20490) (pay_history sample_requests empty_pay)"
  by (rule frozen_month_pay_unchanged [where p = "''2026-02''", OF _ _ february(1)])
    (simp_all add: sample_pay_env_def february day_of_def)

end
