(* ===== verification/Payroll_Adjustment_Claims.thy ===== *)
theory Payroll_Adjustment_Claims
  imports Payroll_Adjustments Pay_Item_Claims
begin

text \<open>
  What holds of bonuses and penalties over every history of requests: two people behind every approved
  figure, an approved figure that only a cancellation ends, no two identical live entries, nothing moves
  in a frozen month, and a distribution that can be run twice.
\<close>

section \<open>The invariant of the collection\<close>

definition adjustment_key :: "adjustment_doc \<Rightarrow> oid \<times> string \<times> adjustment_kind \<times> string" where
  "adjustment_key d = (aj_employeeId d, aj_period d, aj_kind d, aj_reason d)"

text \<open>What was decided about.\<close>

definition adjustment_terms ::
  "adjustment_doc \<Rightarrow> oid \<times> string \<times> adjustment_kind \<times> jsnum \<times> string \<times> string \<times> oid option" where
  "adjustment_terms d = (aj_employeeId d, aj_period d, aj_kind d, aj_amount d, aj_currency d, aj_reason d, aj_payItemId d)"

definition live_adjustment :: "adjustment_doc \<Rightarrow> bool" where
  "live_adjustment d \<longleftrightarrow> aj_status d \<noteq> AdjCancelled"

definition two_people :: "adjustment_doc \<Rightarrow> bool" where
  "two_people d \<longleftrightarrow>
     (aj_status d = AdjPendingApproval \<longrightarrow> aj_submittedBy d \<noteq> None) \<and>
     (aj_status d = AdjApproved \<longrightarrow> (\<exists>u v. aj_submittedBy d = Some u \<and> aj_decidedBy d = Some v \<and> u \<noteq> v))"

definition adjustments_ok :: "adjustment_store \<Rightarrow> bool" where
  "adjustments_ok s \<longleftrightarrow> distinct (map aj_id (js_docs s)) \<and>
     (\<forall>d \<in> set (js_docs s). aj_id d < js_nextId s \<and> \<not> aj_isDeleted d \<and> two_people d) \<and>
     distinct (map adjustment_key (filter live_adjustment (js_docs s)))"

text \<open>How an entry may move: once approved, its terms and its people stay and it can only be cancelled.\<close>

definition adjustment_moves :: "adjustment_doc \<Rightarrow> adjustment_doc \<Rightarrow> bool" where
  "adjustment_moves d e \<longleftrightarrow> aj_id e = aj_id d \<and> aj_employeeId e = aj_employeeId d \<and>
     (aj_status d \<in> {AdjApproved, AdjCancelled} \<longrightarrow>
        adjustment_terms e = adjustment_terms d \<and> aj_submittedBy e = aj_submittedBy d \<and> aj_decidedBy e = aj_decidedBy d \<and>
        aj_status e \<in> {aj_status d, AdjCancelled})"

definition adjustment_step_ok :: "adjustment_store \<Rightarrow> adjustment_store \<Rightarrow> bool" where
  "adjustment_step_ok s t \<longleftrightarrow> adjustments_ok t \<and> evolves adjustment_moves (js_docs s) (js_docs t)"

lemma adjustment_moves_refl [simp]: "adjustment_moves d d"
  by (simp add: adjustment_moves_def)

lemma adjustment_moves_trans: "adjustment_moves d e \<Longrightarrow> adjustment_moves e f \<Longrightarrow> adjustment_moves d f"
  by (auto simp: adjustment_moves_def)

lemma adjustment_step_refl: "adjustments_ok s \<Longrightarrow> adjustment_step_ok s s"
  by (simp add: adjustment_step_ok_def evolves_refl)

lemma adjustment_step_trans: "adjustment_step_ok s t \<Longrightarrow> adjustment_step_ok t u \<Longrightarrow> adjustment_step_ok s u"
  unfolding adjustment_step_ok_def by (blast intro: evolves_trans adjustment_moves_trans)

lemma adjustment_step_log: "adjustment_step_ok s t \<Longrightarrow> adjustment_step_ok s (t\<lparr>js_log := l\<rparr>)"
  by (simp add: adjustment_step_ok_def adjustments_ok_def)

lemma found_adjustment:
  assumes "adjustment_for e i s = Inr d"
  shows "d \<in> set (js_docs s)" "aj_id d = i" "aj_employeeId d = e" "\<not> aj_isDeleted d"
  using assms unfolding adjustment_for_def by (auto dest: find_Some_iff_hd)

subsection \<open>Writing one entry\<close>

lemma rewrite_adjustment:
  assumes ok: "adjustments_ok s" and d: "d \<in> set (js_docs s)"
    and g: "adjustment_moves d (g d)" "\<not> aj_isDeleted (g d)" "two_people (g d)"
    and key: "live_adjustment (g d) \<Longrightarrow> live_adjustment d \<and>
      (\<forall>x \<in> set (js_docs s). x \<noteq> d \<and> live_adjustment x \<longrightarrow> adjustment_key x \<noteq> adjustment_key (g d))"
  shows "adjustment_step_ok s (s\<lparr>js_docs := map (\<lambda>x. if aj_id x = aj_id d then g x else x) (js_docs s)\<rparr>)"
    (is "adjustment_step_ok s ?t")
proof -
  let ?h = "\<lambda>x. if aj_id x = aj_id d then g x else x"
  have ids: "distinct (map aj_id (js_docs s))"
    and all: "\<And>x. x \<in> set (js_docs s) \<Longrightarrow> aj_id x < js_nextId s \<and> \<not> aj_isDeleted x \<and> two_people x"
    and keys: "distinct (map adjustment_key (filter live_adjustment (js_docs s)))"
    using ok by (auto simp: adjustments_ok_def)
  have same: "x = d" if "x \<in> set (js_docs s)" "aj_id x = aj_id d" for x
    using ids d that by (auto simp: distinct_map inj_on_def)
  have h: "adjustment_moves x (?h x)" "aj_id (?h x) = aj_id x" "\<not> aj_isDeleted (?h x)" "two_people (?h x)"
    if "x \<in> set (js_docs s)" for x
    using same [OF that] g all [OF that] by (auto simp: adjustment_moves_def)
  have t: "js_docs ?t = map ?h (js_docs s)" "js_nextId ?t = js_nextId s" by simp_all
  have mid: "map aj_id (map ?h (js_docs s)) = map aj_id (js_docs s)" using h(2) by simp
  have nodup: "distinct (js_docs s)" using ids by (simp add: distinct_map)
  have inj: "inj_on adjustment_key (set (filter live_adjustment (map ?h (js_docs s))))"
  proof (rule inj_onI)
    fix x y
    assume "x \<in> set (filter live_adjustment (map ?h (js_docs s)))" "y \<in> set (filter live_adjustment (map ?h (js_docs s)))"
      and eq: "adjustment_key x = adjustment_key y"
    then obtain a b where a: "a \<in> set (js_docs s)" "x = ?h a" "live_adjustment x"
      and b: "b \<in> set (js_docs s)" "y = ?h b" "live_adjustment y"
      unfolding set_filter set_map by blast
    have xy: "x = (if a = d then g d else a)" "y = (if b = d then g d else b)"
      using same [OF a(1)] same [OF b(1)] a(2) b(2) by auto
    have "a = b"
    proof (cases "a = d \<or> b = d")
      case True
      then show ?thesis using a(1,3) b(1,3) xy eq key by (cases "a = d"; cases "b = d") (simp_all, metis+)
    next
      case False
      then show ?thesis using a(1,3) b(1,3) xy eq keys by (auto simp: distinct_map inj_on_def)
    qed
    then show "x = y" using a b by simp
  qed
  have "distinct (map aj_id (map ?h (js_docs s)))" using ids by (simp only: mid)
  then have "distinct (map ?h (js_docs s))" unfolding distinct_map [of aj_id] by (rule conjunct1)
  then have "distinct (map adjustment_key (filter live_adjustment (map ?h (js_docs s))))"
    using inj by (simp add: distinct_map del: set_filter set_map)
  moreover have "\<forall>x \<in> set (map ?h (js_docs s)). aj_id x < js_nextId s \<and> \<not> aj_isDeleted x \<and> two_people x"
    using h all unfolding set_map by (metis (no_types, lifting) imageE)
  ultimately have "adjustments_ok ?t" using ids unfolding adjustments_ok_def t mid by blast
  then show ?thesis using h(1) by (auto simp: adjustment_step_ok_def intro!: evolves_map)
qed

lemma update_adjustment_step:
  assumes ok: "adjustments_ok s" and d: "adjustment_for e i s = Inr d"
    and f: "\<And>u n. adjustment_moves d ((f d)\<lparr>aj_updatedBy := u, aj_version := n\<rparr>)" "\<not> aj_isDeleted (f d)" "two_people (f d)"
    and key: "live_adjustment (f d) \<Longrightarrow> live_adjustment d \<and>
      (\<forall>x \<in> set (js_docs s). x \<noteq> d \<and> live_adjustment x \<longrightarrow> adjustment_key x \<noteq> adjustment_key (f d))"
  shows "kept (adjustment_step_ok s) (updateAdjustmentById i v by f) s"
proof -
  define P where "P x \<longleftrightarrow> aj_id x = i \<and> aj_version x = v \<and> \<not> aj_isDeleted x" for x :: adjustment_doc
  define g where "g x = (f x)\<lparr>aj_updatedBy := Some by, aj_version := aj_version x + 1\<rparr>" for x :: adjustment_doc
  note fd = found_adjustment [OF d]
  have ids: "distinct (map aj_id (js_docs s))" using ok by (simp add: adjustments_ok_def)
  have same: "x = d" if "x \<in> set (js_docs s)" "aj_id x = i" for x
    using ids fd(1,2) that by (auto simp: distinct_map inj_on_def)
  show ?thesis
  proof (cases "List.find P (js_docs s)")
    case None
    then show ?thesis using adjustment_step_refl [OF ok]
      by (simp add: kept_def st_wp_def updateAdjustmentById_def Let_def P_def [abs_def])
  next
    case (Some x)
    then have "x \<in> set (js_docs s)" "P x" by (auto dest: find_Some_iff_hd)
    then have "P d" using same by (auto simp: P_def)
    then have eq: "update_first P g (js_docs s) = map (\<lambda>x. if aj_id x = aj_id d then g x else x) (js_docs s)"
      using fd ids by (intro update_first_unique) (auto simp: P_def)
    have same_facts: "adjustment_key (g d) = adjustment_key (f d)" "live_adjustment (g d) = live_adjustment (f d)"
        "two_people (g d) = two_people (f d)" "aj_isDeleted (g d) = aj_isDeleted (f d)"
      by (simp_all add: g_def adjustment_key_def live_adjustment_def two_people_def)
    have "adjustment_step_ok s (s\<lparr>js_docs := update_first P g (js_docs s)\<rparr>)"
      unfolding eq using f key same_facts
      by (intro rewrite_adjustment [OF ok fd(1)]) (simp_all add: g_def)
    then show ?thesis using Some
      by (simp add: kept_def st_wp_def updateAdjustmentById_def Let_def P_def [abs_def] g_def [abs_def])
  qed
qed

lemma add_adjustment:
  assumes ok: "adjustments_ok s" and d: "aj_id d = js_nextId s" "\<not> aj_isDeleted d" "two_people d"
    and free: "findDuplicate (aj_employeeId d) (aj_period d) (aj_kind d) (aj_reason d) None s = None"
  shows "adjustment_step_ok s (s\<lparr>js_docs := js_docs s @ [d], js_nextId := js_nextId s + 1\<rparr>)"
proof -
  have "adjustment_key x \<noteq> adjustment_key d" if "x \<in> set (js_docs s)" "live_adjustment x" for x
    using free that ok unfolding findDuplicate_def find_None_iff_all
    by (cases "aj_status x") (auto simp: adjustment_key_def live_adjustment_def LIVE_STATUSES_def adjustments_ok_def)
  then have fresh: "adjustment_key d \<notin> adjustment_key ` set (filter live_adjustment (js_docs s))" by force
  have "adjustments_ok (s\<lparr>js_docs := js_docs s @ [d], js_nextId := js_nextId s + 1\<rparr>)"
    using ok d fresh by (auto simp: adjustments_ok_def less_Suc_eq simp del: set_filter)
  then show ?thesis by (simp add: adjustment_step_ok_def evolves_append)
qed

subsection \<open>The operations\<close>

lemma create_adjustment_step:
  assumes ok: "adjustments_ok s"
  shows "kept (adjustment_step_ok s) (create_adjustment_op env e input) s"
  unfolding create_adjustment_op_def log_adjustment_def
  by (intro kept_bind_lift kept_bind_gets kept_bind_ensure kept_bind_modify kept_return
      adjustment_step_refl [OF ok] adjustment_step_log add_adjustment [OF ok])
    (simp_all add: draft_adjustment_def two_people_def)

text \<open>After the write only the log is written.\<close>

lemma kept_log_adjustment [intro]: "(\<And>u l. V u \<Longrightarrow> V (u\<lparr>js_log := l\<rparr>)) \<Longrightarrow> V s \<Longrightarrow> kept V (log_adjustment e) s"
  unfolding log_adjustment_def by (rule kept_modify)

lemma kept_logs:
  assumes "\<And>u l. V u \<Longrightarrow> V (u\<lparr>js_log := l\<rparr>)" "V s" "\<And>u. V u \<Longrightarrow> kept V (f ()) u"
  shows "kept V (st_bind (log_adjustment e) f) s"
  using assms by (intro kept_bind [where W = V] kept_log_adjustment) auto

lemmas adjustment_facts = adjustment_moves_def adjustment_terms_def two_people_def live_adjustment_def

lemma update_adjustment_op_step:
  assumes ok: "adjustments_ok s"
  shows "kept (adjustment_step_ok s) (update_adjustment_op env e i input) s"
proof -
  have key: "adjustment_key x \<noteq> adjustment_key (edit_adjustment input attachment d)"
    if "adjustment_for e i s = Inr d" "x \<in> set (js_docs s)" "x \<noteq> d" "live_adjustment x"
      "findDuplicate e (aj_period (edit_adjustment input f d)) (aj_kind (edit_adjustment input f d))
         (aj_reason (edit_adjustment input f d)) (Some i) s = None" for d x attachment f
  proof -
    note fd = found_adjustment [OF that(1)]
    have "aj_id x \<noteq> i" using ok fd that(2,3) by (auto simp: adjustments_ok_def distinct_map inj_on_def)
    then show ?thesis using that(2,4,5) ok fd unfolding findDuplicate_def find_None_iff_all
      by (cases "aj_status x")
        (auto simp: adjustment_key_def live_adjustment_def LIVE_STATUSES_def adjustments_ok_def edit_adjustment_def)
  qed
  have draft: "adjustment_moves d ((edit_adjustment input f d)\<lparr>aj_updatedBy := u, aj_version := n\<rparr>)"
    "\<not> aj_isDeleted (edit_adjustment input f d)" "two_people (edit_adjustment input f d)"
    if "adjustment_for e i s = Inr d" "aj_status d = AdjDraft" for d f u n
    using that(2) found_adjustment [OF that(1)] by (simp_all add: adjustment_facts edit_adjustment_def)
  show ?thesis
    unfolding update_adjustment_op_def Let_def
    by (intro kept_bind_lift kept_bind_gets kept_bind_ensure kept_bind [where W = "adjustment_step_ok s"] kept_logs kept_return
        update_adjustment_step [OF ok] adjustment_step_refl [OF ok] adjustment_step_log draft conjI ballI impI key)
      (auto simp: live_adjustment_def)
qed

lemma other_key:
  assumes "adjustments_ok s" "d \<in> set (js_docs s)" "x \<in> set (js_docs s)" "x \<noteq> d" "live_adjustment d" "live_adjustment x"
  shows "adjustment_key x \<noteq> adjustment_key d"
  using assms by (auto simp: adjustments_ok_def distinct_map inj_on_def)

text \<open>A move of an entry that leaves its terms alone.\<close>

lemma status_step:
  assumes ok: "adjustments_ok s" and d: "adjustment_for e i s = Inr d"
    and f: "adjustment_terms (f d) = adjustment_terms d" "aj_id (f d) = aj_id d" "\<not> aj_isDeleted (f d)" "two_people (f d)"
      "live_adjustment (f d) \<Longrightarrow> live_adjustment d"
    and final: "aj_status d \<in> {AdjApproved, AdjCancelled} \<Longrightarrow> aj_submittedBy (f d) = aj_submittedBy d \<and>
      aj_decidedBy (f d) = aj_decidedBy d \<and> aj_status (f d) \<in> {aj_status d, AdjCancelled}"
  shows "kept (adjustment_step_ok s) (updateAdjustmentById i v by f) s"
proof (rule update_adjustment_step [where f = f, OF ok d])
  show "adjustment_moves d ((f d)\<lparr>aj_updatedBy := u, aj_version := n\<rparr>)" for u n
    using f final by (auto simp: adjustment_moves_def adjustment_terms_def)
  have "adjustment_key (f d) = adjustment_key d"
    using f(1) by (simp add: adjustment_key_def adjustment_terms_def)
  then show "live_adjustment d \<and>
      (\<forall>x \<in> set (js_docs s). x \<noteq> d \<and> live_adjustment x \<longrightarrow> adjustment_key x \<noteq> adjustment_key (f d))"
    if "live_adjustment (f d)"
    using f(5) [OF that] other_key [OF ok found_adjustment(1) [OF d]] by auto
qed (use f(3,4) in simp_all)

lemmas status_facts = adjustment_terms_def two_people_def live_adjustment_def

lemma found_ok: "adjustments_ok s \<Longrightarrow> adjustment_for e i s = Inr d \<Longrightarrow> two_people d \<and> \<not> aj_isDeleted d"
  using found_adjustment by (auto simp: adjustments_ok_def)

lemma pending_has_submitter:
  "adjustments_ok s \<Longrightarrow> adjustment_for e i s = Inr d \<Longrightarrow> aj_status d = AdjPendingApproval \<Longrightarrow> \<exists>u. aj_submittedBy d = Some u"
  using found_ok by (auto simp: two_people_def)

lemma submit_adjustment_step:
  assumes ok: "adjustments_ok s"
  shows "kept (adjustment_step_ok s) (submit_adjustment_op env e i v) s"
  unfolding submit_adjustment_op_def
  by (intro kept_bind_lift kept_bind_gets kept_bind_ensure kept_bind [where W = "adjustment_step_ok s"] kept_logs kept_return
      status_step [OF ok] adjustment_step_refl [OF ok] adjustment_step_log)
    (auto simp: status_facts dest: found_ok [OF ok])

lemma decide_adjustment_step:
  assumes ok: "adjustments_ok s"
  shows "kept (adjustment_step_ok s) (decide_adjustment_op env e i approved note v) s"
  unfolding decide_adjustment_op_def Let_def
  by (intro kept_bind_lift kept_bind_gets kept_bind_ensure kept_bind [where W = "adjustment_step_ok s"] kept_logs kept_return
      status_step [OF ok] adjustment_step_refl [OF ok] adjustment_step_log kept_case_option kept_log_adjustment)
    (auto simp: status_facts dest: found_ok [OF ok] pending_has_submitter [OF ok])

lemma cancel_adjustment_step:
  assumes ok: "adjustments_ok s"
  shows "kept (adjustment_step_ok s) (cancel_adjustment_op env e i reason v) s"
  unfolding cancel_adjustment_op_def
  by (intro kept_bind_lift kept_bind_gets kept_bind_ensure kept_bind [where W = "adjustment_step_ok s"] kept_logs kept_return
      status_step [OF ok] adjustment_step_refl [OF ok] adjustment_step_log)
    (auto simp: status_facts dest: found_ok [OF ok])

lemma kept_try: "kept V m s \<Longrightarrow> kept V (st_try m) s"
  by (auto simp: kept_def st_wp_def st_try_def split: prod.splits)

lemma bulk_row_step:
  assumes "adjustments_ok s"
  shows "kept (adjustment_step_ok s) (bulk_row_op env period item n row res) s"
  using assms unfolding bulk_row_op_def
  by (auto split: sum.splits option.splits intro!: kept_lift kept_return adjustment_step_refl
      kept_bind [where W = "adjustment_step_ok s"] kept_try create_adjustment_step)

lemma bulk_rows_step:
  "adjustments_ok s \<Longrightarrow> kept (adjustment_step_ok s) (bulk_rows_op env period item n rows res) s"
proof (induction rows arbitrary: n res s)
  case (Cons row rows)
  have "kept (adjustment_step_ok s) (bulk_rows_op env period item (n + 1) rows res') t"
    if t: "adjustment_step_ok s t" for t res'
  proof -
    have "adjustments_ok t" using t by (simp add: adjustment_step_ok_def)
    then show ?thesis using Cons.IH adjustment_step_trans [OF t] by (blast intro: kept_mono)
  qed
  then show ?case
    by (auto intro!: kept_bind [where W = "adjustment_step_ok s"] bulk_row_step Cons.prems)
qed (simp add: adjustment_step_refl kept_return)

lemma create_many_step: "adjustments_ok s \<Longrightarrow> kept (adjustment_step_ok s) (create_many_op env period item rows) s"
  unfolding create_many_op_def by (intro kept_bind_lift kept_bind_ensure adjustment_step_refl bulk_rows_step)

lemma adjustment_op_ok:
  assumes "adjustments_ok s"
  shows "adjustment_step_ok s (fst (adjustment_step env opn s))"
proof -
  have "kept (adjustment_step_ok s) (adjustment_step env opn) s"
    using assms by (cases opn) (auto simp: quietly_def intro!: kept_bind_return_after create_adjustment_step
      create_many_step update_adjustment_op_step submit_adjustment_step decide_adjustment_step cancel_adjustment_step)
  then show ?thesis by (cases "adjustment_step env opn s") (auto dest: keptD)
qed

interpretation adjustments: step_system "\<lambda>(env, opn) s. fst (adjustment_step env opn s)" adjustments_ok adjustment_step_ok
  by unfold_locales (auto simp: adjustment_step_refl adjustment_op_ok intro: adjustment_step_trans, simp add: adjustment_step_ok_def)

lemma adjustment_history_fold: "adjustment_history xs s = fold (\<lambda>(env, opn) s. fst (adjustment_step env opn s)) xs s"
  by (induction xs s rule: adjustment_history.induct) auto

lemma adjustments_ok_empty: "adjustments_ok empty_adjustments"
  by (simp add: adjustments_ok_def empty_adjustments_def)

lemma adjustments_reached: "adjustments_ok (adjustment_history xs empty_adjustments)"
  unfolding adjustment_history_fold by (rule adjustments.reached [OF adjustments_ok_empty])

section \<open>A month that is frozen\<close>

definition approved_in :: "string \<Rightarrow> adjustment_doc \<Rightarrow> bool" where
  "approved_in p d \<longleftrightarrow> aj_period d = p \<and> aj_status d = AdjApproved"

definition same_approved :: "string \<Rightarrow> adjustment_store \<Rightarrow> adjustment_store \<Rightarrow> bool" where
  "same_approved p s t \<longleftrightarrow> filter (approved_in p) (js_docs t) = filter (approved_in p) (js_docs s)"

lemma same_approved_refl: "same_approved p s s"
  by (simp add: same_approved_def)

lemma same_approved_log: "same_approved p s t \<Longrightarrow> same_approved p s (t\<lparr>js_log := l\<rparr>)"
  by (simp add: same_approved_def)

lemma same_approvedFor:
  assumes "same_approved p s t"
  shows "approvedFor e p t = approvedFor e p s"
proof -
  have split: "filter (\<lambda>d. aj_employeeId d = e \<and> aj_period d = p \<and> aj_status d = AdjApproved \<and> \<not> aj_isDeleted d) xs =
      filter (\<lambda>d. aj_employeeId d = e \<and> \<not> aj_isDeleted d) (filter (approved_in p) xs)" for xs
    unfolding filter_filter by (rule filter_cong) (auto simp: approved_in_def)
  show ?thesis using assms unfolding approvedFor_def split same_approved_def by simp
qed

lemma filter_update_first:
  "(\<And>x. x \<in> set xs \<Longrightarrow> P x \<Longrightarrow> \<not> Q x \<and> \<not> Q (g x)) \<Longrightarrow> filter Q (update_first P g xs) = filter Q xs"
  by (induction xs) auto

lemma update_elsewhere:
  assumes ok: "adjustments_ok s" and d: "adjustment_for e i s = Inr d"
    and out: "\<not> approved_in p d" "\<not> approved_in p (f d)"
  shows "kept (same_approved p s) (updateAdjustmentById i v by f) s"
proof -
  have "x = d" if "x \<in> set (js_docs s)" "aj_id x = i" for x
    using ok found_adjustment [OF d] that by (auto simp: adjustments_ok_def distinct_map inj_on_def)
  then have "\<not> approved_in p x \<and> \<not> approved_in p ((f x)\<lparr>aj_updatedBy := u, aj_version := n\<rparr>)"
    if "x \<in> set (js_docs s)" "aj_id x = i" for x u n
    using out that by (auto simp: approved_in_def)
  then show ?thesis
    by (auto simp: kept_def st_wp_def updateAdjustmentById_def Let_def same_approved_def split: option.splits
        intro!: filter_update_first)
qed

lemma recordable_period: "assertRecordable env p a c x = Inr () \<Longrightarrow> p \<notin> set (env_frozen env)"
  by (auto simp: assertRecordable_def assertAdjustmentPeriodOpen_def res_bind_def res_ensure_def split: sum.splits if_splits)

lemmas elsewhere_rules = kept_bind_lift kept_bind_gets kept_bind_ensure kept_logs kept_return kept_log_adjustment
  kept_case_option same_approved_refl same_approved_log

lemma update_frozen:
  assumes "adjustments_ok s"
  shows "kept (same_approved p s) (update_adjustment_op env e i input) s"
  unfolding update_adjustment_op_def Let_def
  by (intro elsewhere_rules kept_bind [where W = "same_approved p s"] update_elsewhere [OF assms])
    (auto simp: approved_in_def edit_adjustment_def)

lemma submit_frozen:
  assumes "adjustments_ok s"
  shows "kept (same_approved p s) (submit_adjustment_op env e i v) s"
  unfolding submit_adjustment_op_def
  by (intro elsewhere_rules kept_bind [where W = "same_approved p s"] update_elsewhere [OF assms])
    (auto simp: approved_in_def)

lemma decide_frozen:
  assumes "adjustments_ok s" "p \<in> set (env_frozen env)"
  shows "kept (same_approved p s) (decide_adjustment_op env e i approved note v) s"
  unfolding decide_adjustment_op_def Let_def
  by (intro elsewhere_rules kept_bind [where W = "same_approved p s"] update_elsewhere [OF assms(1)])
    (use assms(2) in \<open>auto simp: approved_in_def dest: recordable_period\<close>)

lemma cancel_frozen:
  assumes "adjustments_ok s" "p \<in> set (env_frozen env)"
  shows "kept (same_approved p s) (cancel_adjustment_op env e i reason v) s"
  unfolding cancel_adjustment_op_def
  by (intro elsewhere_rules kept_bind [where W = "same_approved p s"] update_elsewhere [OF assms(1)])
    (use assms(2) in \<open>auto simp: approved_in_def assertAdjustmentPeriodOpen_def res_ensure_def split: if_splits\<close>)

lemma create_frozen: "same_approved p s t \<Longrightarrow> kept (same_approved p s) (create_adjustment_op env e input) t"
  unfolding create_adjustment_op_def
  by (intro elsewhere_rules kept_bind_modify)
    (simp_all add: same_approved_def approved_in_def draft_adjustment_def)

lemma bulk_row_frozen: "same_approved p s t \<Longrightarrow> kept (same_approved p s) (bulk_row_op env period item n row res) t"
  unfolding bulk_row_op_def
  by (auto split: sum.splits option.splits intro!: kept_lift kept_return
      kept_bind [where W = "same_approved p s"] kept_try create_frozen)

lemma bulk_rows_frozen: "same_approved p s t \<Longrightarrow> kept (same_approved p s) (bulk_rows_op env period item n rows res) t"
proof (induction rows arbitrary: n res t)
  case (Cons row rows)
  show ?case unfolding bulk_rows_op.simps
    by (rule kept_bind [where W = "same_approved p s"]) (auto intro: bulk_row_frozen Cons)
qed (simp add: kept_return)

lemma create_many_frozen: "kept (same_approved p s) (create_many_op env period item rows) s"
  unfolding create_many_op_def by (intro kept_bind_lift kept_bind_ensure same_approved_refl bulk_rows_frozen)

lemma frozen_adjustment_step:
  assumes "adjustments_ok s" "p \<in> set (env_frozen env)"
  shows "same_approved p s (fst (adjustment_step env opn s))"
proof -
  have "kept (same_approved p s) (adjustment_step env opn) s"
    using assms by (cases opn) (auto simp: quietly_def intro!: kept_bind_return_after create_frozen same_approved_refl
      create_many_frozen update_frozen submit_frozen decide_frozen cancel_frozen)
  then show ?thesis by (cases "adjustment_step env opn s") (auto dest: keptD)
qed

section \<open>A distribution run twice\<close>

text \<open>What the request and the environment alone decide about a row.\<close>

definition row_open :: "adjustment_env \<Rightarrow> string \<Rightarrow> oid \<Rightarrow> bulk_row \<Rightarrow> bool" where
  "row_open env period item row \<longleftrightarrow> (\<exists>employee currency. employee_in_scope env (br_employeeId row) = Inr employee \<and>
     e_salaryCurrency employee = Some currency \<and>
     assertRecordable env period (br_amount row) currency employee = Inr ())"

definition row_recorded :: "string \<Rightarrow> adjustment_store \<Rightarrow> bulk_row \<Rightarrow> bool" where
  "row_recorded period s row \<longleftrightarrow> findDuplicate (br_employeeId row) period Bonus (br_reason row) None s \<noteq> None"

definition bulk_again :: "bulk_result \<Rightarrow> bulk_result" where
  "bulk_again r = r\<lparr>bu_created := 0, bu_duplicates := bu_duplicates r + bu_created r\<rparr>"

lemmas bulk_facts = bulk_row_op_def st_bind_def st_lift_def st_return_def st_gets_def st_modify_def st_ensure_def st_try_def
  create_adjustment_op_def bulk_input_def log_adjustment_def resolveAdjustmentFile_def

lemma bulk_again_simps [simp]:
  "caught_row n row e (bulk_again r) = map_sum id bulk_again (caught_row n row e r)"
  "reject_row n row m (bulk_again r) = bulk_again (reject_row n row m r)"
  by (cases "(n, row, e, r)" rule: caught_row.cases; simp add: bulk_again_def reject_row_def)+

lemma closed_row:
  assumes "\<not> row_open env period item row"
  shows "fst (bulk_row_op env period item n row res s) = s"
    "bulk_row_op env period item n row (bulk_again res) t =
       (t, map_sum id bulk_again (snd (bulk_row_op env period item n row res s)))"
  using assms by (auto simp: bulk_facts row_open_def split: sum.splits option.splits)

lemma open_row:
  assumes "row_open env period item row"
  shows "bulk_row_op env period item n row res s =
    (if row_recorded period s row then (s, Inr (res\<lparr>bu_duplicates := bu_duplicates res + 1\<rparr>))
     else (fst (bulk_row_op env period item n row res s), Inr (res\<lparr>bu_created := bu_created res + 1\<rparr>)))"
    "row_recorded period (fst (bulk_row_op env period item n row res s)) row"
  using assms by (auto simp: bulk_facts row_open_def row_recorded_def findDuplicate_def draft_adjustment_def
      LIVE_STATUSES_def find_None_iff_all split: sum.splits option.splits)

lemma bulk_row_grows: "row_recorded period s x \<Longrightarrow> row_recorded period (fst (bulk_row_op env period item n row res s)) x"
  by (auto simp: bulk_facts row_recorded_def findDuplicate_def find_None_iff_all split: sum.splits option.splits)

lemma bulk_rows_grow: "row_recorded period s x \<Longrightarrow> row_recorded period (fst (bulk_rows_op env period item n rows res s)) x"
proof (induction rows arbitrary: n res s)
  case (Cons row rows)
  then show ?case using bulk_row_grows [OF Cons.prems, of env item n row res]
    by (auto simp: st_bind_def split: prod.splits sum.splits)
qed (simp add: st_return_def)

lemma bulk_rows_again:
  assumes "\<And>x. row_recorded period (fst (bulk_rows_op env period item n rows res s)) x \<Longrightarrow> row_recorded period u x"
  shows "bulk_rows_op env period item n rows (bulk_again res) u =
    (u, map_sum id bulk_again (snd (bulk_rows_op env period item n rows res s)))"
  using assms
proof (induction rows arbitrary: n res s)
  case (Cons row rows)
  obtain t out where first: "bulk_row_op env period item n row res s = (t, out)" by fastforce
  have second: "bulk_row_op env period item n row (bulk_again res) u = (u, map_sum id bulk_again out)"
  proof (cases "row_open env period item row")
    case False
    then show ?thesis using closed_row(2) [OF False, of n res u s] first by simp
  next
    case True
    have "row_recorded period t row" using open_row(2) [OF True, of n res s] first by simp
    moreover have out: "out = Inr (if row_recorded period s row then res\<lparr>bu_duplicates := bu_duplicates res + 1\<rparr>
        else res\<lparr>bu_created := bu_created res + 1\<rparr>)"
      using arg_cong [OF open_row(1) [OF True, of n res s], of snd] first by (simp split: if_splits)
    ultimately have "row_recorded period u row"
      using bulk_rows_grow Cons.prems first by (auto simp: st_bind_def)
    then show ?thesis using open_row(1) [OF True, of n "bulk_again res" u] out by (simp add: bulk_again_def)
  qed
  show ?case
  proof (cases out)
    case (Inr r)
    then show ?thesis using Cons.IH [of "n + 1" r t] Cons.prems first second by (simp add: st_bind_def)
  qed (simp add: st_bind_def first second)
qed (simp add: st_return_def)

section \<open>The claims\<close>

text \<open>An administrator, a submitter and a decider; a bonus recorded, submitted and approved.\<close>

definition demo_adjustment_env :: "oid \<Rightarrow> string list \<Rightarrow> adjustment_env" where
  "demo_adjustment_env user frozen = \<lparr>env_user = user, env_now = day_of 20490,
     env_employee = (\<lambda>i. if i = 7 then Some \<lparr>e_code = ''E7'', e_userId = None, e_branchId = None, e_departmentId = None,
       e_salaryCurrency = Some ''EGP'', e_dates = \<lparr>hiredAt = day_of 20454, exitDate = None, employmentPeriods = []\<rparr>\<rparr> else None),
     env_frozen = frozen, env_file = (\<lambda>_. Inl (NotFoundError ''file'')), je_item = (\<lambda>_. None)\<rparr>"

definition demo_bonus :: create_adjustment where
  "demo_bonus = \<lparr>ca_period = ''2026-02'', ca_kind = Bonus, ca_amount = Finite False 50 [], ca_currency = ''EGP'',
     ca_reason = ''eid'', ca_payItemId = None, ca_note = None, ca_attachmentFileId = None\<rparr>"

definition demo_adjustments :: "(adjustment_env \<times> adjustment_op) list" where
  "demo_adjustments = [(demo_adjustment_env 1 [], CreateAdjustment 7 demo_bonus),
     (demo_adjustment_env 1 [], SubmitAdjustment 7 1 0),
     (demo_adjustment_env 2 [], DecideAdjustment 7 1 True None 1)]"

definition demo_approved :: adjustment_doc where
  "demo_approved = hd (js_docs (adjustment_history demo_adjustments empty_adjustments))"

lemma demo_approved_found:
  "demo_approved \<in> set (js_docs (adjustment_history demo_adjustments empty_adjustments))"
  "aj_status demo_approved = AdjApproved"
proof -
  have "length (js_docs (adjustment_history demo_adjustments empty_adjustments)) = 1" by code_simp
  then show "demo_approved \<in> set (js_docs (adjustment_history demo_adjustments empty_adjustments))"
    unfolding demo_approved_def by (cases "js_docs (adjustment_history demo_adjustments empty_adjustments)") auto
  show "aj_status demo_approved = AdjApproved" by code_simp
qed

text \<open>C6. After any history of requests, an approved bonus or penalty was submitted by one person and decided
  by another, and it is the only live entry with its employee, month, kind and reason.\<close>

theorem adjustments_take_two_people:
  assumes "d \<in> set (js_docs (adjustment_history xs empty_adjustments))" "aj_status d = AdjApproved"
  shows "(\<exists>u v. aj_submittedBy d = Some u \<and> aj_decidedBy d = Some v \<and> u \<noteq> v) \<and>
    (\<forall>e \<in> set (js_docs (adjustment_history xs empty_adjustments)).
       aj_status e \<noteq> AdjCancelled \<and> aj_employeeId e = aj_employeeId d \<and> aj_period e = aj_period d \<and>
       aj_kind e = aj_kind d \<and> aj_reason e = aj_reason d \<longrightarrow> e = d)"
proof
  have ok: "adjustments_ok (adjustment_history xs empty_adjustments)" by (rule adjustments_reached)
  then show "\<exists>u v. aj_submittedBy d = Some u \<and> aj_decidedBy d = Some v \<and> u \<noteq> v"
    using assms by (auto simp: adjustments_ok_def two_people_def)
  show "\<forall>e \<in> set (js_docs (adjustment_history xs empty_adjustments)).
       aj_status e \<noteq> AdjCancelled \<and> aj_employeeId e = aj_employeeId d \<and> aj_period e = aj_period d \<and>
       aj_kind e = aj_kind d \<and> aj_reason e = aj_reason d \<longrightarrow> e = d"
    using other_key [OF ok assms(1)] assms(2) by (auto simp: adjustment_key_def live_adjustment_def)
qed

text \<open>Once approved, an entry keeps its employee, month, kind, amount, currency, reason and catalog item and
  the two people behind it over every later history; the only thing that can still happen to it is a cancellation.\<close>

theorem approved_adjustment_is_final:
  assumes "d \<in> set (js_docs (adjustment_history before empty_adjustments))" "aj_status d = AdjApproved"
  shows "\<exists>e \<in> set (js_docs (adjustment_history (before @ after) empty_adjustments)).
    aj_id e = aj_id d \<and> adjustment_terms e = adjustment_terms d \<and> aj_submittedBy e = aj_submittedBy d \<and>
    aj_decidedBy e = aj_decidedBy d \<and> aj_status e \<in> {AdjApproved, AdjCancelled}"
proof -
  have "adjustment_step_ok (adjustment_history before empty_adjustments) (adjustment_history (before @ after) empty_adjustments)"
    unfolding adjustment_history_fold by (rule adjustments.later [OF adjustments_ok_empty])
  then obtain e where "e \<in> set (js_docs (adjustment_history (before @ after) empty_adjustments))" "adjustment_moves d e"
    using assms(1) by (auto simp: adjustment_step_ok_def evolves_def)
  then show ?thesis using assms(2) by (auto simp: adjustment_moves_def)
qed

text \<open>C16. While a run of a month is frozen, no request of any kind changes what that month's bonuses and
  penalties pay any employee.\<close>

theorem frozen_month_adjustments_unchanged:
  assumes "p \<in> set (env_frozen env)"
  shows "adjustmentsFor items employee p (fst (adjustment_step env opn (adjustment_history xs empty_adjustments))) =
    adjustmentsFor items employee p (adjustment_history xs empty_adjustments)"
  using same_approvedFor [OF frozen_adjustment_step [OF adjustments_reached assms]] by (simp add: adjustmentsFor_def)

text \<open>C9. Running a distribution again over the same facts writes nothing, whatever the first run did, finished or
  stopped: every row it recorded is now reported as a duplicate, and every other row is reported as it was.\<close>

theorem bulk_rerun_writes_nothing:
  "let (t, out) = create_many_op env period item rows s
   in create_many_op env period item rows t = (t, map_sum id bulk_again out)"
proof -
  have again: "bulk_again \<lparr>bu_created = 0, bu_duplicates = 0, bu_rejected = []\<rparr> =
      \<lparr>bu_created = 0, bu_duplicates = 0, bu_rejected = []\<rparr>" by (simp add: bulk_again_def)
  show ?thesis
    using bulk_rows_again [where n = 0 and res = "\<lparr>bu_created = 0, bu_duplicates = 0, bu_rejected = []\<rparr>"
        and u = "fst (bulk_rows_op env period item 0 rows \<lparr>bu_created = 0, bu_duplicates = 0, bu_rejected = []\<rparr> s)"
        and s = s and env = env and period = period and item = item and rows = rows]
    by (auto simp: create_many_op_def st_bind_def st_lift_def st_ensure_def Let_def again
        split: prod.splits sum.splits option.splits)
qed

section \<open>Witnesses\<close>

theorem adjustments_take_two_people_witness:
  "\<exists>u v. aj_submittedBy demo_approved = Some u \<and> aj_decidedBy demo_approved = Some v \<and> u \<noteq> v"
  using adjustments_take_two_people [OF demo_approved_found] by blast

theorem approved_adjustment_is_final_witness:
  "\<exists>e \<in> set (js_docs (adjustment_history (demo_adjustments @ [(demo_adjustment_env 1 [], CancelAdjustment 7 1 ''mistake'' 2)])
       empty_adjustments)).
    aj_id e = aj_id demo_approved \<and> adjustment_terms e = adjustment_terms demo_approved \<and>
    aj_submittedBy e = aj_submittedBy demo_approved \<and> aj_decidedBy e = aj_decidedBy demo_approved \<and>
    aj_status e \<in> {AdjApproved, AdjCancelled}"
  by (rule approved_adjustment_is_final [OF demo_approved_found])

theorem frozen_month_adjustments_unchanged_witness:
  "adjustmentsFor (\<lambda>_. None) 7 ''2026-02'' (fst (adjustment_step (demo_adjustment_env 1 [''2026-02''])
       (CancelAdjustment 7 1 ''mistake'' 2) (adjustment_history demo_adjustments empty_adjustments))) =
   adjustmentsFor (\<lambda>_. None) 7 ''2026-02'' (adjustment_history demo_adjustments empty_adjustments)"
  by (rule frozen_month_adjustments_unchanged) (simp add: demo_adjustment_env_def)

end
