(* ===== verification/Payslip_Claims.thy ===== *)
theory Payslip_Claims
  imports Payslips Compensation_Claims Loan_Claims Payroll_Adjustment_Claims
begin

text \<open>
  What holds of payslips over every history of the parts of payroll: one slip for each run and employee, whose
  figures are the figures of its lines; a slip is never rewritten; what a slip deducts for a loan is in the
  loan's ledger; a pass that finds every slip there writes nothing. The two findings of this part are here too.
\<close>

section \<open>The loans while payslips are issued\<close>

definition loan_grows :: "loan_store \<Rightarrow> loan_store \<Rightarrow> bool" where
  "loan_grows s t \<longleftrightarrow> loan_reachable t \<and> rows_history s t \<and> set (repayments s) \<subseteq> set (repayments t) \<and>
     l_id ` set (loans s) \<subseteq> l_id ` set (loans t)"

lemma loan_ids_write:
  assumes "loan_write frozen s t"
  shows "l_id ` set (loans s) \<subseteq> l_id ` set (loans t)"
proof -
  have "set (map l_id (loans (put_loan d s))) = set (map l_id (loans s))" for d
    by (simp only: put_loan_sel(1) put_loan_ids)
  then have "l_id ` set (loans (put_loan d s)) = l_id ` set (loans s)" for d by (simp only: set_map)
  then show ?thesis using assms by (elim loan_writeE) (simp_all del: put_loan_sel(1), blast)
qed

interpretation loan_ids: event_relation frozen "\<lambda>s t. l_id ` set (loans s) \<subseteq> l_id ` set (loans t)" for frozen
  by unfold_locales (use loan_ids_write in blast)+

lemma loan_grows_refl: "loan_reachable s \<Longrightarrow> loan_grows s s"
  by (simp add: loan_grows_def rows.refl)

lemma loan_grows_trans: "loan_grows s t \<Longrightarrow> loan_grows t u \<Longrightarrow> loan_grows s u"
  unfolding loan_grows_def by (elim conjE, intro conjI) (assumption | erule (1) rows.trans | erule (1) subset_trans)+

lemma request_grows:
  assumes "loan_reachable s" "valid_loan_op opn"
  shows "loan_grows s (fst (run_loan_op env opn s))"
proof -
  have run: "run_loan_op env opn s = (fst (run_loan_op env opn s), snd (run_loan_op env opn s))" by simp
  have "loan_reachable (fst (run_loan_op env opn s))"
    using assms run by (blast intro: loan_reachable.step loan_step.request)
  then show ?thesis
    using rows.request_R [OF assms(1) run assms(2)] ledger.request_R [OF assms(1) run assms(2)]
      loan_ids.request_R [OF assms(1) run assms(2)]
    by (auto simp: loan_grows_def dest: set_mono_prefix)
qed

lemma reachable_priced: "loan_reachable s \<Longrightarrow> active_priced s"
proof (induction rule: loan_reachable.induct)
  case (step s t)
  from step(2) obtain env opn r where "run_loan_op env opn s = (t, r)" "valid_loan_op opn" by (blast elim: loan_stepE)
  then have "via (env_frozen env) s t" using reachable_ok [OF step(1)] by (rule run_loan_op_via)
  then show ?case using active_priced_writes step.IH by (auto simp: via_def)
qed (simp add: active_priced_def empty_loan_store_def)

text \<open>An instalment that exists, of a loan that exists.\<close>

definition known_row :: "loan_store \<Rightarrow> oid \<Rightarrow> installment_doc \<Rightarrow> bool" where
  "known_row s i inst \<longleftrightarrow> inst \<in> set (installments s) \<and> i_id inst = i \<and> i_loanId inst \<in> l_id ` set (loans s)"

definition repaid_in :: "loan_store \<Rightarrow> oid \<Rightarrow> string \<Rightarrow> bool" where
  "repaid_in s loanId period \<longleftrightarrow> (\<exists>r \<in> set (repayments s). r_loanId r = loanId \<and> r_period r = period)"

lemma known_row_grows: "known_row s i inst \<Longrightarrow> loan_grows s t \<Longrightarrow> \<exists>inst'. known_row t i inst' \<and> row_moves inst inst'"
  by (fastforce simp: known_row_def loan_grows_def rows_history_def row_moves_def)

lemma repaid_grows: "repaid_in s l p \<Longrightarrow> loan_grows s t \<Longrightarrow> repaid_in t l p"
  by (auto simp: repaid_in_def loan_grows_def)

lemma find_distinct: "distinct (map h xs) \<Longrightarrow> x \<in> set xs \<Longrightarrow> h x = k \<Longrightarrow> List.find (\<lambda>y. h y = k) xs = Some x"
  by (induction xs) auto

lemma recordDeducted_run:
  assumes "List.find (\<lambda>r. i_id r = p_installmentId input) (installments s) = Some inst"
    and "findLoanById (i_loanId inst) s = Some loan" and "active_priced s"
  shows "\<exists>t b. recordDeducted env input s = (t, Inr b) \<and> repaid_in t (i_loanId inst) (p_period input)"
proof (cases "\<exists>r \<in> set (repayments s). r_loanId r = i_loanId inst \<and> r_period r = p_period input")
  case True
  then have "recordDeducted env input s = (s, Inr False)"
    using assms by (auto simp: recordDeducted_def st_defs st_bind_def insertRepayment_def)
  then show ?thesis using True by (auto simp: repaid_in_def)
next
  case False
  have "\<exists>u. settleIfCleared (i_loanId inst) t = (u, Inr ())" if "loans t = loans s" for t
    using assms(3) that by (intro settleIfCleared_total) (simp add: active_priced_def)
  then obtain settle where settle: "\<And>t. loans t = loans s \<Longrightarrow> settleIfCleared (i_loanId inst) t = (settle t, Inr ())"
    by metis
  then have frame: "repayments (settle t) = repayments t" if "loans t = loans s" for t
    using settleIfCleared_frame that by blast
  show ?thesis using assms(1,2) False
    by (auto simp: recordDeducted_def st_defs st_bind_def insertRepayment_def markDeducted_def log_effect_def settle frame repaid_in_def)
qed

lemma recordDeducted_known:
  assumes "loan_reachable s" "known_row s (p_installmentId input) inst" "0 < p_amountMinor input"
  shows "\<exists>t b. recordDeducted env input s = (t, Inr b) \<and> loan_grows s t \<and> repaid_in t (i_loanId inst) (p_period input)"
proof -
  have ok: "store_ok s" by (rule reachable_ok [OF assms(1)])
  have "List.find (\<lambda>r. i_id r = p_installmentId input) (installments s) = Some inst"
    using ok assms(2) by (intro find_distinct) (auto simp: known_row_def store_ok_def ids_ok_def)
  moreover obtain loan where "findLoanById (i_loanId inst) s = Some loan"
  proof -
    obtain l where "l \<in> set (loans s)" "l_id l = i_loanId inst" using assms(2) by (auto simp: known_row_def)
    then have "findLoanById (i_loanId inst) s \<noteq> None"
      using ok by (auto simp: findLoanById_def findLoan_def find_None_iff_all store_ok_def loans_ok_def)
    then show ?thesis using that by blast
  qed
  ultimately obtain t b where t: "recordDeducted env input s = (t, Inr b)" "repaid_in t (i_loanId inst) (p_period input)"
    using recordDeducted_run reachable_priced [OF assms(1)] by blast
  have "fst (run_loan_op env (OpDeducted input) s) = t" by (simp add: outcome_def st_bind_def st_return_def t)
  then have "loan_grows s t" using request_grows [OF assms(1), of "OpDeducted input" env] assms(3) by simp
  then show ?thesis using t by blast
qed

lemma recordTaken_known:
  assumes "loan_reachable s" "\<forall>row \<in> set rows. 0 < tk_amountMinor row \<and> (\<exists>inst. known_row s (tk_installmentId row) inst)"
  shows "\<exists>t n. recordTaken env runId slipId period rows k s = (t, Inr n) \<and> loan_grows s t \<and>
    (\<forall>row \<in> set rows. \<forall>inst. known_row s (tk_installmentId row) inst \<longrightarrow> repaid_in t (i_loanId inst) period)"
  using assms
proof (induction rows arbitrary: s k)
  case Nil
  then show ?case by (auto simp: st_return_def intro: loan_grows_refl)
next
  case (Cons row rows)
  let ?in = "receipt_of runId slipId period row"
  obtain inst where inst: "known_row s (tk_installmentId row) inst" using Cons.prems by auto
  have "known_row s (p_installmentId ?in) inst" "0 < p_amountMinor ?in" "p_period ?in = period"
    using inst Cons.prems(2) by (simp_all add: receipt_of_def)
  then obtain u b where u: "recordDeducted env ?in s = (u, Inr b)" "loan_grows s u" "repaid_in u (i_loanId inst) period"
    using recordDeducted_known [OF Cons.prems(1)] by metis
  have same: "inst' = inst" if "known_row s (tk_installmentId row) inst'" for inst'
    using reachable_ok [OF Cons.prems(1)] inst that
    by (auto simp: known_row_def store_ok_def ids_ok_def distinct_map inj_on_def)
  have reach: "loan_reachable u" using u(2) by (simp add: loan_grows_def)
  moreover have "\<forall>row \<in> set rows. 0 < tk_amountMinor row \<and> (\<exists>inst. known_row u (tk_installmentId row) inst)"
    using Cons.prems(2) known_row_grows [OF _ u(2)] by fastforce
  ultimately obtain t n where t: "recordTaken env runId slipId period rows (if b then k + 1 else k) u = (t, Inr n)"
    "loan_grows u t" "\<forall>row \<in> set rows. \<forall>inst. known_row u (tk_installmentId row) inst \<longrightarrow> repaid_in t (i_loanId inst) period"
    using Cons.IH [of u "if b then k + 1 else k"] by blast
  have "repaid_in t (i_loanId inst') period" if x: "x \<in> set rows" "known_row s (tk_installmentId x) inst'" for x inst'
  proof -
    obtain y where "known_row u (tk_installmentId x) y" "row_moves inst' y" using known_row_grows [OF x(2) u(2)] by blast
    moreover from this have "repaid_in t (i_loanId y) period" using t(3) x(1) by blast
    ultimately show ?thesis by (simp add: row_moves_def)
  qed
  then show ?case using t u repaid_grows [OF u(3) t(2)] same loan_grows_trans [OF u(2) t(2)]
    by (auto simp: st_bind_def)
qed

section \<open>The interface between payroll and loans\<close>

text \<open>What issuing a payslip needs of the side that keeps the loans: what is due can be taken, and what was taken is
  booked and stays booked.\<close>

locale installment_port =
  fixes due :: "oid \<Rightarrow> string \<Rightarrow> 'l \<Rightarrow> loan_installment_line list"
    and take_all :: "oid \<Rightarrow> oid \<Rightarrow> string \<Rightarrow> taken_installment list \<Rightarrow> ('l, nat) st"
    and sane :: "'l \<Rightarrow> bool"
    and grows :: "'l \<Rightarrow> 'l \<Rightarrow> bool"
    and booked :: "'l \<Rightarrow> string \<Rightarrow> oid \<Rightarrow> int \<Rightarrow> bool"
  assumes booked_grows: "booked s p i m \<Longrightarrow> grows s t \<Longrightarrow> booked t p i m"
    and take_due: "sane s \<Longrightarrow> \<forall>row \<in> set rows. \<exists>x \<in> set (due e p s).
        tk_installmentId row = li_id x \<and> tk_amountMinor row = li_amountMinor x \<Longrightarrow>
      \<exists>t n. take_all r k p rows s = (t, Inr n) \<and> grows s t \<and>
        (\<forall>row \<in> set rows. booked t p (tk_installmentId row) (tk_amountMinor row))"
begin

lemma loan_line_due:
  assumes "computeCompensation coll input = Inr ef" "ci_loanInstallments input = due e p s"
    and "l \<in> set (ef_deductions ef)" "ln_origin l = FromLoanInstallment"
  shows "\<exists>x \<in> set (due e p s). ln_sourceAssignmentId l = Some (li_id x) \<and> ln_amountMinor l = Some (li_amountMinor x)"
proof -
  have "(ln_sourceAssignmentId l, ln_amountMinor l) \<in>
      set (map (\<lambda>l. (ln_sourceAssignmentId l, ln_amountMinor l)) (filter (\<lambda>l. ln_origin l = FromLoanInstallment) (ef_deductions ef)))"
    using assms(3,4) by auto
  then show ?thesis unfolding decisions_taken_exactly [OF assms(1), THEN conjunct1] assms(2) by auto
qed

lemma take_lines:
  assumes "sane s" "computeCompensation coll input = Inr ef" "ci_loanInstallments input = due e p s"
  shows "\<exists>t n. take_all r k p (taken_of e (ef_deductions ef)) s = (t, Inr n) \<and> grows s t \<and>
    (\<forall>l \<in> set (ef_deductions ef). ln_origin l = FromLoanInstallment \<longrightarrow>
       (\<exists>i m. ln_sourceAssignmentId l = Some i \<and> ln_amountMinor l = Some m \<and> booked t p i m))"
proof -
  let ?rows = "taken_of e (ef_deductions ef)"
  note line = loan_line_due [OF assms(2,3)]
  have "\<exists>x \<in> set (due e p s). tk_installmentId row = li_id x \<and> tk_amountMinor row = li_amountMinor x" if row: "row \<in> set ?rows" for row
  proof -
    obtain l where l: "l \<in> set (ef_deductions ef)" "ln_origin l = FromLoanInstallment"
      "tk_installmentId row = the (ln_sourceAssignmentId l)" "tk_amountMinor row = line_minor l"
      using row by (auto simp: taken_of_def)
    then show ?thesis using line [OF l(1,2)] by (auto simp: line_minor_def)
  qed
  then obtain t n where t: "take_all r k p ?rows s = (t, Inr n)" "grows s t"
    "\<forall>row \<in> set ?rows. booked t p (tk_installmentId row) (tk_amountMinor row)"
    using take_due [OF assms(1)] by blast
  have "\<exists>i m. ln_sourceAssignmentId l = Some i \<and> ln_amountMinor l = Some m \<and> booked t p i m"
    if l: "l \<in> set (ef_deductions ef)" "ln_origin l = FromLoanInstallment" for l
  proof -
    obtain x where x: "x \<in> set (due e p s)" "ln_sourceAssignmentId l = Some (li_id x)" "ln_amountMinor l = Some (li_amountMinor x)"
      using line [OF l] by blast
    then have "\<lparr>tk_installmentId = li_id x, tk_employeeId = e, tk_amountMinor = li_amountMinor x\<rparr> \<in> set ?rows"
      using l by (force simp: taken_of_def line_minor_def)
    then show ?thesis using t(3) x by force
  qed
  then show ?thesis using t by blast
qed

end

text \<open>The loan service provides it: an instalment is booked when its month has a repayment of its loan.\<close>

definition booked :: "loan_store \<Rightarrow> string \<Rightarrow> oid \<Rightarrow> int \<Rightarrow> bool" where
  "booked s period i m \<longleftrightarrow> (\<exists>inst. known_row s i inst \<and> i_amountMinor inst = m \<and> i_period inst = period \<and>
     repaid_in s (i_loanId inst) period)"

lemma booked_grows:
  assumes "booked s p i m" "loan_grows s t"
  shows "booked t p i m"
proof -
  obtain inst where b: "known_row s i inst" "i_amountMinor inst = m" "i_period inst = p" "repaid_in s (i_loanId inst) p"
    using assms(1) by (auto simp: booked_def)
  obtain inst' where "known_row t i inst'" "row_moves inst inst'" using known_row_grows [OF b(1) assms(2)] by blast
  then show ?thesis using b repaid_grows [OF b(4) assms(2)] by (fastforce simp: booked_def row_moves_def)
qed

lemma due_is_known:
  assumes "x \<in> set (dueFor e period s)"
  obtains inst where "known_row s (li_id x) inst" "li_amountMinor x = i_amountMinor inst" "i_period inst = period"
proof -
  obtain d where d: "d \<in> set (deductionsDueFor e period s)" "li_id x = d_installmentId d" "li_amountMinor x = d_amountMinor d"
    using assms by (auto simp: dueFor_def)
  then obtain r where r: "r \<in> set (chargeableForEmployeePeriod e period s)" "d \<in> set (due_of_row s r)"
    by (auto simp: deductionsDueFor_def)
  have "\<exists>loan. findLoanById (i_loanId r) s = Some loan" "d_installmentId d = i_id r" "d_amountMinor d = i_amountMinor r"
    using r(2) by (cases "findLoanById (i_loanId r) s"; auto simp: due_of_row_def split: if_splits)+
  moreover from this obtain loan where "loan \<in> set (loans s)" "l_id loan = i_loanId r"
    by (auto simp: findLoanById_def findLoan_def dest: find_Some_iff_hd)
  ultimately show ?thesis using that [of r] d r(1) by (force simp: known_row_def chargeableForEmployeePeriod_def)
qed

lemma take_due_rows:
  assumes "loan_reachable s" "\<forall>row \<in> set rows. \<exists>x \<in> set (dueFor e p s).
      tk_installmentId row = li_id x \<and> tk_amountMinor row = li_amountMinor x"
  shows "\<exists>t n. recordTaken env r k p rows 0 s = (t, Inr n) \<and> loan_grows s t \<and>
    (\<forall>row \<in> set rows. booked t p (tk_installmentId row) (tk_amountMinor row))"
proof -
  have known: "\<exists>inst. known_row s (tk_installmentId row) inst \<and> tk_amountMinor row = i_amountMinor inst \<and> i_period inst = p"
    if "row \<in> set rows" for row
    using assms(2) that by (metis due_is_known)
  moreover have "0 < i_amountMinor inst" if "known_row s i inst" for i inst
    using reachable_ok [OF assms(1)] that by (simp add: known_row_def store_ok_def rows_ok_def)
  ultimately have "\<forall>row \<in> set rows. 0 < tk_amountMinor row \<and> (\<exists>inst. known_row s (tk_installmentId row) inst)" by metis
  then obtain t n where t: "recordTaken env r k p rows 0 s = (t, Inr n)" "loan_grows s t"
    "\<forall>row \<in> set rows. \<forall>inst. known_row s (tk_installmentId row) inst \<longrightarrow> repaid_in t (i_loanId inst) p"
    using recordTaken_known [OF assms(1)] by metis
  have "booked t p (tk_installmentId row) (tk_amountMinor row)" if row: "row \<in> set rows" for row
  proof -
    obtain inst where inst: "known_row s (tk_installmentId row) inst" "tk_amountMinor row = i_amountMinor inst" "i_period inst = p"
      using known [OF row] by blast
    then obtain inst' where "known_row t (tk_installmentId row) inst'" "row_moves inst inst'"
      using known_row_grows [OF _ t(2)] by blast
    then show ?thesis using inst t(3) row by (fastforce simp: booked_def row_moves_def)
  qed
  then show ?thesis using t by blast
qed

interpretation loans: installment_port dueFor "\<lambda>r k p rows. recordTaken env r k p rows 0" loan_reachable loan_grows booked for env
  by unfold_locales (rule booked_grows, assumption, assumption, rule take_due_rows)

lemma effects_computed:
  assumes "effectsForEmployee env w e period = Inr ef"
  obtains input where "computeCompensation (sv_coll env) input = Inr ef"
    "ci_loanInstallments input = dueFor (se_id e) period (pw_loans w)"
  using assms that by (auto simp: effectsForEmployee_def res_bind_Inr Let_def)

text \<open>A loan line whose instalment is in the ledger.\<close>

definition line_recorded :: "loan_store \<Rightarrow> string \<Rightarrow> compensation_line \<Rightarrow> bool" where
  "line_recorded s period l \<longleftrightarrow> (\<exists>i m. ln_sourceAssignmentId l = Some i \<and> ln_amountMinor l = Some m \<and> booked s period i m)"

lemma line_recorded_grows: "line_recorded s period l \<Longrightarrow> loan_grows s t \<Longrightarrow> line_recorded t period l"
  using booked_grows by (auto simp: line_recorded_def)

section \<open>The invariant of the store\<close>

text \<open>The figures of a slip are the figures of its lines, and every line has one, in the currency of the slip.\<close>

definition slip_sound :: "payslip \<Rightarrow> bool" where
  "slip_sound p \<longleftrightarrow> py_totalEarningsMinor p = sum_list (map line_minor (py_earnings p)) \<and>
     py_totalDeductionsMinor p = sum_list (map line_minor (py_deductions p)) \<and>
     py_netMinor p = py_totalEarningsMinor p - py_totalDeductionsMinor p \<and>
     (\<forall>l \<in> set (py_earnings p @ py_deductions p). ln_amountMinor l = Some (line_minor l) \<and> ln_currency l = py_currency p) \<and>
     py_earnings p @ py_deductions p \<noteq> []"

definition slip_recorded :: "loan_store \<Rightarrow> payslip \<Rightarrow> bool" where
  "slip_recorded s p \<longleftrightarrow>
     (\<forall>l \<in> set (py_deductions p). ln_origin l = FromLoanInstallment \<longrightarrow> line_recorded s (py_period p) l)"

definition slip_key :: "payslip \<Rightarrow> oid \<times> oid" where
  "slip_key p = (py_runId p, py_employeeId p)"

definition world_ok :: "payroll_world \<Rightarrow> bool" where
  "world_ok w \<longleftrightarrow> loan_reachable (pw_loans w) \<and> distinct (map slip_key (pw_slips w)) \<and>
     distinct (map py_id (pw_slips w)) \<and>
     (\<forall>p \<in> set (pw_slips w). py_id p < pw_nextSlip w \<and> slip_sound p \<and> slip_recorded (pw_loans w) p)"

definition world_step_ok :: "payroll_world \<Rightarrow> payroll_world \<Rightarrow> bool" where
  "world_step_ok w v \<longleftrightarrow> world_ok v \<and> prefix (pw_slips w) (pw_slips v)"

lemma world_step_refl: "world_ok w \<Longrightarrow> world_step_ok w w"
  by (simp add: world_step_ok_def)

lemma world_step_trans: "world_step_ok w v \<Longrightarrow> world_step_ok v u \<Longrightarrow> world_step_ok w u"
  by (auto simp: world_step_ok_def intro: prefix_order.trans)

lemma slip_recorded_grows: "slip_recorded s p \<Longrightarrow> loan_grows s t \<Longrightarrow> slip_recorded t p"
  by (auto simp: slip_recorded_def intro: line_recorded_grows)

lemma new_slip_sound:
  assumes "effectsForEmployee env w e period = Inr ef" "skipReasonFor ef = None"
  shows "slip_sound (new_payslip env run d e ef i)"
proof -
  obtain input where c: "computeCompensation (sv_coll env) input = Inr ef" using effects_computed [OF assms(1)] .
  have "\<forall>l \<in> set (ef_earnings ef @ ef_deductions ef). ln_amountMinor l = Some (line_minor l) \<and> ln_currency l = ef_currency ef"
    using result_lines(1) [OF c] line_figure by blast
  moreover have "ef_earnings ef @ ef_deductions ef \<noteq> []" using assms(2) by (auto simp: skipReasonFor_def split: if_splits)
  ultimately show ?thesis using result_totals [OF c] by (simp add: slip_sound_def new_payslip_def)
qed

text \<open>A new slip and what it takes, recorded.\<close>

lemma record_new_slip:
  assumes "loan_reachable (pw_loans w)" "effectsForEmployee env w e (pr_period run) = Inr ef"
    and slip: "slip = new_payslip env run d e ef i"
  obtains t n where "recordTaken (sv_loan env) (py_runId slip) (py_id slip) (py_period slip)
      (taken_of (py_employeeId slip) (py_deductions slip)) 0 (pw_loans w) = (t, Inr n)"
    "loan_grows (pw_loans w) t" "slip_recorded t slip"
proof -
  obtain input where c: "computeCompensation (sv_coll env) input = Inr ef"
    "ci_loanInstallments input = dueFor (se_id e) (pr_period run) (pw_loans w)" using effects_computed [OF assms(2)] .
  have py: "py_deductions slip = ef_deductions ef" "py_period slip = pr_period run" "py_employeeId slip = se_id e"
    by (simp_all add: slip new_payslip_def)
  show ?thesis using loans.take_lines [OF assms(1) c] that by (fastforce simp: py slip_recorded_def line_recorded_def)
qed

lemma no_key: "\<not> has_slip r e w \<Longrightarrow> (r, e) \<notin> slip_key ` set (pw_slips w)"
  by (auto simp: has_slip_def slip_key_def)

lemma issue_one_ok:
  assumes "world_ok w"
  shows "world_step_ok w (fst (issue_one env run d e acc w))"
proof (cases "effectsForEmployee env w e (pr_period run)")
  case (Inl err)
  then show ?thesis using world_step_refl [OF assms]
    by (cases err) (simp_all add: issue_one_def st_bind_def st_gets_def st_return_def st_throw_def)
next
  case (Inr ef)
  show ?thesis
  proof (cases "skipReasonFor ef = None \<and> \<not> has_slip (pr_id run) (se_id e) w")
    case False
    then show ?thesis using world_step_refl [OF assms] Inr
      by (auto simp: issue_one_def st_bind_def st_gets_def st_return_def upsertSlip_def split: option.splits)
  next
    case True
    define slip where "slip = new_payslip env run d e ef (pw_nextSlip w)"
    have reach: "loan_reachable (pw_loans w)" using assms by (simp add: world_ok_def)
    obtain t n where t: "recordTaken (sv_loan env) (py_runId slip) (py_id slip) (py_period slip)
        (taken_of (py_employeeId slip) (py_deductions slip)) 0 (pw_loans w) = (t, Inr n)"
      "loan_grows (pw_loans w) t" "slip_recorded t slip"
      using record_new_slip [OF reach Inr slip_def] .
    define v where "v = w\<lparr>pw_slips := pw_slips w @ [slip], pw_nextSlip := pw_nextSlip w + 1, pw_loans := t\<rparr>"
    have run: "fst (issue_one env run d e acc w) = v"
      using True Inr t(1)
      by (simp add: issue_one_def st_bind_def st_gets_def st_return_def upsertSlip_def recordLoanRepayments_def st_zoom_def
          Let_def slip_def v_def)
    have key: "slip_key slip = (pr_id run, se_id e)" "py_id slip = pw_nextSlip w"
      by (simp_all add: slip_key_def slip_def new_payslip_def)
    have "slip_sound slip" unfolding slip_def using Inr True by (intro new_slip_sound) auto
    then have "world_ok v" using assms t(2,3) no_key [of "pr_id run" "se_id e" w] True key
      by (auto simp: world_ok_def v_def less_Suc_eq loan_grows_def [of "pw_loans w"] intro: slip_recorded_grows)
    then show ?thesis unfolding run by (simp add: world_step_ok_def v_def)
  qed
qed

lemma issue_all_ok: "world_ok w \<Longrightarrow> world_step_ok w (fst (issue_all env run d es acc w))"
proof (induction es arbitrary: acc w)
  case (Cons e es)
  obtain v res where v: "issue_one env run d e acc w = (v, res)" by fastforce
  have step: "world_step_ok w v" using issue_one_ok [OF Cons.prems, of env run d e acc] v by simp
  then have ok: "world_ok v" by (simp add: world_step_ok_def)
  show ?case
  proof (cases res)
    case (Inr acc')
    then show ?thesis using world_step_trans [OF step Cons.IH [OF ok]] by (simp add: st_bind_def v)
  qed (simp add: st_bind_def v step)
qed (simp add: st_return_def world_step_refl)

lemma world_step_log: "world_step_ok w v \<Longrightarrow> world_step_ok w (v\<lparr>pw_log := l\<rparr>)"
  by (simp add: world_step_ok_def world_ok_def)

lemma generateFor_ok:
  assumes "world_ok w"
  shows "world_step_ok w (fst (generateFor env runId w))"
proof -
  have "kept (world_step_ok w) (issue_all env run d es acc) w" for run d es acc
    using issue_all_ok [OF assms, of env run d es acc] by (cases "issue_all env run d es acc w") (simp add: kept_def st_wp_def)
  then have "kept (world_step_ok w) (generateFor env runId) w"
    unfolding generateFor_def Let_def log_pass_def
    by (intro kept_bind_gets kept_bind_lift kept_bind_ensure kept_bind [where W = "world_step_ok w"] kept_bind_modify kept_return
        world_step_refl [OF assms] world_step_log)
  then show ?thesis by (cases "generateFor env runId w") (auto dest: keptD)
qed

lemma world_step_preserved: "world_ok w \<Longrightarrow> world_step_ok w (world_step ev w)"
proof (cases ev)
  case (OnLoans env opn)
  assume ok: "world_ok w"
  show ?thesis
  proof (cases "loan_request opn")
    case True
    then have "valid_loan_op opn" by (cases opn) auto
    then have grows: "loan_grows (pw_loans w) (fst (run_loan_op env opn (pw_loans w)))"
      using ok by (intro request_grows) (simp_all add: world_ok_def)
    then have "loan_reachable (fst (run_loan_op env opn (pw_loans w)))" by (simp add: loan_grows_def)
    then show ?thesis using ok slip_recorded_grows [OF _ grows] True by (auto simp: OnLoans world_step_ok_def world_ok_def)
  qed (simp add: OnLoans world_step_refl [OF ok])
qed (simp_all add: generateFor_ok, simp_all add: world_step_ok_def world_ok_def)

interpretation world: step_system world_step world_ok world_step_ok
  by unfold_locales (auto simp: world_step_refl world_step_preserved intro: world_step_trans, simp add: world_step_ok_def)

lemma world_ok_empty: "world_ok empty_world"
  by (simp add: world_ok_def empty_world_def loan_reachable.init)

lemma world_reached: "world_ok (world_history evs empty_world)"
  unfolding world_history_def by (rule world.reached [OF world_ok_empty])

section \<open>A pass over slips that are there\<close>

lemma issue_one_existing:
  assumes "has_slip (pr_id run) (se_id e) w"
  shows "fst (issue_one env run d e acc w) = w \<and> (\<forall>res. snd (issue_one env run d e acc w) = Inr res \<longrightarrow>
    ps_created res = ps_created acc \<and> ps_repaid res = ps_repaid acc)"
proof (cases "effectsForEmployee env w e (pr_period run)")
  case (Inl err)
  then show ?thesis
    by (cases err) (simp_all add: issue_one_def st_bind_def st_gets_def st_return_def st_throw_def skip_employee_def)
next
  case (Inr ef)
  then show ?thesis using assms
    by (cases "skipReasonFor ef")
      (simp_all add: issue_one_def st_bind_def st_gets_def st_return_def upsertSlip_def skip_employee_def)
qed

lemma issue_all_existing:
  "\<forall>e \<in> set es. has_slip (pr_id run) (se_id e) w \<Longrightarrow>
     fst (issue_all env run d es acc w) = w \<and>
     (\<forall>res. snd (issue_all env run d es acc w) = Inr res \<longrightarrow> ps_created res = ps_created acc \<and> ps_repaid res = ps_repaid acc)"
proof (induction es arbitrary: acc)
  case (Cons e es)
  obtain v r where v: "issue_one env run d e acc w = (v, r)" by fastforce
  have one: "v = w" "\<And>res. r = Inr res \<Longrightarrow> ps_created res = ps_created acc \<and> ps_repaid res = ps_repaid acc"
    using issue_one_existing [of run e w env d acc] Cons.prems v by simp_all
  show ?case
  proof (cases r)
    case (Inr acc')
    have acc: "ps_created acc' = ps_created acc" "ps_repaid acc' = ps_repaid acc" using one(2) [OF Inr] by simp_all
    have "\<forall>e \<in> set es. has_slip (pr_id run) (se_id e) w" using Cons.prems by simp
    note rest = Cons.IH [OF this, of acc', unfolded acc]
    have same: "issue_all env run d (e # es) acc w = issue_all env run d es acc' w" by (simp add: st_bind_def v one(1) Inr)
    show ?thesis unfolding same by (rule rest)
  qed (simp add: st_bind_def v one(1))
qed (simp add: st_return_def)

section \<open>Stamps\<close>

text \<open>A history of moves, each leaving the department the one before entered.\<close>

fun move_chain :: "oid option \<Rightarrow> department_move list \<Rightarrow> oid option \<Rightarrow> bool" where
  "move_chain v [] w \<longleftrightarrow> v = w"
| "move_chain v (m # ms) w \<longleftrightarrow> dm_from m = v \<and> move_chain (dm_to m) ms w"

definition department_on :: "oid option \<Rightarrow> department_move list \<Rightarrow> instant \<Rightarrow> oid option" where
  "department_on v ms asked = fold (\<lambda>m _. dm_to m) (filter (\<lambda>m. move_day m \<le> toDateOnly asked) ms) v"

lemma last_in_force_fold:
  assumes "sorted (map move_day ms)"
  shows "case_option v dm_to (last_in_force on found ms) =
    fold (\<lambda>m _. dm_to m) (filter (\<lambda>m. move_day m \<le> on) ms) (case_option v dm_to found)"
  using assms
proof (induction ms arbitrary: found)
  case (Cons m ms)
  have "filter (\<lambda>m. move_day m \<le> on) ms = []" if "\<not> move_day m \<le> on"
    using Cons.prems that by (force simp: filter_empty_conv)
  then show ?case using Cons by simp
qed simp

lemma last_in_force_found: "last_in_force on found ms = Some m \<Longrightarrow> m \<in> set ms \<or> found = Some m"
  by (induction ms arbitrary: found) (auto split: if_splits)

lemma departmentAt_replays:
  assumes "move_chain v hist current" "sorted (map move_day hist)" "v \<noteq> None" "\<forall>m \<in> set hist. dm_to m \<noteq> None"
  shows "departmentAt hist asked current = department_on v hist asked"
proof (cases hist)
  case (Cons m ms)
  have sorted: "sort_key move_day hist = hist" using assms(2) by (rule sort_key_id_if_sorted)
  show ?thesis
  proof (cases "last_in_force (toDateOnly asked) None hist")
    case None
    then show ?thesis using last_in_force_fold [OF assms(2), of v "toDateOnly asked" None] assms(1,3) sorted Cons
      by (auto simp: departmentAt_def department_on_def)
  next
    case (Some x)
    then have "dm_to x \<noteq> None" using last_in_force_found [OF Some] assms(4) by auto
    then show ?thesis using last_in_force_fold [OF assms(2), of v "toDateOnly asked" None] Some sorted Cons
      by (auto simp: departmentAt_def department_on_def)
  qed
qed (use assms in \<open>simp add: departmentAt_def department_on_def\<close>)

text \<open>An employee who had no department before the first recorded move: the days before it get the department of
  today, which is what the rule says must not happen.\<close>

lemma unplaced_employee_gets_todays_department:
  assumes "dm_from m = None" "toDateOnly asked < move_day m"
  shows "departmentAt [m] asked (dm_to m) = dm_to m \<and> department_on None [m] asked = None"
  using assms by (simp add: departmentAt_def department_on_def)

section \<open>A month deducted twice\<close>

text \<open>January's instalment of a loan of 400 is taken by a payslip; the run is cancelled, so January is open again,
  and the three instalments that are left are rescheduled to start in January.\<close>

definition demo_january :: loan_store where
  "demo_january = fst (run_loan_op (demo_env 12 []) (OpDeducted (demo_paid 101 ''2024-01'' 10000)) demo_active)"

definition demo_doubled :: loan_store where
  "demo_doubled = fst (run_loan_op (demo_env 12 []) (OpReschedule 7 100 3 ''2024-01'' ''sooner'' 3) demo_january)"

lemma demo_january_reachable: "loan_reachable demo_january"
  using run_all_reachable [OF demo_active_reachable, of "[(demo_env 12 [], OpDeducted (demo_paid 101 ''2024-01'' 10000))]"]
  by (simp add: demo_january_def demo_paid_def del: run_loan_op.simps)

lemma demo_january_run:
  "installments demo_january = (demo_row 101 1 ''2024-01'' 10000)\<lparr>i_status := InstDeducted, i_version := 1\<rparr> # tl (installments demo_active)"
  "loans demo_january = loans demo_active" "repaidMinor 100 demo_january = 10000" "next_oid demo_january = 106"
  "map (\<lambda>r. (r_loanId r, r_period r)) (repayments demo_january) = [(100, ''2024-01'')]"
  by (simp_all add: demo_january_def loan_run deduct_run demo_minor demo_row_def demo_active_def demo_loan_def)

lemma demo_three: "generateSchedule 30000 3 ''2024-01'' =
    Inr [\<lparr>si_seq = 1, si_period = ''2024-01'', si_amountMinor = 10000\<rparr>,
         \<lparr>si_seq = 2, si_period = ''2024-02'', si_amountMinor = 10000\<rparr>,
         \<lparr>si_seq = 3, si_period = ''2024-03'', si_amountMinor = 10000\<rparr>]"
proof -
  have "periodsFrom ''2024-01'' 3 = Inr [''2024-01'', ''2024-02'', ''2024-03'']" by (simp add: period_run)
  then show ?thesis by (simp add: generateSchedule_def)
qed

lemma demo_within_3: "assertWithinEmployment demo_employee [''2024-01'', ''2024-02'', ''2024-03''] = Inr ()"
  by (simp add: within_run)

lemma demo_doubled_run:
  "snd (run_loan_op (demo_env 12 []) (OpReschedule 7 100 3 ''2024-01'' ''sooner'' 3) demo_january) = Inr ()"
  "installments demo_doubled = (demo_row 101 1 ''2024-01'' 10000)\<lparr>i_status := InstDeducted, i_version := 1\<rparr> #
     map demo_cancelled (tl (installments demo_active)) @
     [demo_row 106 5 ''2024-01'' 10000, demo_row 107 6 ''2024-02'' 10000, demo_row 108 7 ''2024-03'' 10000]"
  "loans demo_doubled = [hd (loans demo_active) \<lparr>l_version := 4\<rparr>]" "repayments demo_doubled = repayments demo_january"
  by (simp_all add: demo_doubled_def loan_run rewrite_run demo_january_run demo_active_def demo_loan_def
    demo_row_def demo_cancelled_def demo_three demo_within_3)

section \<open>Properties\<close>

text \<open>C1. Over every history of the parts of payroll, an employee has at most one payslip of a run, no two payslips
  share an id, and the figures of a payslip are the figures of its lines: each total is the sum of the minor units
  of the lines of its side, the net is their difference, every line has a figure and is in the currency of the
  slip, and there is at least one line.\<close>

theorem payslips_are_sound:
  "list_all slip_sound (pw_slips (world_history evs empty_world)) \<and>
   distinct (map slip_key (pw_slips (world_history evs empty_world))) \<and>
   distinct (map py_id (pw_slips (world_history evs empty_world)))"
  using world_reached [of evs] by (simp add: world_ok_def list_all_iff)

text \<open>C13. An issued payslip is never rewritten or withdrawn: whatever happens afterwards to the run, the pay items,
  the adjustments, the loans or the employee, and however often the run is issued again, the slips there were stay
  as they were, in their order, and new ones come after them.\<close>

theorem payslip_never_rewritten:
  "prefix (pw_slips (world_history earlier empty_world)) (pw_slips (world_history (earlier @ later) empty_world))"
  using world.later [OF world_ok_empty, of earlier later] by (simp add: world_history_def world_step_ok_def)


text \<open>C21. A pass over a run whose employees all have their payslip writes nothing but its own audit record: no slip,
  no repayment, no change of any loan. It follows that a repayment whose recording was interrupted after the slip
  was written is not recorded by running the pass again.\<close>

theorem reissue_writes_nothing:
  assumes "findRun runId (pw_runs w) = Some run" "periodRange (pr_period run) = Inr window"
    and "\<forall>e \<in> set (batch_population env window). has_slip runId (se_id e) w"
  shows "(\<exists>log. fst (generateFor env runId w) = w\<lparr>pw_log := log\<rparr>) \<and>
    (case snd (generateFor env runId w) of Inl _ \<Rightarrow> True | Inr (n, res) \<Rightarrow> ps_created res = 0 \<and> ps_repaid res = 0)"
proof -
  have i: "pr_id run = runId" using assms(1) by (auto simp: findRun_def dest: find_Some_iff_hd)
  let ?zero = "\<lparr>ps_created = 0, ps_existing = 0, ps_skipped = [], ps_repaid = 0\<rparr>"
  obtain v r where v: "issue_all env run (snd window) (batch_population env window) ?zero w = (v, r)" by fastforce
  have same: "v = w" "\<forall>res. r = Inr res \<longrightarrow> ps_created res = 0 \<and> ps_repaid res = 0"
    using issue_all_existing [of "batch_population env window" run w env "snd window" ?zero] assms(3) i v by auto
  have logs: "\<exists>log. w = w\<lparr>pw_log := log\<rparr>" by (rule exI [of _ "pw_log w"]) simp
  show ?thesis using assms(1,2) v same logs
    by (cases r) (auto simp: generateFor_def st_bind_def st_gets_def st_lift_def st_ensure_def st_return_def log_pass_def
        st_modify_def Let_def)
qed

text \<open>C30. A counterexample to "a payslip deducts what the ledger then holds": after January's instalment was taken and
  January's run cancelled, the rest of the loan may be rescheduled into January again. The next payslip of January
  then deducts both instalments, 100 and 100, while the ledger, which holds one repayment of a loan for a month,
  records neither a second time: 200 were deducted and 100 are counted.\<close>

theorem reschedule_deducts_a_month_twice:
  "\<exists>s t. loan_reachable s \<and>
     run_loan_op (demo_env 12 []) (OpReschedule 7 100 3 ''2024-01'' ''sooner'' 3) s = (t, Inr ()) \<and>
     map (\<lambda>x. (li_id x, li_amountMinor x)) (dueFor 7 ''2024-01'' t) = [(101, 10000), (106, 10000)] \<and>
     recordTaken (demo_env 12 []) 51 61 ''2024-01''
       [\<lparr>tk_installmentId = 101, tk_employeeId = 7, tk_amountMinor = 10000\<rparr>,
        \<lparr>tk_installmentId = 106, tk_employeeId = 7, tk_amountMinor = 10000\<rparr>] 0 t = (t, Inr 0) \<and>
     repaidMinor 100 t = 10000"
proof -
  let ?op = "OpReschedule 7 100 3 ''2024-01'' ''sooner'' 3"
  have run: "run_loan_op (demo_env 12 []) ?op demo_january = (demo_doubled, Inr ())"
    using demo_doubled_run(1) by (intro prod_eqI) (simp_all add: demo_doubled_def del: run_loan_op.simps)
  have due: "map (\<lambda>x. (li_id x, li_amountMinor x)) (dueFor 7 ''2024-01'' demo_doubled) = [(101, 10000), (106, 10000)]"
    by (simp add: dueFor_def deductionsDueFor_def chargeableForEmployeePeriod_def due_of_row_def findLoanById_def findLoan_def
        demo_doubled_run demo_active_def demo_loan_def demo_row_def demo_cancelled_def)
  have again: "recordDeducted (demo_env 12 []) (receipt_of 51 61 ''2024-01'' row) demo_doubled = (demo_doubled, Inr False)"
    if "tk_installmentId row \<in> {101, 106}" for row
  proof (rule recordDeducted_again)
    fix inst assume "List.find (\<lambda>r. i_id r = p_installmentId (receipt_of 51 61 ''2024-01'' row)) (installments demo_doubled) = Some inst"
    then have "i_loanId inst = 100"
      using that by (auto simp: demo_doubled_run receipt_of_def demo_row_def demo_active_def demo_cancelled_def split: if_splits)
    moreover have "(100, ''2024-01'') \<in> set (map (\<lambda>r. (r_loanId r, r_period r)) (repayments demo_doubled))"
      using demo_january_run(5) demo_doubled_run(4) by simp
    ultimately show "findLoanById (i_loanId inst) demo_doubled = None \<or> (\<exists>r \<in> set (repayments demo_doubled).
        r_loanId r = i_loanId inst \<and> r_period r = p_period (receipt_of 51 61 ''2024-01'' row))"
      by (auto simp: receipt_of_def)
  qed
  have "repaidMinor 100 demo_doubled = 10000" using demo_january_run(3) demo_doubled_run(4) by (simp add: repaidMinor_def)
  then show ?thesis using run due demo_january_reachable
    by (intro exI [of _ demo_january] exI [of _ demo_doubled]) (simp add: again st_bind_def st_return_def del: run_loan_op.simps)
qed

section \<open>Witnesses\<close>

definition demo_slip_employee :: payslip_employee where
  "demo_slip_employee = \<lparr>se_id = 7, se_code = ''E7'', se_fullNameAr = [], se_fullNameEn = None, se_jobTitleId = 3,
     se_dates = \<lparr>hiredAt = day_of 20454, exitDate = None, employmentPeriods = []\<rparr>, se_salary = None,
     se_hasAllowances = False, se_branchId = None, se_departmentId = None\<rparr>"

definition demo_slip_env :: payslip_env where
  "demo_slip_env = \<lparr>sv_loan = demo_env 12 [], sv_user = 1, sv_now = day_of 20520, sv_employees = [demo_slip_employee],
     sv_salaryLog = (\<lambda>_. []), sv_moves = (\<lambda>_. []), sv_memberships = [], sv_jobTitle = (\<lambda>_. None), sv_coll = plain_collation\<rparr>"

definition demo_frozen_run :: payroll_run where
  "demo_frozen_run = \<lparr>pr_id = 5, pr_period = ''2026-02'', pr_status = RunFrozen, pr_frozenAt = Some (day_of 20515),
     pr_frozenBy = Some 1, pr_attendanceFrozenRows = 0, pr_attendanceComputedRows = 0, pr_leaveSnapshotRows = 0,
     pr_approvedAt = None, pr_approvedBy = None, pr_approvalNote = None, pr_paidAt = None, pr_paidBy = None,
     pr_paidOn = None, pr_paymentReference = None, pr_closedAt = None, pr_closedBy = None,
     pr_cancelledAt = None, pr_cancelledBy = None, pr_cancelReason = None, pr_note = None,
     pr_version = 1, pr_isDeleted = False, pr_createdBy = 1, pr_updatedBy = 1, pr_updatedAt = day_of 20515\<rparr>"

definition demo_issued :: payroll_world where
  "demo_issued = empty_world\<lparr>pw_runs := empty_runs\<lparr>rs_runs := [demo_frozen_run]\<rparr>, pw_loans := demo_active,
     pw_slips := [\<lparr>py_id = 1, py_runId = 5, py_period = ''2026-02'', py_employeeId = 7,
       py_employee = identityOf demo_slip_env demo_slip_employee, py_currency = ''EGP'', py_basicSalary = Finite False 400 [],
       py_employmentDaysInPeriod = 28, py_daysInPeriod = 28, py_earnings = [], py_deductions = [], py_leave = None,
       py_totalEarningsMinor = 0, py_totalDeductionsMinor = 0, py_netMinor = 0, py_warnings = [], py_issuedAt = day_of 20516,
       py_issuedBy = 1, py_branchId = None, py_departmentId = None, py_costCenterId = None\<rparr>], pw_nextSlip := 2\<rparr>"

theorem reissue_writes_nothing_witness:
  "\<exists>log. fst (generateFor demo_slip_env 5 demo_issued) = demo_issued\<lparr>pw_log := log\<rparr>"
  using reissue_writes_nothing [of 5 demo_issued demo_frozen_run "(day_of 20485, day_of 20512)" demo_slip_env] february(1)
  by (simp add: findRun_def demo_issued_def demo_frozen_run_def batch_population_def demo_slip_env_def has_slip_def
      demo_slip_employee_def empty_world_def)

end
