(* ===== verification/Spec2Isabelle.thy ===== *)
theory Spec2Isabelle
  imports Approval_Access Custody_Refusals Payslip_Claims
begin

text \<open>
  The business rules of ECMS, the enterprise core of a cash-in-transit company, as far as they decide about money
  and about who may decide. Paths are below \<open>src/apps/api/src/\<close> unless they begin with \<open>packages/\<close>.

  \<^bold>\<open>The program.\<close> A server of services over document collections. Each service has a repository (its queries), a
  model (its document and unique indexes), pure rule files, and handlers that check, write, log and notify. The
  parts modelled here are payroll with what feeds it (\<open>modules/hr\<close>), the approval engine (\<open>platform/approvals\<close>), and
  the custody fund of the fleet (\<open>modules/fleet/custody\<close> and the screens that move it). They meet as follows.

  \<^item> Attendance derives a day from punches, shift and leave, stores it and freezes months; payroll reads only frozen
    months (the feed).
  \<^item> A payroll run freezes attendance, pins the leave of the month, and is approved by a second person. While it is
    frozen its month is closed to pay items, bonuses, penalties and loan schedules.
  \<^item> Issuing the payslips of a run computes every employee's compensation from assignments, frozen attendance,
    pinned leave, the salary of the day, approved adjustments and due loan instalments; writes one slip; and tells
    the loan service what it took.
  \<^item> The approval engine decides rung by rung along a chain; who stands on a rung is looked up in grants,
    assignments and delegations.
  \<^item> The custody fund is charged, spent by receipts gathered in memos, replenished by letters over memos, and
    settled; licensing records and fuel cards take part.

  \<^bold>\<open>Theories.\<close>

  \<^item> \<open>Ecms_Prelude\<close>: typed errors (\<open>shared/errors/index.ts\<close>), the state-and-error handlers \<open>st\<close> with weakest
    preconditions (\<open>st_wp\<close>, the collection \<open>wp\<close>) and preservation (\<open>kept\<close>), decimal strings, and the locale
    \<open>step_system\<close> (a request keeps the invariant and moves the store lawfully, so a history does), interpreted for
    pay items, adjustments, runs and the whole of payroll.
  \<^item> \<open>Js_Number\<close>: doubles. \<open>Business_Date\<close>: \<open>hr/shared/business-date.ts\<close>, \<open>compensation/employment-spans.ts\<close>.
    \<open>Payroll_Period\<close>, \<open>Payroll_Money\<close> (\<open>packages/contracts/src/modules/hr-payroll-money.ts\<close>): months and minor units.
  \<^item> Loans (\<open>hr/employee-loans\<close>): \<open>Loan_Schedule\<close> (\<open>loan-schedule.ts\<close>), \<open>Employee_Loans\<close> (the service, every handler that
    writes), \<open>Loan_Ledger\<close> (the abstract event system \<open>loan_write\<close> every handler refines, and the invariants, proved on
    events), \<open>Loan_Claims\<close> (properties; the locale \<open>event_relation\<close> carries a relation of events over to requests and is
    interpreted for five histories).
  \<^item> Approvals: \<open>Approval_Chain\<close> (\<open>approval-chain.ts\<close>, \<open>approval-trail.ts\<close>), \<open>Approval_Access\<close> (\<open>approver-level.ts\<close>,
    \<open>approver-lookup.ts\<close>, \<open>approval.service.ts\<close>; the locale \<open>approver_directory\<close> is what deciding needs of the lookups).
  \<^item> Custody: \<open>Custody_Data\<close>, \<open>Custody_Ledger\<close> (\<open>custody-ledger.ts\<close>), \<open>Custody_Fund\<close> (\<open>custody-fund.ts\<close>,
    \<open>custody-memo-totals.ts\<close>, \<open>unit-of-work.ts\<close>), \<open>Custody_Memos\<close>, \<open>Custody_Operations\<close>, \<open>Custody_Receipts\<close> (the handlers),
    \<open>Custody_System\<close> (the requests and the specification \<open>fleet_event\<close>), \<open>Custody_Events\<close>, \<open>Custody_Handlers\<close>,
    \<open>Custody_Screens\<close>, \<open>Custody_Receipt_Screen\<close> (each handler is one event), \<open>Custody_Links\<close>, \<open>Custody_Takes\<close>,
    \<open>Custody_Settlements\<close>, \<open>Custody_Invariants\<close> (each event keeps each invariant), \<open>Custody_Claims\<close>, \<open>Custody_Refusals\<close>.
  \<^item> Attendance (\<open>hr/attendance\<close>): \<open>Attendance_Derivation\<close> (\<open>derive-day.ts\<close>, the shift of a date), \<open>Attendance_Days\<close>
    (\<open>day-record.service.ts\<close>, \<open>attendance-feed.ts\<close>, \<open>overtime.service.ts\<close>), \<open>Attendance_Claims\<close>.
  \<^item> Calculation (\<open>hr/payroll/compensation\<close>): \<open>Attendance_Quantities\<close>, \<open>Leave_Pay\<close>, \<open>Salary_History\<close>,
    \<open>Compensation_Rules\<close> and \<open>Compensation\<close> (\<open>compensation-rules.ts\<close>), \<open>Compensation_Claims\<close>.
  \<^item> Runs (\<open>hr/payroll/runs\<close>): \<open>Leave_Allocation\<close>, \<open>Payroll_Runs\<close>, \<open>Payroll_Run_Claims\<close>.
  \<^item> What is paid besides the salary: \<open>Pay_Items\<close>, \<open>Pay_Item_Claims\<close> (catalog, assignments, the frozen-period guard),
    \<open>Payroll_Adjustments\<close>, \<open>Payroll_Adjustment_Claims\<close> (bonuses, penalties, distributions).
  \<^item> \<open>Payslips\<close>, \<open>Payslip_Claims\<close>: \<open>payslip.service.ts\<close>, \<open>compensation.service.ts\<close>, the loan port, and the store that joins
    the parts of payroll; the locale \<open>installment_port\<close> is what issuing needs of the loans.

  \<^bold>\<open>How code becomes definitions.\<close> A document is a record, an enum a datatype, \<open>null\<close> and absent fields \<open>None\<close>; an object
  id is a natural number from a counter of the store; a collection is the list of its documents in insertion order,
  which is the order an unsorted query answers in. A handler is a function from the store to the store and an error
  or a result: every check, early return and \<open>throw\<close> is a branch, with a short tag in place of the message. Writes made
  before a refusal stay, as in the code, except inside \<open>unitOfWork\<close>, which takes them back. Unique indexes are part of
  the writes. Optimistic versions are kept and compared. What a service is handed and never writes (caller, clock,
  scoped lookups, settings, the registers of other modules) is a record, its environment, and a property holds for
  every environment, another one with each request.

  \<^bold>\<open>What the lemmas show.\<close> First the pure rules (schedules, periods, minor units, derivation of a day, allocation of
  leave, the calculation, the ledger of the fund): totals conserve, bounds, agreement with a reference definition,
  independence of order. Then for each store an invariant and that every handler keeps it, over all histories of
  requests: one live loan, one run per month, one row per employee and day, one amount of an item per day, one
  payslip per run; two people behind every loan, run and adjustment; what is frozen, approved, issued, printed or
  settled stays. The custody screens refine an event specification; loans refine one too. Across parts: what a
  payslip takes is in the loan ledger, a frozen month pays the same whatever is requested, a leave pinned stays
  pinned. Eight theorems state situations in which the code does not do what it means to; each is a concrete or
  conditional counterexample and is listed with the findings.

  \<^bold>\<open>Bounds.\<close> Recursion is structural or has a proved measure; no fuel is used, and no definition is partial. Doubles are
  the rationals they denote, every operation rounded to 53 bits, with no bound on the exponent; amounts of money are
  far from overflow. \<open>piastre_bound\<close> (10 to the 15th) bounds the sums of a letter where its rounding is concerned; money
  conversions refuse amounts above \<open>MONEY_MAX_AMOUNT\<close> as the code does. Periods are strings \<open>YYYY-MM\<close>; where the order of
  strings must be the order of months the years are those of four digits, and this is a hypothesis where it matters.

  \<^bold>\<open>Parameters.\<close> The offset of Cairo from UTC (time-zone database), the collation keys of strings (\<open>localeCompare\<close>), and
  lookups of services not modelled are arguments of the definitions.

  \<^bold>\<open>Not modelled.\<close> Handlers run one after the other: races between two requests are not, except that a transaction of the
  custody screens is serialised by its lock document. The database never fails and the process never stops in the
  middle; so a repayment lost between two writes appears only as what a second pass would do. Schema validation
  beyond the refinements the proofs need, list queries, DTOs, audit contents and texts of notifications are left out.
  Outside these parts: the web interface; accounts, files, notifications, scheduler; recruitment, leave requests,
  training, performance, medical and contracts; the ATM, gold, operations and IT modules; the rest of the fleet;
  reports and reconciliation over issued payslips; seeds, imports and scripts. They are screens and registers,
  independent business modules, or input and output whose effect the models take as an argument.
\<close>

end
